(* ===== verification/Prelude.thy ===== *)
theory Prelude
  imports Main "HOL-Library.Sublist"
begin

text \<open>
  Shared notions of the development: the result types in which a Go function's
  \<open>(value, error)\<close> pair is modelled, the combinators that sequence them, the named
  collections the component theories extend, and generic facts on lists that more than one
  component needs.

  A Go function that returns \<open>(T, error)\<close> is modelled by a value of \<open>'e + 'a\<close>: \<open>Inl e\<close> when
  the error is not nil, \<open>Inr x\<close> when it is nil.  A method that also changes its receiver
  returns the pair of that result and the new receiver, on error paths too, since a Go method
  that fails may already have written to its receiver.
\<close>

named_theorems go_string_simps \<open>rewriting the string operations of the Go standard library\<close>
named_theorems store_defs \<open>definitions of the document store operations\<close>
named_theorems store_inv_intros \<open>preservation of the document store invariant, one rule per operation\<close>
named_theorems status_simps \<open>evaluation of the document status predicates\<close>

section \<open>Results\<close>

definition is_ok :: "'e + 'a \<Rightarrow> bool" where
  "is_ok r = (case r of Inl _ \<Rightarrow> False | Inr _ \<Rightarrow> True)"

lemma is_ok_simps [simp]: "\<not> is_ok (Inl e)" "is_ok (Inr x)"
  by (simp_all add: is_ok_def)

lemma is_ok_iff: "is_ok r \<longleftrightarrow> (\<exists>x. r = Inr x)"
  by (cases r) auto

lemma not_is_ok_iff: "\<not> is_ok r \<longleftrightarrow> (\<exists>e. r = Inl e)"
  by (cases r) auto

text \<open>Sequencing of state-changing methods: stop at the first error, keep the state reached.\<close>

definition bind_st :: "('e + 'a) \<times> 's \<Rightarrow> ('a \<Rightarrow> 's \<Rightarrow> ('e + 'b) \<times> 's) \<Rightarrow> ('e + 'b) \<times> 's" where
  "bind_st m k = (case m of (Inl e, s) \<Rightarrow> (Inl e, s) | (Inr x, s) \<Rightarrow> k x s)"

lemma bind_st_simps [simp]:
  "bind_st (Inl e, s) k = (Inl e, s)"
  "bind_st (Inr x, s) k = k x s"
  by (simp_all add: bind_st_def)

lemma bind_st_ok:
  "bind_st m k = (Inr y, t) \<longleftrightarrow> (\<exists>x s. m = (Inr x, s) \<and> k x s = (Inr y, t))"
  by (auto simp: bind_st_def split: prod.splits sum.splits)

section \<open>Lists read and written by index\<close>

text \<open>
  Go indexes slices with \<open>int\<close>, and the code guards each access with
  \<open>i < 0 || i >= len(xs)\<close>.  \<open>in_range\<close> is the negation of that guard.
\<close>

definition in_range :: "int \<Rightarrow> 'a list \<Rightarrow> bool" where
  "in_range i xs \<longleftrightarrow> 0 \<le> i \<and> i < int (length xs)"

lemma in_range_nat: "in_range i xs \<Longrightarrow> nat i < length xs"
  by (auto simp: in_range_def)

lemma in_range_int [simp]: "in_range (int n) xs \<longleftrightarrow> n < length xs"
  by (simp add: in_range_def)

lemma in_range_update [simp]: "in_range i (xs[j := x]) \<longleftrightarrow> in_range i xs"
  by (simp add: in_range_def)

lemma in_range_append: "in_range i xs \<Longrightarrow> in_range i (xs @ ys)"
  by (simp add: in_range_def)

text \<open>Two facts on lists every element of which keeps a property under an update.\<close>

lemma list_all_update:
  "list_all P xs \<Longrightarrow> P x \<Longrightarrow> list_all P (xs[i := x])"
  using set_update_subset_insert [of xs i x] by (auto simp: list_all_iff)

lemma list_all_nth: "list_all P xs \<Longrightarrow> i < length xs \<Longrightarrow> P (xs ! i)"
  by (simp add: list_all_length)

lemma length_filter_update:
  assumes "i < length xs"
  shows "int (length (filter P (xs[i := x])))
       = int (length (filter P xs)) - (if P (xs ! i) then 1 else 0) + (if P x then 1 else 0)"
proof -
  have upd: "xs[i := x] = take i xs @ x # drop (Suc i) xs"
    using assms by (rule upd_conv_take_nth_drop)
  have old: "xs = take i xs @ xs ! i # drop (Suc i) xs"
    using assms by (rule id_take_nth_drop)
  have "length (filter P xs)
      = length (filter P (take i xs)) + (if P (xs ! i) then 1 else 0)
        + length (filter P (drop (Suc i) xs))"
    by (subst old, simp only: filter_append) simp
  then show ?thesis
    by (simp add: upd)
qed

lemma prefix_append_cancel_left: "prefix (xs @ ys) (xs @ zs) \<longleftrightarrow> prefix ys zs"
  by (simp add: prefix_def)

text \<open>Two prefixes of one list are comparable; a separator that occurs in neither of the two
  fields makes them equal.\<close>

lemma append_sep_eq:
  assumes "xs @ [c] @ us = ys @ [c] @ vs" "c \<notin> set xs" "c \<notin> set ys"
  shows "xs = ys \<and> us = vs"
  using assms
proof (induction xs arbitrary: ys)
  case Nil
  then show ?case by (cases ys) auto
next
  case (Cons x xs)
  then show ?case by (cases ys) auto
qed

lemma filter_map_append_cong:
  "(\<And>x. x \<in> set xs \<Longrightarrow> f x = g x) \<Longrightarrow> (\<And>x. x \<in> set xs \<Longrightarrow> P x = Q x)
    \<Longrightarrow> map f (filter P xs) = map g (filter Q xs)"
  by (induction xs) auto

end
