(* ===== verification/DocStatus.thy ===== *)
theory DocStatus
  imports Prelude
begin

text \<open>
  The document status of \<^verbatim>\<open>internal/documents/model.go\<close> and its transition table.
  \<open>DocumentStatus\<close> is a Go string type with seven named constants; any other string (a status
  filter of a query can be one) is \<open>StatusUnknown\<close>.  \<open>status_string\<close> and \<open>status_of_string\<close>
  convert, and the lemmas about the table say where a document can go: which states
  it can be archived from, that a deletion is final but for \<open>Restore\<close>, and which states can be
  queued again.
\<close>

section \<open>Statuses\<close>

datatype DocumentStatus =
    StatusQueued
  | StatusResolving
  | StatusDownloading
  | StatusArchived
  | StatusFailed
  | StatusDeleted
  | StatusPurged
  | StatusUnknown string

fun status_string :: "DocumentStatus \<Rightarrow> string" where
  "status_string StatusQueued = ''queued''"
| "status_string StatusResolving = ''resolving''"
| "status_string StatusDownloading = ''downloading''"
| "status_string StatusArchived = ''archived''"
| "status_string StatusFailed = ''failed''"
| "status_string StatusDeleted = ''deleted''"
| "status_string StatusPurged = ''purged''"
| "status_string (StatusUnknown s) = s"

definition status_of_string :: "string \<Rightarrow> DocumentStatus" where
  "status_of_string s =
     (if s = ''queued'' then StatusQueued
      else if s = ''resolving'' then StatusResolving
      else if s = ''downloading'' then StatusDownloading
      else if s = ''archived'' then StatusArchived
      else if s = ''failed'' then StatusFailed
      else if s = ''deleted'' then StatusDeleted
      else if s = ''purged'' then StatusPurged
      else StatusUnknown s)"

fun isKnownDocumentStatus :: "DocumentStatus \<Rightarrow> bool" where
  "isKnownDocumentStatus StatusQueued = True"
| "isKnownDocumentStatus StatusResolving = True"
| "isKnownDocumentStatus StatusDownloading = True"
| "isKnownDocumentStatus StatusArchived = True"
| "isKnownDocumentStatus StatusFailed = True"
| "isKnownDocumentStatus StatusDeleted = True"
| "isKnownDocumentStatus StatusPurged = True"
| "isKnownDocumentStatus (StatusUnknown s) = False"

fun isVisibleDocumentStatus :: "DocumentStatus \<Rightarrow> bool" where
  "isVisibleDocumentStatus StatusQueued = True"
| "isVisibleDocumentStatus StatusResolving = True"
| "isVisibleDocumentStatus StatusDownloading = True"
| "isVisibleDocumentStatus StatusArchived = True"
| "isVisibleDocumentStatus StatusFailed = True"
| "isVisibleDocumentStatus _ = False"

definition canTransitionDocumentStatus :: "DocumentStatus \<Rightarrow> DocumentStatus \<Rightarrow> bool" where
  "canTransitionDocumentStatus from' to =
     (if \<not> isKnownDocumentStatus from' \<or> \<not> isKnownDocumentStatus to then False
      else if from' = to then True
      else case from' of
             StatusQueued \<Rightarrow> to = StatusResolving \<or> to = StatusFailed \<or> to = StatusDeleted
           | StatusResolving \<Rightarrow>
               to = StatusDownloading \<or> to = StatusArchived \<or> to = StatusFailed \<or> to = StatusDeleted
           | StatusDownloading \<Rightarrow> to = StatusArchived \<or> to = StatusFailed \<or> to = StatusDeleted
           | StatusArchived \<Rightarrow> to = StatusQueued \<or> to = StatusDeleted
           | StatusFailed \<Rightarrow> to = StatusQueued \<or> to = StatusDeleted
           | StatusDeleted \<Rightarrow> to = StatusPurged
           | StatusPurged \<Rightarrow> False
           | StatusUnknown s \<Rightarrow> False)"

lemma status_of_string_string [simp]:
  "isKnownDocumentStatus st \<Longrightarrow> status_of_string (status_string st) = st"
  by (cases st) (simp_all add: status_of_string_def)

lemma status_string_of_string [simp]: "status_string (status_of_string s) = s"
  by (simp add: status_of_string_def)

lemma status_string_inject:
  "isKnownDocumentStatus a \<Longrightarrow> isKnownDocumentStatus b \<Longrightarrow> status_string a = status_string b \<longleftrightarrow> a = b"
  by (metis status_of_string_string)

lemma visible_known [status_simps]: "isVisibleDocumentStatus st \<Longrightarrow> isKnownDocumentStatus st"
  by (cases st) simp_all

lemma canTransition_simps [status_simps]:
  "canTransitionDocumentStatus StatusDeleted to \<longleftrightarrow> to = StatusDeleted \<or> to = StatusPurged"
  "canTransitionDocumentStatus StatusPurged to \<longleftrightarrow> to = StatusPurged"
  "canTransitionDocumentStatus from' StatusPurged \<longleftrightarrow> from' = StatusDeleted \<or> from' = StatusPurged"
  "canTransitionDocumentStatus from' StatusQueued \<longleftrightarrow>
     from' = StatusQueued \<or> from' = StatusArchived \<or> from' = StatusFailed"
  "canTransitionDocumentStatus from' StatusResolving \<longleftrightarrow>
     from' = StatusQueued \<or> from' = StatusResolving"
  "canTransitionDocumentStatus from' StatusDownloading \<longleftrightarrow>
     from' = StatusResolving \<or> from' = StatusDownloading"
  "canTransitionDocumentStatus from' StatusArchived \<longleftrightarrow>
     from' = StatusResolving \<or> from' = StatusDownloading \<or> from' = StatusArchived"
  "canTransitionDocumentStatus from' StatusFailed \<longleftrightarrow>
     from' = StatusQueued \<or> from' = StatusResolving \<or> from' = StatusDownloading
     \<or> from' = StatusFailed"
  "canTransitionDocumentStatus from' StatusDeleted \<longleftrightarrow>
     isVisibleDocumentStatus from' \<or> from' = StatusDeleted"
  by (cases from'; cases to; simp add: canTransitionDocumentStatus_def)+

lemma canTransition_known:
  "canTransitionDocumentStatus from' to \<Longrightarrow> isKnownDocumentStatus from' \<and> isKnownDocumentStatus to"
  by (simp add: canTransitionDocumentStatus_def split: if_splits)

section \<open>The life cycle\<close>

text \<open>
  The moves of a document's status: the transitions of the table, and \<open>Restore\<close>, which the
  stores perform without consulting the table.
\<close>

inductive status_move :: "DocumentStatus \<Rightarrow> DocumentStatus \<Rightarrow> bool" where
  transition: "canTransitionDocumentStatus a b \<Longrightarrow> status_move a b"
| restore_deleted: "status_move StatusDeleted StatusQueued"
| restore_purged: "status_move StatusPurged StatusQueued"

inductive_cases status_moveE: "status_move a b"
inductive_simps status_move_from_deleted: "status_move StatusDeleted b"
inductive_simps status_move_from_purged: "status_move StatusPurged b"

lemma status_move_known: "status_move a b \<Longrightarrow> isKnownDocumentStatus b"
  by (erule status_moveE) (auto dest: canTransition_known)

text \<open>
  A path of moves, as the list of the statuses after the first.  Along a path that
  reaches \<open>StatusArchived\<close> from elsewhere the document was resolving.
\<close>

fun status_path :: "DocumentStatus \<Rightarrow> DocumentStatus list \<Rightarrow> bool" where
  "status_path a [] = True"
| "status_path a (b # bs) = (status_move a b \<and> status_path b bs)"

lemma status_path_archived:
  "status_path a bs \<Longrightarrow> StatusArchived \<in> set bs \<Longrightarrow>
   a \<notin> {StatusResolving, StatusDownloading, StatusArchived} \<Longrightarrow> StatusResolving \<in> set bs"
proof (induction bs arbitrary: a)
  case (Cons b bs)
  then have move: "status_move a b" by simp
  show ?case
  proof (cases "b = StatusResolving")
    case False
    have "b \<notin> {StatusDownloading, StatusArchived}"
      using move Cons.prems(3) by (auto elim!: status_moveE simp: status_simps)
    with False Cons show ?thesis by auto
  qed simp
qed simp

lemma status_path_deleted:
  "status_path a bs \<Longrightarrow> a \<in> {StatusDeleted, StatusPurged} \<Longrightarrow> StatusQueued \<notin> set bs \<Longrightarrow>
   b \<in> set bs \<Longrightarrow> b \<in> {StatusDeleted, StatusPurged}"
proof (induction bs arbitrary: a)
  case (Cons c bs)
  then have "status_move a c" by simp
  then have "c \<in> {StatusDeleted, StatusPurged}"
    using Cons.prems(2,3)
    by (auto simp: status_move_from_deleted status_move_from_purged status_simps)
  with Cons show ?case by auto
qed simp

end
