(* ===== verification/GoStrings.thy ===== *)
theory GoStrings
  imports Prelude
begin

text \<open>
  The functions of Go's \<^verbatim>\<open>strings\<close>, \<^verbatim>\<open>strconv\<close> and \<^verbatim>\<open>path\<close> packages that the program uses, on
  strings as byte sequences (a \<open>char\<close> is a byte): \<open>Itoa\<close> and \<open>Atoi\<close> with the 64-bit range of
  Go's \<open>int\<close>, \<open>TrimSpace\<close> with the UTF-8 encodings of every Unicode space, \<open>ToLower\<close> on
  ASCII, \<open>Contains\<close>, \<open>CutPrefix\<close>, and the lexical path functions \<open>Clean\<close> and \<open>Join\<close>.
  The lemmas give the round trip of \<open>Itoa\<close> and \<open>Atoi\<close>, and evaluate \<open>path.Join\<close> on lists of
  safe segments, which is what makes object keys injective.
\<close>

section \<open>Decimal numbers\<close>

definition digit_char :: "nat \<Rightarrow> char" where
  "digit_char d = char_of (48 + d)"

definition is_digit :: "char \<Rightarrow> bool" where
  "is_digit c \<longleftrightarrow> 48 \<le> (of_char c :: nat) \<and> (of_char c :: nat) \<le> 57"

definition digit_val :: "char \<Rightarrow> nat" where
  "digit_val c = of_char c - 48"

fun itoa_nat :: "nat \<Rightarrow> string" where
  "itoa_nat n = (if n < 10 then [digit_char n] else itoa_nat (n div 10) @ [digit_char (n mod 10)])"

declare itoa_nat.simps [simp del]

definition Itoa :: "int \<Rightarrow> string" where
  "Itoa i = (if i < 0 then CHR ''-'' # itoa_nat (nat (- i)) else itoa_nat (nat i))"

fun parse_digits :: "nat \<Rightarrow> string \<Rightarrow> nat option" where
  "parse_digits acc [] = Some acc"
| "parse_digits acc (c # cs) =
     (if is_digit c then parse_digits (10 * acc + digit_val c) cs else None)"

definition parse_nat :: "string \<Rightarrow> nat option" where
  "parse_nat s = (if s = '''' then None else parse_digits 0 s)"

definition int64_min :: int where "int64_min = - (2 ^ 63)"
definition int64_max :: int where "int64_max = 2 ^ 63 - 1"

definition in_int64 :: "int \<Rightarrow> bool" where
  "in_int64 i \<longleftrightarrow> int64_min \<le> i \<and> i \<le> int64_max"

text \<open>\<open>strconv.Atoi\<close>: an optional sign, then decimal digits, in the range of \<open>int64\<close>.\<close>

definition Atoi :: "string \<Rightarrow> int option" where
  "Atoi s =
     (let v = (case s of
                 [] \<Rightarrow> None
               | c # cs \<Rightarrow> (if c = CHR ''-'' then map_option (\<lambda>n. - int n) (parse_nat cs)
                           else if c = CHR ''+'' then map_option int (parse_nat cs)
                           else map_option int (parse_nat s)))
      in case v of None \<Rightarrow> None | Some i \<Rightarrow> (if in_int64 i then Some i else None))"

lemma of_char_digit_char: "d < 10 \<Longrightarrow> (of_char (digit_char d) :: nat) = 48 + d"
  by (simp add: digit_char_def)

lemma is_digit_digit_char [simp]: "d < 10 \<Longrightarrow> is_digit (digit_char d)"
  by (simp add: is_digit_def of_char_digit_char)

lemma digit_val_digit_char [simp]: "d < 10 \<Longrightarrow> digit_val (digit_char d) = d"
  by (simp add: digit_val_def of_char_digit_char)

lemma parse_digits_append:
  "parse_digits acc (xs @ ys) =
     (case parse_digits acc xs of None \<Rightarrow> None | Some a \<Rightarrow> parse_digits a ys)"
  by (induction acc xs rule: parse_digits.induct) auto

lemma parse_digits_itoa_nat: "parse_digits 0 (itoa_nat n) = Some n"
proof (induction n rule: itoa_nat.induct)
  case (1 n)
  then show ?case
    by (subst itoa_nat.simps) (auto simp: parse_digits_append)
qed

lemma itoa_nat_not_Nil [simp]: "itoa_nat n \<noteq> []"
  by (subst itoa_nat.simps) simp

lemma itoa_nat_digits: "c \<in> set (itoa_nat n) \<Longrightarrow> is_digit c"
proof (induction n rule: itoa_nat.induct)
  case (1 n)
  show ?case
  proof (cases "n < 10")
    case True
    with "1.prems" show ?thesis by (subst (asm) itoa_nat.simps) simp
  next
    case False
    with "1.prems" have "c \<in> set (itoa_nat (n div 10)) \<or> c = digit_char (n mod 10)"
      by (subst (asm) itoa_nat.simps) auto
    with "1.IH" [OF False] show ?thesis by auto
  qed
qed

lemma parse_nat_itoa_nat [simp]: "parse_nat (itoa_nat n) = Some n"
  by (simp add: parse_nat_def parse_digits_itoa_nat)

lemma itoa_nat_inject [simp]: "itoa_nat m = itoa_nat n \<longleftrightarrow> m = n"
  by (metis option.inject parse_nat_itoa_nat)

lemma sign_not_digit: "\<not> is_digit (CHR ''-'')" "\<not> is_digit (CHR ''+'')"
    "\<not> is_digit (CHR ''/'')" "\<not> is_digit (CHR ''.'')"
  by (simp_all add: is_digit_def)

lemma itoa_nat_hd:
  assumes "\<not> is_digit c" shows "hd (itoa_nat n) \<noteq> c" "itoa_nat n \<noteq> c # cs"
  using itoa_nat_digits [of "hd (itoa_nat n)" n] assms by (auto simp: hd_in_set)

lemma Itoa_inject [simp]: "Itoa i = Itoa j \<longleftrightarrow> i = j"
proof
  assume eq: "Itoa i = Itoa j"
  show "i = j"
  proof (cases "i < 0"; cases "j < 0")
    assume "i < 0" "j < 0"
    with eq show ?thesis by (simp add: Itoa_def)
  next
    assume "\<not> i < 0" "\<not> j < 0"
    with eq show ?thesis by (simp add: Itoa_def)
  qed (use eq itoa_nat_hd(2) [OF sign_not_digit(1)] in \<open>auto simp: Itoa_def dest: sym\<close>)
qed simp

lemma Atoi_Itoa: "in_int64 i \<Longrightarrow> Atoi (Itoa i) = Some i"
proof (cases "i < 0")
  case True
  assume "in_int64 i"
  with True show ?thesis by (simp add: Atoi_def Itoa_def)
next
  case False
  assume "in_int64 i"
  moreover obtain c cs where c: "itoa_nat (nat i) = c # cs"
    by (meson itoa_nat_not_Nil list.exhaust)
  moreover have "is_digit c" using itoa_nat_digits [of c "nat i"] c by simp
  moreover from this have "c \<noteq> CHR ''-''" "c \<noteq> CHR ''+''"
    using sign_not_digit by auto
  moreover have "parse_nat (c # cs) = Some (nat i)"
    using parse_nat_itoa_nat [of "nat i"] c by simp
  ultimately show ?thesis using False by (simp add: Atoi_def Itoa_def)
qed

lemma Itoa_not_Nil [simp]: "Itoa i \<noteq> []"
  by (simp add: Itoa_def)

lemma Itoa_chars: "c \<in> set (Itoa i) \<Longrightarrow> is_digit c \<or> c = CHR ''-''"
  using itoa_nat_digits by (auto simp: Itoa_def split: if_splits)

section \<open>White space and case\<close>

text \<open>
  \<open>strings.TrimSpace\<close> cuts Unicode white space at both ends.  The encodings below are those
  of the code points of \<^verbatim>\<open>unicode.IsSpace\<close>: six ASCII characters, U+0085, U+00A0, U+1680,
  U+2000 to U+200A, U+2028, U+2029, U+202F, U+205F and U+3000.
\<close>

definition byte_string :: "nat list \<Rightarrow> string" where
  "byte_string bs = map char_of bs"

definition space_seqs :: "string list" where
  "space_seqs = map byte_string
     ([[9], [10], [11], [12], [13], [32], [194, 133], [194, 160], [225, 154, 128]]
      @ map (\<lambda>b. [226, 128, b]) [128..<139]
      @ [[226, 128, 168], [226, 128, 169], [226, 128, 175], [226, 129, 159], [227, 128, 128]])"

function trim_left :: "string list \<Rightarrow> string \<Rightarrow> string" where
  "trim_left seqs s =
     (case find (\<lambda>p. p \<noteq> [] \<and> prefix p s) seqs of
        None \<Rightarrow> s
      | Some p \<Rightarrow> trim_left seqs (drop (length p) s))"
  by pat_completeness auto
termination
  by (relation "measure (\<lambda>(seqs, s). length s)") (auto simp: find_Some_iff prefix_def)

declare trim_left.simps [simp del]

definition TrimSpace :: "string \<Rightarrow> string" where
  "TrimSpace s = rev (trim_left (map rev space_seqs) (rev (trim_left space_seqs s)))"

definition to_lower_char :: "char \<Rightarrow> char" where
  "to_lower_char c =
     (let n = (of_char c :: nat) in if 65 \<le> n \<and> n \<le> 90 then char_of (n + 32) else c)"

text \<open>
  \<open>strings.ToLower\<close> on ASCII; bytes from 128 upwards are kept.  The code uses it only to
  compare with ASCII words, for which other letters make no difference (but for U+0130 and
  U+212A, which Go maps to \<^verbatim>\<open>i\<close> and \<^verbatim>\<open>k\<close> and which are outside the model).
\<close>

definition ToLower :: "string \<Rightarrow> string" where
  "ToLower s = map to_lower_char s"

lemma trim_left_stop:
  "find (\<lambda>p. p \<noteq> [] \<and> prefix p s) seqs = None \<Longrightarrow> trim_left seqs s = s"
  by (subst trim_left.simps) simp

lemma trim_left_Nil [simp]: "trim_left seqs [] = []"
  by (rule trim_left_stop) (auto simp: find_None_iff)

lemma trim_left_normal:
  "find (\<lambda>p. p \<noteq> [] \<and> prefix p (trim_left seqs s)) seqs = None"
proof (induction seqs s rule: trim_left.induct)
  case (1 seqs s)
  then show ?case
    by (cases "find (\<lambda>p. p \<noteq> [] \<and> prefix p s) seqs") (simp_all add: trim_left.simps [of seqs s])
qed

lemma trim_left_idem [simp]: "trim_left seqs (trim_left seqs s) = trim_left seqs s"
  by (rule trim_left_stop) (rule trim_left_normal)

lemma trim_left_suffix: "suffix (trim_left seqs s) s"
proof (induction seqs s rule: trim_left.induct)
  case (1 seqs s)
  show ?case
  proof (cases "find (\<lambda>p. p \<noteq> [] \<and> prefix p s) seqs")
    case None
    then show ?thesis by (simp add: trim_left.simps [of seqs s])
  next
    case (Some p)
    have "suffix (trim_left seqs (drop (length p) s)) (drop (length p) s)"
      by (rule "1.IH") (rule Some)
    then have "suffix (trim_left seqs (drop (length p) s)) s"
      using suffix_drop suffix_order.trans by blast
    with Some show ?thesis by (simp add: trim_left.simps [of seqs s])
  qed
qed

lemma space_seqs_heads:
  "p \<in> set space_seqs \<Longrightarrow> (of_char (hd p) :: nat) \<in> {9, 10, 11, 12, 13, 32, 194, 225, 226, 227}"
  by (auto simp: space_seqs_def byte_string_def)

lemma space_seqs_lasts:
  "p \<in> set space_seqs \<Longrightarrow> (of_char (last p) :: nat) \<le> 32 \<or> 128 \<le> (of_char (last p) :: nat)"
  by (auto simp: space_seqs_def byte_string_def)

text \<open>A string of printable ASCII characters is its own \<open>TrimSpace\<close>.\<close>

definition printable :: "string \<Rightarrow> bool" where
  "printable s \<longleftrightarrow> list_all (\<lambda>c. 33 \<le> (of_char c :: nat) \<and> (of_char c :: nat) < 127) s"

lemma printable_simps [simp]:
  "printable []"
  "printable (c # s) \<longleftrightarrow> 33 \<le> (of_char c :: nat) \<and> (of_char c :: nat) < 127 \<and> printable s"
  "printable (s @ t) \<longleftrightarrow> printable s \<and> printable t"
  "printable (rev s) \<longleftrightarrow> printable s"
  by (auto simp: printable_def)

lemma TrimSpace_printable:
  assumes "printable s"
  shows "TrimSpace s = s"
proof -
  have left: "trim_left space_seqs s = s"
  proof (rule trim_left_stop, unfold find_None_iff, rule notI)
    assume "\<exists>p. p \<in> set space_seqs \<and> p \<noteq> [] \<and> prefix p s"
    then obtain p where p: "p \<in> set space_seqs" "p \<noteq> []" "prefix p s" by blast
    from p(2) obtain c q where "p = c # q" by (meson list.exhaust)
    with p assms have "33 \<le> (of_char (hd p) :: nat) \<and> (of_char (hd p) :: nat) < 127"
      by (auto simp: prefix_def)
    with space_seqs_heads [OF p(1)] show False by auto
  qed
  have "trim_left (map rev space_seqs) (rev s) = rev s"
  proof (rule trim_left_stop, unfold find_None_iff, rule notI)
    assume "\<exists>p. p \<in> set (map rev space_seqs) \<and> p \<noteq> [] \<and> prefix p (rev s)"
    then obtain p where p: "p \<in> set space_seqs" "p \<noteq> []" "prefix (rev p) (rev s)" by auto
    from p(2) obtain c q where "p = q @ [c]" by (meson rev_exhaust)
    moreover have "suffix p s" using p(3) by (simp add: suffix_to_prefix)
    ultimately have "33 \<le> (of_char (last p) :: nat) \<and> (of_char (last p) :: nat) < 127"
      using assms by (auto simp: suffix_def)
    with space_seqs_lasts [OF p(1)] show False by auto
  qed
  with left show ?thesis by (simp add: TrimSpace_def)
qed

section \<open>Searching and cutting\<close>

text \<open>\<open>strings.CutPrefix\<close> returns the rest and whether the prefix was there.\<close>

definition CutPrefix :: "string \<Rightarrow> string \<Rightarrow> string option" where
  "CutPrefix s p = (if prefix p s then Some (drop (length p) s) else None)"

text \<open>\<open>strings.ContainsAny\<close> on a set of ASCII characters.\<close>

definition ContainsAny :: "string \<Rightarrow> string \<Rightarrow> bool" where
  "ContainsAny s chars = list_ex (\<lambda>c. c \<in> set chars) s"

lemma ContainsAny_iff: "ContainsAny s chars \<longleftrightarrow> (\<exists>c \<in> set s. c \<in> set chars)"
  by (auto simp: ContainsAny_def list_ex_iff)

section \<open>Paths\<close>

fun split_slash :: "string \<Rightarrow> string list" where
  "split_slash [] = [[]]"
| "split_slash (c # cs) =
     (if c = CHR ''/'' then [] # split_slash cs
      else (case split_slash cs of [] \<Rightarrow> [[c]] | s # ss \<Rightarrow> (c # s) # ss))"

fun join_slash :: "string list \<Rightarrow> string" where
  "join_slash [] = []"
| "join_slash [s] = s"
| "join_slash (s # ss) = s @ CHR ''/'' # join_slash ss"

text \<open>
  One segment of \<^verbatim>\<open>path.Clean\<close>: empty and dot segments vanish, a double dot takes back the
  segment before it unless that is a double dot itself, and is dropped at the root.
\<close>

definition clean_step :: "bool \<Rightarrow> string list \<Rightarrow> string \<Rightarrow> string list" where
  "clean_step rooted out seg =
     (if seg = [] \<or> seg = ''.'' then out
      else if seg = ''..'' then
        (if out \<noteq> [] \<and> last out \<noteq> ''..'' then butlast out
         else if rooted then out else out @ [seg])
      else out @ [seg])"

definition path_Clean :: "string \<Rightarrow> string" where
  "path_Clean p =
     (if p = [] then ''.''
      else let rooted = (hd p = CHR ''/'');
               s = join_slash (foldl (clean_step rooted) [] (split_slash p))
           in if rooted then CHR ''/'' # s else if s = [] then ''.'' else s)"

text \<open>\<^verbatim>\<open>path.Join\<close> skips leading empty elements, joins with slashes and cleans.\<close>

definition path_Join :: "string list \<Rightarrow> string" where
  "path_Join elem =
     (if list_all (\<lambda>e. e = []) elem then []
      else path_Clean (join_slash (dropWhile (\<lambda>e. e = []) elem)))"

text \<open>A safe segment is one that \<^verbatim>\<open>Clean\<close> keeps as it is.\<close>

definition safe_segment :: "string \<Rightarrow> bool" where
  "safe_segment s \<longleftrightarrow> s \<noteq> [] \<and> s \<noteq> ''.'' \<and> s \<noteq> ''..'' \<and> CHR ''/'' \<notin> set s"

lemma split_slash_not_Nil [simp]: "split_slash s \<noteq> []"
  by (induction s) (auto split: list.splits)

lemma split_slash_no_slash: "CHR ''/'' \<notin> set s \<Longrightarrow> split_slash s = [s]"
  by (induction s) auto

lemma split_slash_append:
  "CHR ''/'' \<notin> set s \<Longrightarrow> split_slash (s @ CHR ''/'' # t) = s # split_slash t"
  by (induction s) auto

lemma split_slash_join:
  "ss \<noteq> [] \<Longrightarrow> list_all (\<lambda>s. CHR ''/'' \<notin> set s) ss \<Longrightarrow> split_slash (join_slash ss) = ss"
  by (induction ss rule: join_slash.induct) (auto simp: split_slash_no_slash split_slash_append)

lemma foldl_clean_safe:
  "list_all (\<lambda>s. s = [] \<or> safe_segment s) ss
    \<Longrightarrow> foldl (clean_step r) out ss = out @ filter (\<lambda>s. s \<noteq> []) ss"
  by (induction ss arbitrary: out) (auto simp: clean_step_def safe_segment_def)

lemma join_slash_eq_Nil:
  "list_all (\<lambda>s. s \<noteq> []) ss \<Longrightarrow> join_slash ss = [] \<longleftrightarrow> ss = []"
  by (induction ss rule: join_slash.induct) auto

text \<open>
  Cleaning a path whose segments are safe, or empty, after a first safe one, only removes
  the empty segments.
\<close>

lemma path_Clean_join_safe:
  assumes "safe_segment s" "list_all (\<lambda>s. s = [] \<or> safe_segment s) ss"
  shows "path_Clean (join_slash (s # ss)) = join_slash (s # filter (\<lambda>s. s \<noteq> []) ss)"
proof -
  let ?p = "join_slash (s # ss)"
  have "list_all (\<lambda>s. CHR ''/'' \<notin> set s) ss"
    by (rule list.pred_mono_strong [OF assms(2)]) (auto simp: safe_segment_def)
  then have no_slash: "list_all (\<lambda>s. CHR ''/'' \<notin> set s) (s # ss)"
    using assms(1) by (simp add: safe_segment_def)
  obtain c cs where s: "s = c # cs" "c \<noteq> CHR ''/''"
    using assms(1) by (cases s) (auto simp: safe_segment_def)
  then have "\<exists>t. ?p = c # t" by (cases ss) auto
  then have "?p \<noteq> []" and "hd ?p \<noteq> CHR ''/''" using s(2) by auto
  moreover have "foldl (clean_step False) [] (split_slash ?p) = s # filter (\<lambda>s. s \<noteq> []) ss"
    using foldl_clean_safe [of "s # ss" False "[]"] assms
    by (simp add: split_slash_join [OF _ no_slash] safe_segment_def)
  moreover have "join_slash (s # filter (\<lambda>s. s \<noteq> []) ss) \<noteq> []"
    using assms(1) by (subst join_slash_eq_Nil) (auto simp: list_all_iff safe_segment_def)
  ultimately show ?thesis
    by (simp add: path_Clean_def Let_def del: join_slash.simps)
qed

lemma path_Join_safe [go_string_simps]:
  assumes "safe_segment s" "list_all (\<lambda>s. s = [] \<or> safe_segment s) ss"
  shows "path_Join (s # ss) = join_slash (s # filter (\<lambda>s. s \<noteq> []) ss)"
  using path_Clean_join_safe [OF assms] assms(1)
  by (simp add: path_Join_def safe_segment_def)

text \<open>An element of \<^verbatim>\<open>Join\<close> may hold slashes itself: it is split first.\<close>

lemma join_slash_append:
  "ss \<noteq> [] \<Longrightarrow> ts \<noteq> [] \<Longrightarrow> join_slash (ss @ ts) = join_slash ss @ CHR ''/'' # join_slash ts"
proof (induction ss rule: join_slash.induct)
  case (2 s)
  then show ?case by (cases ts) auto
qed auto

lemma safe_segment_Itoa: "safe_segment (Itoa i)"
proof -
  have "CHR ''/'' \<notin> set (Itoa i)" "CHR ''.'' \<notin> set (Itoa i)"
    using Itoa_chars [of "CHR ''/''" i] Itoa_chars [of "CHR ''.''" i] sign_not_digit by auto
  then show ?thesis by (auto simp: safe_segment_def)
qed

lemma printable_Itoa: "printable (Itoa i)"
  using Itoa_chars by (fastforce simp: printable_def list_all_iff is_digit_def)

end
