(* ===== verification/GoErrors.thy ===== *)
theory GoErrors
  imports DocStatus GoStrings
begin

text \<open>
  The error values of the program, as one datatype: the sentinel errors, the typed errors with
  their fields, and the two ways code builds errors on the spot, \<^verbatim>\<open>errors.New\<close> or \<^verbatim>\<open>fmt.Errorf\<close>
  without a wrapped error (\<open>ErrText\<close>) and \<^verbatim>\<open>fmt.Errorf\<close> with \<^verbatim>\<open>%w\<close> (\<open>ErrWrap\<close>, \<open>ErrJoin\<close> for two).
  Errors of code outside the repository (a driver, the HTTP client, a cancelled context) are
  \<open>ErrExternal\<close> with their text.  A run-time panic is the value \<open>GoPanic\<close>.

  \<open>error_text\<close> is the \<^verbatim>\<open>Error\<close> method, which the archive flow stores in a document, and
  \<open>errors_Is\<close> is \<^verbatim>\<open>errors.Is\<close> with the \<^verbatim>\<open>Is\<close> and \<^verbatim>\<open>Unwrap\<close> methods of the typed errors
  (\<^verbatim>\<open>internal/documents/store.go\<close>, \<^verbatim>\<open>internal/utils/errors.go\<close>,
  \<^verbatim>\<open>internal/sources/hitomi/resolver.go\<close>).
\<close>

datatype go_error =
    ErrNotFound
  | ErrAlreadyExists
  | ErrPageNotFound
  | ErrObjectNotFound
  | ErrRateLimited
  | ErrComicNotFound
  | ErrMultiChapterAlbum
  | ErrPageAlreadyExists int int
  | ErrInvalidStatusTransition DocumentStatus DocumentStatus
  | ErrQueryParamMismatch string string
  | IndexedError "go_error option" int
  | HitomiRateLimitError string int int
  | ErrText string
  | ErrWrap string go_error string
  | ErrJoin go_error go_error
  | ErrExternal string
  | GoPanic string

fun error_text :: "go_error \<Rightarrow> string" where
  "error_text ErrNotFound = ''document not found''"
| "error_text ErrAlreadyExists = ''document already exists''"
| "error_text ErrPageNotFound = ''page not found''"
| "error_text ErrObjectNotFound = ''object not found''"
| "error_text ErrRateLimited = ''source rate limited''"
| "error_text ErrComicNotFound = ''hitomi comic not found''"
| "error_text ErrMultiChapterAlbum = ''jmcomic multi-chapter albums are not supported''"
| "error_text (ErrPageAlreadyExists doc page) =
     ''page already exists at index '' @ Itoa page @ '' for document '' @ Itoa doc"
| "error_text (ErrInvalidStatusTransition from' to) =
     ''invalid status transition from '' @ status_string from' @ '' to '' @ status_string to"
| "error_text (ErrQueryParamMismatch expected actual) =
     ''query param mismatch: expected '' @ expected @ '', got '' @ actual"
| "error_text (IndexedError None i) = ''err <nil> occur in '' @ Itoa i"
| "error_text (IndexedError (Some e) i) = ''err '' @ error_text e @ '' occur in '' @ Itoa i"
| "error_text (HitomiRateLimitError url status retry_after) =
     ''GET '' @ url @ '' returned '' @ Itoa status @ '': '' @ ''source rate limited''"
| "error_text (ErrText s) = s"
| "error_text (ErrWrap pre e post) = pre @ error_text e @ post"
| "error_text (ErrJoin e1 e2) = error_text e1 @ '': '' @ error_text e2"
| "error_text (ErrExternal s) = s"
| "error_text (GoPanic s) = s"

definition NewIndexedError :: "go_error option \<Rightarrow> int \<Rightarrow> go_error" where
  "NewIndexedError err index = IndexedError err index"

text \<open>The \<^verbatim>\<open>Is\<close> method of \<^verbatim>\<open>ErrPageAlreadyExists\<close>: a zero field of the target matches anything.\<close>

definition page_exists_Is :: "int \<Rightarrow> int \<Rightarrow> go_error \<Rightarrow> bool" where
  "page_exists_Is doc page target =
     (case target of
        ErrPageAlreadyExists doc' page' \<Rightarrow>
          (if doc' \<noteq> 0 \<and> doc \<noteq> doc' then False
           else if page' \<noteq> 0 \<and> page \<noteq> page' then False
           else True)
      | _ \<Rightarrow> False)"

definition status_transition_Is :: "DocumentStatus \<Rightarrow> DocumentStatus \<Rightarrow> go_error \<Rightarrow> bool" where
  "status_transition_Is from' to target =
     (case target of
        ErrInvalidStatusTransition tfrom tto \<Rightarrow>
          (if status_string tfrom \<noteq> '''' \<and> from' \<noteq> tfrom then False
           else if status_string tto \<noteq> '''' \<and> to \<noteq> tto then False
           else True)
      | _ \<Rightarrow> False)"

text \<open>
  \<^verbatim>\<open>errors.Is\<close>: the error itself, then its \<^verbatim>\<open>Is\<close> method, then what it wraps.  Errors built by
  \<^verbatim>\<open>errors.New\<close> are compared by address in Go; no such error is ever a target in the program,
  the sentinels apart.
\<close>

fun errors_Is :: "go_error \<Rightarrow> go_error \<Rightarrow> bool" where
  "errors_Is (ErrPageAlreadyExists doc page) target =
     (ErrPageAlreadyExists doc page = target \<or> page_exists_Is doc page target)"
| "errors_Is (ErrInvalidStatusTransition from' to) target =
     (ErrInvalidStatusTransition from' to = target \<or> status_transition_Is from' to target)"
| "errors_Is (IndexedError None i) target =
     (IndexedError None i = target \<or>
      (case target of
         IndexedError terr ti \<Rightarrow> terr = None \<and> (ti = 0 \<or> i = ti)
       | _ \<Rightarrow> False))"
| "errors_Is (IndexedError (Some e) i) target =
     (IndexedError (Some e) i = target \<or>
      (case target of
         IndexedError terr ti \<Rightarrow>
           (case terr of None \<Rightarrow> True | Some te \<Rightarrow> errors_Is e te) \<and> (ti = 0 \<or> i = ti)
       | _ \<Rightarrow> False) \<or>
      errors_Is e target)"
| "errors_Is (HitomiRateLimitError url status retry_after) target =
     (HitomiRateLimitError url status retry_after = target \<or> target = ErrRateLimited)"
| "errors_Is (ErrWrap pre e post) target =
     (ErrWrap pre e post = target \<or> errors_Is e target)"
| "errors_Is (ErrJoin e1 e2) target =
     (ErrJoin e1 e2 = target \<or> errors_Is e1 target \<or> errors_Is e2 target)"
| "errors_Is e target = (e = target)"

lemma errors_Is_refl [simp]: "errors_Is e e"
  by (cases e rule: error_text.cases) simp_all

text \<open>
  Wrapping never hides a sentinel: what \<open>errors_Is\<close> finds in an error it finds in every error
  built around it.
\<close>

lemma errors_Is_wrapped:
  "errors_Is e t \<Longrightarrow> errors_Is (ErrWrap pre e post) t"
  "errors_Is e t \<Longrightarrow> errors_Is (NewIndexedError (Some e) i) t"
  by (simp_all add: NewIndexedError_def)

lemma errors_Is_IndexedError:
  "errors_Is (NewIndexedError (Some e) i) (IndexedError (Some t) j)
     \<longleftrightarrow> (errors_Is e t \<and> (j = 0 \<or> i = j)) \<or> errors_Is e (IndexedError (Some t) j)"
  by (auto simp: NewIndexedError_def)

text \<open>\<^verbatim>\<open>errors.As\<close> for the rate limit interface: the delay the server asked for, if any.\<close>

fun retry_after_of :: "go_error \<Rightarrow> int option" where
  "retry_after_of (HitomiRateLimitError url status retry_after) = Some retry_after"
| "retry_after_of (IndexedError (Some e) i) = retry_after_of e"
| "retry_after_of (ErrWrap pre e post) = retry_after_of e"
| "retry_after_of (ErrJoin e1 e2) =
     (case retry_after_of e1 of Some r \<Rightarrow> Some r | None \<Rightarrow> retry_after_of e2)"
| "retry_after_of e = None"

lemma retry_after_rate_limited: "retry_after_of e = Some r \<Longrightarrow> errors_Is e ErrRateLimited"
  by (induction e rule: retry_after_of.induct) (auto split: option.splits)

end
