(* ===== verification/GoTime.thy ===== *)
theory GoTime
  imports GoStrings "HOL-Library.Product_Lexorder" "HOL-Library.List_Lexorder"
    "HOL-Library.Char_ord"
begin

text \<open>
  Instants as the document store sees them.  Every time the store writes is
  \<^verbatim>\<open>time.Now().UTC()\<close>, so an instant is given by its civil fields in UTC; \<open>Before\<close> and \<open>After\<close>
  compare them lexicographically.  \<open>formatTime\<close> and \<open>parseTime\<close> of
  \<^verbatim>\<open>internal/documents/sqlite_store.go\<close> are \<^verbatim>\<open>Time.Format\<close> and \<^verbatim>\<open>time.Parse\<close> on the layout
  \<^verbatim>\<open>RFC3339Nano\<close>, which drops the trailing zeros of the fraction, and the whole fraction when it
  is zero.  The lemmas give their round trip and compare the order of the strings, which is
  what SQLite sorts by, with the order of the instants.
\<close>

section \<open>Instants\<close>

datatype utc_time = UTC
  (t_year: nat) (t_month: nat) (t_day: nat) (t_hour: nat) (t_min: nat) (t_sec: nat) (t_nsec: nat)

definition second_tuple :: "utc_time \<Rightarrow> nat \<times> nat \<times> nat \<times> nat \<times> nat \<times> nat" where
  "second_tuple t = (t_year t, t_month t, t_day t, t_hour t, t_min t, t_sec t)"

definition time_tuple :: "utc_time \<Rightarrow> (nat \<times> nat \<times> nat \<times> nat \<times> nat \<times> nat) \<times> nat" where
  "time_tuple t = (second_tuple t, t_nsec t)"

lemma time_tuple_inject [simp]: "time_tuple s = time_tuple t \<longleftrightarrow> s = t"
  by (cases s; cases t) (auto simp: time_tuple_def second_tuple_def)

instantiation utc_time :: linorder
begin

definition less_eq_utc_time :: "utc_time \<Rightarrow> utc_time \<Rightarrow> bool" where
  "less_eq_utc_time s t \<longleftrightarrow> time_tuple s \<le> time_tuple t"

definition less_utc_time :: "utc_time \<Rightarrow> utc_time \<Rightarrow> bool" where
  "less_utc_time s t \<longleftrightarrow> time_tuple s < time_tuple t"

instance
  by standard (auto simp: less_eq_utc_time_def less_utc_time_def order.strict_iff_order)

end

definition leap_year :: "nat \<Rightarrow> bool" where
  "leap_year y \<longleftrightarrow> y mod 4 = 0 \<and> (y mod 100 \<noteq> 0 \<or> y mod 400 = 0)"

definition days_in :: "nat \<Rightarrow> nat \<Rightarrow> nat" where
  "days_in m y =
     (if m = 2 then (if leap_year y then 29 else 28)
      else if m \<in> {4, 6, 9, 11} then 30 else 31)"

definition valid_time :: "utc_time \<Rightarrow> bool" where
  "valid_time t \<longleftrightarrow>
     t_year t \<le> 9999 \<and> 1 \<le> t_month t \<and> t_month t \<le> 12 \<and>
     1 \<le> t_day t \<and> t_day t \<le> days_in (t_month t) (t_year t) \<and>
     t_hour t < 24 \<and> t_min t < 60 \<and> t_sec t < 60 \<and> t_nsec t < 10 ^ 9"

section \<open>Fixed-width decimals\<close>

fun pad :: "nat \<Rightarrow> nat \<Rightarrow> string" where
  "pad 0 n = []"
| "pad (Suc k) n = pad k (n div 10) @ [digit_char (n mod 10)]"

lemma length_pad [simp]: "length (pad k n) = k"
  by (induction k n rule: pad.induct) auto

lemma pad_digits: "list_all is_digit (pad k n)"
  by (induction k n rule: pad.induct) auto

lemma parse_digits_pad: "parse_digits 0 (pad k n) = Some (n mod 10 ^ k)"
proof (induction k n rule: pad.induct)
  case (2 k n)
  have "n mod 10 ^ Suc k = 10 * (n div 10 mod 10 ^ k) + n mod 10"
    by (metis mod_mult2_eq mult.commute power_Suc add.commute)
  with 2 show ?case by (simp add: parse_digits_append)
qed simp

text \<open>Reading a fixed number of digits off the front of a string.\<close>

definition take_num :: "nat \<Rightarrow> string \<Rightarrow> (nat \<times> string) option" where
  "take_num k s =
     (if k \<le> length s then
        (case parse_digits 0 (take k s) of None \<Rightarrow> None | Some n \<Rightarrow> Some (n, drop k s))
      else None)"

definition take_char :: "char \<Rightarrow> string \<Rightarrow> string option" where
  "take_char c s = (case s of [] \<Rightarrow> None | d # ds \<Rightarrow> (if d = c then Some ds else None))"

lemma take_num_pad [simp]:
  "n < 10 ^ k \<Longrightarrow> take_num k (pad k n @ s) = Some (n, s)"
  by (simp add: take_num_def parse_digits_pad)

lemma take_char_same [simp]: "take_char c (c # s) = Some s"
  by (simp add: take_char_def)

section \<open>Formatting and parsing\<close>

definition strip_zeros :: "string \<Rightarrow> string" where
  "strip_zeros s = rev (dropWhile (\<lambda>c. c = CHR ''0'') (rev s))"

definition format_fraction :: "nat \<Rightarrow> string" where
  "format_fraction n = (if n = 0 then [] else CHR ''.'' # strip_zeros (pad 9 n))"

definition format_seconds :: "utc_time \<Rightarrow> string" where
  "format_seconds t =
     pad 4 (t_year t) @ CHR ''-'' # pad 2 (t_month t) @ CHR ''-'' # pad 2 (t_day t) @
     CHR ''T'' # pad 2 (t_hour t) @ CHR '':'' # pad 2 (t_min t) @ CHR '':'' # pad 2 (t_sec t)"

definition formatTime :: "utc_time \<Rightarrow> string" where
  "formatTime t = format_seconds t @ format_fraction (t_nsec t) @ ''Z''"

text \<open>
  The fraction: a dot and at least one digit; digits after the ninth are dropped.  Without a
  dot and a digit the fraction is zero and nothing is consumed.
\<close>

definition take_fraction :: "string \<Rightarrow> nat \<times> string" where
  "take_fraction s =
     (case s of
        c # d # ds \<Rightarrow>
          (if c = CHR ''.'' \<and> is_digit d then
             (let digits = takeWhile is_digit (d # ds); kept = take 9 digits in
              ((case parse_digits 0 kept of None \<Rightarrow> 0 | Some n \<Rightarrow> n * 10 ^ (9 - length kept)),
               drop (length digits) (d # ds)))
           else (0, s))
      | _ \<Rightarrow> (0, s))"

text \<open>
  \<open>parseTime\<close> on times written in UTC.  Rows are only ever written by \<open>formatTime\<close>, whose
  zone is \<^verbatim>\<open>Z\<close>; numeric zone offsets are not read here.
\<close>

definition parse_seconds :: "string \<Rightarrow> ((nat \<times> nat \<times> nat \<times> nat \<times> nat \<times> nat) \<times> string) option" where
  "parse_seconds s0 =
     Option.bind (take_num 4 s0) (\<lambda>(y, s1).
     Option.bind (take_char CHR ''-'' s1) (\<lambda>s2.
     Option.bind (take_num 2 s2) (\<lambda>(mo, s3).
     Option.bind (take_char CHR ''-'' s3) (\<lambda>s4.
     Option.bind (take_num 2 s4) (\<lambda>(d, s5).
     Option.bind (take_char CHR ''T'' s5) (\<lambda>s6.
     Option.bind (take_num 2 s6) (\<lambda>(h, s7).
     Option.bind (take_char CHR '':'' s7) (\<lambda>s8.
     Option.bind (take_num 2 s8) (\<lambda>(mi, s9).
     Option.bind (take_char CHR '':'' s9) (\<lambda>s10.
     Option.bind (take_num 2 s10) (\<lambda>(sec, s11).
     Some ((y, mo, d, h, mi, sec), s11))))))))))))"

definition parseTime :: "string \<Rightarrow> utc_time option" where
  "parseTime s =
     (case parse_seconds s of
        None \<Rightarrow> None
      | Some ((y, mo, d, h, mi, sec), rest) \<Rightarrow>
          (let (ns, zone) = take_fraction rest; t = UTC y mo d h mi sec ns in
           if zone = ''Z'' \<and> valid_time t then Some t else None))"

lemma parse_seconds_format:
  "valid_time t \<Longrightarrow> parse_seconds (format_seconds t @ rest) = Some (second_tuple t, rest)"
proof -
  assume v: "valid_time t"
  have "days_in (t_month t) (t_year t) < 100" by (simp add: days_in_def)
  with v have "t_year t < 10 ^ 4" "t_month t < 10 ^ 2" "t_day t < 10 ^ 2" "t_hour t < 10 ^ 2"
    "t_min t < 10 ^ 2" "t_sec t < 10 ^ 2"
    unfolding valid_time_def by auto
  then show ?thesis
    unfolding parse_seconds_def format_seconds_def second_tuple_def append_assoc append_Cons
    by (simp del: power.simps)
qed

lemma strip_zeros_decomp:
  "\<exists>m. s = strip_zeros s @ replicate m CHR ''0''"
proof -
  let ?z = "takeWhile (\<lambda>c. c = CHR ''0'') (rev s)"
  have z: "?z = replicate (length ?z) CHR ''0''"
    by (rule replicate_length_same [symmetric]) (auto dest: set_takeWhileD)
  have "rev s = ?z @ dropWhile (\<lambda>c. c = CHR ''0'') (rev s)" by simp
  then have "s = strip_zeros s @ rev ?z"
    by (metis rev_append rev_rev_ident strip_zeros_def)
  moreover have "rev ?z = replicate (length ?z) CHR ''0''" by (subst z) simp
  ultimately show ?thesis by metis
qed

lemma parse_digits_zeros:
  "parse_digits acc (replicate m CHR ''0'') = Some (acc * 10 ^ m)"
  by (induction m arbitrary: acc) (simp_all add: is_digit_def digit_val_def)

lemma digits_strip_zeros: "list_all is_digit s \<Longrightarrow> list_all is_digit (strip_zeros s)"
  by (metis list_all_append strip_zeros_decomp)

lemma parse_digits_total: "list_all is_digit s \<Longrightarrow> \<exists>n. parse_digits acc s = Some n"
  by (induction s arbitrary: acc) auto

lemma strip_zeros_pad_not_Nil:
  assumes "n \<noteq> 0" "n < 10 ^ k" shows "strip_zeros (pad k n) \<noteq> []"
proof
  assume "strip_zeros (pad k n) = []"
  then obtain m where "pad k n = replicate m CHR ''0''"
    using strip_zeros_decomp [of "pad k n"] by auto
  then have "parse_digits 0 (pad k n) = Some 0" by (simp add: parse_digits_zeros)
  with assms show False by (simp add: parse_digits_pad)
qed

lemma take_fraction_digits:
  assumes f: "f \<noteq> []" and digits: "list_all is_digit f" and len: "length f \<le> 9"
    and v: "parse_digits 0 f = Some v"
  shows "take_fraction (CHR ''.'' # f @ ''Z'') = (v * 10 ^ (9 - length f), ''Z'')"
proof -
  obtain d ds where ds: "f = d # ds" using f by (meson list.exhaust)
  have "\<not> is_digit CHR ''Z''" by (simp add: is_digit_def)
  with digits have tw: "takeWhile is_digit (f @ ''Z'') = f"
    by (simp add: list_all_iff)
  have tk: "take 9 f = f" using len by simp
  have "take_fraction (CHR ''.'' # f @ ''Z'') =
    (let digits = takeWhile is_digit (f @ ''Z''); kept = take 9 digits in
       ((case parse_digits 0 kept of None \<Rightarrow> 0 | Some n \<Rightarrow> n * 10 ^ (9 - length kept)),
        drop (length digits) (f @ ''Z'')))"
    using digits by (simp add: take_fraction_def ds)
  then show ?thesis by (simp only: tw tk v Let_def option.case) simp
qed

lemma take_fraction_format:
  assumes "n < 10 ^ 9"
  shows "take_fraction (format_fraction n @ ''Z'') = (n, ''Z'')"
proof (cases "n = 0")
  case True
  then show ?thesis by (simp add: take_fraction_def format_fraction_def)
next
  case False
  let ?f = "strip_zeros (pad 9 n)"
  have digits: "list_all is_digit ?f" by (rule digits_strip_zeros) (rule pad_digits)
  obtain m where m: "pad 9 n = ?f @ replicate m CHR ''0''"
    using strip_zeros_decomp by blast
  then have len: "length ?f + m = 9" by (metis length_append length_pad length_replicate)
  obtain v where v: "parse_digits 0 ?f = Some v" using parse_digits_total [OF digits] by blast
  have "parse_digits 0 (pad 9 n) = Some (v * 10 ^ m)"
    by (subst m) (simp add: parse_digits_append v parse_digits_zeros)
  with assms have n: "n = v * 10 ^ m" by (simp add: parse_digits_pad)
  have "take_fraction (CHR ''.'' # ?f @ ''Z'') = (v * 10 ^ (9 - length ?f), ''Z'')"
    by (rule take_fraction_digits)
      (use len digits v strip_zeros_pad_not_Nil [OF False assms] in auto)
  moreover have "9 - length ?f = m" using len by simp
  ultimately show ?thesis using False n by (simp add: format_fraction_def)
qed

lemma parseTime_formatTime: "valid_time t \<Longrightarrow> parseTime (formatTime t) = Some t"
proof -
  assume v: "valid_time t"
  then have "take_fraction (format_fraction (t_nsec t) @ ''Z'') = (t_nsec t, ''Z'')"
    by (intro take_fraction_format) (simp add: valid_time_def)
  with v show ?thesis
    by (cases t) (simp add: parseTime_def formatTime_def parse_seconds_format second_tuple_def)
qed

lemma formatTime_inject:
  "valid_time s \<Longrightarrow> valid_time t \<Longrightarrow> formatTime s = formatTime t \<longleftrightarrow> s = t"
  by (metis option.inject parseTime_formatTime)

section \<open>The order of the formatted strings\<close>

text \<open>
  SQLite compares TEXT columns byte by byte (collation BINARY): that is the lexicographic
  order on \<open>string\<close>.
\<close>

lemma append_less_append:
  "length a = length b \<Longrightarrow> (a @ x < b @ y) \<longleftrightarrow> a < b \<or> (a = b \<and> x < (y :: string))"
  by (induction a b rule: list_induct2) auto

lemma digit_char_less: "a < 10 \<Longrightarrow> b < 10 \<Longrightarrow> digit_char a < digit_char b \<longleftrightarrow> a < b"
  by (simp add: less_char_def of_char_digit_char)

lemma digit_char_inject: "a < 10 \<Longrightarrow> b < 10 \<Longrightarrow> digit_char a = digit_char b \<longleftrightarrow> a = b"
  by (metis digit_val_digit_char)

lemma pad_inject: "m < 10 ^ k \<Longrightarrow> n < 10 ^ k \<Longrightarrow> pad k m = pad k n \<longleftrightarrow> m = n"
  by (metis mod_less option.inject parse_digits_pad)

lemma div_mod_less:
  fixes m n :: nat
  shows "(m div 10 < n div 10 \<or> (m div 10 = n div 10 \<and> m mod 10 < n mod 10)) \<longleftrightarrow> m < n"
proof -
  have eq: "(a < c \<or> (a = c \<and> b < d)) \<longleftrightarrow> 10 * a + b < 10 * c + d"
    if "b < 10" "d < 10" for a b c d :: nat
    using that by linarith
  show ?thesis using eq [of "m mod 10" "n mod 10" "m div 10" "n div 10"] by simp
qed

text \<open>The lexicographic order of pairs, with an equality instead of the library's \<open>\<le>\<close>.\<close>

lemma less_prod_eq: "((a, b) < (c, d)) \<longleftrightarrow> a < c \<or> (a = c \<and> b < d)"
  for a c :: "'a::linorder" and b d :: "'b::linorder"
  by auto

lemma pad_less: "m < 10 ^ k \<Longrightarrow> n < 10 ^ k \<Longrightarrow> pad k m < pad k n \<longleftrightarrow> m < n"
proof (induction k arbitrary: m n)
  case (Suc k)
  have div: "m div 10 < 10 ^ k" "n div 10 < 10 ^ k" using Suc.prems by auto
  have "pad (Suc k) m < pad (Suc k) n
      \<longleftrightarrow> m div 10 < n div 10 \<or> (m div 10 = n div 10 \<and> m mod 10 < n mod 10)"
    using Suc.IH [OF div] div by (simp add: append_less_append pad_inject digit_char_less)
  also have "\<dots> \<longleftrightarrow> m < n" by (rule div_mod_less)
  finally show ?case .
qed simp

lemma pad_append_less:
  "m < 10 ^ k \<Longrightarrow> n < 10 ^ k \<Longrightarrow>
   pad k m @ x < pad k n @ y \<longleftrightarrow> m < n \<or> (m = n \<and> x < (y :: string))"
  by (simp add: append_less_append pad_less pad_inject)

lemma format_seconds_less:
  assumes "valid_time s" "valid_time t"
  shows "format_seconds s @ x < format_seconds t @ y
     \<longleftrightarrow> second_tuple s < second_tuple t \<or> (second_tuple s = second_tuple t \<and> x < y)"
proof -
  have "days_in (t_month s) (t_year s) < 100" "days_in (t_month t) (t_year t) < 100"
    by (simp_all add: days_in_def)
  with assms have "t_year s < 10 ^ 4" "t_month s < 10 ^ 2" "t_day s < 10 ^ 2" "t_hour s < 10 ^ 2"
    "t_min s < 10 ^ 2" "t_sec s < 10 ^ 2" "t_year t < 10 ^ 4" "t_month t < 10 ^ 2"
    "t_day t < 10 ^ 2" "t_hour t < 10 ^ 2" "t_min t < 10 ^ 2" "t_sec t < 10 ^ 2"
    unfolding valid_time_def by auto
  then show ?thesis
    unfolding format_seconds_def second_tuple_def append_assoc append_Cons
    by (simp add: pad_append_less pad_less less_prod_eq del: power.simps less_prod_simp) blast
qed

lemma formatTime_less_seconds:
  assumes "valid_time s" "valid_time t" "second_tuple s \<noteq> second_tuple t"
  shows "formatTime s < formatTime t \<longleftrightarrow> s < t"
  using assms by (simp add: formatTime_def format_seconds_less less_utc_time_def time_tuple_def
      less_prod_eq del: less_prod_simp)

text \<open>
  Within one second the fractions are compared as text.  When neither is cut short the order
  is right; a fraction that is a proper prefix of the other one, and the missing fraction of a
  whole second, sort after it.
\<close>

lemma formatTime_less_same_second:
  assumes "valid_time s" "valid_time t" "second_tuple s = second_tuple t"
  shows "formatTime s < formatTime t \<longleftrightarrow>
    format_fraction (t_nsec s) @ ''Z'' < format_fraction (t_nsec t) @ ''Z''"
  using assms by (simp add: formatTime_def format_seconds_less)

end
