(* ===== verification/Json.thy ===== *)
theory Json
  imports GoStrings
begin

text \<open>
  The part of \<^verbatim>\<open>encoding/json\<close> the program relies on.  A JSON text is looked at one level at a time:
  \<open>json_view\<close> checks that the whole text is one valid value and gives its outermost constructor, with
  the texts of the items of an array and of the members of an object.  This is how Go treats a
  \<^verbatim>\<open>json.RawMessage\<close> and every type with an \<^verbatim>\<open>UnmarshalJSON\<close> method: they get the text of the value.
  Decoders of structs match the keys of an object without regard to case, in the order of the text, and
  a null leaves a field as it was.  Encoding quotes strings with the HTML escapes of \<^verbatim>\<open>json.Marshal\<close>.

  Left out: the texts of the errors of \<^verbatim>\<open>encoding/json\<close>, its limit of 10000 on nesting, and the
  replacement of invalid UTF-8 in strings, whose bytes are kept.
\<close>

section \<open>Scanning\<close>

definition is_json_space :: "char \<Rightarrow> bool" where
  "is_json_space c \<longleftrightarrow> (of_char c :: nat) \<in> {9, 10, 13, 32}"

definition skip_ws :: "string \<Rightarrow> string" where
  "skip_ws = dropWhile is_json_space"

text \<open>UTF-8 encoding of a code point, and the four digits of a \<^verbatim>\<open>\u\<close> escape.\<close>

definition utf8 :: "nat \<Rightarrow> string" where
  "utf8 n =
     map char_of
      (if n < 0x80 then [n]
       else if n < 0x800 then [0xC0 + n div 0x40, 0x80 + n mod 0x40]
       else if n < 0x10000
       then [0xE0 + n div 0x1000, 0x80 + n div 0x40 mod 0x40, 0x80 + n mod 0x40]
       else [0xF0 + n div 0x40000, 0x80 + n div 0x1000 mod 0x40,
             0x80 + n div 0x40 mod 0x40, 0x80 + n mod 0x40])"

definition hex_val :: "char \<Rightarrow> nat option" where
  "hex_val c =
     (let n = (of_char c :: nat) in
      if 48 \<le> n \<and> n \<le> 57 then Some (n - 48)
      else if 65 \<le> n \<and> n \<le> 70 then Some (n - 55)
      else if 97 \<le> n \<and> n \<le> 102 then Some (n - 87)
      else None)"

fun parse_hex :: "nat \<Rightarrow> string \<Rightarrow> nat option" where
  "parse_hex acc [] = Some acc"
| "parse_hex acc (c # cs) =
     (case hex_val c of None \<Rightarrow> None | Some d \<Rightarrow> parse_hex (16 * acc + d) cs)"

definition hex4 :: "string \<Rightarrow> nat option" where
  "hex4 s = (if length s < 4 then None else parse_hex 0 (take 4 s))"

definition low_surrogate :: "string \<Rightarrow> nat option" where
  "low_surrogate s =
     (case s of
        b # u # rest \<Rightarrow>
          if b = CHR 0x5C \<and> u = CHR ''u''
          then (case hex4 rest of
                  Some n \<Rightarrow> if 0xDC00 \<le> n \<and> n < 0xE000 then Some n else None
                | None \<Rightarrow> None)
          else None
      | _ \<Rightarrow> None)"

definition simple_escape :: "char \<Rightarrow> char option" where
  "simple_escape c =
     (if c = CHR 0x22 \<or> c = CHR 0x5C \<or> c = CHR ''/'' then Some c
      else if c = CHR ''b'' then Some (char_of (8::nat))
      else if c = CHR ''f'' then Some (char_of (12::nat))
      else if c = CHR ''n'' then Some (char_of (10::nat))
      else if c = CHR ''r'' then Some (char_of (13::nat))
      else if c = CHR ''t'' then Some (char_of (9::nat))
      else None)"

text \<open>The rest of a string literal after its opening quote: its value, and the text after it.\<close>

function scan_string :: "string \<Rightarrow> (string \<times> string) option" where
  "scan_string s =
     (case s of
        [] \<Rightarrow> None
      | c # cs \<Rightarrow>
          if c = CHR 0x22 then Some ([], cs)
          else if c = CHR 0x5C then
            (case cs of
               [] \<Rightarrow> None
             | e # rest \<Rightarrow>
                 if e = CHR ''u'' then
                   (case hex4 rest of
                      None \<Rightarrow> None
                    | Some n \<Rightarrow>
                        if 0xD800 \<le> n \<and> n < 0xE000 then
                          (case (if n < 0xDC00 then low_surrogate (drop 4 rest) else None) of
                             Some m \<Rightarrow>
                               map_option (\<lambda>(t, r). (utf8 (0x10000 + (n - 0xD800) * 0x400 + (m - 0xDC00)) @ t, r))
                                 (scan_string (drop 10 rest))
                           | None \<Rightarrow>
                               map_option (\<lambda>(t, r). (utf8 0xFFFD @ t, r)) (scan_string (drop 4 rest)))
                        else map_option (\<lambda>(t, r). (utf8 n @ t, r)) (scan_string (drop 4 rest)))
                 else
                   (case simple_escape e of
                      None \<Rightarrow> None
                    | Some d \<Rightarrow> map_option (\<lambda>(t, r). (d # t, r)) (scan_string rest)))
          else if (of_char c :: nat) < 32 then None
          else map_option (\<lambda>(t, r). (c # t, r)) (scan_string cs))"
  by pat_completeness auto
termination
  by (relation "measure length") auto

declare scan_string.simps [simp del]

text \<open>A number, without the sign: digits without a leading zero, a fraction, an exponent.\<close>

definition skip_digits :: "string \<Rightarrow> string option" where
  "skip_digits s =
     (case s of [] \<Rightarrow> None | c # cs \<Rightarrow> if is_digit c then Some (dropWhile is_digit cs) else None)"

definition skip_fraction :: "string \<Rightarrow> string option" where
  "skip_fraction s =
     (case s of [] \<Rightarrow> Some [] | c # cs \<Rightarrow> if c = CHR ''.'' then skip_digits cs else Some s)"

definition skip_exponent :: "string \<Rightarrow> string option" where
  "skip_exponent s =
     (case s of
        [] \<Rightarrow> Some []
      | c # cs \<Rightarrow>
          if c = CHR ''e'' \<or> c = CHR ''E'' then
            (case cs of
               [] \<Rightarrow> None
             | d # ds \<Rightarrow> if d = CHR ''+'' \<or> d = CHR ''-'' then skip_digits ds else skip_digits cs)
          else Some s)"

definition skip_unsigned :: "string \<Rightarrow> string option" where
  "skip_unsigned s =
     (case s of
        [] \<Rightarrow> None
      | c # cs \<Rightarrow>
          (case (if c = CHR ''0'' then Some cs else skip_digits s) of
             None \<Rightarrow> None
           | Some r \<Rightarrow> (case skip_fraction r of None \<Rightarrow> None | Some r' \<Rightarrow> skip_exponent r')))"

definition skip_number :: "string \<Rightarrow> string option" where
  "skip_number s =
     (case s of
        [] \<Rightarrow> None
      | c # cs \<Rightarrow> if c = CHR ''-'' then skip_unsigned cs else skip_unsigned s)"

definition skip_word :: "string \<Rightarrow> string \<Rightarrow> string option" where
  "skip_word w s = (if prefix w s then Some (drop (length w) s) else None)"

text \<open>
  The text after the value at the head of \<open>s\<close>; for the inside of an array or object, also the texts of
  the items.  The fuel \<open>n\<close> goes down with each call; \<open>json_fuel\<close> is enough for any text.
\<close>

definition text_before :: "string \<Rightarrow> string \<Rightarrow> string" where
  "text_before s rest = take (length s - length rest) s"

fun skip_value :: "nat \<Rightarrow> string \<Rightarrow> string option"
and scan_items :: "nat \<Rightarrow> string \<Rightarrow> (string list \<times> string) option"
and scan_members :: "nat \<Rightarrow> string \<Rightarrow> ((string \<times> string) list \<times> string) option" where
  "skip_value 0 s = None"
| "skip_value (Suc n) s =
     (case skip_ws s of
        [] \<Rightarrow> None
      | c # cs \<Rightarrow>
          if c = CHR 0x22 then map_option snd (scan_string cs)
          else if c = CHR ''['' then map_option snd (scan_items n cs)
          else if c = CHR ''{'' then map_option snd (scan_members n cs)
          else if c = CHR ''n'' then skip_word ''null'' (c # cs)
          else if c = CHR ''t'' then skip_word ''true'' (c # cs)
          else if c = CHR ''f'' then skip_word ''false'' (c # cs)
          else skip_number (c # cs))"
| "scan_items 0 s = None"
| "scan_items (Suc n) s =
     (case skip_ws s of
        [] \<Rightarrow> None
      | c # cs \<Rightarrow>
          if c = CHR '']'' then Some ([], cs)
          else
            (case skip_value n (c # cs) of
               None \<Rightarrow> None
             | Some r \<Rightarrow>
                 (case skip_ws r of
                    [] \<Rightarrow> None
                  | d # ds \<Rightarrow>
                      if d = CHR '']'' then Some ([text_before (c # cs) r], ds)
                      else if d = CHR '','' \<and> (skip_ws ds = [] \<or> hd (skip_ws ds) \<noteq> CHR '']'')
                      then map_option (\<lambda>(vs, t). (text_before (c # cs) r # vs, t)) (scan_items n ds)
                      else None)))"
| "scan_members 0 s = None"
| "scan_members (Suc n) s =
     (case skip_ws s of
        [] \<Rightarrow> None
      | c # cs \<Rightarrow>
          if c = CHR ''}'' then Some ([], cs)
          else if c = CHR 0x22 then
            (case scan_string cs of
               None \<Rightarrow> None
             | Some (key, r) \<Rightarrow>
                 (case skip_ws r of
                    [] \<Rightarrow> None
                  | d # ds \<Rightarrow>
                      if d = CHR '':'' then
                        (case skip_value n ds of
                           None \<Rightarrow> None
                         | Some r1 \<Rightarrow>
                             (case skip_ws r1 of
                                [] \<Rightarrow> None
                              | e # es \<Rightarrow>
                                  if e = CHR ''}''
                                  then Some ([(key, text_before (skip_ws ds) r1)], es)
                                  else if e = CHR '','' \<and> (skip_ws es = [] \<or> hd (skip_ws es) \<noteq> CHR ''}'')
                                  then map_option (\<lambda>(ms, t). ((key, text_before (skip_ws ds) r1) # ms, t))
                                         (scan_members n es)
                                  else None))
                      else None))
          else None)"

definition json_fuel :: "string \<Rightarrow> nat" where
  "json_fuel s = 2 * length s + 2"

section \<open>Views and decoders\<close>

datatype json =
    JNull
  | JBool bool
  | JNum string
  | JStr string
  | JArr "string list"
  | JObj "(string \<times> string) list"

text \<open>The view of a valid text, and the text of the value without the white space around it.\<close>

definition raw_value :: "string \<Rightarrow> string option" where
  "raw_value s =
     (case skip_value (json_fuel s) s of
        None \<Rightarrow> None
      | Some r \<Rightarrow> if skip_ws r = [] then Some (text_before (skip_ws s) r) else None)"

definition view_of :: "string \<Rightarrow> json" where
  "view_of v =
     (if v = ''null'' then JNull
      else if v = ''true'' then JBool True
      else if v = ''false'' then JBool False
      else case v of
        [] \<Rightarrow> JNull
      | c # cs \<Rightarrow>
          if c = CHR 0x22 then (case scan_string cs of Some (t, r) \<Rightarrow> JStr t | None \<Rightarrow> JNull)
          else if c = CHR ''[''
          then (case scan_items (json_fuel cs) cs of Some (vs, r) \<Rightarrow> JArr vs | None \<Rightarrow> JNull)
          else if c = CHR ''{''
          then (case scan_members (json_fuel cs) cs of Some (ms, r) \<Rightarrow> JObj ms | None \<Rightarrow> JNull)
          else JNum v)"

definition json_view :: "string \<Rightarrow> json option" where
  "json_view s = map_option view_of (raw_value s)"

text \<open>
  A decoder gets the value the field has before and the text of the JSON value; \<open>None\<close> is an error.
\<close>

type_synonym 'a decoder = "'a \<Rightarrow> string \<Rightarrow> 'a option"

fun dec_all :: "('x \<Rightarrow> 'a option) \<Rightarrow> 'x list \<Rightarrow> 'a list option" where
  "dec_all f [] = Some []"
| "dec_all f (x # xs) =
     (case f x of None \<Rightarrow> None | Some y \<Rightarrow> map_option (\<lambda>ys. y # ys) (dec_all f xs))"

definition dec_string :: "string decoder" where
  "dec_string old raw =
     (case json_view raw of
        Some JNull \<Rightarrow> Some old
      | Some (JStr t) \<Rightarrow> Some t
      | _ \<Rightarrow> None)"

text \<open>An \<open>int\<close> field takes a number literal without fraction and exponent, in 64 bits.\<close>

definition dec_int :: "int decoder" where
  "dec_int old raw =
     (case json_view raw of
        Some JNull \<Rightarrow> Some old
      | Some (JNum lit) \<Rightarrow> Atoi lit
      | _ \<Rightarrow> None)"

definition dec_list :: "'a \<Rightarrow> 'a decoder \<Rightarrow> 'a list decoder" where
  "dec_list zero dec old raw =
     (case json_view raw of
        Some JNull \<Rightarrow> Some []
      | Some (JArr vs) \<Rightarrow> dec_all (dec zero) vs
      | _ \<Rightarrow> None)"

text \<open>A field that is a \<^verbatim>\<open>json.RawMessage\<close> takes the text as it is, a null too.\<close>

definition dec_raw :: "string decoder" where
  "dec_raw old raw = Some raw"

text \<open>
  The members of an object that belong to one field, in the order of the text: a later member
  overwrites an earlier one.
\<close>

fun dec_field :: "string \<Rightarrow> 'a decoder \<Rightarrow> (string \<times> string) list \<Rightarrow> 'a \<Rightarrow> 'a option" where
  "dec_field name dec [] x = Some x"
| "dec_field name dec ((key, raw) # ms) x =
     (if ToLower key = ToLower name
      then (case dec x raw of None \<Rightarrow> None | Some y \<Rightarrow> dec_field name dec ms y)
      else dec_field name dec ms x)"

definition dec_struct :: "((string \<times> string) list \<Rightarrow> 'a \<Rightarrow> 'a option) \<Rightarrow> 'a decoder" where
  "dec_struct fields old raw =
     (case json_view raw of
        Some JNull \<Rightarrow> Some old
      | Some (JObj ms) \<Rightarrow> fields ms old
      | _ \<Rightarrow> None)"

lemma dec_field_absent:
  "\<forall>(key, raw) \<in> set ms. ToLower key \<noteq> ToLower name \<Longrightarrow> dec_field name dec ms x = Some x"
  by (induction ms) auto

section \<open>Encoding\<close>

definition hex_digit :: "nat \<Rightarrow> char" where
  "hex_digit d = char_of (if d < 10 then 48 + d else 87 + d)"

definition u_escape :: "nat \<Rightarrow> string" where
  "u_escape n =
     [CHR 0x5C, CHR ''u'', hex_digit (n div 4096 mod 16), hex_digit (n div 256 mod 16),
      hex_digit (n div 16 mod 16), hex_digit (n mod 16)]"

text \<open>One character of an encoded string, for a byte other than those of U+2028 and U+2029.\<close>

definition quote_char :: "char \<Rightarrow> string" where
  "quote_char c =
     (let n = (of_char c :: nat) in
      if n = 34 \<or> n = 92 then [CHR 0x5C, c]
      else if n = 8 then [CHR 0x5C, CHR ''b'']
      else if n = 9 then [CHR 0x5C, CHR ''t'']
      else if n = 10 then [CHR 0x5C, CHR ''n'']
      else if n = 12 then [CHR 0x5C, CHR ''f'']
      else if n = 13 then [CHR 0x5C, CHR ''r'']
      else if n < 32 \<or> n = 38 \<or> n = 60 \<or> n = 62 then u_escape n
      else [c])"

definition line_separators :: "string list" where
  "line_separators = [utf8 0x2028, utf8 0x2029]"

function quote_chars :: "string \<Rightarrow> string" where
  "quote_chars s =
     (case s of
        [] \<Rightarrow> []
      | c # cs \<Rightarrow>
          if prefix (utf8 0x2028) s then u_escape 0x2028 @ quote_chars (drop 2 cs)
          else if prefix (utf8 0x2029) s then u_escape 0x2029 @ quote_chars (drop 2 cs)
          else quote_char c @ quote_chars cs)"
  by pat_completeness auto
termination
  by (relation "measure length") auto

declare quote_chars.simps [simp del]

definition json_string :: "string \<Rightarrow> string" where
  "json_string s = CHR 0x22 # quote_chars s @ [CHR 0x22]"

fun json_commas :: "string list \<Rightarrow> string" where
  "json_commas [] = []"
| "json_commas [v] = v"
| "json_commas (v # vs) = v @ CHR '','' # json_commas vs"

definition json_array :: "string list \<Rightarrow> string" where
  "json_array vs = CHR ''['' # json_commas vs @ '']''"

definition json_member :: "string \<times> string \<Rightarrow> string" where
  "json_member m = json_string (fst m) @ CHR '':'' # snd m"

definition json_object :: "(string \<times> string) list \<Rightarrow> string" where
  "json_object ms = CHR ''{'' # json_commas (map json_member ms) @ ''}''"

text \<open>
  The compact form of a \<^verbatim>\<open>json.RawMessage\<close>: no white space outside of strings, and the HTML
  characters and line separators inside of them escaped.  It fails on a text that is not valid.
\<close>

function compact_from :: "bool \<Rightarrow> string \<Rightarrow> string" where
  "compact_from quoted s =
     (case s of
        [] \<Rightarrow> []
      | c # cs \<Rightarrow>
          if \<not> quoted then
            (if is_json_space c then compact_from quoted cs
             else c # compact_from (c = CHR 0x22) cs)
          else if c = CHR 0x5C then
            (case cs of [] \<Rightarrow> [c] | e # rest \<Rightarrow> c # e # compact_from quoted rest)
          else if c = CHR 0x22 then c # compact_from False cs
          else if (of_char c :: nat) \<in> {38, 60, 62} then u_escape (of_char c) @ compact_from quoted cs
          else if prefix (utf8 0x2028) s then u_escape 0x2028 @ compact_from quoted (drop 2 cs)
          else if prefix (utf8 0x2029) s then u_escape 0x2029 @ compact_from quoted (drop 2 cs)
          else c # compact_from quoted cs)"
  by pat_completeness auto
termination
  by (relation "measure (\<lambda>(quoted, s). length s)") auto

declare compact_from.simps [simp del]

definition json_compact :: "string \<Rightarrow> string option" where
  "json_compact s = map_option (\<lambda>_. compact_from False s) (raw_value s)"

section \<open>The fuel is enough\<close>

text \<open>What is left after a value is shorter than the text; and more fuel than \<open>json_fuel\<close> changes nothing.\<close>

lemma skip_ws_length: "length (skip_ws s) \<le> length s"
  by (simp add: skip_ws_def length_dropWhile_le)

lemma skip_ws_Cons: "skip_ws s = c # cs \<Longrightarrow> length cs < length s"
  using skip_ws_length [of s] by simp

lemma scan_string_shorter: "scan_string s = Some (t, r) \<Longrightarrow> length r < length s"
proof (induction s arbitrary: t r rule: length_induct)
  case (1 s)
  show ?case
  proof (cases s)
    case (Cons c cs)
    have sub: "length r' \<le> length cs" if "scan_string s' = Some (t', r')" "length s' \<le> length cs" for s' t' r'
    proof -
      have "length s' < length s" using that(2) Cons by simp
      then have "length r' < length s'" using "1.IH" that(1) by blast
      then show ?thesis using that(2) by simp
    qed
    have "length r \<le> length cs"
      using "1.prems" Cons
      by (subst (asm) scan_string.simps)
        (auto split: if_splits list.splits option.splits dest!: sub)
    then show ?thesis using Cons by simp
  qed (use "1.prems" in \<open>simp add: scan_string.simps [of "[]"]\<close>)
qed

lemma skip_digits_shorter: "skip_digits s = Some r \<Longrightarrow> length r < length s"
  by (auto simp: skip_digits_def length_dropWhile_le less_Suc_eq_le split: list.splits if_splits)

lemma skip_number_shorter: "skip_number s = Some r \<Longrightarrow> length r < length s"
proof -
  have frac: "length r \<le> length s" if "skip_fraction s = Some r" for s r
    using that by (auto simp: skip_fraction_def dest!: skip_digits_shorter split: list.splits if_splits)
  have expo: "length r \<le> length s" if "skip_exponent s = Some r" for s r
    using that by (auto simp: skip_exponent_def dest!: skip_digits_shorter split: list.splits if_splits)
  have unsig: "length r < length s" if "skip_unsigned s = Some r" for s r
    using that
    by (auto simp: skip_unsigned_def dest!: skip_digits_shorter frac expo split: list.splits if_splits option.splits)
  assume "skip_number s = Some r"
  then show ?thesis
    by (auto simp: skip_number_def dest!: unsig split: list.splits if_splits)
qed

lemma skip_word_shorter: "skip_word w s = Some r \<Longrightarrow> w \<noteq> [] \<Longrightarrow> length r < length s"
  by (auto simp: skip_word_def prefix_def split: if_splits)

lemma skip_ws_step: "skip_ws s = c # cs \<Longrightarrow> length cs \<le> length r \<Longrightarrow> length r < length s \<Longrightarrow> length cs < length s"
  by simp

lemma scan_shorter:
  "skip_value n s = Some r \<Longrightarrow> length r < length s"
  "scan_items n s = Some (vs, r) \<Longrightarrow> length r < length s"
  "scan_members n s = Some (ms, r) \<Longrightarrow> length r < length s"
proof (induction n s and n s and n s arbitrary: r and vs r and ms r
    rule: skip_value_scan_items_scan_members.induct)
  case (2 n s)
  then show ?case
    by (fastforce dest!: skip_ws_Cons scan_string_shorter skip_number_shorter skip_word_shorter
        split: list.splits if_splits)
next
  case (4 n s)
  obtain c cs where c: "skip_ws s = c # cs" using "4.prems" by (auto split: list.splits)
  have len: "length (c # cs) \<le> length s" using skip_ws_length [of s] c by simp
  show ?case
  proof (cases "c = CHR '']''")
    case False
    obtain r1 where r1: "skip_value n (c # cs) = Some r1"
      using "4.prems" c False by (auto split: option.splits)
    have r1_len: "length r1 < length (c # cs)" using "4.IH"(1) [OF c False r1] .
    obtain d ds where d: "skip_ws r1 = d # ds"
      using "4.prems" c False r1 by (auto split: list.splits)
    have ds: "length ds < length r1" using d by (rule skip_ws_Cons)
    show ?thesis
    proof (cases "d = CHR '']''")
      case True
      with "4.prems" c False r1 d have "r = ds" by simp
      with ds r1_len len show ?thesis by simp
    next
      case no_end: False
      obtain vs' where "scan_items n ds = Some (vs', r)"
        using "4.prems" c False r1 d no_end by (auto split: if_splits)
      moreover have "d = CHR '','' \<and> (skip_ws ds = [] \<or> hd (skip_ws ds) \<noteq> CHR '']'')"
        using "4.prems" c False r1 d no_end by (auto split: if_splits)
      ultimately have "length r < length ds"
        using "4.IH"(2) [OF c False r1 d no_end] by blast
      with ds r1_len len show ?thesis by simp
    qed
  qed (use "4.prems" c len in auto)
next
  case (6 n s)
  obtain c cs where c: "skip_ws s = c # cs" using "6.prems" by (auto split: list.splits)
  have len: "length (c # cs) \<le> length s" using skip_ws_length [of s] c by simp
  show ?case
  proof (cases "c = CHR ''}''")
    case False
    with "6.prems" c have q: "c = CHR 0x22" by (auto split: if_splits)
    obtain key r0 where r0: "scan_string cs = Some (key, r0)"
      using "6.prems" c q by (auto split: option.splits)
    obtain d ds where d: "skip_ws r0 = d # ds" "d = CHR '':''"
      using "6.prems" c q r0 by (auto split: list.splits if_splits)
    obtain r1 where r1: "skip_value n ds = Some r1"
      using "6.prems" c q r0 d by (auto split: option.splits)
    have r1_len: "length r1 < length ds" using "6.IH"(1) [OF c False q r0 refl d r1] .
    obtain e es where e: "skip_ws r1 = e # es"
      using "6.prems" c q r0 d r1 by (auto split: list.splits)
    have lens: "length r0 < length cs" "length ds < length r0" "length es < length r1"
      using r0 d(1) e by (auto dest: scan_string_shorter skip_ws_Cons)
    show ?thesis
    proof (cases "e = CHR ''}''")
      case True
      with "6.prems" c q r0 d r1 e have "r = es" by simp
      with lens r1_len len show ?thesis by simp
    next
      case no_end: False
      obtain ms' where "scan_members n es = Some (ms', r)"
        using "6.prems" c q r0 d r1 e no_end by (auto split: if_splits)
      moreover have "e = CHR '','' \<and> (skip_ws es = [] \<or> hd (skip_ws es) \<noteq> CHR ''}'')"
        using "6.prems" c q r0 d r1 e no_end by (auto split: if_splits)
      ultimately have "length r < length es"
        using "6.IH"(2) [OF c False q r0 refl d r1 e no_end] by blast
      with lens r1_len len show ?thesis by simp
    qed
  qed (use "6.prems" c len in auto)
qed simp_all

declare skip_value.simps(2) [simp del] scan_items.simps(2) [simp del] scan_members.simps(2) [simp del]

lemma scan_more_fuel:
  "2 * length s + 1 \<le> n \<Longrightarrow> skip_value (Suc n) s = skip_value n s"
  "2 * length s + 2 \<le> n \<Longrightarrow> scan_items (Suc n) s = scan_items n s"
  "2 * length s + 2 \<le> n \<Longrightarrow> scan_members (Suc n) s = scan_members n s"
proof (induction n arbitrary: s)
  case (Suc n)
  have cs: "2 * length cs + 2 \<le> n" if "skip_ws s = c # cs" "2 * length s + 1 \<le> Suc n" for s c cs
    using skip_ws_Cons [OF that(1)] that(2) by linarith
  {
    case 1
    have "scan_items (Suc n) cs = scan_items n cs \<and> scan_members (Suc n) cs = scan_members n cs"
      if "skip_ws s = c # cs" for c cs
      using Suc.IH(2,3) [of cs] cs [OF that 1] by simp
    then show ?case
      unfolding skip_value.simps(2) [of "Suc n" s] skip_value.simps(2) [of n s]
      by (auto split: list.splits)
  next
    case 2
    have val: "skip_value (Suc n) (c # cs) = skip_value n (c # cs)" if "skip_ws s = c # cs" for c cs
      using Suc.IH(1) [of "c # cs"] skip_ws_length [of s] that 2 by simp
    have rest: "scan_items (Suc n) ds = scan_items n ds"
      if "skip_ws s = c # cs" "skip_value n (c # cs) = Some r" "skip_ws r = d # ds" for c cs r d ds
      using Suc.IH(2) [of ds] skip_ws_length [of s] that(1) scan_shorter(1) [OF that(2)]
        skip_ws_Cons [OF that(3)] 2 by simp
    show ?case
      unfolding scan_items.simps(2) [of "Suc n" s] scan_items.simps(2) [of n s]
      by (intro list.case_cong option.case_cong if_cong refl) (simp_all add: val rest)
  next
    case 3
    have val: "skip_value (Suc n) ds = skip_value n ds"
      if "skip_ws s = c # cs" "scan_string cs = Some (key, r)" "skip_ws r = d # ds" for c cs key r d ds
      using Suc.IH(1) [of ds] skip_ws_length [of s] that(1) scan_string_shorter [OF that(2)]
        skip_ws_Cons [OF that(3)] 3 by simp
    have rest: "scan_members (Suc n) es = scan_members n es"
      if "skip_ws s = c # cs" "scan_string cs = Some (key, r)" "skip_ws r = d # ds"
        "skip_value n ds = Some r1" "skip_ws r1 = e # es" for c cs key r d ds r1 e es
      using Suc.IH(3) [of es] skip_ws_length [of s] that(1) scan_string_shorter [OF that(2)]
        skip_ws_Cons [OF that(3)] scan_shorter(1) [OF that(4)] skip_ws_Cons [OF that(5)] 3 by simp
    show ?case
      unfolding scan_members.simps(2) [of "Suc n" s] scan_members.simps(2) [of n s]
      by (intro list.case_cong option.case_cong prod.case_cong if_cong refl) (simp_all add: val rest)
  }
qed simp_all

lemma skip_value_fuel:
  assumes "json_fuel s \<le> n" shows "skip_value n s = skip_value (json_fuel s) s"
  using assms
proof (induction n rule: dec_induct)
  case (step n)
  then show ?case using scan_more_fuel(1) [of s n] by (simp add: json_fuel_def)
qed simp

end
