(* ===== verification/Regexp.thy ===== *)
theory Regexp
  imports GoStrings
begin

text \<open>
  Go's \<^verbatim>\<open>regexp\<close> package, as far as the patterns of the two sources need it: classes of bytes,
  sequence, the greedy star and option, and numbered groups.  Go prefers the match a
  backtracking search would find first, so the matcher lists all ways in which a pattern matches a
  prefix of the text, in that order; the first one is the match.  A search tries each
  position of the text from the left.
\<close>

section \<open>Patterns\<close>

datatype regexp =
    RChars string
  | RNotChars string
  | REmpty
  | RSeq regexp regexp
  | RAlt regexp regexp
  | RStar regexp
  | RGroup nat regexp

definition RPlus :: "regexp \<Rightarrow> regexp" where
  "RPlus r = RSeq r (RStar r)"

definition ROpt :: "regexp \<Rightarrow> regexp" where
  "ROpt r = RAlt r REmpty"

text \<open>The classes \<^verbatim>\<open>\s\<close> and \<^verbatim>\<open>\d\<close>, and a literal text.\<close>

definition space_chars :: string where
  "space_chars = map char_of [9::nat, 10, 12, 13, 32]"

definition digit_chars :: string where
  "digit_chars = ''0123456789''"

abbreviation RSpaces :: regexp where "RSpaces \<equiv> RStar (RChars space_chars)"
abbreviation RDigits :: regexp where "RDigits \<equiv> RPlus (RChars digit_chars)"

fun RLit :: "string \<Rightarrow> regexp" where
  "RLit [] = REmpty"
| "RLit (c # cs) = RSeq (RChars [c]) (RLit cs)"

fun RCat :: "regexp list \<Rightarrow> regexp" where
  "RCat [] = REmpty"
| "RCat (r # rs) = RSeq r (RCat rs)"

section \<open>Matching\<close>

type_synonym captures = "nat \<Rightarrow> string option"

text \<open>
  All matches of a prefix, the preferred one first: the captures and the rest of the text.  An
  iteration of a star that consumes nothing is not repeated.
\<close>

function rmatch :: "regexp \<Rightarrow> captures \<Rightarrow> string \<Rightarrow> (captures \<times> string) list" where
  "rmatch (RChars cs) caps s =
     (case s of [] \<Rightarrow> [] | c # rest \<Rightarrow> if c \<in> set cs then [(caps, rest)] else [])"
| "rmatch (RNotChars cs) caps s =
     (case s of [] \<Rightarrow> [] | c # rest \<Rightarrow> if c \<in> set cs then [] else [(caps, rest)])"
| "rmatch REmpty caps s = [(caps, s)]"
| "rmatch (RSeq r1 r2) caps s =
     concat (map (\<lambda>(caps', s'). rmatch r2 caps' s') (rmatch r1 caps s))"
| "rmatch (RAlt r1 r2) caps s = rmatch r1 caps s @ rmatch r2 caps s"
| "rmatch (RStar r) caps s =
     concat (map (\<lambda>(caps', s'). if length s' < length s then rmatch (RStar r) caps' s' else [])
       (rmatch r caps s)) @ [(caps, s)]"
| "rmatch (RGroup n r) caps s =
     map (\<lambda>(caps', s'). (caps'(n \<mapsto> take (length s - length s') s), s')) (rmatch r caps s)"
  by pat_completeness auto
termination
  by (relation "measures [\<lambda>(r, caps, s). size r, \<lambda>(r, caps, s). length s]") auto

declare rmatch.simps(6) [simp del]

text \<open>
  \<^verbatim>\<open>FindStringSubmatch\<close> gives the captures of the leftmost match, and the rest of the text after it, which
  \<^verbatim>\<open>FindAllStringSubmatch\<close> goes on with.  The patterns of the program match at least one character.
\<close>

fun find_match :: "regexp \<Rightarrow> string \<Rightarrow> (captures \<times> string) option" where
  "find_match r [] = (case rmatch r Map.empty [] of [] \<Rightarrow> None | m # _ \<Rightarrow> Some m)"
| "find_match r (c # cs) =
     (case rmatch r Map.empty (c # cs) of [] \<Rightarrow> find_match r cs | m # _ \<Rightarrow> Some m)"

definition group :: "captures \<Rightarrow> nat \<Rightarrow> string" where
  "group caps n = (case caps n of None \<Rightarrow> [] | Some s \<Rightarrow> s)"

definition FindSubmatch :: "regexp \<Rightarrow> string \<Rightarrow> captures option" where
  "FindSubmatch r s = map_option fst (find_match r s)"

function FindAllSubmatch :: "regexp \<Rightarrow> string \<Rightarrow> captures list" where
  "FindAllSubmatch r s =
     (case find_match r s of
        None \<Rightarrow> []
      | Some (caps, rest) \<Rightarrow>
          caps # (if length rest < length s then FindAllSubmatch r rest else []))"
  by pat_completeness auto
termination
  by (relation "measure (\<lambda>(r, s). length s)") auto

declare FindAllSubmatch.simps [simp del]

section \<open>Facts on matching\<close>

text \<open>What is left of the text is a suffix of it.\<close>

lemma rmatch_suffix: "(caps', s') \<in> set (rmatch r caps s) \<Longrightarrow> suffix s' s"
proof (induction r caps s arbitrary: caps' s' rule: rmatch.induct)
  case (4 r1 r2 caps s)
  from "4.prems" obtain caps1 s1 where 1: "(caps1, s1) \<in> set (rmatch r1 caps s)"
    and 2: "(caps', s') \<in> set (rmatch r2 caps1 s1)"
    by auto
  have "suffix s1 s" using 1 by (rule "4.IH"(1))
  moreover have "suffix s' s1" using 1 refl 2 by (rule "4.IH"(2))
  ultimately show ?case by (rule suffix_order.trans [rotated])
next
  case (5 r1 r2 caps s)
  then show ?case by auto
next
  case (6 r caps s)
  from "6.prems" consider "s' = s"
    | caps1 s1 where "(caps1, s1) \<in> set (rmatch r caps s)" "length s1 < length s"
        "(caps', s') \<in> set (rmatch (RStar r) caps1 s1)"
    by (auto simp: rmatch.simps(6) [of r caps s] split: if_splits)
  then show ?case
  proof cases
    case 2
    have "suffix s1 s" using 2(1) by (rule "6.IH"(1))
    moreover have "suffix s' s1" using 2(1) refl 2(2,3) by (rule "6.IH"(2))
    ultimately show ?thesis by (rule suffix_order.trans [rotated])
  qed simp
next
  case (7 n r caps s)
  then show ?case by auto
qed (auto split: list.splits if_splits simp: suffix_def)

lemma find_match_suffix: "find_match r s = Some (caps, rest) \<Longrightarrow> suffix rest s"
proof (induction r s rule: find_match.induct)
  case (1 r)
  have "(caps, rest) \<in> set (rmatch r Map.empty [])" using "1.prems" by (simp split: list.splits)
  then show ?case by (rule rmatch_suffix)
next
  case (2 r c cs)
  show ?case
  proof (cases "rmatch r Map.empty (c # cs)")
    case Nil
    with 2 show ?thesis by (auto intro: suffix_ConsI)
  next
    case (Cons m ms)
    with "2.prems" have "(caps, rest) \<in> set (rmatch r Map.empty (c # cs))" by simp
    then show ?thesis by (rule rmatch_suffix)
  qed
qed

text \<open>A literal matches exactly its text.\<close>

lemma rmatch_RLit:
  "rmatch (RLit t) caps s = (if prefix t s then [(caps, drop (length t) s)] else [])"
proof (induction t arbitrary: s)
  case (Cons c t)
  then show ?case by (cases s) auto
qed simp

lemma rmatch_cat: "rmatch (RCat (r # rs)) caps s =
    concat (map (\<lambda>(caps', s'). rmatch (RCat rs) caps' s') (rmatch r caps s))"
  by simp

text \<open>
  The greedy star of a class takes the longest run first; the run of all its characters is the
  first match when what follows does not begin with one of them.
\<close>

lemma rmatch_star_step:
  "rmatch (RStar (RChars cs)) caps [] = [(caps, [])]"
  "rmatch (RStar (RChars cs)) caps (c # s) =
     (if c \<in> set cs then rmatch (RStar (RChars cs)) caps s else []) @ [(caps, c # s)]"
  by (simp_all add: rmatch.simps(6) [of _ _ "[]"] rmatch.simps(6) [of _ _ "c # s"])

lemma rmatch_star_chars:
  "\<exists>ms. rmatch (RStar (RChars cs)) caps s = (caps, dropWhile (\<lambda>c. c \<in> set cs) s) # ms"
proof (induction s)
  case (Cons c s)
  then show ?case by (auto simp: rmatch_star_step)
qed (simp add: rmatch_star_step)

lemma rmatch_star_exact:
  assumes "\<forall>c \<in> set t. c \<in> set cs" "s = [] \<or> hd s \<notin> set cs"
  shows "\<exists>ms. rmatch (RStar (RChars cs)) caps (t @ s) = (caps, s) # ms"
proof -
  have "dropWhile (\<lambda>c. c \<in> set cs) (t @ s) = s"
    using assms by (cases s) (auto simp: dropWhile_append3)
  then show ?thesis using rmatch_star_chars [of cs caps "t @ s"] by simp
qed

text \<open>A pattern that begins with a literal is found nowhere in a text without its first character.\<close>

lemma find_match_skip:
  assumes "\<And>c' s'. c' \<in> set t \<Longrightarrow> rmatch r Map.empty (c' # s') = []"
  shows "find_match r (t @ s) = find_match r s"
  using assms by (induction t) auto

end
