(* ===== verification/GoNet.thy ===== *)
theory GoNet
  imports GoErrors GoTime Json Regexp "HOL-Library.Monad_Syntax"
begin

text \<open>
  What both sources use of \<^verbatim>\<open>net/http\<close>, \<^verbatim>\<open>strconv\<close> and \<^verbatim>\<open>time\<close>.  The remote server and the network
  are outside of the program: a \<open>http_client\<close> gives the outcome of the \<open>n\<close>-th request of a call, an
  error or a response whose body is the bytes that arrive and the error that ends them, if any.  It also
  says which texts \<^verbatim>\<open>url.Parse\<close> refuses.  Library errors are \<open>ErrExternal\<close> with a text that is not
  that of the library.
\<close>

section \<open>Requests and responses\<close>

record http_request =
  rq_URL :: string
  rq_Header :: "(string \<times> string) list"

record http_response =
  rs_StatusCode :: int
  rs_Status :: string
  rs_RetryAfter :: string
  rs_Body :: string
  rs_ReadError :: "string option"
  rs_CloseError :: "string option"

record http_client =
  hc_url_error :: "string \<Rightarrow> string option"
  hc_Do :: "nat \<Rightarrow> http_request \<Rightarrow> string + http_response"

definition StatusNotFound :: int where "StatusNotFound = 404"
definition StatusTooManyRequests :: int where "StatusTooManyRequests = 429"
definition StatusServiceUnavailable :: int where "StatusServiceUnavailable = 503"

definition json_error :: go_error where
  "json_error = ErrExternal ''invalid json''"

section \<open>Integers and strings\<close>

text \<open>Arithmetic on \<^verbatim>\<open>int64\<close> wraps around.\<close>

definition wrap64 :: "int \<Rightarrow> int" where
  "wrap64 i = (i + 2 ^ 63) mod 2 ^ 64 - 2 ^ 63"

lemma wrap64_id: "in_int64 i \<Longrightarrow> wrap64 i = i"
  by (simp add: wrap64_def in_int64_def int64_min_def int64_max_def)

lemma wrap64_range: "in_int64 (wrap64 i)"
proof -
  let ?j = "(i + 2 ^ 63) mod 2 ^ 64"
  have "0 \<le> ?j" "?j < 2 ^ 64" by simp_all
  then show ?thesis
    unfolding wrap64_def in_int64_def int64_min_def int64_max_def by simp
qed

text \<open>\<^verbatim>\<open>strconv.ParseInt\<close> in base 16: an optional sign, then digits of either case.\<close>

definition ParseHex :: "string \<Rightarrow> int option" where
  "ParseHex s =
     (let v = (case s of
                 [] \<Rightarrow> None
               | c # cs \<Rightarrow>
                   (if c = CHR ''-'' then if cs = [] then None else map_option (\<lambda>n. - int n) (parse_hex 0 cs)
                    else if c = CHR ''+'' then if cs = [] then None else map_option int (parse_hex 0 cs)
                    else map_option int (parse_hex 0 s)))
      in case v of None \<Rightarrow> None | Some i \<Rightarrow> if in_int64 i then Some i else None)"

text \<open>\<^verbatim>\<open>strings.Contains\<close>, \<^verbatim>\<open>Index\<close>, \<^verbatim>\<open>LastIndex\<close>, and \<^verbatim>\<open>Trim\<close> for one ASCII character.\<close>

definition Contains :: "string \<Rightarrow> string \<Rightarrow> bool" where
  "Contains s t \<longleftrightarrow> list_ex (prefix t) (suffixes s)"

fun Index :: "char \<Rightarrow> string \<Rightarrow> nat option" where
  "Index c [] = None"
| "Index c (d # ds) = (if c = d then Some 0 else map_option Suc (Index c ds))"

fun LastIndex :: "char \<Rightarrow> string \<Rightarrow> nat option" where
  "LastIndex c [] = None"
| "LastIndex c (d # ds) =
     (case LastIndex c ds of
        Some i \<Rightarrow> Some (Suc i)
      | None \<Rightarrow> if c = d then Some 0 else None)"

definition TrimChar :: "char \<Rightarrow> string \<Rightarrow> string" where
  "TrimChar c s = rev (dropWhile (\<lambda>d. d = c) (rev (dropWhile (\<lambda>d. d = c) s)))"

definition TrimPrefix :: "string \<Rightarrow> string \<Rightarrow> string" where
  "TrimPrefix s p = (if prefix p s then drop (length p) s else s)"

lemma LastIndex_None: "LastIndex c s = None \<longleftrightarrow> c \<notin> set s"
  by (induction s) (auto split: option.splits)

lemma LastIndex_Some: "LastIndex c s = Some i \<Longrightarrow>
    i < length s \<and> s ! i = c \<and> c \<notin> set (drop (Suc i) s)"
  by (induction s arbitrary: i) (auto simp: LastIndex_None split: option.splits if_splits)

lemma Index_le_LastIndex: "Index c s = Some i \<Longrightarrow> \<exists>j. LastIndex c s = Some j \<and> i \<le> j"
proof (induction s arbitrary: i)
  case (Cons d ds)
  show ?case
  proof (cases "c = d")
    case True
    with Cons.prems show ?thesis by (cases "LastIndex c ds") auto
  next
    case False
    with Cons.prems obtain k where "Index c ds = Some k" "i = Suc k" by auto
    with Cons.IH show ?thesis by fastforce
  qed
qed simp

section \<open>Dates of HTTP headers\<close>

text \<open>
  \<^verbatim>\<open>http.ParseTime\<close> tries the formats \<^verbatim>\<open>TimeFormat\<close>, \<^verbatim>\<open>RFC850\<close> and \<^verbatim>\<open>ANSIC\<close>.  Names of days and months are
  looked up without regard to case; the name of the day is not compared with the date.  The result
  is an instant in nanoseconds since 1970.
\<close>

definition day_names :: "string list" where
  "day_names = [''Sunday'', ''Monday'', ''Tuesday'', ''Wednesday'', ''Thursday'', ''Friday'', ''Saturday'']"

definition month_names :: "string list" where
  "month_names = [''Jan'', ''Feb'', ''Mar'', ''Apr'', ''May'', ''Jun'', ''Jul'', ''Aug'', ''Sep'', ''Oct'',
     ''Nov'', ''Dec'']"

fun take_name :: "string list \<Rightarrow> nat \<Rightarrow> string \<Rightarrow> (nat \<times> string) option" where
  "take_name [] i s = None"
| "take_name (n # ns) i s =
     (if length n \<le> length s \<and> ToLower (take (length n) s) = ToLower n
      then Some (i, drop (length n) s) else take_name ns (Suc i) s)"

definition take_text :: "string \<Rightarrow> string \<Rightarrow> string option" where
  "take_text t s = (if prefix t s then Some (drop (length t) s) else None)"

text \<open>Days from 1970 to the given date of the Gregorian calendar.\<close>

definition days_from_civil :: "nat \<Rightarrow> nat \<Rightarrow> nat \<Rightarrow> int" where
  "days_from_civil y m d =
     (let y' = int y - (if m \<le> 2 then 1 else 0);
          era = y' div 400;
          yoe = y' mod 400;
          mp = (int m + 9) mod 12;
          doy = (153 * mp + 2) div 5 + int d - 1;
          doe = yoe * 365 + yoe div 4 - yoe div 100 + doy
      in era * 146097 + doe - 719468)"

definition unix_nano :: "utc_time \<Rightarrow> int" where
  "unix_nano t =
     (days_from_civil (t_year t) (t_month t) (t_day t) * 86400
      + int (t_hour t) * 3600 + int (t_min t) * 60 + int (t_sec t)) * 1000000000 + int (t_nsec t)"

definition civil_nano :: "nat \<Rightarrow> nat \<Rightarrow> nat \<Rightarrow> nat \<Rightarrow> nat \<Rightarrow> nat \<Rightarrow> int option" where
  "civil_nano y m d hh mm ss =
     (let t = UTC y m d hh mm ss 0 in if valid_time t then Some (unix_nano t) else None)"

text \<open>The clock \<^verbatim>\<open>15:04:05\<close>.\<close>

definition take_clock :: "string \<Rightarrow> ((nat \<times> nat \<times> nat) \<times> string) option" where
  "take_clock s =
     do {
       (hh, s1) \<leftarrow> take_num 2 s;
       s2 \<leftarrow> take_text '':'' s1;
       (mm, s3) \<leftarrow> take_num 2 s2;
       s4 \<leftarrow> take_text '':'' s3;
       (ss, s5) \<leftarrow> take_num 2 s4;
       Some ((hh, mm, ss), s5) }"

definition parse_TimeFormat :: "string \<Rightarrow> int option" where
  "parse_TimeFormat s =
     do {
       (_, s1) \<leftarrow> take_name (map (take 3) day_names) 0 s;
       s2 \<leftarrow> take_text '', '' s1;
       (d, s3) \<leftarrow> take_num 2 s2;
       s4 \<leftarrow> take_text '' '' s3;
       (m, s5) \<leftarrow> take_name month_names 1 s4;
       s6 \<leftarrow> take_text '' '' s5;
       (y, s7) \<leftarrow> take_num 4 s6;
       s8 \<leftarrow> take_text '' '' s7;
       ((hh, mm, ss), s9) \<leftarrow> take_clock s8;
       if s9 = '' GMT'' then civil_nano y m d hh mm ss else None }"

text \<open>
  \<^verbatim>\<open>RFC850\<close> has a year of two digits, from 1969 to 2068, and the abbreviation of a zone, three or
  four capital letters, which Go takes at offset zero when it does not know it.
\<close>

definition parse_RFC850 :: "string \<Rightarrow> int option" where
  "parse_RFC850 s =
     do {
       (_, s1) \<leftarrow> take_name day_names 0 s;
       s2 \<leftarrow> take_text '', '' s1;
       (d, s3) \<leftarrow> take_num 2 s2;
       s4 \<leftarrow> take_text ''-'' s3;
       (m, s5) \<leftarrow> take_name month_names 1 s4;
       s6 \<leftarrow> take_text ''-'' s5;
       (y, s7) \<leftarrow> take_num 2 s6;
       s8 \<leftarrow> take_text '' '' s7;
       ((hh, mm, ss), s9) \<leftarrow> take_clock s8;
       zone \<leftarrow> take_text '' '' s9;
       if length zone \<in> {3, 4} \<and> list_all (\<lambda>c. 65 \<le> (of_char c :: nat) \<and> (of_char c :: nat) \<le> 90) zone
       then civil_nano (if y \<ge> 69 then 1900 + y else 2000 + y) m d hh mm ss else None }"

text \<open>In \<^verbatim>\<open>ANSIC\<close> the day of the month is padded with a space.\<close>

definition take_day :: "string \<Rightarrow> (nat \<times> string) option" where
  "take_day s = (case take_text '' '' s of Some s' \<Rightarrow> take_num 1 s' | None \<Rightarrow> take_num 2 s)"

definition parse_ANSIC :: "string \<Rightarrow> int option" where
  "parse_ANSIC s =
     do {
       (_, s1) \<leftarrow> take_name (map (take 3) day_names) 0 s;
       s2 \<leftarrow> take_text '' '' s1;
       (m, s3) \<leftarrow> take_name month_names 1 s2;
       s4 \<leftarrow> take_text '' '' s3;
       (d, s5) \<leftarrow> take_day s4;
       s6 \<leftarrow> take_text '' '' s5;
       ((hh, mm, ss), s7) \<leftarrow> take_clock s6;
       s8 \<leftarrow> take_text '' '' s7;
       (y, s9) \<leftarrow> take_num 4 s8;
       if s9 = '''' then civil_nano y m d hh mm ss else None }"

definition http_ParseTime :: "string \<Rightarrow> int option" where
  "http_ParseTime s =
     (case parse_TimeFormat s of
        Some t \<Rightarrow> Some t
      | None \<Rightarrow> (case parse_RFC850 s of Some t \<Rightarrow> Some t | None \<Rightarrow> parse_ANSIC s))"

end
