(* ===== verification/HitomiResolver.thy ===== *)
theory HitomiResolver
  imports GoNet
begin

text \<open>
  The resolver of \<^verbatim>\<open>internal/sources/hitomi/resolver.go\<close>: the gallery metadata, the script \<^verbatim>\<open>gg.js\<close> that
  says on which host an image lies, the addresses of the pages, and the downloads with their retries.
  A call makes its requests one after the other; \<open>ctx k\<close> is the error of the context at the \<open>k\<close>-th
  attempt and \<open>hc_Do cl k\<close> the network then.  Waiting between attempts has no effect of its own.

  The comparison of page names is \<^verbatim>\<open>natural.Compare\<close> of a third-party package and the sort
  \<^verbatim>\<open>slices.SortFunc\<close> is not stable, so the sorting of the pages is a parameter \<open>sort_pages\<close>.
\<close>

section \<open>Data\<close>

definition metadataDomain :: string where
  "metadataDomain = ''ltn.gold-usergeneratedcontent.net''"

definition imageDomain :: string where
  "imageDomain = ''gold-usergeneratedcontent.net''"

definition hitomiReferer :: string where
  "hitomiReferer = ''https://hitomi.la''"

record PageInfo =
  pi_Hash :: string
  pi_Width :: int
  pi_Height :: int
  pi_Name :: string
  pi_HasAVIF :: int

record DownloadPage =
  dp_Index :: int
  dp_Name :: string
  dp_URL :: string
  dp_Referer :: string
  dp_Hash :: string
  dp_Width :: int
  dp_Height :: int
  dp_ContentType :: string

record rawComic =
  rc_ID :: string
  rc_Title :: string
  rc_GalleryURL :: string
  rc_Files :: "PageInfo list"

record Comic =
  co_Comic :: rawComic
  co_RawJSON :: string
  co_Pages :: "DownloadPage list"

record GGInfo =
  gg_Mapping :: "int \<Rightarrow> int option"
  gg_Base :: string
  gg_Default :: int

definition zero_PageInfo :: PageInfo where
  "zero_PageInfo = \<lparr>pi_Hash = '''', pi_Width = 0, pi_Height = 0, pi_Name = '''', pi_HasAVIF = 0\<rparr>"

definition zero_rawComic :: rawComic where
  "zero_rawComic = \<lparr>rc_ID = '''', rc_Title = '''', rc_GalleryURL = '''', rc_Files = []\<rparr>"

section \<open>Decoding the metadata\<close>

text \<open>\<open>StringID\<close> takes a string or the literal of a number.\<close>

definition dec_StringID :: "string decoder" where
  "dec_StringID old raw =
     (case dec_string '''' raw of
        Some s \<Rightarrow> Some s
      | None \<Rightarrow> (case json_view raw of Some (JNum lit) \<Rightarrow> Some lit | _ \<Rightarrow> None))"

definition PageInfo_fields :: "(string \<times> string) list \<Rightarrow> PageInfo \<Rightarrow> PageInfo option" where
  "PageInfo_fields ms p =
     (case dec_field ''Hash'' dec_string ms (pi_Hash p) of None \<Rightarrow> None | Some hash \<Rightarrow>
     (case dec_field ''Width'' dec_int ms (pi_Width p) of None \<Rightarrow> None | Some width \<Rightarrow>
     (case dec_field ''Height'' dec_int ms (pi_Height p) of None \<Rightarrow> None | Some height \<Rightarrow>
     (case dec_field ''Name'' dec_string ms (pi_Name p) of None \<Rightarrow> None | Some name \<Rightarrow>
     (case dec_field ''HasAVIF'' dec_int ms (pi_HasAVIF p) of None \<Rightarrow> None | Some avif \<Rightarrow>
        Some \<lparr>pi_Hash = hash, pi_Width = width, pi_Height = height, pi_Name = name,
              pi_HasAVIF = avif\<rparr>)))))"

definition rawComic_fields :: "(string \<times> string) list \<Rightarrow> rawComic \<Rightarrow> rawComic option" where
  "rawComic_fields ms c =
     (case dec_field ''ID'' dec_StringID ms (rc_ID c) of None \<Rightarrow> None | Some i \<Rightarrow>
     (case dec_field ''Title'' dec_string ms (rc_Title c) of None \<Rightarrow> None | Some title \<Rightarrow>
     (case dec_field ''GalleryURL'' dec_string ms (rc_GalleryURL c) of None \<Rightarrow> None | Some url \<Rightarrow>
     (case dec_field ''Files'' (dec_list zero_PageInfo (dec_struct PageInfo_fields)) ms (rc_Files c) of
        None \<Rightarrow> None | Some files \<Rightarrow>
        Some \<lparr>rc_ID = i, rc_Title = title, rc_GalleryURL = url, rc_Files = files\<rparr>))))"

definition DeserializeGalleryInfo :: "string \<Rightarrow> go_error + Comic" where
  "DeserializeGalleryInfo raw =
     (case dec_struct rawComic_fields zero_rawComic raw of
        None \<Rightarrow> Inl (ErrWrap ''decode galleryinfo: '' json_error '''')
      | Some rC \<Rightarrow>
          (if length (rc_Files rC) = 0 then Inl (ErrText ''galleryinfo has no files'')
           else Inr \<lparr>co_Comic = rC, co_RawJSON = raw, co_Pages = []\<rparr>))"

definition parseGalleryInfo :: "string \<Rightarrow> go_error + string" where
  "parseGalleryInfo raw =
     (if \<not> Contains raw ''galleryinfo'' then Inl (ErrText ''galleryinfo not found'')
      else
        (case (Index (CHR ''{'') raw, LastIndex (CHR ''}'') raw) of
           (Some start, Some end') \<Rightarrow>
             (if end' \<le> start then Inl (ErrText ''galleryinfo json object not found'')
              else Inr (take (end' + 1 - start) (drop start raw)))
         | _ \<Rightarrow> Inl (ErrText ''galleryinfo json object not found'')))"

section \<open>The script\<close>

definition caseRe :: regexp where
  "caseRe = RCat [RLit ''case'', RPlus (RChars space_chars), RGroup 1 RDigits, RLit '':'',
     ROpt (RCat [RSpaces, RLit ''o'', RSpaces, RLit ''='', RSpaces, RGroup 2 RDigits])]"

definition ifRe :: regexp where
  "ifRe = RCat [RLit ''if'', RSpaces, RLit ''(g'', RSpaces, RLit ''=='', ROpt (RLit ''=''), RSpaces,
     RGroup 1 RDigits, RLit '')'', RStar (RChars (space_chars @ ''{'')), RLit ''o'', RSpaces, RLit ''='',
     RSpaces, RGroup 2 RDigits]"

definition defaultRe :: regexp where
  "defaultRe = RCat [RAlt (RCat [RLit ''var'', RPlus (RChars space_chars)]) (RLit ''default:''), RSpaces,
     RLit ''o'', RSpaces, RLit ''='', RSpaces, RGroup 1 RDigits]"

definition baseRe :: regexp where
  "baseRe = RCat [RLit ''b:'', RSpaces, RChars [CHR 0x22, CHR 0x27],
     RGroup 1 (RPlus (RNotChars [CHR 0x22, CHR 0x27])), RChars [CHR 0x22, CHR 0x27]]"

definition atoi_error :: go_error where
  "atoi_error = ErrExternal ''strconv.Atoi''"

text \<open>The loop over the \<open>case\<close> labels: labels wait in \<open>pendingKeys\<close> for the next assignment.\<close>

fun gg_cases ::
  "captures list \<Rightarrow> int list \<Rightarrow> (int \<Rightarrow> int option) \<Rightarrow> go_error + (int \<Rightarrow> int option)" where
  "gg_cases [] pendingKeys mapping = Inr mapping"
| "gg_cases (match # matches) pendingKeys mapping =
     (case Atoi (group match 1) of
        None \<Rightarrow> Inl (ErrWrap ''parse gg case key: '' atoi_error '''')
      | Some key \<Rightarrow>
          (let pending = pendingKeys @ [key] in
           if group match 2 = '''' then gg_cases matches pending mapping
           else
             (case Atoi (group match 2) of
                None \<Rightarrow> Inl (ErrWrap ''parse gg case value: '' atoi_error '''')
              | Some value \<Rightarrow>
                  gg_cases matches [] (fold (\<lambda>k m. m(k \<mapsto> value)) pending mapping))))"

fun gg_ifs :: "captures list \<Rightarrow> (int \<Rightarrow> int option) \<Rightarrow> go_error + (int \<Rightarrow> int option)" where
  "gg_ifs [] mapping = Inr mapping"
| "gg_ifs (match # matches) mapping =
     (case Atoi (group match 1) of
        None \<Rightarrow> Inl (ErrWrap ''parse gg if key: '' atoi_error '''')
      | Some key \<Rightarrow>
          (case Atoi (group match 2) of
             None \<Rightarrow> Inl (ErrWrap ''parse gg if value: '' atoi_error '''')
           | Some value \<Rightarrow> gg_ifs matches (mapping(key \<mapsto> value))))"

definition gg_default :: "string \<Rightarrow> go_error + int" where
  "gg_default raw =
     (case FindSubmatch defaultRe raw of
        None \<Rightarrow> Inr 0
      | Some match \<Rightarrow>
          (case Atoi (group match 1) of
             None \<Rightarrow> Inl (ErrWrap ''parse gg default: '' atoi_error '''')
           | Some value \<Rightarrow> Inr value))"

definition ParseGG :: "string \<Rightarrow> go_error + GGInfo" where
  "ParseGG raw =
     (case gg_cases (FindAllSubmatch caseRe raw) [] Map.empty of
        Inl e \<Rightarrow> Inl e
      | Inr mapping \<Rightarrow>
     (case gg_ifs (FindAllSubmatch ifRe raw) mapping of
        Inl e \<Rightarrow> Inl e
      | Inr mapping' \<Rightarrow>
     (case gg_default raw of
        Inl e \<Rightarrow> Inl e
      | Inr dflt \<Rightarrow>
     (case FindSubmatch baseRe raw of
        None \<Rightarrow> Inl (ErrText ''gg base path not found'')
      | Some match \<Rightarrow>
          Inr \<lparr>gg_Mapping = mapping', gg_Base = TrimChar (CHR ''/'') (group match 1),
               gg_Default = dflt\<rparr>))))"

section \<open>The addresses of the pages\<close>

definition DownloadURL :: "string \<Rightarrow> GGInfo \<Rightarrow> string \<Rightarrow> go_error + string" where
  "DownloadURL hash0 gg ext0 =
     (let hash = TrimSpace hash0;
          ext1 = TrimPrefix (TrimSpace ext0) ''.'';
          ext = (if ext1 = '''' then ''webp'' else ext1)
      in if length hash < 3 then Inl (ErrText ''image hash is too short'')
         else if gg_Base gg = '''' then Inl (ErrText ''gg base path is empty'')
         else
           (let n = length hash;
                inumRaw = utf8 (of_char (hash ! (n - 1))) @ take 2 (drop (n - 3) hash)
            in case ParseHex inumRaw of
                 None \<Rightarrow> Inl (ErrWrap ''parse image hash shard: '' (ErrExternal ''strconv.ParseInt'') '''')
               | Some inum \<Rightarrow>
                   (let shard = (case gg_Mapping gg inum of Some mapped \<Rightarrow> mapped | None \<Rightarrow> gg_Default gg);
                        subdomain = utf8 (of_char (hd ext)) @ Itoa (wrap64 (shard + 1))
                    in Inr (''https://'' @ subdomain @ ''.'' @ imageDomain @ ''/'' @ gg_Base gg @ ''/''
                            @ Itoa inum @ ''/'' @ hash @ ''.'' @ ext))))"

definition webpName :: "string \<Rightarrow> string" where
  "webpName name0 =
     (let name = TrimSpace name0 in
      if name = '''' then ''page.webp''
      else case LastIndex (CHR ''.'') name of
        Some dot \<Rightarrow> take dot name @ ''.webp''
      | None \<Rightarrow> name @ ''.webp'')"

fun decode_pages :: "string \<Rightarrow> GGInfo \<Rightarrow> nat \<Rightarrow> PageInfo list \<Rightarrow> go_error + DownloadPage list" where
  "decode_pages referer gg index [] = Inr []"
| "decode_pages referer gg index (file # files) =
     (case DownloadURL (pi_Hash file) gg ''webp'' of
        Inl e \<Rightarrow> Inl (ErrWrap (''decode page '' @ Itoa (int index) @ '': '') e '''')
      | Inr url \<Rightarrow>
          map_sum id (\<lambda>pages.
            \<lparr>dp_Index = int index, dp_Name = webpName (pi_Name file), dp_URL = url, dp_Referer = referer,
             dp_Hash = pi_Hash file, dp_Width = pi_Width file, dp_Height = pi_Height file,
             dp_ContentType = ''image/webp''\<rparr> # pages)
            (decode_pages referer gg (Suc index) files))"

definition DecodeDownloadPages :: "rawComic \<Rightarrow> GGInfo \<Rightarrow> go_error + DownloadPage list" where
  "DecodeDownloadPages comic gg = decode_pages (hitomiReferer @ rc_GalleryURL comic) gg 0 (rc_Files comic)"

section \<open>Requests\<close>

definition userAgent :: "string \<times> string" where
  "userAgent = (''User-Agent'', ''document-archive/0.1'')"

fun getBytes_loop ::
  "http_client \<Rightarrow> (nat \<Rightarrow> string option) \<Rightarrow> string \<Rightarrow> (string \<times> string) list \<Rightarrow> nat \<Rightarrow> nat \<Rightarrow> go_error option
     \<Rightarrow> go_error + string" where
  "getBytes_loop cl ctx url headers 0 attempt lastErr =
     Inl (case lastErr of None \<Rightarrow> ErrText ''request failed'' | Some e \<Rightarrow> e)"
| "getBytes_loop cl ctx url headers (Suc n) attempt lastErr =
     (case ctx attempt of Some e \<Rightarrow> Inl (ErrExternal e) | None \<Rightarrow>
     (case hc_url_error cl url of Some e \<Rightarrow> Inl (ErrExternal e) | None \<Rightarrow>
     (case hc_Do cl attempt
             \<lparr>rq_URL = url, rq_Header = [userAgent, (''Referer'', hitomiReferer @ ''/'')] @ headers\<rparr> of
        Inl e \<Rightarrow> getBytes_loop cl ctx url headers n (Suc attempt) (Some (ErrExternal e))
      | Inr resp \<Rightarrow>
     (case rs_ReadError resp of
        Some e \<Rightarrow> getBytes_loop cl ctx url headers n (Suc attempt) (Some (ErrExternal e))
      | None \<Rightarrow>
     (case rs_CloseError resp of
        Some e \<Rightarrow> getBytes_loop cl ctx url headers n (Suc attempt) (Some (ErrExternal e))
      | None \<Rightarrow>
          (if rs_StatusCode resp = StatusNotFound then Inl ErrComicNotFound
           else if rs_StatusCode resp \<ge> 200 \<and> rs_StatusCode resp < 300 then Inr (rs_Body resp)
           else getBytes_loop cl ctx url headers n (Suc attempt)
                  (Some (ErrText (''GET '' @ url @ '' returned '' @ rs_Status resp)))))))))"

definition getBytes ::
  "http_client \<Rightarrow> (nat \<Rightarrow> string option) \<Rightarrow> string \<Rightarrow> (string \<times> string) list \<Rightarrow> go_error + string" where
  "getBytes cl ctx url headers = getBytes_loop cl ctx url headers 5 0 None"

definition getText ::
  "http_client \<Rightarrow> (nat \<Rightarrow> string option) \<Rightarrow> string \<Rightarrow> (string \<times> string) list \<Rightarrow> go_error + string" where
  "getText cl ctx url headers = getBytes cl ctx url headers"

text \<open>The time a server asks to wait, in nanoseconds; the product with a second wraps around.\<close>

definition parseRetryAfter :: "string \<Rightarrow> int \<Rightarrow> int" where
  "parseRetryAfter value0 now =
     (let value = TrimSpace value0 in
      if value = '''' then 0
      else case Atoi value of
        Some seconds \<Rightarrow> (if seconds \<le> 0 then 0 else wrap64 (seconds * 1000000000))
      | None \<Rightarrow>
          (case http_ParseTime value of
             None \<Rightarrow> 0
           | Some when \<Rightarrow> (if \<not> when > now then 0 else min int64_max (when - now))))"

text \<open>
  \<open>DownloadPage\<close> writes the body of the response to the writer \<open>w\<close>, which is the text written so far.
\<close>

fun DownloadPage_loop ::
  "http_client \<Rightarrow> (nat \<Rightarrow> string option) \<Rightarrow> (nat \<Rightarrow> int) \<Rightarrow> DownloadPage \<Rightarrow> nat \<Rightarrow> nat \<Rightarrow> go_error option \<Rightarrow> string
     \<Rightarrow> (go_error + unit) \<times> string" where
  "DownloadPage_loop cl ctx now page 0 attempt lastErr w =
     (Inl (case lastErr of None \<Rightarrow> ErrText ''request failed'' | Some e \<Rightarrow> e), w)"
| "DownloadPage_loop cl ctx now page (Suc n) attempt lastErr w =
     (case ctx attempt of
        Some e \<Rightarrow> DownloadPage_loop cl ctx now page n (Suc attempt) (Some (ErrExternal e)) w
      | None \<Rightarrow>
     (case hc_url_error cl (dp_URL page) of
        Some e \<Rightarrow> DownloadPage_loop cl ctx now page n (Suc attempt) (Some (ErrExternal e)) w
      | None \<Rightarrow>
     (case hc_Do cl attempt
             \<lparr>rq_URL = dp_URL page,
              rq_Header = [userAgent, (''Referer'', if dp_Referer page \<noteq> '''' then dp_Referer page
                                                   else hitomiReferer @ ''/'')]\<rparr> of
        Inl e \<Rightarrow> DownloadPage_loop cl ctx now page n (Suc attempt) (Some (ErrExternal e)) w
      | Inr resp \<Rightarrow>
          (if rs_StatusCode resp = StatusNotFound
           then (Inl (ErrText (''page not found: '' @ dp_URL page)), w)
           else if rs_StatusCode resp = StatusTooManyRequests
                \<or> rs_StatusCode resp = StatusServiceUnavailable
           then (Inl (HitomiRateLimitError (dp_URL page) (rs_StatusCode resp)
                        (parseRetryAfter (rs_RetryAfter resp) (now attempt))), w)
           else if rs_StatusCode resp \<ge> 200 \<and> rs_StatusCode resp < 300
           then (case rs_ReadError resp of
                   Some e \<Rightarrow> DownloadPage_loop cl ctx now page n (Suc attempt) (Some (ErrExternal e))
                               (w @ rs_Body resp)
                 | None \<Rightarrow> (Inr (), w @ rs_Body resp))
           else DownloadPage_loop cl ctx now page n (Suc attempt)
                  (Some (ErrText (''GET '' @ dp_URL page @ '' returned '' @ rs_Status resp))) w))))"

definition Resolver_DownloadPage ::
  "http_client \<Rightarrow> (nat \<Rightarrow> string option) \<Rightarrow> (nat \<Rightarrow> int) \<Rightarrow> DownloadPage \<Rightarrow> string \<Rightarrow> (go_error + unit) \<times> string" where
  "Resolver_DownloadPage cl ctx now page w = DownloadPage_loop cl ctx now page 5 0 None w"

section \<open>Resolving\<close>

definition fetchComic :: "http_client \<Rightarrow> (nat \<Rightarrow> string option) \<Rightarrow> string \<Rightarrow> go_error + Comic" where
  "fetchComic cl ctx galleryID0 =
     (let galleryID = TrimSpace galleryID0 in
      if galleryID = '''' then Inl (ErrText ''gallery id is required'')
      else case getText cl ctx (''https://'' @ metadataDomain @ ''/galleries/'' @ galleryID @ ''.js'') [] of
        Inl e \<Rightarrow> Inl e
      | Inr raw \<Rightarrow>
          (case parseGalleryInfo raw of Inl e \<Rightarrow> Inl e | Inr rawJSON \<Rightarrow> DeserializeGalleryInfo rawJSON))"

definition FetchGG :: "http_client \<Rightarrow> (nat \<Rightarrow> string option) \<Rightarrow> int \<Rightarrow> go_error + GGInfo" where
  "FetchGG cl ctx now_ms =
     (case getText cl ctx (''https://'' @ metadataDomain @ ''/gg.js?_='' @ Itoa now_ms) [] of
        Inl e \<Rightarrow> Inl e
      | Inr raw \<Rightarrow> ParseGG raw)"

definition ResolveComic ::
  "http_client \<Rightarrow> (nat \<Rightarrow> string option) \<Rightarrow> int \<Rightarrow> (DownloadPage list \<Rightarrow> DownloadPage list) \<Rightarrow> Comic
     \<Rightarrow> go_error + Comic" where
  "ResolveComic cl ctx now_ms sort_pages comic =
     (case FetchGG cl ctx now_ms of
        Inl e \<Rightarrow> Inl e
      | Inr gg \<Rightarrow>
          (case DecodeDownloadPages (co_Comic comic) gg of
             Inl e \<Rightarrow> Inl e
           | Inr pages \<Rightarrow> Inr (comic\<lparr>co_Pages := sort_pages pages\<rparr>)))"

definition ResolveID ::
  "http_client \<Rightarrow> (nat \<Rightarrow> string option) \<Rightarrow> int \<Rightarrow> (DownloadPage list \<Rightarrow> DownloadPage list) \<Rightarrow> string
     \<Rightarrow> go_error + Comic" where
  "ResolveID cl ctx now_ms sort_pages galleryID =
     (case fetchComic cl ctx galleryID of
        Inl e \<Rightarrow> Inl e
      | Inr comic \<Rightarrow> ResolveComic cl ctx now_ms sort_pages comic)"

section \<open>What the requests give\<close>

definition ok_status :: "http_response \<Rightarrow> bool" where
  "ok_status resp \<longleftrightarrow> 200 \<le> rs_StatusCode resp \<and> rs_StatusCode resp < 300"

definition get_request :: "string \<Rightarrow> (string \<times> string) list \<Rightarrow> http_request" where
  "get_request url headers =
     \<lparr>rq_URL = url, rq_Header = [userAgent, (''Referer'', hitomiReferer @ ''/'')] @ headers\<rparr>"

definition page_request :: "DownloadPage \<Rightarrow> http_request" where
  "page_request page =
     \<lparr>rq_URL = dp_URL page,
      rq_Header = [userAgent, (''Referer'', if dp_Referer page \<noteq> '''' then dp_Referer page
                                           else hitomiReferer @ ''/'')]\<rparr>"

text \<open>The \<open>k\<close>-th request got a successful answer whose body was read completely.\<close>

definition answered :: "http_client \<Rightarrow> http_request \<Rightarrow> string \<Rightarrow> nat \<Rightarrow> bool" where
  "answered cl req body k \<longleftrightarrow>
     (case hc_Do cl k req of
        Inl e \<Rightarrow> False
      | Inr resp \<Rightarrow> ok_status resp \<and> rs_ReadError resp = None \<and> rs_Body resp = body)"

lemma getBytes_loop_ok:
  "getBytes_loop cl ctx url headers n attempt lastErr = Inr body \<Longrightarrow>
   \<exists>k < attempt + n. answered cl (get_request url headers) body k"
proof (induction n arbitrary: attempt lastErr)
  case (Suc n)
  consider "answered cl (get_request url headers) body attempt"
    | e where "getBytes_loop cl ctx url headers n (Suc attempt) (Some e) = Inr body"
    using Suc.prems
    by (auto simp: answered_def ok_status_def get_request_def split: option.splits sum.splits if_splits)
  then show ?case
  proof cases
    case 1
    then show ?thesis by (intro exI [of _ attempt]) simp
  next
    case 2
    then show ?thesis using Suc.IH by fastforce
  qed
qed simp

lemma getBytes_ok:
  assumes "getBytes cl ctx url headers = Inr body"
  shows "\<exists>k < 5. answered cl (get_request url headers) body k"
  using getBytes_loop_ok [OF assms [unfolded getBytes_def]] by simp

text \<open>
  What \<open>DownloadPage\<close> has written when it succeeds: the body of the successful answer, after whatever
  earlier attempts wrote before their bodies broke off.
\<close>

definition broken_off :: "http_client \<Rightarrow> (nat \<Rightarrow> string option) \<Rightarrow> http_request \<Rightarrow> nat \<Rightarrow> string" where
  "broken_off cl ctx req k =
     (if ctx k \<noteq> None \<or> hc_url_error cl (rq_URL req) \<noteq> None then []
      else case hc_Do cl k req of
        Inl e \<Rightarrow> []
      | Inr resp \<Rightarrow> if ok_status resp \<and> rs_ReadError resp \<noteq> None then rs_Body resp else [])"

lemma DownloadPage_loop_step:
  assumes "DownloadPage_loop cl ctx now page (Suc n) attempt lastErr w = (r, w')"
  shows "(\<exists>body. answered cl (page_request page) body attempt \<and> r = Inr () \<and> w' = w @ body) \<or>
    w' = w \<and> (\<exists>e. r = Inl e \<and>
      (\<not> errors_Is e ErrRateLimited \<or> (\<exists>status retry. e = HitomiRateLimitError (dp_URL page) status retry))) \<or>
    (\<exists>e. \<not> errors_Is e ErrRateLimited \<and>
      DownloadPage_loop cl ctx now page n (Suc attempt) (Some e)
        (w @ broken_off cl ctx (page_request page) attempt) = (r, w'))"
proof (cases "ctx attempt = None \<and> hc_url_error cl (dp_URL page) = None")
  case True
  show ?thesis
  proof (cases "hc_Do cl attempt (page_request page)")
    case (Inl e)
    with True assms show ?thesis
      by (intro disjI2 exI [of _ "ErrExternal e"]) (simp add: broken_off_def page_request_def)
  next
    case (Inr resp)
    show ?thesis
    proof (cases "ok_status resp")
      case ok: True
      then have "rs_StatusCode resp \<notin> {StatusNotFound, StatusTooManyRequests, StatusServiceUnavailable}"
        by (auto simp: ok_status_def StatusNotFound_def StatusTooManyRequests_def StatusServiceUnavailable_def)
      with ok True Inr assms show ?thesis
        by (cases "rs_ReadError resp")
          (auto simp: ok_status_def answered_def broken_off_def page_request_def intro: exI [of _ "ErrExternal e" for e])
    next
      case False
      with True Inr assms show ?thesis
        by (auto simp: ok_status_def broken_off_def page_request_def split: if_splits
            intro: exI [of _ "ErrText t" for t])
    qed
  qed
next
  case False
  then obtain e where "DownloadPage_loop cl ctx now page n (Suc attempt) (Some (ErrExternal e)) w = (r, w')"
    using assms by (cases "ctx attempt"; cases "hc_url_error cl (dp_URL page)") simp_all
  with False show ?thesis
    by (intro disjI2 exI [of _ "ErrExternal e"]) (simp add: broken_off_def page_request_def)
qed

lemma DownloadPage_loop_ok:
  "DownloadPage_loop cl ctx now page n attempt lastErr w = (Inr (), w') \<Longrightarrow>
   \<exists>k < attempt + n. attempt \<le> k \<and> (\<exists>body. answered cl (page_request page) body k \<and>
     w' = w @ concat (map (broken_off cl ctx (page_request page)) [attempt..<k]) @ body)"
proof (induction n arbitrary: attempt lastErr w)
  case (Suc n)
  let ?b = "broken_off cl ctx (page_request page)"
  from DownloadPage_loop_step [OF Suc.prems]
  consider body where "answered cl (page_request page) body attempt" "w' = w @ body"
    | e where "DownloadPage_loop cl ctx now page n (Suc attempt) (Some e) (w @ ?b attempt) = (Inr (), w')"
    by auto
  then show ?case
  proof cases
    case 1
    then show ?thesis by (intro exI [of _ attempt]) auto
  next
    case 2
    from Suc.IH [OF this] obtain k body where k: "k < Suc attempt + n" "Suc attempt \<le> k"
      "answered cl (page_request page) body k"
      "w' = (w @ ?b attempt) @ concat (map ?b [Suc attempt..<k]) @ body"
      by auto
    moreover have "[attempt..<k] = attempt # [Suc attempt..<k]" using k(2) by (simp add: upt_rec)
    ultimately show ?thesis by (intro exI [of _ k]) auto
  qed
qed simp

lemma DownloadPage_ok:
  assumes "Resolver_DownloadPage cl ctx now page w = (Inr (), w')"
  shows "\<exists>k < 5. \<exists>body. answered cl (page_request page) body k \<and>
    w' = w @ concat (map (broken_off cl ctx (page_request page)) [0..<k]) @ body"
  using DownloadPage_loop_ok [OF assms [unfolded Resolver_DownloadPage_def]] by auto

text \<open>On a network whose bodies never break off, the content is exactly the body of an answer.\<close>

lemma DownloadPage_exact:
  assumes "Resolver_DownloadPage cl ctx now page [] = (Inr (), content)"
    and "\<And>k resp. hc_Do cl k (page_request page) = Inr resp \<Longrightarrow> rs_ReadError resp = None"
  shows "\<exists>k < 5. answered cl (page_request page) content k"
proof -
  have "broken_off cl ctx (page_request page) k = []" for k
    using assms(2) [of k] by (auto simp: broken_off_def split: sum.splits)
  then have "concat (map (broken_off cl ctx (page_request page)) ks) = []" for ks by simp
  with DownloadPage_ok [OF assms(1)] show ?thesis by auto
qed

text \<open>A rate limited answer ends the download at once, with the delay the server asks for.\<close>

lemma DownloadPage_loop_rate_limited:
  assumes "DownloadPage_loop cl ctx now page n attempt lastErr w = (Inl e, w')"
    and "errors_Is e ErrRateLimited" "\<And>e'. lastErr = Some e' \<Longrightarrow> \<not> errors_Is e' ErrRateLimited"
  shows "\<exists>status retry. e = HitomiRateLimitError (dp_URL page) status retry"
  using assms
proof (induction n arbitrary: attempt lastErr w)
  case 0
  then show ?case by (auto split: option.splits)
next
  case (Suc n)
  from DownloadPage_loop_step [OF Suc.prems(1)] Suc.prems(2) show ?case
    using Suc.IH by (metis Inl_Inr_False option.inject sum.inject(1))
qed

lemma DownloadPage_rate_limited:
  assumes "Resolver_DownloadPage cl ctx now page w = (Inl e, w')" "errors_Is e ErrRateLimited"
  shows "\<exists>status retry. e = HitomiRateLimitError (dp_URL page) status retry"
  using DownloadPage_loop_rate_limited [OF assms(1) [unfolded Resolver_DownloadPage_def] assms(2)] by simp

section \<open>The pages of a gallery\<close>

lemma map_sum_Inr_iff: "map_sum f g x = Inr y \<longleftrightarrow> (\<exists>z. x = Inr z \<and> y = g z)"
  by (cases x) auto

lemma decode_pages_ok:
  assumes "decode_pages referer gg index files = Inr pages"
  shows "length pages = length files \<and>
    (\<forall>i < length files. dp_Index (pages ! i) = int (index + i) \<and> dp_Hash (pages ! i) = pi_Hash (files ! i) \<and>
      dp_Name (pages ! i) = webpName (pi_Name (files ! i)) \<and> dp_ContentType (pages ! i) = ''image/webp'' \<and>
      DownloadURL (pi_Hash (files ! i)) gg ''webp'' = Inr (dp_URL (pages ! i)))"
  using assms
proof (induction referer gg index files arbitrary: pages rule: decode_pages.induct)
  case (2 referer gg index f files)
  from "2.prems" obtain url pages' where url: "DownloadURL (pi_Hash f) gg ''webp'' = Inr url"
    and pages': "decode_pages referer gg (Suc index) files = Inr pages'"
    and pages: "pages = \<lparr>dp_Index = int index, dp_Name = webpName (pi_Name f), dp_URL = url,
      dp_Referer = referer, dp_Hash = pi_Hash f, dp_Width = pi_Width f,
      dp_Height = pi_Height f, dp_ContentType = ''image/webp''\<rparr> # pages'"
    by (auto split: sum.splits simp: map_sum_Inr_iff)
  from "2.IH" [OF url pages'] show ?case
    using url by (auto simp: pages nth_Cons split: nat.split)
qed simp

lemma DecodeDownloadPages_ok:
  assumes "DecodeDownloadPages comic gg = Inr pages"
  shows "length pages = length (rc_Files comic)"
    and "i < length (rc_Files comic) \<Longrightarrow> dp_Index (pages ! i) = int i"
    and "i < length (rc_Files comic) \<Longrightarrow> dp_Hash (pages ! i) = pi_Hash (rc_Files comic ! i)"
    and "i < length (rc_Files comic) \<Longrightarrow> dp_ContentType (pages ! i) = ''image/webp''"
  using decode_pages_ok [OF assms [unfolded DecodeDownloadPages_def]] by auto

text \<open>The address of a page determines its hash, unless a hash contains a slash.\<close>

lemma DownloadURL_shape:
  assumes "DownloadURL hash gg ''webp'' = Inr url"
  shows "\<exists>p. url = p @ CHR ''/'' # TrimSpace hash @ ''.webp''"
proof -
  have "TrimSpace ''webp'' = ''webp''" by (rule TrimSpace_printable) simp
  then have ext: "TrimPrefix (TrimSpace ''webp'') ''.'' = ''webp''" by (simp add: TrimPrefix_def)
  show ?thesis
    using assms unfolding DownloadURL_def Let_def ext
    by (auto split: if_splits option.splits intro!: exI [where x = "''https://'' @ t" for t] simp flip: append_assoc)
qed

end
