(* ===== verification/DocModel.thy ===== *)
theory DocModel
  imports GoErrors GoTime
begin

text \<open>
  The data of \<^verbatim>\<open>internal/documents\<close>: pages, progress, documents and the metadata view that an
  \<open>UpdateMeta\<close> callback edits (\<^verbatim>\<open>model.go\<close>), and the helpers of \<^verbatim>\<open>store.go\<close> that both stores share:
  \<open>pageSlotExists\<close>, \<open>countExistingPages\<close>, \<open>extractDocumentMeta\<close>, \<open>fillDocumentMeta\<close> and the two loops
  that grow and trim the slice of the pages.

  Go's \<open>int\<close> fields are \<open>int\<close>: page indices, sizes and counts stay far below \<open>2 ^ 63\<close>.  A nil
  slice and an empty slice are both the empty list, and a nil \<open>RawMessage\<close> is the empty string.
\<close>

section \<open>Records\<close>

record Progress =
  pr_Done :: int
  pr_Total :: int

record Page =
  pg_Index :: int
  pg_Key :: string
  pg_ContentType :: string
  pg_Size :: int
  pg_Hash :: string

record Document =
  d_ID :: int
  d_Source :: string
  d_SourceDocumentID :: string
  d_SourceMeta :: string
  d_Title :: string
  d_StorageBackend :: string
  d_Progress :: Progress
  d_Error :: string
  d_Pages :: "Page list"
  d_CreatedAt :: utc_time
  d_UpdatedAt :: utc_time
  d_status :: DocumentStatus

record DocumentMeta =
  m_SourceMeta :: string
  m_Title :: string
  m_StorageBackend :: string
  m_status :: DocumentStatus
  m_Progress :: Progress
  m_Error :: string

text \<open>The zero values \<^verbatim>\<open>Page{}\<close> and \<^verbatim>\<open>Document{}\<close>; the zero \<^verbatim>\<open>time.Time\<close> is 1 January of year 1.\<close>

definition zero_Page :: Page where
  "zero_Page = \<lparr>pg_Index = 0, pg_Key = '''', pg_ContentType = '''', pg_Size = 0, pg_Hash = ''''\<rparr>"

definition zero_time :: utc_time where
  "zero_time = UTC 1 1 1 0 0 0 0"

definition zero_Document :: Document where
  "zero_Document =
     \<lparr>d_ID = 0, d_Source = '''', d_SourceDocumentID = '''', d_SourceMeta = '''', d_Title = '''',
      d_StorageBackend = '''', d_Progress = \<lparr>pr_Done = 0, pr_Total = 0\<rparr>, d_Error = '''',
      d_Pages = [], d_CreatedAt = zero_time, d_UpdatedAt = zero_time,
      d_status = StatusUnknown ''''\<rparr>"

definition extractDocumentMeta :: "Document \<Rightarrow> DocumentMeta" where
  "extractDocumentMeta document =
     \<lparr>m_SourceMeta = d_SourceMeta document, m_Title = d_Title document,
      m_StorageBackend = d_StorageBackend document, m_status = d_status document,
      m_Progress = d_Progress document, m_Error = d_Error document\<rparr>"

definition fillDocumentMeta :: "Document \<Rightarrow> DocumentMeta \<Rightarrow> Document" where
  "fillDocumentMeta document meta =
     document\<lparr>d_SourceMeta := m_SourceMeta meta, d_Title := m_Title meta,
              d_StorageBackend := m_StorageBackend meta, d_status := m_status meta,
              d_Progress := m_Progress meta, d_Error := m_Error meta\<rparr>"

lemma fill_extract [simp]: "fillDocumentMeta d (extractDocumentMeta d) = d"
  by (simp add: fillDocumentMeta_def extractDocumentMeta_def)

lemma fillDocumentMeta_sel [simp]:
  "d_ID (fillDocumentMeta d m) = d_ID d"
  "d_Source (fillDocumentMeta d m) = d_Source d"
  "d_SourceDocumentID (fillDocumentMeta d m) = d_SourceDocumentID d"
  "d_SourceMeta (fillDocumentMeta d m) = m_SourceMeta m"
  "d_Title (fillDocumentMeta d m) = m_Title m"
  "d_StorageBackend (fillDocumentMeta d m) = m_StorageBackend m"
  "d_Progress (fillDocumentMeta d m) = m_Progress m"
  "d_Error (fillDocumentMeta d m) = m_Error m"
  "d_Pages (fillDocumentMeta d m) = d_Pages d"
  "d_CreatedAt (fillDocumentMeta d m) = d_CreatedAt d"
  "d_UpdatedAt (fillDocumentMeta d m) = d_UpdatedAt d"
  "d_status (fillDocumentMeta d m) = m_status m"
  by (simp_all add: fillDocumentMeta_def)

lemma extractDocumentMeta_sel [simp]:
  "m_SourceMeta (extractDocumentMeta d) = d_SourceMeta d"
  "m_Title (extractDocumentMeta d) = d_Title d"
  "m_StorageBackend (extractDocumentMeta d) = d_StorageBackend d"
  "m_status (extractDocumentMeta d) = d_status d"
  "m_Progress (extractDocumentMeta d) = d_Progress d"
  "m_Error (extractDocumentMeta d) = d_Error d"
  by (simp_all add: extractDocumentMeta_def)

section \<open>Page slots\<close>

definition pageSlotExists :: "Page \<Rightarrow> int \<Rightarrow> bool" where
  "pageSlotExists page index \<longleftrightarrow> pg_Index page = index \<and> pg_Key page \<noteq> ''''"

text \<open>The loop of \<open>countExistingPages\<close>, from a given index on.\<close>

fun countExistingPages_from :: "int \<Rightarrow> Page list \<Rightarrow> int" where
  "countExistingPages_from index [] = 0"
| "countExistingPages_from index (page # pages) =
     (if pageSlotExists page index then 1 else 0) + countExistingPages_from (index + 1) pages"

definition countExistingPages :: "Page list \<Rightarrow> int" where
  "countExistingPages pages = countExistingPages_from 0 pages"

lemma zero_Page_no_slot [simp]: "\<not> pageSlotExists zero_Page i"
  by (simp add: pageSlotExists_def zero_Page_def)

lemma zero_Page_key [simp]: "pg_Key zero_Page = ''''"
  by (simp add: zero_Page_def)

lemma countExistingPages_from_append:
  "countExistingPages_from i (xs @ ys)
     = countExistingPages_from i xs + countExistingPages_from (i + int (length xs)) ys"
  by (induction i xs rule: countExistingPages_from.induct) (simp_all add: algebra_simps)

lemma countExistingPages_from_zero [simp]:
  "countExistingPages_from i (replicate n zero_Page) = 0"
  by (induction n arbitrary: i) simp_all

lemma countExistingPages_from_nonneg [simp]: "0 \<le> countExistingPages_from i pages"
  by (induction i pages rule: countExistingPages_from.induct) auto

lemma countExistingPages_from_update:
  "n < length pages \<Longrightarrow> countExistingPages_from i (pages[n := p])
     = countExistingPages_from i pages
       - (if pageSlotExists (pages ! n) (i + int n) then 1 else 0)
       + (if pageSlotExists p (i + int n) then 1 else 0)"
proof (induction pages arbitrary: i n)
  case (Cons q pages)
  show ?case
  proof (cases n)
    case (Suc m)
    then show ?thesis using Cons.prems Cons.IH [of m "i + 1"] by (simp add: ac_simps)
  qed simp
qed simp

lemma countExistingPages_Nil [simp]: "countExistingPages [] = 0"
  by (simp add: countExistingPages_def)

lemma countExistingPages_nonneg [simp]: "0 \<le> countExistingPages pages"
  by (simp add: countExistingPages_def)

lemma countExistingPages_update:
  "n < length pages \<Longrightarrow> countExistingPages (pages[n := p])
     = countExistingPages pages - (if pageSlotExists (pages ! n) (int n) then 1 else 0)
       + (if pageSlotExists p (int n) then 1 else 0)"
  unfolding countExistingPages_def by (subst countExistingPages_from_update) simp_all

lemma countExistingPages_append_zero [simp]:
  "countExistingPages (pages @ replicate n zero_Page) = countExistingPages pages"
  by (simp add: countExistingPages_def countExistingPages_from_append)

lemma countExistingPages_pos:
  "n < length pages \<Longrightarrow> pageSlotExists (pages ! n) (int n) \<Longrightarrow> 1 \<le> countExistingPages pages"
  using countExistingPages_update [of n pages zero_Page]
    countExistingPages_nonneg [of "pages[n := zero_Page]"]
  by (simp del: countExistingPages_nonneg)

text \<open>The two page loops of the stores: growing the slice up to an index, and dropping the empty
  slots at its end.\<close>

definition growPages :: "Page list \<Rightarrow> nat \<Rightarrow> Page list" where
  "growPages pages n = pages @ replicate (Suc n - length pages) zero_Page"

function trimPages :: "Page list \<Rightarrow> Page list" where
  "trimPages pages =
     (if pages = [] then pages
      else if pageSlotExists (last pages) (int (length pages) - 1) then pages
      else trimPages (butlast pages))"
  by pat_completeness auto
termination
  by (relation "measure length") auto

declare trimPages.simps [simp del]

lemma length_growPages [simp]: "length (growPages pages n) = max (length pages) (Suc n)"
  by (simp add: growPages_def)

lemma nth_growPages:
  "i < max (length pages) (Suc n) \<Longrightarrow>
   growPages pages n ! i = (if i < length pages then pages ! i else zero_Page)"
  by (auto simp: growPages_def nth_append)

lemma countExistingPages_growPages [simp]:
  "countExistingPages (growPages pages n) = countExistingPages pages"
  by (simp add: growPages_def)

lemma countExistingPages_trimPages [simp]:
  "countExistingPages (trimPages pages) = countExistingPages pages"
proof (induction pages rule: trimPages.induct)
  case (1 pages)
  show ?case
  proof (cases "pages = [] \<or> pageSlotExists (last pages) (int (length pages) - 1)")
    case True
    then show ?thesis by (auto simp: trimPages.simps [of pages])
  next
    case False
    then have IH: "countExistingPages (trimPages (butlast pages)) = countExistingPages (butlast pages)"
      using "1.IH" by simp
    have "countExistingPages pages
        = countExistingPages_from 0 (butlast pages @ [last pages])"
      using False by (simp add: countExistingPages_def)
    moreover have "int (length (butlast pages)) = int (length pages) - 1"
      using False by (cases pages) simp_all
    ultimately have "countExistingPages pages = countExistingPages (butlast pages)"
      using False
      by (simp only: countExistingPages_from_append) (simp add: countExistingPages_def)
    with IH show ?thesis
      using False by (simp add: trimPages.simps [of pages])
  qed
qed

end
