(* ===== verification/StoreApi.thy ===== *)
theory StoreApi
  imports DocModel
begin

text \<open>
  What the two document stores of \<^verbatim>\<open>internal/documents/store.go\<close> have in common on the side of their
  callers: the context of a call, the query builder with \<open>Build\<close>, the comparison of documents, the
  stable sort and the window of a query.  The interface itself and its contract are in \<open>StoreSpec\<close>.

  Every operation takes a context.  \<open>ctx n\<close> is the text of the error (\<open>ErrExternal\<close>) that the
  \<open>n\<close>-th step of the call meets, if any: the memory store looks at the context once, on entry (step 0); a database call also fails at
  any later statement when the context is cancelled by then or the driver fails.  \<open>live ctx\<close>
  says that no step fails.  The time \<open>now\<close> is what \<^verbatim>\<open>time.Now().UTC()\<close> returns in the call.
\<close>

type_synonym ctx = "nat \<Rightarrow> string option"

definition live :: "ctx \<Rightarrow> bool" where
  "live ctx \<longleftrightarrow> (\<forall>n. ctx n = None)"

definition background :: ctx where
  "background = (\<lambda>_. None)"

lemma live_background [simp]: "live background"
  by (simp add: live_def background_def)

lemma liveD: "live ctx \<Longrightarrow> ctx n = None"
  by (simp add: live_def)

text \<open>The context as the \<open>n\<close>-th call that gets it sees it.\<close>

definition later :: "ctx \<Rightarrow> nat \<Rightarrow> ctx" where
  "later ctx n = (\<lambda>k. ctx (k + n))"

lemma later_live: "live ctx \<Longrightarrow> later ctx n = ctx"
  by (auto simp: later_def live_def)

section \<open>Queries\<close>

record QueryBuilder =
  q_source :: "string option"
  q_sourceDocumentID :: "string option"
  q_status :: "DocumentStatus option"
  q_orderBy :: string
  q_order :: string
  q_offset :: int
  q_limit :: int

type_synonym DocumentQuery = QueryBuilder

definition new_QueryBuilder :: QueryBuilder where
  "new_QueryBuilder =
     \<lparr>q_source = None, q_sourceDocumentID = None, q_status = None, q_orderBy = '''',
      q_order = '''', q_offset = 0, q_limit = 0\<rparr>"

definition BySourceDocumentID :: "string \<Rightarrow> string \<Rightarrow> QueryBuilder \<Rightarrow> QueryBuilder" where
  "BySourceDocumentID src sid qb = qb\<lparr>q_source := Some src, q_sourceDocumentID := Some sid\<rparr>"

definition ByStatus :: "DocumentStatus \<Rightarrow> QueryBuilder \<Rightarrow> QueryBuilder" where
  "ByStatus status qb = qb\<lparr>q_status := Some status\<rparr>"

definition Offset :: "int \<Rightarrow> QueryBuilder \<Rightarrow> QueryBuilder" where
  "Offset offset qb = qb\<lparr>q_offset := offset\<rparr>"

definition Visible :: "string \<Rightarrow> QueryBuilder \<Rightarrow> QueryBuilder" where
  "Visible src qb = qb\<lparr>q_source := Some src\<rparr>"

definition OrderBy :: "string \<Rightarrow> QueryBuilder \<Rightarrow> QueryBuilder" where
  "OrderBy orderBy qb = qb\<lparr>q_orderBy := orderBy\<rparr>"

definition Order :: "string \<Rightarrow> QueryBuilder \<Rightarrow> QueryBuilder" where
  "Order order qb = qb\<lparr>q_order := order\<rparr>"

definition Limit :: "int \<Rightarrow> QueryBuilder \<Rightarrow> QueryBuilder" where
  "Limit limit qb = qb\<lparr>q_limit := limit\<rparr>"

text \<open>The two switch statements of \<open>Build\<close> on the order and on the column.\<close>

definition known_order :: "string \<Rightarrow> bool" where
  "known_order s \<longleftrightarrow> s = ''ASC'' \<or> s = ''DESC''"

definition known_orderBy :: "string \<Rightarrow> bool" where
  "known_orderBy s \<longleftrightarrow> s = ''id'' \<or> s = ''created_at'' \<or> s = ''updated_at''"

definition Build :: "QueryBuilder \<Rightarrow> go_error + DocumentQuery" where
  "Build qb =
     (if q_source qb \<noteq> None \<and> q_sourceDocumentID qb = None
      then Inl (ErrQueryParamMismatch ''sourceDocumentID'' ''nil'')
      else if q_source qb = None \<and> q_sourceDocumentID qb \<noteq> None
      then Inl (ErrQueryParamMismatch ''source'' ''nil'')
      else if q_order qb \<noteq> '''' \<and> \<not> known_order (q_order qb)
      then Inl (ErrQueryParamMismatch ''ASC or DESC'' (q_order qb))
      else if q_orderBy qb \<noteq> '''' \<and> \<not> known_orderBy (q_orderBy qb)
      then Inl (ErrQueryParamMismatch ''id or created_at or updated_at'' (q_orderBy qb))
      else Inr (qb\<lparr>q_order := (if q_order qb = '''' then ''ASC'' else q_order qb),
                   q_orderBy := (if q_orderBy qb = '''' then ''id'' else q_orderBy qb),
                   q_limit := (if q_limit qb = 0 then 10 else q_limit qb)\<rparr>))"

text \<open>What \<open>Build\<close> guarantees of a query.\<close>

definition built :: "DocumentQuery \<Rightarrow> bool" where
  "built q \<longleftrightarrow>
     (q_source q = None \<longleftrightarrow> q_sourceDocumentID q = None) \<and>
     known_order (q_order q) \<and> known_orderBy (q_orderBy q) \<and> q_limit q \<noteq> 0"

lemma known_defaults [simp]: "known_order ''ASC''" "known_order ''DESC''" "known_orderBy ''id''"
    "known_orderBy ''created_at''" "known_orderBy ''updated_at''"
  by (simp_all add: known_order_def known_orderBy_def)

lemma Build_ok:
  "Build qb = Inr q \<longleftrightarrow>
     (q_source qb = None \<longleftrightarrow> q_sourceDocumentID qb = None) \<and>
     (q_order qb = '''' \<or> known_order (q_order qb)) \<and>
     (q_orderBy qb = '''' \<or> known_orderBy (q_orderBy qb)) \<and>
     q = qb\<lparr>q_order := (if q_order qb = '''' then ''ASC'' else q_order qb),
            q_orderBy := (if q_orderBy qb = '''' then ''id'' else q_orderBy qb),
            q_limit := (if q_limit qb = 0 then 10 else q_limit qb)\<rparr>"
  unfolding Build_def by auto

text \<open>
  A limit is in range when a slice of that many documents can be allocated at all: Go panics
  when the size, here 216 bytes for a \<open>Document\<close>, passes the address space of \<open>2 ^ 48\<close> bytes.
\<close>

definition limit_in_range :: "DocumentQuery \<Rightarrow> bool" where
  "limit_in_range q \<longleftrightarrow> 216 * max (q_limit q) 0 \<le> 2 ^ 48"

lemma Build_built: "Build qb = Inr q \<Longrightarrow> built q"
  by (auto simp: Build_ok built_def)

lemma Build_frame:
  "Build qb = Inr q \<Longrightarrow> q_source q = q_source qb \<and> q_sourceDocumentID q = q_sourceDocumentID qb
     \<and> q_status q = q_status qb \<and> q_offset q = q_offset qb"
  by (simp add: Build_ok)

text \<open>A \<open>DocumentStatus\<close> is a string in the source, and the filter compares the strings.\<close>

definition matches_status :: "DocumentQuery \<Rightarrow> Document \<Rightarrow> bool" where
  "matches_status q d =
     (case q_status q of
        Some status \<Rightarrow> status_string (d_status d) = status_string status
      | None \<Rightarrow> isVisibleDocumentStatus (d_status d))"

definition matches_source :: "DocumentQuery \<Rightarrow> Document \<Rightarrow> bool" where
  "matches_source q d =
     (case q_source q of
        None \<Rightarrow> True
      | Some src \<Rightarrow> d_Source d = src \<and> q_sourceDocumentID q = Some (d_SourceDocumentID d))"

section \<open>The order of query results\<close>

definition compareInt :: "int \<Rightarrow> int \<Rightarrow> int" where
  "compareInt left right = (if left < right then -1 else if left > right then 1 else 0)"

definition compareTime :: "utc_time \<Rightarrow> utc_time \<Rightarrow> int" where
  "compareTime left right = (if left < right then -1 else if left > right then 1 else 0)"

definition compareDocumentsByQueryOrder :: "Document \<Rightarrow> Document \<Rightarrow> string \<Rightarrow> int" where
  "compareDocumentsByQueryOrder left right orderBy =
     (if orderBy = ''created_at'' then compareTime (d_CreatedAt left) (d_CreatedAt right)
      else if orderBy = ''updated_at'' then compareTime (d_UpdatedAt left) (d_UpdatedAt right)
      else compareInt (d_ID left) (d_ID right))"

text \<open>\<^verbatim>\<open>sort.SliceStable\<close> for a \<open>less\<close> callback, as an insertion sort.\<close>

fun insert_by :: "('a \<Rightarrow> 'a \<Rightarrow> bool) \<Rightarrow> 'a \<Rightarrow> 'a list \<Rightarrow> 'a list" where
  "insert_by lt x [] = [x]"
| "insert_by lt x (y # ys) = (if lt y x then y # insert_by lt x ys else x # y # ys)"

definition SliceStable :: "('a \<Rightarrow> 'a \<Rightarrow> bool) \<Rightarrow> 'a list \<Rightarrow> 'a list" where
  "SliceStable lt xs = foldr (insert_by lt) xs []"

lemma set_insert_by [simp]: "set (insert_by lt x ys) = insert x (set ys)"
  by (induction ys) auto

lemma length_insert_by [simp]: "length (insert_by lt x ys) = Suc (length ys)"
  by (induction ys) auto

lemma SliceStable_Cons [simp]: "SliceStable lt (x # xs) = insert_by lt x (SliceStable lt xs)"
  by (simp add: SliceStable_def)

lemma SliceStable_Nil [simp]: "SliceStable lt [] = []"
  by (simp add: SliceStable_def)

lemma set_SliceStable [simp]: "set (SliceStable lt xs) = set xs"
  by (induction xs) auto

lemma length_SliceStable [simp]: "length (SliceStable lt xs) = length xs"
  by (induction xs) auto

lemma distinct_insert_by: "distinct (insert_by lt x ys) \<longleftrightarrow> x \<notin> set ys \<and> distinct ys"
  by (induction ys) auto

lemma distinct_SliceStable [simp]: "distinct (SliceStable lt xs) = distinct xs"
  by (induction xs) (auto simp: distinct_insert_by)

text \<open>A comparison by a key in a linear order, ascending or descending.\<close>

definition key_less :: "bool \<Rightarrow> ('a \<Rightarrow> 'k::linorder) \<Rightarrow> 'a \<Rightarrow> 'a \<Rightarrow> bool" where
  "key_less desc key x y = (if desc then key y < key x else key x < key y)"

lemma sorted_insert_by:
  "sorted_wrt (\<lambda>x y. \<not> key_less desc key y x) ys
    \<Longrightarrow> sorted_wrt (\<lambda>x y. \<not> key_less desc key y x) (insert_by (key_less desc key) x ys)"
  by (induction ys) (auto simp: key_less_def split: if_splits)

lemma sorted_SliceStable:
  "sorted_wrt (\<lambda>x y. \<not> key_less desc key y x) (SliceStable (key_less desc key) xs)"
  by (induction xs) (auto simp: sorted_insert_by)

text \<open>Stability: elements with one key keep their order.\<close>

lemma filter_insert_by_key:
  "sorted_wrt (\<lambda>x y. \<not> key_less desc key y x) ys \<Longrightarrow>
   filter (\<lambda>y. key y = k) (insert_by (key_less desc key) x ys)
     = (if key x = k then x # filter (\<lambda>y. key y = k) ys else filter (\<lambda>y. key y = k) ys)"
  by (induction ys) (auto simp: key_less_def split: if_splits)

lemma SliceStable_stable:
  "filter (\<lambda>y. key y = k) (SliceStable (key_less desc key) xs) = filter (\<lambda>y. key y = k) xs"
  by (induction xs) (simp_all add: filter_insert_by_key sorted_SliceStable)

lemma SliceStable_sorted_id:
  "sorted_wrt (\<lambda>x y. \<not> lt y x) xs \<Longrightarrow> SliceStable lt xs = xs"
proof (induction xs)
  case (Cons x xs)
  then show ?case by (cases xs) auto
qed simp

text \<open>The \<open>less\<close> callback of \<open>Query\<close>, and the same as a comparison by key.\<close>

definition query_less :: "DocumentQuery \<Rightarrow> Document \<Rightarrow> Document \<Rightarrow> bool" where
  "query_less q l r =
     (let cmp = compareDocumentsByQueryOrder l r (q_orderBy q) in
      if q_order q = ''DESC'' then cmp > 0 else cmp < 0)"

lemma query_less_key:
  "query_less q =
     (if q_orderBy q = ''created_at'' then key_less (q_order q = ''DESC'') d_CreatedAt
      else if q_orderBy q = ''updated_at'' then key_less (q_order q = ''DESC'') d_UpdatedAt
      else key_less (q_order q = ''DESC'') d_ID)"
  by (auto simp: fun_eq_iff query_less_def compareDocumentsByQueryOrder_def compareInt_def
      compareTime_def key_less_def Let_def)

text \<open>The window of \<open>Query\<close>: the slice expressions on \<open>offset\<close> and \<open>limit\<close>.\<close>

definition query_window :: "DocumentQuery \<Rightarrow> 'a list \<Rightarrow> 'a list" where
  "query_window q result =
     (let result' = (if q_offset q > 0 \<and> q_offset q < int (length result)
                     then drop (nat (q_offset q)) result
                     else if q_offset q \<ge> int (length result) then [] else result)
      in if q_limit q > 0 \<and> int (length result') > q_limit q
         then take (nat (q_limit q)) result' else result')"

lemma query_window_eq:
  "query_window q xs =
     (if q_limit q > 0 then take (nat (q_limit q)) else id) (drop (nat (q_offset q)) xs)"
proof -
  have "(if q_offset q > 0 \<and> q_offset q < int (length xs) then drop (nat (q_offset q)) xs
         else if q_offset q \<ge> int (length xs) then [] else xs) = drop (nat (q_offset q)) xs"
    by auto
  then show ?thesis
    unfolding query_window_def Let_def by (auto simp: not_less)
qed

lemma set_query_window: "set (query_window q xs) \<subseteq> set xs"
  unfolding query_window_eq by (auto dest: in_set_takeD in_set_dropD)

text \<open>A whole query, on the documents in the order of their ids.\<close>

definition run_query :: "DocumentQuery \<Rightarrow> Document list \<Rightarrow> Document list" where
  "run_query q docs =
     query_window q (SliceStable (query_less q)
       (filter (\<lambda>d. matches_status q d \<and> matches_source q d) docs))"

lemma set_run_query:
  "d \<in> set (run_query q docs) \<Longrightarrow> d \<in> set docs \<and> matches_status q d \<and> matches_source q d"
  using set_query_window [of q] by (fastforce simp: run_query_def)

lemma length_query_window: "q_limit q > 0 \<Longrightarrow> int (length (query_window q xs)) \<le> q_limit q"
  by (simp add: query_window_eq)

end
