(* ===== verification/StoreSpec.thy ===== *)
theory StoreSpec
  imports StoreApi
begin

text \<open>
  What a document store promises.  The state of a store is seen as a map from document ids to
  documents (deleted and purged ones included).  Each operation is specified by a transformer
  of the one document it names: \<open>None\<close> when the operation must fail, otherwise its result and
  the new document.  \<open>implements\<close> relates an operation of a store to its transformer, and
  the locale \<open>document_store\<close> collects these relations for the eleven operations of the
  \<open>Store\<close> interface.  \<open>store_wf\<close> is the invariant every operation keeps: ids and source
  identities are unique, the number of stored pages is \<open>Progress.Done\<close>, the page slice has no
  empty slot at its end, and a purged document has no pages and no progress.
\<close>

section \<open>The interface\<close>

type_synonym meta_fn = "DocumentMeta \<Rightarrow> go_error + DocumentMeta"

record 's Store =
  st_Create :: "ctx \<Rightarrow> utc_time \<Rightarrow> Document \<Rightarrow> 's \<Rightarrow> (go_error \<times> Document + Document) \<times> 's"
  st_Get :: "ctx \<Rightarrow> int \<Rightarrow> 's \<Rightarrow> go_error + Document"
  st_Delete :: "ctx \<Rightarrow> utc_time \<Rightarrow> int \<Rightarrow> 's \<Rightarrow> (go_error + Document) \<times> 's"
  st_Purge :: "ctx \<Rightarrow> utc_time \<Rightarrow> int \<Rightarrow> 's \<Rightarrow> (go_error + int) \<times> 's"
  st_Restore :: "ctx \<Rightarrow> utc_time \<Rightarrow> int \<Rightarrow> 's \<Rightarrow> (go_error + Document) \<times> 's"
  st_ResetPages :: "ctx \<Rightarrow> utc_time \<Rightarrow> int \<Rightarrow> 's \<Rightarrow> (go_error + Document) \<times> 's"
  st_UpdateMeta ::
    "ctx \<Rightarrow> utc_time \<Rightarrow> int \<Rightarrow> meta_fn option \<Rightarrow> 's \<Rightarrow> (go_error + Document) \<times> 's"
  st_TransitionTo ::
    "ctx \<Rightarrow> utc_time \<Rightarrow> int \<Rightarrow> DocumentStatus \<Rightarrow> 's \<Rightarrow> (go_error + unit) \<times> 's"
  st_AddPage :: "ctx \<Rightarrow> utc_time \<Rightarrow> int \<Rightarrow> Page \<Rightarrow> 's \<Rightarrow> (go_error + unit) \<times> 's"
  st_RemovePage :: "ctx \<Rightarrow> utc_time \<Rightarrow> int \<Rightarrow> int \<Rightarrow> 's \<Rightarrow> (go_error + unit) \<times> 's"
  st_Query :: "ctx \<Rightarrow> DocumentQuery \<Rightarrow> 's \<Rightarrow> go_error + Document list"

section \<open>Helpers of both stores\<close>

definition validatePurgedDocumentState :: "Document \<Rightarrow> go_error option" where
  "validatePurgedDocumentState document =
     (if pr_Done (d_Progress document) \<noteq> 0
      then Some (ErrText (''cannot transition to '' @ status_string StatusPurged
                          @ '' with progress.done='' @ Itoa (pr_Done (d_Progress document))))
      else if pr_Total (d_Progress document) \<noteq> 0
      then Some (ErrText (''cannot transition to '' @ status_string StatusPurged
                          @ '' with progress.total='' @ Itoa (pr_Total (d_Progress document))))
      else if countExistingPages (d_Pages document) \<noteq> 0
      then Some (ErrText (''cannot transition to '' @ status_string StatusPurged @ '' with ''
                          @ Itoa (countExistingPages (d_Pages document)) @ '' persisted pages''))
      else None)"

text \<open>The progress after a page was added, and after one was removed.\<close>

definition progress_add :: "Progress \<Rightarrow> Progress" where
  "progress_add p =
     (let p' = p\<lparr>pr_Done := pr_Done p + 1\<rparr> in
      if pr_Total p' < pr_Done p' then p'\<lparr>pr_Total := pr_Done p'\<rparr> else p')"

definition progress_remove :: "Progress \<Rightarrow> Progress" where
  "progress_remove p = (if pr_Done p > 0 then p\<lparr>pr_Done := pr_Done p - 1\<rparr> else p)"

lemma pr_Done_progress_add [simp]: "pr_Done (progress_add p) = pr_Done p + 1"
  by (simp add: progress_add_def Let_def)

lemma pr_Total_progress_add [simp]:
  "pr_Total (progress_add p) = max (pr_Total p) (pr_Done p + 1)"
  by (simp add: progress_add_def Let_def)

lemma progress_add_eq:
  "progress_add p = p\<lparr>pr_Done := pr_Done p + 1, pr_Total := max (pr_Total p) (pr_Done p + 1)\<rparr>"
  by (cases p) (simp add: progress_add_def Let_def max_def)

lemma progress_add_funpow:
  "(progress_add ^^ n) p = (if n = 0 then p else
     p\<lparr>pr_Done := pr_Done p + int n, pr_Total := max (pr_Total p) (pr_Done p + int n)\<rparr>)"
proof (induction n)
  case (Suc n)
  have "(progress_add ^^ Suc n) p = progress_add ((progress_add ^^ n) p)" by simp
  also have "\<dots> = p\<lparr>pr_Done := pr_Done p + int (Suc n),
      pr_Total := max (pr_Total p) (pr_Done p + int (Suc n))\<rparr>"
    unfolding Suc by (cases "n = 0") (simp_all add: progress_add_eq max_def)
  finally show ?case by simp
qed simp

section \<open>Document transformers\<close>

type_synonym 'r doc_op = "Document \<Rightarrow> ('r \<times> Document) option"
type_synonym docmap = "int \<Rightarrow> Document option"

definition delete_doc :: "utc_time \<Rightarrow> Document doc_op" where
  "delete_doc now d =
     (if isVisibleDocumentStatus (d_status d)
      then (let d' = d\<lparr>d_status := StatusDeleted, d_UpdatedAt := now\<rparr> in Some (d', d'))
      else None)"

definition purge_doc :: "utc_time \<Rightarrow> int doc_op" where
  "purge_doc now d =
     (if d_status d = StatusDeleted \<or> d_status d = StatusPurged
      then Some (countExistingPages (d_Pages d),
                 d\<lparr>d_Pages := [], d_Progress := \<lparr>pr_Done = 0, pr_Total = 0\<rparr>,
                   d_status := StatusPurged, d_UpdatedAt := now\<rparr>)
      else None)"

definition restore_doc :: "utc_time \<Rightarrow> Document doc_op" where
  "restore_doc now d =
     (if d_status d = StatusDeleted \<or> d_status d = StatusPurged
      then (let d' = d\<lparr>d_status := StatusQueued, d_UpdatedAt := now\<rparr> in Some (d', d'))
      else None)"

definition resetPages_doc :: "utc_time \<Rightarrow> Document doc_op" where
  "resetPages_doc now d =
     (if isVisibleDocumentStatus (d_status d)
      then (let d' = d\<lparr>d_Pages := [], d_Progress := (d_Progress d)\<lparr>pr_Done := 0\<rparr>,
                       d_UpdatedAt := now\<rparr> in Some (d', d'))
      else None)"

definition updateMeta_doc :: "meta_fn \<Rightarrow> utc_time \<Rightarrow> Document doc_op" where
  "updateMeta_doc fn now d =
     (if isVisibleDocumentStatus (d_status d)
      then (case fn (extractDocumentMeta d) of
              Inl e \<Rightarrow> None
            | Inr meta \<Rightarrow>
                (let d' = (fillDocumentMeta d meta)\<lparr>d_UpdatedAt := now\<rparr> in Some (d', d')))
      else None)"

definition transition_doc :: "DocumentStatus \<Rightarrow> utc_time \<Rightarrow> unit doc_op" where
  "transition_doc newStatus now d =
     (if canTransitionDocumentStatus (d_status d) newStatus \<and>
         (newStatus = StatusPurged \<longrightarrow> validatePurgedDocumentState d = None)
      then Some ((), d\<lparr>d_status := newStatus, d_UpdatedAt := now\<rparr>)
      else None)"

definition slot_taken :: "Page list \<Rightarrow> int \<Rightarrow> bool" where
  "slot_taken pages index \<longleftrightarrow> in_range index pages \<and> pageSlotExists (pages ! nat index) index"

definition addPage_doc :: "Page \<Rightarrow> utc_time \<Rightarrow> unit doc_op" where
  "addPage_doc page now d =
     (if isVisibleDocumentStatus (d_status d) \<and> 0 \<le> pg_Index page
         \<and> \<not> slot_taken (d_Pages d) (pg_Index page)
      then Some ((), d\<lparr>d_Pages := (growPages (d_Pages d) (nat (pg_Index page)))
                                    [nat (pg_Index page) := page],
                       d_Progress := progress_add (d_Progress d), d_UpdatedAt := now\<rparr>)
      else None)"

definition removePage_doc :: "int \<Rightarrow> utc_time \<Rightarrow> unit doc_op" where
  "removePage_doc index now d =
     (if isVisibleDocumentStatus (d_status d) \<and> slot_taken (d_Pages d) index
      then Some ((), d\<lparr>d_Pages := trimPages ((d_Pages d)[nat index := zero_Page]),
                       d_Progress := progress_remove (d_Progress d), d_UpdatedAt := now\<rparr>)
      else None)"

definition created_doc :: "int \<Rightarrow> utc_time \<Rightarrow> Document \<Rightarrow> Document" where
  "created_doc i now document =
     document\<lparr>d_ID := i, d_CreatedAt := now, d_UpdatedAt := now, d_status := StatusQueued,
              d_Progress :=
                \<lparr>pr_Done = int (length (d_Pages document)),
                 pr_Total = (if d_Pages document = [] then pr_Total (d_Progress document)
                             else max (pr_Total (d_Progress document))
                                      (int (length (d_Pages document))))\<rparr>\<rparr>"

definition upd_doc :: "'r doc_op \<Rightarrow> int \<Rightarrow> docmap \<Rightarrow> ('r \<times> docmap) option" where
  "upd_doc f i m =
     (case m i of
        None \<Rightarrow> None
      | Some d \<Rightarrow> (case f d of None \<Rightarrow> None | Some (r, d') \<Rightarrow> Some (r, m(i \<mapsto> d'))))"

lemma upd_doc_Some:
  "upd_doc f i m = Some (r, m') \<longleftrightarrow> (\<exists>d d'. m i = Some d \<and> f d = Some (r, d') \<and> m' = m(i \<mapsto> d'))"
  by (auto simp: upd_doc_def split: option.splits)

lemma upd_doc_None:
  "upd_doc f i m = None \<longleftrightarrow> (\<forall>d. m i = Some d \<longrightarrow> f d = None)"
  by (auto simp: upd_doc_def split: option.splits)

section \<open>Well-formed documents and stores\<close>

definition identity :: "Document \<Rightarrow> string \<times> string" where
  "identity d = (d_Source d, d_SourceDocumentID d)"

definition pages_wf :: "Page list \<Rightarrow> bool" where
  "pages_wf pages \<longleftrightarrow>
     (\<forall>i < length pages. pages ! i = zero_Page \<or> pageSlotExists (pages ! i) (int i)) \<and>
     (pages \<noteq> [] \<longrightarrow> pageSlotExists (last pages) (int (length pages) - 1))"

definition doc_wf :: "int \<Rightarrow> Document \<Rightarrow> bool" where
  "doc_wf i d \<longleftrightarrow>
     d_ID d = i \<and> isKnownDocumentStatus (d_status d) \<and> pages_wf (d_Pages d) \<and>
     pr_Done (d_Progress d) = countExistingPages (d_Pages d) \<and>
     (d_status d = StatusPurged \<longrightarrow> d_Pages d = [] \<and> pr_Total (d_Progress d) = 0) \<and>
     valid_time (d_CreatedAt d) \<and> valid_time (d_UpdatedAt d)"

definition store_wf :: "docmap \<Rightarrow> bool" where
  "store_wf m \<longleftrightarrow>
     finite (dom m) \<and> (\<forall>i d. m i = Some d \<longrightarrow> doc_wf i d) \<and>
     (\<forall>i j d e. m i = Some d \<longrightarrow> m j = Some e \<longrightarrow> identity d = identity e \<longrightarrow> i = j)"

lemma store_wfD: "store_wf m \<Longrightarrow> m i = Some d \<Longrightarrow> doc_wf i d"
  by (simp add: store_wf_def)

lemma store_wf_identity:
  assumes "store_wf m" "m i = Some d" "m j = Some e" "identity d = identity e"
  shows "i = j"
proof -
  have "\<forall>i j d e. m i = Some d \<longrightarrow> m j = Some e \<longrightarrow> identity d = identity e \<longrightarrow> i = j"
    using assms(1) by (simp add: store_wf_def)
  with assms(2-4) show ?thesis by iprover
qed

lemma pages_wf_Nil [simp]: "pages_wf []"
  by (simp add: pages_wf_def)

lemma pages_wf_add:
  assumes "pages_wf pages" "pageSlotExists page (int n)"
  shows "pages_wf ((growPages pages n)[n := page])"
  unfolding pages_wf_def
proof (intro conjI allI impI)
  let ?ps = "(growPages pages n)[n := page]"
  have len: "length ?ps = max (length pages) (Suc n)" by simp
  fix i assume "i < length ?ps"
  then show "?ps ! i = zero_Page \<or> pageSlotExists (?ps ! i) (int i)"
    using assms by (auto simp: nth_list_update nth_growPages pages_wf_def)
next
  let ?ps = "(growPages pages n)[n := page]"
  show "pageSlotExists (last ?ps) (int (length ?ps) - 1)" if "?ps \<noteq> []"
  proof (cases "Suc n < length pages")
    case True
    then have "last ?ps = last pages"
      by (simp add: last_conv_nth nth_growPages max_def flip: length_greater_0_conv)
    with True assms(1) show ?thesis by (auto simp: pages_wf_def max_def)
  next
    case False
    then have "length ?ps = Suc n" by simp
    then have "last ?ps = page" using that by (simp add: last_conv_nth)
    with False assms(2) show ?thesis by (simp add: max_def)
  qed
qed

lemma pages_wf_trim:
  assumes "\<And>i. i < length pages \<Longrightarrow> pages ! i = zero_Page \<or> pageSlotExists (pages ! i) (int i)"
  shows "pages_wf (trimPages pages)"
  using assms
proof (induction pages rule: trimPages.induct)
  case (1 pages)
  show ?case
  proof (cases "pages = [] \<or> pageSlotExists (last pages) (int (length pages) - 1)")
    case True
    then show ?thesis
      using "1.prems" by (auto simp: trimPages.simps [of pages] pages_wf_def)
  next
    case False
    then have "pages_wf (trimPages (butlast pages))"
      by (intro "1.IH") (use "1.prems" in \<open>auto simp: nth_butlast\<close>)
    with False show ?thesis by (simp add: trimPages.simps [of pages])
  qed
qed

lemma pages_wf_count_0: "pages_wf pages \<Longrightarrow> countExistingPages pages = 0 \<Longrightarrow> pages = []"
proof (rule ccontr)
  assume wf: "pages_wf pages" and 0: "countExistingPages pages = 0" and ne: "pages \<noteq> []"
  let ?n = "length pages - 1"
  have "int ?n = int (length pages) - 1" using ne by (cases pages) simp_all
  with wf ne have "pageSlotExists (pages ! ?n) (int ?n)"
    by (simp add: pages_wf_def last_conv_nth)
  then have "1 \<le> countExistingPages pages"
    by (intro countExistingPages_pos [of ?n]) (use ne in simp_all)
  with 0 show False by simp
qed

section \<open>Every transformer keeps documents well formed\<close>

text \<open>
  A callback of \<open>UpdateMeta\<close> outside the package \<^verbatim>\<open>documents\<close> cannot write the unexported
  field \<open>status\<close>, and the callbacks of the program do not write \<open>Progress.Done\<close>, which the
  store keeps itself.
\<close>

definition meta_frame :: "meta_fn \<Rightarrow> bool" where
  "meta_frame fn \<longleftrightarrow>
     (\<forall>m m'. fn m = Inr m' \<longrightarrow>
        m_status m' = m_status m \<and> pr_Done (m_Progress m') = pr_Done (m_Progress m))"

definition doc_op_ok :: "'r doc_op \<Rightarrow> bool" where
  "doc_op_ok f \<longleftrightarrow>
     (\<forall>i d r d'. doc_wf i d \<longrightarrow> f d = Some (r, d') \<longrightarrow> doc_wf i d' \<and> identity d' = identity d)"

lemma doc_op_okI:
  "(\<And>i d r d'. doc_wf i d \<Longrightarrow> f d = Some (r, d') \<Longrightarrow> doc_wf i d' \<and> identity d' = identity d)
    \<Longrightarrow> doc_op_ok f"
  by (auto simp: doc_op_ok_def)

lemma store_wf_upd:
  assumes wf: "store_wf m" and ok: "doc_op_ok f" and upd: "upd_doc f i m = Some (r, m')"
  shows "store_wf m'"
proof -
  obtain d d' where d: "m i = Some d" "f d = Some (r, d')" "m' = m(i \<mapsto> d')"
    using upd by (auto simp: upd_doc_Some)
  then have "doc_wf i d'" "identity d' = identity d"
    using ok store_wfD [OF wf d(1)] by (auto simp: doc_op_ok_def)
  with wf d show ?thesis
    unfolding store_wf_def by (auto split: if_splits)
qed

lemma delete_doc_ok [store_inv_intros]: "valid_time now \<Longrightarrow> doc_op_ok (delete_doc now)"
  by (rule doc_op_okI) (auto simp: delete_doc_def doc_wf_def identity_def Let_def split: if_splits)

lemma purge_doc_ok [store_inv_intros]: "valid_time now \<Longrightarrow> doc_op_ok (purge_doc now)"
  by (rule doc_op_okI) (auto simp: purge_doc_def doc_wf_def identity_def Let_def split: if_splits)

lemma restore_doc_ok [store_inv_intros]: "valid_time now \<Longrightarrow> doc_op_ok (restore_doc now)"
  by (rule doc_op_okI) (auto simp: restore_doc_def doc_wf_def identity_def Let_def split: if_splits)

lemma resetPages_doc_ok [store_inv_intros]: "valid_time now \<Longrightarrow> doc_op_ok (resetPages_doc now)"
  by (rule doc_op_okI) (auto simp: resetPages_doc_def doc_wf_def identity_def Let_def split: if_splits)

lemma updateMeta_doc_ok [store_inv_intros]:
  "valid_time now \<Longrightarrow> meta_frame fn \<Longrightarrow> doc_op_ok (updateMeta_doc fn now)"
  by (rule doc_op_okI)
    (auto simp: updateMeta_doc_def doc_wf_def identity_def meta_frame_def Let_def
      split: if_splits sum.splits)

lemma validatePurged_iff:
  "validatePurgedDocumentState d = None \<longleftrightarrow>
     pr_Done (d_Progress d) = 0 \<and> pr_Total (d_Progress d) = 0 \<and> countExistingPages (d_Pages d) = 0"
  by (simp add: validatePurgedDocumentState_def)

lemma transition_doc_ok [store_inv_intros]:
  "valid_time now \<Longrightarrow> doc_op_ok (transition_doc newStatus now)"
  by (rule doc_op_okI)
    (auto simp: transition_doc_def doc_wf_def identity_def validatePurged_iff pages_wf_count_0
      dest: canTransition_known split: if_splits)

lemma addPage_doc_ok [store_inv_intros]:
  assumes "valid_time now" "pg_Key page \<noteq> ''''"
  shows "doc_op_ok (addPage_doc page now)"
proof (rule doc_op_okI)
  fix i d r d' assume wf: "doc_wf i d" and op: "addPage_doc page now d = Some (r, d')"
  let ?n = "nat (pg_Index page)"
  from op have vis: "isVisibleDocumentStatus (d_status d)" and idx: "pg_Index page = int ?n"
    and free: "\<not> slot_taken (d_Pages d) (int ?n)"
    by (auto simp: addPage_doc_def split: if_splits)
  have slot: "pageSlotExists page (int ?n)"
    using assms(2) idx by (simp add: pageSlotExists_def)
  have "\<not> pageSlotExists (growPages (d_Pages d) ?n ! ?n) (int ?n)"
    using free idx by (auto simp: nth_growPages slot_taken_def in_range_def)
  then have "countExistingPages ((growPages (d_Pages d) ?n)[?n := page])
      = countExistingPages (d_Pages d) + 1"
    using slot by (simp add: countExistingPages_update)
  moreover have "pages_wf ((growPages (d_Pages d) ?n)[?n := page])"
    using wf slot by (intro pages_wf_add) (simp_all add: doc_wf_def)
  ultimately show "doc_wf i d' \<and> identity d' = identity d"
    using wf op vis assms(1) by (auto simp: addPage_doc_def doc_wf_def identity_def Let_def split: if_splits)
qed

lemma removePage_doc_ok [store_inv_intros]:
  assumes "valid_time now"
  shows "doc_op_ok (removePage_doc index now)"
proof (rule doc_op_okI)
  fix i d r d' assume wf: "doc_wf i d" and op: "removePage_doc index now d = Some (r, d')"
  let ?ps = "(d_Pages d)[nat index := zero_Page]"
  from op have vis: "isVisibleDocumentStatus (d_status d)" and taken: "slot_taken (d_Pages d) index"
    by (auto simp: removePage_doc_def split: if_splits)
  then have n: "nat index < length (d_Pages d)" "pageSlotExists (d_Pages d ! nat index) (int (nat index))"
    by (auto simp: slot_taken_def in_range_def)
  then have "countExistingPages ?ps = countExistingPages (d_Pages d) - 1"
    and "1 \<le> countExistingPages (d_Pages d)"
    by (simp_all add: countExistingPages_update countExistingPages_pos)
  moreover have "pages_wf (trimPages ?ps)"
    using wf n(1) by (intro pages_wf_trim) (auto simp: doc_wf_def pages_wf_def nth_list_update)
  ultimately show "doc_wf i d' \<and> identity d' = identity d"
    using wf op vis assms
    by (auto simp: removePage_doc_def doc_wf_def identity_def progress_remove_def split: if_splits)
qed

section \<open>The documents a client may create\<close>

definition pages_input :: "Page list \<Rightarrow> bool" where
  "pages_input pages \<longleftrightarrow>
     (\<forall>i < length pages. pg_Index (pages ! i) = int i \<and> pg_Key (pages ! i) \<noteq> '''')"

lemma pages_input_wf: "pages_input pages \<Longrightarrow> pages_wf pages"
proof -
  assume inp: "pages_input pages"
  have "pageSlotExists (last pages) (int (length pages) - 1)" if "pages \<noteq> []"
  proof -
    have "int (length pages - 1) = int (length pages) - 1" using that by (cases pages) simp_all
    with inp that show ?thesis by (simp add: pages_input_def pageSlotExists_def last_conv_nth)
  qed
  with inp show ?thesis by (auto simp: pages_wf_def pages_input_def pageSlotExists_def)
qed

lemma countExistingPages_from_all:
  "\<forall>i < length pages. pageSlotExists (pages ! i) (k + int i)
    \<Longrightarrow> countExistingPages_from k pages = int (length pages)"
proof (induction pages arbitrary: k)
  case (Cons p pages)
  have "\<forall>i < length pages. pageSlotExists (pages ! i) (k + 1 + int i)"
    using Cons.prems by (auto simp: add.assoc dest: spec [of _ "Suc _"])
  moreover have "pageSlotExists p k" using Cons.prems by (auto dest: spec [of _ 0])
  ultimately show ?case using Cons.IH by simp
qed simp

lemma pages_input_count: "pages_input pages \<Longrightarrow> countExistingPages pages = int (length pages)"
  unfolding countExistingPages_def
  by (rule countExistingPages_from_all) (simp add: pages_input_def pageSlotExists_def)

lemma created_doc_wf:
  "valid_time now \<Longrightarrow> pages_input (d_Pages document) \<Longrightarrow> doc_wf i (created_doc i now document)"
  by (auto simp: doc_wf_def created_doc_def pages_input_wf pages_input_count)

lemma identity_created_doc [simp]: "identity (created_doc i now document) = identity document"
  by (simp add: identity_def created_doc_def)

lemma store_wf_create:
  assumes "store_wf m" "m i = None" "valid_time now" "pages_input (d_Pages document)"
    "\<forall>j d. m j = Some d \<longrightarrow> identity d \<noteq> identity document"
  shows "store_wf (m(i \<mapsto> created_doc i now document))"
proof -
  have "doc_wf i (created_doc i now document)" using assms(3,4) by (rule created_doc_wf)
  with assms(1,2,5) show ?thesis
    unfolding store_wf_def by (simp, metis identity_created_doc)
qed

section \<open>The contract\<close>

definition implements ::
  "('s \<Rightarrow> bool) \<Rightarrow> ('s \<Rightarrow> docmap) \<Rightarrow> ctx \<Rightarrow> ('s \<Rightarrow> (go_error + 'r) \<times> 's) \<Rightarrow> 'r doc_op \<Rightarrow> int \<Rightarrow> bool"
where
  "implements invar view ctx conc f i \<longleftrightarrow>
     (\<forall>s. invar s \<longrightarrow>
       (case conc s of
          (Inr r, s') \<Rightarrow> invar s' \<and> upd_doc f i (view s) = Some (r, view s')
        | (Inl e, s') \<Rightarrow> invar s' \<and> view s' = view s \<and> (live ctx \<longrightarrow> upd_doc f i (view s) = None)))"

definition docs_list :: "docmap \<Rightarrow> Document list" where
  "docs_list m = map (\<lambda>i. the (m i)) (sorted_list_of_set (dom m))"

locale document_store =
  fixes S :: "'s Store" and view :: "'s \<Rightarrow> docmap" and invar :: "'s \<Rightarrow> bool"
  assumes invar_wf: "invar s \<Longrightarrow> store_wf (view s)"
    and Create_law: "invar s \<Longrightarrow> valid_time now \<Longrightarrow> pages_input (d_Pages document) \<Longrightarrow>
      (case st_Create S ctx now document s of
         (Inr d, s') \<Rightarrow>
           invar s' \<and> view s (d_ID d) = None \<and> d = created_doc (d_ID d) now document \<and>
           view s' = (view s)(d_ID d \<mapsto> d) \<and>
           (\<forall>j e. view s j = Some e \<longrightarrow> identity e \<noteq> identity document)
       | (Inl (e, d0), s') \<Rightarrow>
           invar s' \<and> view s' = view s \<and>
           (live ctx \<longrightarrow> e = ErrAlreadyExists \<and>
              (\<exists>j. view s j = Some d0 \<and> identity d0 = identity document)))"
    and Get_law: "invar s \<Longrightarrow>
      (case st_Get S ctx i s of
         Inr d \<Rightarrow> view s i = Some d \<and> isVisibleDocumentStatus (d_status d)
       | Inl e \<Rightarrow> live ctx \<longrightarrow> e = ErrNotFound \<and>
           (\<forall>d. view s i = Some d \<longrightarrow> \<not> isVisibleDocumentStatus (d_status d)))"
    and Delete_law: "valid_time now \<Longrightarrow>
      implements invar view ctx (st_Delete S ctx now i) (delete_doc now) i"
    and Purge_law: "valid_time now \<Longrightarrow>
      implements invar view ctx (st_Purge S ctx now i) (purge_doc now) i"
    and Restore_law: "valid_time now \<Longrightarrow>
      implements invar view ctx (st_Restore S ctx now i) (restore_doc now) i"
    and ResetPages_law: "valid_time now \<Longrightarrow>
      implements invar view ctx (st_ResetPages S ctx now i) (resetPages_doc now) i"
    and UpdateMeta_law: "valid_time now \<Longrightarrow> meta_frame fn \<Longrightarrow>
      implements invar view ctx (st_UpdateMeta S ctx now i (Some fn)) (updateMeta_doc fn now) i"
    and TransitionTo_law: "valid_time now \<Longrightarrow>
      implements invar view ctx (st_TransitionTo S ctx now i newStatus) (transition_doc newStatus now) i"
    and AddPage_law: "valid_time now \<Longrightarrow> pg_Key page \<noteq> '''' \<Longrightarrow>
      implements invar view ctx (st_AddPage S ctx now i page) (addPage_doc page now) i"
    and RemovePage_law: "valid_time now \<Longrightarrow>
      implements invar view ctx (st_RemovePage S ctx now i index) (removePage_doc index now) i"
    and Query_law: "invar s \<Longrightarrow> built q \<Longrightarrow> limit_in_range q \<Longrightarrow>
      (case st_Query S ctx q s of
         Inr ds \<Rightarrow>
           (\<forall>d \<in> set ds. view s (d_ID d) = Some d \<and> matches_status q d \<and> matches_source q d) \<and>
           (q_orderBy q = ''id'' \<longrightarrow> ds = run_query q (docs_list (view s)))
       | Inl e \<Rightarrow> \<not> live ctx)"

end
