(* ===== verification/Md5.thy ===== *)
theory Md5
  imports Main "HOL-Library.Word" "HOL-Library.Char_ord"
begin

text \<open>
  The digest \<^verbatim>\<open>crypto/md5\<close> of Go's standard library and \<^verbatim>\<open>hex.EncodeToString\<close>, which the object
  stores use for the ETag of an object and the JMComic source for its request tokens and keys.
  Bytes are characters; the words of the algorithm are \<open>32 word\<close>, whose addition wraps.
\<close>

unbundle bit_operations_syntax

section \<open>Tables\<close>

definition md5_K :: "32 word list" where
  "md5_K =
    [
0xd76aa478, 0xe8c7b756, 0x242070db, 0xc1bdceee, 0xf57c0faf, 0x4787c62a,
     0xa8304613, 0xfd469501, 0x698098d8, 0x8b44f7af, 0xffff5bb1, 0x895cd7be,
     0x6b901122, 0xfd987193, 0xa679438e, 0x49b40821, 0xf61e2562, 0xc040b340,
     0x265e5a51, 0xe9b6c7aa, 0xd62f105d, 0x2441453, 0xd8a1e681, 0xe7d3fbc8,
     0x21e1cde6, 0xc33707d6, 0xf4d50d87, 0x455a14ed, 0xa9e3e905, 0xfcefa3f8,
     0x676f02d9, 0x8d2a4c8a, 0xfffa3942, 0x8771f681, 0x6d9d6122, 0xfde5380c,
     0xa4beea44, 0x4bdecfa9, 0xf6bb4b60, 0xbebfbc70, 0x289b7ec6, 0xeaa127fa,
     0xd4ef3085, 0x4881d05, 0xd9d4d039, 0xe6db99e5, 0x1fa27cf8, 0xc4ac5665,
     0xf4292244, 0x432aff97, 0xab9423a7, 0xfc93a039, 0x655b59c3, 0x8f0ccc92,
     0xffeff47d, 0x85845dd1, 0x6fa87e4f, 0xfe2ce6e0, 0xa3014314, 0x4e0811a1,
     0xf7537e82, 0xbd3af235, 0x2ad7d2bb, 0xeb86d391]"

definition md5_S :: "nat list" where
  "md5_S = concat (replicate 4 [7, 12, 17, 22] @ replicate 4 [5, 9, 14, 20]
     @ replicate 4 [4, 11, 16, 23] @ replicate 4 [6, 10, 15, 21])"

section \<open>Words and bytes\<close>

definition byte_word :: "char \<Rightarrow> 32 word" where
  "byte_word c = of_char c"

text \<open>The word of four bytes, the first the least significant, and the bytes of a number.\<close>

fun le_word :: "char list \<Rightarrow> 32 word" where
  "le_word [] = 0"
| "le_word (c # cs) = byte_word c + 256 * le_word cs"

fun le_bytes :: "nat \<Rightarrow> int \<Rightarrow> char list" where
  "le_bytes 0 n = []"
| "le_bytes (Suc k) n = char_of (n mod 256) # le_bytes k (n div 256)"

fun chunks :: "nat \<Rightarrow> 'a list \<Rightarrow> 'a list list" where
  "chunks n xs = (if n = 0 \<or> xs = [] then [] else take n xs # chunks n (drop n xs))"

declare chunks.simps [simp del]

definition md5_pad :: "string \<Rightarrow> string" where
  "md5_pad msg =
     msg @ [char_of (128 :: nat)] @ replicate ((119 - length msg mod 64) mod 64) (char_of (0 :: nat))
         @ le_bytes 8 (8 * int (length msg))"

section \<open>Rounds\<close>

type_synonym md5_state = "32 word \<times> 32 word \<times> 32 word \<times> 32 word"

definition md5_init :: md5_state where
  "md5_init = (0x67452301, 0xefcdab89, 0x98badcfe, 0x10325476)"

definition md5_round :: "32 word list \<Rightarrow> md5_state \<Rightarrow> nat \<Rightarrow> md5_state" where
  "md5_round M st i =
     (case st of (a, b, c, d) \<Rightarrow>
        let fg = (if i < 16 then ((b AND c) OR (NOT b AND d), i)
                  else if i < 32 then ((d AND b) OR (NOT d AND c), (5 * i + 1) mod 16)
                  else if i < 48 then (b XOR c XOR d, (3 * i + 5) mod 16)
                  else (c XOR (b OR NOT d), (7 * i) mod 16));
            f = fst fg + a + md5_K ! i + M ! snd fg
        in (d, b + word_rotl (md5_S ! i) f, b, c))"

definition md5_block :: "md5_state \<Rightarrow> string \<Rightarrow> md5_state" where
  "md5_block st block =
     (let M = map le_word (chunks 4 block) in
      case (st, foldl (md5_round M) st [0..<64]) of
        ((a, b, c, d), (a', b', c', d')) \<Rightarrow> (a + a', b + b', c + c', d + d'))"

text \<open>\<^verbatim>\<open>md5.Sum\<close>: the sixteen bytes of the digest.\<close>

definition md5_Sum :: "string \<Rightarrow> string" where
  "md5_Sum msg =
     (case foldl md5_block md5_init (chunks 64 (md5_pad msg)) of
        (a, b, c, d) \<Rightarrow> concat (map (\<lambda>w. le_bytes 4 (uint w)) [a, b, c, d]))"

section \<open>Hexadecimal text\<close>

definition hex_digit :: "nat \<Rightarrow> char" where
  "hex_digit d = char_of (if d < 10 then 48 + d else 87 + d)"

definition hex_EncodeToString :: "string \<Rightarrow> string" where
  "hex_EncodeToString bs = concat (map (\<lambda>c. [hex_digit (of_char c div 16), hex_digit (of_char c mod 16)]) bs)"

definition md5_hex :: "string \<Rightarrow> string" where
  "md5_hex msg = hex_EncodeToString (md5_Sum msg)"

lemma length_hex [simp]: "length (hex_EncodeToString bs) = 2 * length bs"
  by (induction bs) (simp_all add: hex_EncodeToString_def)

lemma length_le_bytes [simp]: "length (le_bytes k n) = k"
  by (induction k n rule: le_bytes.induct) simp_all

lemma length_md5_Sum [simp]: "length (md5_Sum msg) = 16"
  by (simp add: md5_Sum_def split: prod.splits)

lemma length_md5_hex [simp]: "length (md5_hex msg) = 32"
  by (simp add: md5_hex_def)

lemma md5_hex_not_Nil [simp]: "md5_hex msg \<noteq> ''''"
  by (metis length_md5_hex list.size(3) zero_neq_numeral)

text \<open>The padding always fills whole blocks.\<close>

lemma md5_pad_blocks: "length (md5_pad msg) mod 64 = 0"
proof -
  define q r where "q = length msg div 64" and "r = length msg mod 64"
  have n: "length msg = 64 * q + r" and r: "r < 64" by (simp_all add: q_def r_def)
  have pad: "(119 - r) mod 64 = (if r \<le> 55 then 55 - r else 119 - r)"
  proof (cases "r \<le> 55")
    case True
    then have "119 - r = 64 + (55 - r)" by simp
    then show ?thesis using True by (simp only: mod_add_self1) simp
  qed (use r in simp)
  have "length (md5_pad msg) = length msg + 9 + (119 - r) mod 64" by (simp add: md5_pad_def r_def)
  also have "\<dots> = 64 * (q + (if r \<le> 55 then 1 else 2))"
    unfolding pad n using r by auto
  finally show ?thesis by simp
qed

end
