(* ===== verification/ObjStore.thy ===== *)
theory ObjStore
  imports Md5 StoreApi
begin

text \<open>
  Object storage: the interface \<open>ObjectStore\<close> of \<^verbatim>\<open>internal/storage/storage.go\<close> as a record of
  operations over a state, the contract \<open>object_store\<close> its clients rely on, and the in-memory
  store of \<^verbatim>\<open>internal/storage/memory.go\<close> with the interpretation of the contract.

  Contents are byte strings.  A \<open>body\<close> is the \<^verbatim>\<open>io.ReadSeeker\<close> of \<open>PutObject\<close>: absent (nil), or a
  reader that yields its bytes or fails with an error.  \<open>Size\<close> is an \<^verbatim>\<open>int64\<close>.
\<close>

section \<open>The interface\<close>

record ObjectInfo =
  oi_Key :: string
  oi_Size :: int
  oi_ContentType :: string
  oi_ETag :: string

record Object =
  ob_Info :: ObjectInfo
  ob_Body :: string

type_synonym body = "(string + string) option"

definition zero_ObjectInfo :: ObjectInfo where
  "zero_ObjectInfo = \<lparr>oi_Key = '''', oi_Size = 0, oi_ContentType = '''', oi_ETag = ''''\<rparr>"

definition MemoryStorageType :: string where "MemoryStorageType = ''memory''"
definition S3StorageType :: string where "S3StorageType = ''s3''"

record 'o ObjectStore =
  os_Name :: string
  os_Type :: string
  os_PutObject :: "ctx \<Rightarrow> ObjectInfo \<Rightarrow> body \<Rightarrow> 'o \<Rightarrow> (go_error + ObjectInfo) \<times> 'o"
  os_GetObject :: "ctx \<Rightarrow> string \<Rightarrow> 'o \<Rightarrow> go_error + Object"
  os_HeadObject :: "ctx \<Rightarrow> string \<Rightarrow> 'o \<Rightarrow> go_error + ObjectInfo"
  os_DeleteObject :: "ctx \<Rightarrow> string \<Rightarrow> 'o \<Rightarrow> (go_error + unit) \<times> 'o"
  os_DeletePrefix :: "ctx \<Rightarrow> string \<Rightarrow> 'o \<Rightarrow> (go_error + unit) \<times> 'o"
  os_PresignGetObject :: "ctx \<Rightarrow> string \<Rightarrow> int \<Rightarrow> 'o \<Rightarrow> go_error + string"

section \<open>The contract\<close>

text \<open>
  The state of a store is seen as the map from keys to contents.  Deletions only ever remove
  keys, also when they fail half way; \<open>DeletePrefix\<close> that succeeds leaves no key with the prefix
  and touches no other key.
\<close>

locale object_store =
  fixes Obj :: "'o ObjectStore" and contents :: "'o \<Rightarrow> string \<Rightarrow> string option"
    and legal_key :: "string \<Rightarrow> bool"
  assumes legal: "legal_key key \<Longrightarrow> key \<noteq> ''''"
    and Put_law: "case os_PutObject Obj ctx info (Some (Inr content)) s of
        (Inr info', s') \<Rightarrow>
          contents s' = (contents s)(oi_Key info \<mapsto> content) \<and> oi_Key info' = oi_Key info \<and>
          oi_ETag info' \<noteq> ''''
      | (Inl e, s') \<Rightarrow>
          live ctx \<and> legal_key (oi_Key info) \<longrightarrow> oi_Size info \<ge> 0 \<and> oi_Size info \<noteq> int (length content)"
    and Put_frame: "os_PutObject Obj ctx info body s = (r, s') \<Longrightarrow> k \<noteq> oi_Key info \<Longrightarrow>
        contents s' k = contents s k"
    and Get_law: "case os_GetObject Obj ctx key s of
        Inr object \<Rightarrow> contents s key = Some (ob_Body object)
      | Inl e \<Rightarrow> live ctx \<and> legal_key key \<longrightarrow> contents s key = None"
    and Head_law: "case os_HeadObject Obj ctx key s of
        Inr info \<Rightarrow> contents s key \<noteq> None
      | Inl e \<Rightarrow> live ctx \<and> legal_key key \<longrightarrow> contents s key = None \<and> errors_Is e ErrObjectNotFound"
    and DeletePrefix_law: "legal_key prfx \<Longrightarrow> case os_DeletePrefix Obj ctx prfx s of
        (Inr u, s') \<Rightarrow> contents s' = (\<lambda>k. if prefix prfx k then None else contents s k)
      | (Inl e, s') \<Rightarrow>
          (\<forall>k. contents s' k = contents s k \<or> contents s' k = None \<and> prefix prfx k) \<and>
          (live ctx \<longrightarrow> errors_Is e ErrObjectNotFound)"
begin

text \<open>What was put is what is got, until it is deleted.\<close>

lemma put_then_get:
  assumes "os_PutObject Obj ctx info (Some (Inr content)) s = (Inr info', s')"
    and "live ctx'" "legal_key (oi_Key info)"
  shows "\<exists>object. os_GetObject Obj ctx' (oi_Key info) s' = Inr object \<and> ob_Body object = content"
  using Put_law [of ctx info content s] Get_law [of ctx' "oi_Key info" s'] assms
  by (auto split: sum.splits)

lemma deleted_prefix_gone:
  assumes "os_DeletePrefix Obj ctx prfx s = (Inr u, s')" "prefix prfx key" "legal_key prfx"
  shows "\<not> is_ok (os_GetObject Obj ctx' key s')"
  using DeletePrefix_law [where prfx = prfx and ctx = ctx and s = s] Get_law [of ctx' key s'] assms
  by (auto split: sum.splits)

lemma delete_prefix_frame:
  assumes "os_DeletePrefix Obj ctx prfx s = (r, s')" "\<not> prefix prfx key" "legal_key prfx"
  shows "contents s' key = contents s key"
  using DeletePrefix_law [where prfx = prfx and ctx = ctx and s = s] assms by (auto split: sum.splits)

end

text \<open>
  A store whose \<open>DeletePrefix\<close> answers \<^verbatim>\<open>ErrObjectNotFound\<close> only when no key with the prefix is left.
  The purge of a document relies on it, because it takes this error for success.
\<close>

locale complete_object_store = object_store +
  assumes DeletePrefix_not_found: "legal_key prfx \<Longrightarrow>
    os_DeletePrefix Obj ctx prfx s = (Inl e, s') \<Longrightarrow> errors_Is e ErrObjectNotFound \<Longrightarrow>
    prefix prfx key \<Longrightarrow> contents s' key = None"
begin

lemma DeletePrefix_done:
  assumes "legal_key prfx" "os_DeletePrefix Obj ctx prfx s = (r, s')"
    and "\<And>e. r = Inl e \<Longrightarrow> errors_Is e ErrObjectNotFound"
  shows "contents s' = (\<lambda>key. if prefix prfx key then None else contents s key)"
proof (cases r)
  case (Inl e)
  have shrink: "contents s' k = contents s k \<or> contents s' k = None \<and> prefix prfx k" for k
    using DeletePrefix_law [OF assms(1), where ctx = ctx and s = s] assms(2) Inl by simp
  show ?thesis
    using shrink DeletePrefix_not_found [OF assms(1), where ctx = ctx and s = s and e = e] assms(2,3) Inl
    by (fastforce simp: fun_eq_iff)
next
  case (Inr u)
  then show ?thesis using DeletePrefix_law [OF assms(1), where ctx = ctx and s = s] assms(2) by simp
qed

lemma DeletePrefix_shrinks:
  assumes "legal_key prfx" "os_DeletePrefix Obj ctx prfx s = (r, s')"
  shows "contents s' key = contents s key \<or> contents s' key = None \<and> prefix prfx key"
  using DeletePrefix_law [OF assms(1), where ctx = ctx and s = s] assms(2) by (cases r) auto

end

section \<open>The store in memory\<close>

record memoryObject =
  mo_content :: string
  mo_contentType :: string
  mo_etag :: string
  mo_updatedAt :: utc_time

record MemoryObjects =
  ms_storageName :: string
  ms_objects :: "string \<Rightarrow> memoryObject option"

definition NewMemoryObjects :: "string \<Rightarrow> MemoryObjects" where
  "NewMemoryObjects name = \<lparr>ms_storageName = name, ms_objects = Map.empty\<rparr>"

definition MemoryObjects_DeleteObject ::
  "ctx \<Rightarrow> string \<Rightarrow> MemoryObjects \<Rightarrow> (go_error + unit) \<times> MemoryObjects" where
  "MemoryObjects_DeleteObject ctx key s =
     (case ctx 0 of Some e \<Rightarrow> (Inl (ErrExternal e), s) | None \<Rightarrow>
        (case ms_objects s key of
           None \<Rightarrow> (Inl ErrObjectNotFound, s)
         | Some _ \<Rightarrow> (Inr (), s\<lparr>ms_objects := (ms_objects s)(key := None)\<rparr>)))"

text \<open>The loop over the map deletes every key with the prefix, in whatever order the keys come.\<close>

definition MemoryObjects_DeletePrefix ::
  "ctx \<Rightarrow> string \<Rightarrow> MemoryObjects \<Rightarrow> (go_error + unit) \<times> MemoryObjects" where
  "MemoryObjects_DeletePrefix ctx prfx s =
     (case ctx 0 of Some e \<Rightarrow> (Inl (ErrExternal e), s) | None \<Rightarrow>
        if prfx = '''' then (Inl (ErrText ''object prefix is required''), s)
        else (Inr (), s\<lparr>ms_objects := (\<lambda>key. if prefix prfx key then None else ms_objects s key)\<rparr>))"

definition info_of_object :: "string \<Rightarrow> memoryObject \<Rightarrow> ObjectInfo" where
  "info_of_object key object =
     \<lparr>oi_Key = key, oi_Size = int (length (mo_content object)),
      oi_ContentType = mo_contentType object, oi_ETag = mo_etag object\<rparr>"

definition MemoryObjects_PutObject ::
  "utc_time \<Rightarrow> ctx \<Rightarrow> ObjectInfo \<Rightarrow> body \<Rightarrow> MemoryObjects
     \<Rightarrow> (go_error + ObjectInfo) \<times> MemoryObjects" where
  "MemoryObjects_PutObject now ctx info body s =
     (case ctx 0 of Some e \<Rightarrow> (Inl (ErrExternal e), s) | None \<Rightarrow>
        if oi_Key info = '''' then (Inl (ErrText ''object key is required''), s)
        else case body of
          None \<Rightarrow> (Inl (ErrText ''object body is required''), s)
        | Some (Inl e) \<Rightarrow> (Inl (ErrExternal e), s)
        | Some (Inr content) \<Rightarrow>
            (if oi_Size info \<ge> 0 \<and> int (length content) \<noteq> oi_Size info
             then (Inl (ErrText (''object size mismatch: expected '' @ Itoa (oi_Size info)
                                 @ '', got '' @ Itoa (int (length content)))), s)
             else
               (let etag = (if oi_ETag info = '''' then md5_hex content else oi_ETag info);
                    object = \<lparr>mo_content = content, mo_contentType = oi_ContentType info,
                              mo_etag = etag, mo_updatedAt = now\<rparr>
                in (Inr (info_of_object (oi_Key info) object),
                    s\<lparr>ms_objects := (ms_objects s)(oi_Key info \<mapsto> object)\<rparr>))))"

definition MemoryObjects_GetObject :: "ctx \<Rightarrow> string \<Rightarrow> MemoryObjects \<Rightarrow> go_error + Object" where
  "MemoryObjects_GetObject ctx key s =
     (case ctx 0 of Some e \<Rightarrow> Inl (ErrExternal e) | None \<Rightarrow>
        (case ms_objects s key of
           None \<Rightarrow> Inl ErrObjectNotFound
         | Some object \<Rightarrow>
             Inr \<lparr>ob_Info = info_of_object key object, ob_Body = mo_content object\<rparr>))"

definition MemoryObjects_HeadObject :: "ctx \<Rightarrow> string \<Rightarrow> MemoryObjects \<Rightarrow> go_error + ObjectInfo" where
  "MemoryObjects_HeadObject ctx key s =
     (case ctx 0 of Some e \<Rightarrow> Inl (ErrExternal e) | None \<Rightarrow>
        (case ms_objects s key of
           None \<Rightarrow> Inl ErrObjectNotFound
         | Some object \<Rightarrow> Inr (info_of_object key object)))"

definition MemoryObjects_PresignGetObject ::
  "ctx \<Rightarrow> string \<Rightarrow> int \<Rightarrow> MemoryObjects \<Rightarrow> go_error + string" where
  "MemoryObjects_PresignGetObject ctx key ttl s =
     (case MemoryObjects_HeadObject ctx key s of
        Inl e \<Rightarrow> Inl e
      | Inr _ \<Rightarrow> Inr (''memory://'' @ key))"

definition memory_objects :: "string \<Rightarrow> utc_time \<Rightarrow> MemoryObjects ObjectStore" where
  "memory_objects name now =
     \<lparr>os_Name = name, os_Type = MemoryStorageType, os_PutObject = MemoryObjects_PutObject now,
      os_GetObject = MemoryObjects_GetObject, os_HeadObject = MemoryObjects_HeadObject,
      os_DeleteObject = MemoryObjects_DeleteObject, os_DeletePrefix = MemoryObjects_DeletePrefix,
      os_PresignGetObject = MemoryObjects_PresignGetObject\<rparr>"

definition memory_contents :: "MemoryObjects \<Rightarrow> string \<Rightarrow> string option" where
  "memory_contents s key = map_option mo_content (ms_objects s key)"

lemma memory_objects_sel [simp]:
  "os_PutObject (memory_objects name now) = MemoryObjects_PutObject now"
  "os_GetObject (memory_objects name now) = MemoryObjects_GetObject"
  "os_HeadObject (memory_objects name now) = MemoryObjects_HeadObject"
  "os_DeletePrefix (memory_objects name now) = MemoryObjects_DeletePrefix"
  "os_Type (memory_objects name now) = MemoryStorageType"
  by (simp_all add: memory_objects_def)

lemma memory_Put_law:
  "case MemoryObjects_PutObject now ctx info (Some (Inr content)) s of
      (Inr info', s') \<Rightarrow>
        memory_contents s' = (memory_contents s)(oi_Key info \<mapsto> content) \<and>
        oi_Key info' = oi_Key info \<and> oi_ETag info' \<noteq> ''''
    | (Inl e, s') \<Rightarrow>
        live ctx \<and> oi_Key info \<noteq> '''' \<longrightarrow> oi_Size info \<ge> 0 \<and> oi_Size info \<noteq> int (length content)"
  by (auto simp: MemoryObjects_PutObject_def memory_contents_def info_of_object_def Let_def
      fun_eq_iff liveD split: option.splits)

lemma memory_Put_frame:
  "MemoryObjects_PutObject now ctx info body s = (r, s') \<Longrightarrow> k \<noteq> oi_Key info \<Longrightarrow>
   memory_contents s' k = memory_contents s k"
  by (auto simp: MemoryObjects_PutObject_def memory_contents_def Let_def
      split: option.splits sum.splits if_splits)

interpretation memobj: object_store "memory_objects name now" memory_contents "\<lambda>key. key \<noteq> ''''"
proof unfold_locales
  show "case os_PutObject (memory_objects name now) ctx info (Some (Inr content)) s of
      (Inr info', s') \<Rightarrow>
        memory_contents s' = (memory_contents s)(oi_Key info \<mapsto> content) \<and>
        oi_Key info' = oi_Key info \<and> oi_ETag info' \<noteq> ''''
    | (Inl e, s') \<Rightarrow>
        live ctx \<and> oi_Key info \<noteq> '''' \<longrightarrow> oi_Size info \<ge> 0 \<and> oi_Size info \<noteq> int (length content)"
    for ctx info content s
    using memory_Put_law by simp
qed (auto simp: MemoryObjects_GetObject_def MemoryObjects_HeadObject_def
    MemoryObjects_DeletePrefix_def memory_contents_def fun_eq_iff liveD
    split: option.splits intro: memory_Put_frame [unfolded memory_contents_def])

interpretation memobj: complete_object_store "memory_objects name now" memory_contents "\<lambda>key. key \<noteq> ''''"
  by unfold_locales
    (auto simp: MemoryObjects_DeletePrefix_def split: option.splits if_splits)

end
