(* ===== verification/Keys.thy ===== *)
theory Keys
  imports GoErrors
begin

text \<open>
  The object keys of \<^verbatim>\<open>internal/archive/keys.go\<close>.  Everything that is stored for a document lies
  under \<open>DocumentObjectPrefix\<close> of its id, and purging a document deletes that prefix: the lemmas
  say that the prefixes of two documents never overlap, and that a page key determines the
  document, the hash and the extension.
\<close>

section \<open>Operations\<close>

definition objectRoot :: string where
  "objectRoot = ''documents''"

definition DocumentObjectPrefix :: "string \<Rightarrow> string" where
  "DocumentObjectPrefix documentID = path_Join [objectRoot, documentID] @ ''/''"

definition ManifestObjectKey :: "string \<Rightarrow> string" where
  "ManifestObjectKey documentID = path_Join [DocumentObjectPrefix documentID, ''manifest.json'']"

definition contentTypeExt :: "string \<Rightarrow> string" where
  "contentTypeExt contentType =
     (if contentType = ''image/webp'' then ''webp''
      else if contentType = ''image/jpeg'' then ''jpg''
      else if contentType = ''image/png'' then ''png''
      else if contentType = ''image/avif'' then ''avif''
      else ''bin'')"

definition PageObjectKey :: "string \<Rightarrow> string \<Rightarrow> string \<Rightarrow> go_error + string" where
  "PageObjectKey documentID0 hash0 contentType =
     (let documentID = TrimSpace documentID0; hash = TrimSpace hash0 in
      if documentID = '''' then Inl (ErrText ''document id is required'')
      else if hash = '''' then Inl (ErrText ''page hash is required'')
      else if hash = ''.'' \<or> hash = ''..'' \<or> ContainsAny hash [CHR ''/'', CHR 0x5C]
      then Inl (ErrText ''page hash must be a single safe path segment'')
      else Inr (path_Join [DocumentObjectPrefix documentID, ''pages'',
                           hash @ ''.'' @ contentTypeExt contentType]))"

section \<open>The shape of the keys of a document\<close>

abbreviation doc_root :: "int \<Rightarrow> string" where
  "doc_root i \<equiv> ''documents/'' @ Itoa i"

lemma safe_documents: "safe_segment ''documents''" "safe_segment ''pages''"
    "safe_segment ''manifest.json''"
  by (simp_all add: safe_segment_def)

lemma DocumentObjectPrefix_Itoa: "DocumentObjectPrefix (Itoa i) = doc_root i @ ''/''"
  using path_Join_safe [OF safe_documents(1), of "[Itoa i]"] safe_segment_Itoa [of i]
  by (simp add: DocumentObjectPrefix_def objectRoot_def)

text \<open>Joining further segments to the prefix of a document.\<close>

lemma path_Join_prefix:
  assumes "ss \<noteq> []" "list_all safe_segment ss"
  shows "path_Join (DocumentObjectPrefix (Itoa i) # ss) = doc_root i @ ''/'' @ join_slash ss"
proof -
  have prefix: "DocumentObjectPrefix (Itoa i) = join_slash [''documents'', Itoa i, '''']"
    by (simp add: DocumentObjectPrefix_Itoa)
  have all: "list_all (\<lambda>s. s = [] \<or> safe_segment s) (Itoa i # '''' # ss)"
    using assms(2) safe_segment_Itoa [of i] by (auto simp: list_all_iff)
  have "path_Join (DocumentObjectPrefix (Itoa i) # ss)
      = path_Clean (join_slash ([''documents'', Itoa i, ''''] @ ss))"
    using join_slash_append [of "[''documents'', Itoa i, '''']" ss]
      join_slash_append [of "[DocumentObjectPrefix (Itoa i)]" ss] assms(1)
    by (simp add: path_Join_def prefix [symmetric] DocumentObjectPrefix_Itoa)
  also have "\<dots> = join_slash (''documents'' # filter (\<lambda>s. s \<noteq> []) (Itoa i # '''' # ss))"
    using path_Clean_join_safe [OF safe_documents(1) all] by simp
  also have "filter (\<lambda>s. s \<noteq> []) (Itoa i # '''' # ss) = Itoa i # ss"
    using assms(2) by (auto simp: safe_segment_def list_all_iff intro!: filter_True)
  also have "join_slash (''documents'' # Itoa i # ss) = doc_root i @ ''/'' @ join_slash ss"
    using assms(1) by (cases ss) simp_all
  finally show ?thesis .
qed

lemma ManifestObjectKey_Itoa: "ManifestObjectKey (Itoa i) = doc_root i @ ''/manifest.json''"
  using path_Join_prefix [of "[''manifest.json'']" i] safe_documents
  by (simp add: ManifestObjectKey_def)

lemma contentTypeExt_chars:
  "3 \<le> length (contentTypeExt ct)" "CHR ''.'' \<notin> set (contentTypeExt ct)" "CHR ''/'' \<notin> set (contentTypeExt ct)"
  by (simp_all add: contentTypeExt_def)

text \<open>When \<open>PageObjectKey\<close> accepts a hash, and the key it builds then.\<close>

definition hash_ok :: "string \<Rightarrow> bool" where
  "hash_ok hash \<longleftrightarrow>
     hash \<noteq> '''' \<and> hash \<noteq> ''.'' \<and> hash \<noteq> ''..'' \<and> CHR ''/'' \<notin> set hash \<and> CHR 0x5C \<notin> set hash"

definition page_key :: "int \<Rightarrow> string \<Rightarrow> string \<Rightarrow> string" where
  "page_key i hash ct = doc_root i @ ''/pages/'' @ hash @ ''.'' @ contentTypeExt ct"

lemma PageObjectKey_Itoa:
  "PageObjectKey (Itoa i) hash ct = Inr key \<longleftrightarrow>
     hash_ok (TrimSpace hash) \<and> key = page_key i (TrimSpace hash) ct"
proof -
  let ?h = "TrimSpace hash"
  let ?leaf = "?h @ ''.'' @ contentTypeExt ct"
  have "path_Join [DocumentObjectPrefix (Itoa i), ''pages'', ?leaf] = page_key i ?h ct" if "hash_ok ?h"
  proof -
    have "safe_segment ?leaf"
      using that contentTypeExt_chars [of ct]
      by (auto simp: safe_segment_def hash_ok_def dest!: arg_cong [where f = length])
    then show ?thesis
      using path_Join_prefix [of "[''pages'', ?leaf]" i] safe_documents by (simp add: page_key_def)
  qed
  moreover have "TrimSpace (Itoa i) = Itoa i" by (rule TrimSpace_printable) (rule printable_Itoa)
  ultimately show ?thesis
    unfolding PageObjectKey_def Let_def hash_ok_def by (auto simp: ContainsAny_iff)
qed

section \<open>Documents do not share objects\<close>

lemma doc_prefix_disjoint:
  assumes "prefix (DocumentObjectPrefix (Itoa i)) key" "prefix (DocumentObjectPrefix (Itoa j)) key"
  shows "i = j"
proof -
  have slash: "CHR ''/'' \<notin> set (Itoa n)" for n using safe_segment_Itoa [of n] by (simp add: safe_segment_def)
  obtain us vs where "doc_root i @ ''/'' @ us = doc_root j @ ''/'' @ vs"
    using assms by (auto simp: DocumentObjectPrefix_Itoa prefix_def)
  then have "Itoa i @ [CHR ''/''] @ us = Itoa j @ [CHR ''/''] @ vs" by simp
  from append_sep_eq [OF this slash slash] show ?thesis by simp
qed

lemma PageObjectKey_prefix:
  "PageObjectKey (Itoa i) hash ct = Inr key \<Longrightarrow> prefix (DocumentObjectPrefix (Itoa i)) key"
  by (simp add: PageObjectKey_Itoa page_key_def DocumentObjectPrefix_Itoa)

lemma ManifestObjectKey_prefix: "prefix (DocumentObjectPrefix (Itoa i)) (ManifestObjectKey (Itoa i))"
  by (simp add: ManifestObjectKey_Itoa DocumentObjectPrefix_Itoa)

lemma append_last_sep_eq:
  assumes "xs @ c # us = ys @ c # vs" "c \<notin> set us" "c \<notin> set vs"
  shows "xs = ys \<and> us = vs"
proof -
  have "rev us @ [c] @ rev xs = rev vs @ [c] @ rev ys"
    using arg_cong [OF assms(1), of rev] by simp
  from append_sep_eq [OF this] assms(2,3) show ?thesis by simp
qed

lemma page_key_inject:
  assumes "page_key i h ct = page_key j h' ct'"
  shows "i = j \<and> h = h' \<and> contentTypeExt ct = contentTypeExt ct'"
proof -
  have "prefix (DocumentObjectPrefix (Itoa i)) (page_key i h ct)"
    "prefix (DocumentObjectPrefix (Itoa j)) (page_key j h' ct')"
    by (simp_all add: page_key_def DocumentObjectPrefix_Itoa)
  with assms have "i = j" using doc_prefix_disjoint by metis
  with assms have "h @ CHR ''.'' # contentTypeExt ct = h' @ CHR ''.'' # contentTypeExt ct'"
    by (simp add: page_key_def)
  with \<open>i = j\<close> show ?thesis using append_last_sep_eq contentTypeExt_chars(2) by metis
qed

lemma page_key_not_manifest: "page_key i h ct \<noteq> ManifestObjectKey (Itoa j)"
proof
  assume eq: "page_key i h ct = ManifestObjectKey (Itoa j)"
  have "prefix (DocumentObjectPrefix (Itoa i)) (page_key i h ct)"
    by (simp add: page_key_def DocumentObjectPrefix_Itoa)
  then have "i = j" using eq ManifestObjectKey_prefix [of j] doc_prefix_disjoint by metis
  with eq show False by (simp add: page_key_def ManifestObjectKey_Itoa)
qed

end
