(* ===== verification/ArchiveApp.thy ===== *)
theory ArchiveApp
  imports StoreSpec ObjStore Keys
begin

text \<open>
  The archive application, \<^verbatim>\<open>internal/archive/app.go\<close>.  An \<open>App\<close> holds a document store, the
  registered object storages and the source handler factories; the state those work on is the
  \<open>world\<close>: the state of the document store, the state of each object storage by name, and the
  number of store calls made so far.  The environment gives, for the call number \<open>n\<close>, the clock, the
  context (which may be cancelled by then) and what other goroutines, the HTTP handlers in
  particular, do to the document store just before the call.  Logging is not modelled.

  A source handler is a record of functions on the world, built by its factory from the object
  storage and the page hook, which is how the content of a document reaches the store.
\<close>

section \<open>World and environment\<close>

record ('s, 'o) world =
  wd_calls :: nat
  wd_docs :: 's
  wd_objs :: "string \<Rightarrow> 'o"

record 's env =
  e_now :: "nat \<Rightarrow> utc_time"
  e_ctx :: "nat \<Rightarrow> ctx"
  e_other :: "nat \<Rightarrow> 's \<Rightarrow> 's"

text \<open>One call of a method of the document store, and one that only reads.\<close>

definition docs_call ::
  "'s env \<Rightarrow> (ctx \<Rightarrow> utc_time \<Rightarrow> 's \<Rightarrow> 'r \<times> 's) \<Rightarrow> ('s, 'o) world \<Rightarrow> 'r \<times> ('s, 'o) world" where
  "docs_call E f w =
     (let n = wd_calls w in
      case f (e_ctx E n) (e_now E n) (e_other E n (wd_docs w)) of
        (r, s') \<Rightarrow> (r, w\<lparr>wd_docs := s', wd_calls := Suc n\<rparr>))"

definition docs_read ::
  "'s env \<Rightarrow> (ctx \<Rightarrow> 's \<Rightarrow> 'r) \<Rightarrow> ('s, 'o) world \<Rightarrow> 'r \<times> ('s, 'o) world" where
  "docs_read E f = docs_call E (\<lambda>ctx now s. (f ctx s, s))"

text \<open>An object storage as its clients hold it: a store whose state is a part of the world.\<close>

definition on_objs ::
  "string \<Rightarrow> ('o \<Rightarrow> 'r \<times> 'o) \<Rightarrow> ('s, 'o) world \<Rightarrow> 'r \<times> ('s, 'o) world" where
  "on_objs name f w =
     (case f (wd_objs w name) of (r, o') \<Rightarrow> (r, w\<lparr>wd_objs := (wd_objs w)(name := o')\<rparr>))"

definition store_at :: "string \<Rightarrow> 'o ObjectStore \<Rightarrow> ('s, 'o) world ObjectStore" where
  "store_at name Obj =
     \<lparr>os_Name = os_Name Obj, os_Type = os_Type Obj,
      os_PutObject = (\<lambda>ctx info body. on_objs name (os_PutObject Obj ctx info body)),
      os_GetObject = (\<lambda>ctx key w. os_GetObject Obj ctx key (wd_objs w name)),
      os_HeadObject = (\<lambda>ctx key w. os_HeadObject Obj ctx key (wd_objs w name)),
      os_DeleteObject = (\<lambda>ctx key. on_objs name (os_DeleteObject Obj ctx key)),
      os_DeletePrefix = (\<lambda>ctx prfx. on_objs name (os_DeletePrefix Obj ctx prfx)),
      os_PresignGetObject = (\<lambda>ctx key ttl w. os_PresignGetObject Obj ctx key ttl (wd_objs w name))\<rparr>"

section \<open>Handlers and the application\<close>

type_synonym ('s, 'o, 'a) action = "('s, 'o) world \<Rightarrow> 'a \<times> ('s, 'o) world"

type_synonym ('s, 'o) PageDownloadHook = "int \<Rightarrow> Page \<Rightarrow> ('s, 'o, go_error + unit) action"

text \<open>
  \<open>ResolveDocument\<close> returns a document and, apart, its field \<open>Pages\<close>, which is \<open>None\<close> for a nil slice.
\<close>

record ('s, 'o) SourceHandler =
  sh_ResolveDocument :: "'s env \<Rightarrow> Document \<Rightarrow> ('s, 'o, go_error + Document \<times> Page list option) action"
  sh_ArchiveContent :: "'s env \<Rightarrow> Document \<Rightarrow> ('s, 'o, go_error + Page list) action"
  sh_ArchiveManifest :: "'s env \<Rightarrow> Document \<Rightarrow> ('s, 'o, go_error + unit) action"

record ('s, 'o) SourceHandlerFactory =
  fa_Source :: string
  fa_NewHandler :: "('s, 'o) world ObjectStore \<Rightarrow> ('s env \<Rightarrow> ('s, 'o) PageDownloadHook)
    \<Rightarrow> ('s, 'o) SourceHandler option"

record ('s, 'o) App =
  ap_documents :: "'s Store"
  ap_storages :: "string \<Rightarrow> 'o ObjectStore option"
  ap_defaultStorageName :: string
  ap_deletedSweep :: int
  ap_sourceFactories :: "string \<Rightarrow> ('s, 'o) SourceHandlerFactory option"

definition NewApp :: "'s Store \<Rightarrow> string \<Rightarrow> int \<Rightarrow> ('s, 'o) App" where
  "NewApp documentStore defaultStorageName deletedSweep =
     \<lparr>ap_documents = documentStore, ap_storages = Map.empty,
      ap_defaultStorageName = defaultStorageName, ap_deletedSweep = deletedSweep,
      ap_sourceFactories = Map.empty\<rparr>"

definition RegisterSourceFactory ::
  "('s, 'o) SourceHandlerFactory option \<Rightarrow> ('s, 'o) App \<Rightarrow> (go_error + unit) \<times> ('s, 'o) App" where
  "RegisterSourceFactory factory a =
     (case factory of
        None \<Rightarrow> (Inl (ErrText ''source handler factory is required''), a)
      | Some f \<Rightarrow>
          (if fa_Source f = ''''
           then (Inl (ErrText ''source handler factory source is required''), a)
           else if ap_sourceFactories a (fa_Source f) \<noteq> None
           then (Inl (ErrText (''source handler factory already registered: '' @ fa_Source f)), a)
           else (Inr (), a\<lparr>ap_sourceFactories := (ap_sourceFactories a)(fa_Source f \<mapsto> f)\<rparr>)))"

definition RegisterStorage ::
  "'o ObjectStore option \<Rightarrow> ('s, 'o) App \<Rightarrow> (go_error + unit) \<times> ('s, 'o) App" where
  "RegisterStorage objectStorage a =
     (case objectStorage of
        None \<Rightarrow> (Inl (ErrText ''object storage is required''), a)
      | Some st \<Rightarrow>
          (if os_Name st = '''' then (Inl (ErrText ''object storage name is required''), a)
           else if os_Type st = '''' then (Inl (ErrText ''object storage type is required''), a)
           else if ap_storages a (os_Name st) \<noteq> None
           then (Inl (ErrText (''object storage already registered: '' @ os_Name st)), a)
           else (Inr (), a\<lparr>ap_storages := (ap_storages a)(os_Name st \<mapsto> st)\<rparr>)))"

definition getSourceFactory :: "('s, 'o) App \<Rightarrow> string \<Rightarrow> go_error + ('s, 'o) SourceHandlerFactory" where
  "getSourceFactory a source =
     (case ap_sourceFactories a source of
        None \<Rightarrow> Inl (ErrText (''source handler factory not found: '' @ source))
      | Some factory \<Rightarrow> Inr factory)"

definition getStorage :: "('s, 'o) App \<Rightarrow> string \<Rightarrow> go_error + 'o ObjectStore" where
  "getStorage a storageName =
     (case ap_storages a storageName of
        None \<Rightarrow> Inl (ErrText (''object storage not found: '' @ storageName))
      | Some st \<Rightarrow> Inr st)"

definition onPageDownloaded :: "('s, 'o) App \<Rightarrow> 's env \<Rightarrow> ('s, 'o) PageDownloadHook" where
  "onPageDownloaded a E documentID page =
     docs_call E (\<lambda>ctx now. st_AddPage (ap_documents a) ctx now documentID page)"

section \<open>Requests\<close>

record RequestDocumentInput =
  rd_Source :: string
  rd_SourceDocumentID :: string
  rd_StorageBackend :: string

definition RequestDocument ::
  "('s, 'o) App \<Rightarrow> 's env \<Rightarrow> RequestDocumentInput
     \<Rightarrow> ('s, 'o, go_error \<times> Document + Document) action" where
  "RequestDocument a E input w =
     (if rd_Source input = '''' then (Inl (ErrText ''source is required'', zero_Document), w)
      else if length (rd_SourceDocumentID input) = 0
      then (Inl (ErrText ''source_document_id is required'', zero_Document), w)
      else case getSourceFactory a (rd_Source input) of
        Inl e \<Rightarrow> (Inl (e, zero_Document), w)
      | Inr _ \<Rightarrow>
          (let storageName = (if rd_StorageBackend input = '''' then ap_defaultStorageName a
                              else rd_StorageBackend input)
           in case getStorage a storageName of
                Inl e \<Rightarrow> (Inl (e, zero_Document), w)
              | Inr _ \<Rightarrow>
                  (let document = zero_Document\<lparr>d_Source := rd_Source input,
                         d_SourceDocumentID := rd_SourceDocumentID input,
                         d_StorageBackend := storageName\<rparr>
                   in docs_call E (\<lambda>ctx now. st_Create (ap_documents a) ctx now document) w)))"

definition GetDocument :: "('s, 'o) App \<Rightarrow> 's env \<Rightarrow> int \<Rightarrow> ('s, 'o, go_error + Document) action" where
  "GetDocument a E i = docs_read E (\<lambda>ctx. st_Get (ap_documents a) ctx i)"

datatype PageResult = PageResultRedirect string | PageResultObject Object

definition pagePresignTTL :: int where
  "pagePresignTTL = 24 * 3600 * 1000000000"

definition GetPage ::
  "('s, 'o) App \<Rightarrow> ctx \<Rightarrow> Document \<Rightarrow> int \<Rightarrow> ('s, 'o) world \<Rightarrow> go_error + PageResult" where
  "GetPage a ctx document pageIndex w =
     (case getStorage a (d_StorageBackend document) of
        Inl e \<Rightarrow> Inl e
      | Inr st \<Rightarrow>
          (let objectStorage = store_at (d_StorageBackend document) st;
               pagesLen = int (length (d_Pages document))
           in if pageIndex < 0 \<or> pageIndex \<ge> pagesLen
              then Inl (ErrText ''page index out of bounds'')
              else
                (let page = d_Pages document ! nat pageIndex in
                 if pg_Key page = '''' then Inl (ErrText ''page not archived'')
                 else if os_Type objectStorage = MemoryStorageType
                 then (case os_GetObject objectStorage ctx (pg_Key page) w of
                         Inl e \<Rightarrow> Inl (ErrWrap ''failed to get page object: '' e '''')
                       | Inr object \<Rightarrow> Inr (PageResultObject object))
                 else if os_Type objectStorage = S3StorageType
                 then (case os_PresignGetObject objectStorage ctx (pg_Key page) pagePresignTTL w of
                         Inl e \<Rightarrow> Inl (ErrWrap ''failed to presign page object: '' e '''')
                       | Inr url \<Rightarrow> Inr (PageResultRedirect url))
                 else Inl (ErrText (''unsupported storage type: '' @ os_Type objectStorage)))))"

text \<open>
  \<open>QueryDocument\<close>.  Decoding the parameters with \<^verbatim>\<open>encoding/json\<close> is the pair of functions \<open>decode\<close>: one for
  the source and source document id, one for the status.
\<close>

record QueryInput =
  qi_Mode :: string
  qi_Params :: string
  qi_OrderBy :: string
  qi_Order :: string
  qi_Limit :: int
  qi_Offset :: int

definition query_builder ::
  "(string \<Rightarrow> go_error + string \<times> string) \<times> (string \<Rightarrow> go_error + DocumentStatus)
     \<Rightarrow> QueryInput \<Rightarrow> go_error + QueryBuilder" where
  "query_builder decode input =
     (if qi_Mode input = ''by_source_document_id''
      then (case fst decode (qi_Params input) of
              Inl e \<Rightarrow> Inl (ErrWrap ''decode query params: '' e '''')
            | Inr (source, sid) \<Rightarrow> Inr (BySourceDocumentID source sid new_QueryBuilder))
      else if qi_Mode input = ''by_status''
      then (case snd decode (qi_Params input) of
              Inl e \<Rightarrow> Inl (ErrWrap ''decode query params: '' e '''')
            | Inr status \<Rightarrow> Inr (ByStatus status new_QueryBuilder))
      else if qi_Mode input = ''all'' then Inr new_QueryBuilder
      else Inl (ErrText (''unsupported query mode: '' @ qi_Mode input)))"

definition QueryDocument ::
  "(string \<Rightarrow> go_error + string \<times> string) \<times> (string \<Rightarrow> go_error + DocumentStatus)
     \<Rightarrow> ('s, 'o) App \<Rightarrow> 's env \<Rightarrow> QueryInput \<Rightarrow> ('s, 'o, go_error + Document list) action" where
  "QueryDocument decode a E input w =
     (case query_builder decode input of
        Inl e \<Rightarrow> (Inl e, w)
      | Inr qb \<Rightarrow>
          (case Build (Offset (qi_Offset input) (Limit (qi_Limit input)
                  (Order (qi_Order input) (OrderBy (qi_OrderBy input) qb)))) of
             Inl e \<Rightarrow> (Inl e, w)
           | Inr query \<Rightarrow> docs_read E (\<lambda>ctx. st_Query (ap_documents a) ctx query) w))"

definition RefreshDocument ::
  "('s, 'o) App \<Rightarrow> 's env \<Rightarrow> int \<Rightarrow> string \<Rightarrow> ('s, 'o, go_error + Document) action" where
  "RefreshDocument a E i mode w =
     (if mode = ''only_metadata''
      then bind_st (docs_call E (\<lambda>ctx now. st_TransitionTo (ap_documents a) ctx now i StatusQueued) w)
             (\<lambda>_. docs_read E (\<lambda>ctx. st_Get (ap_documents a) ctx i))
      else if mode = ''all''
      then bind_st (docs_call E (\<lambda>ctx now. st_TransitionTo (ap_documents a) ctx now i StatusQueued) w)
             (\<lambda>_. docs_call E (\<lambda>ctx now. st_ResetPages (ap_documents a) ctx now i))
      else if mode = ''restore''
      then docs_call E (\<lambda>ctx now. st_Restore (ap_documents a) ctx now i) w
      else (Inl (ErrText (''invalid refresh mode: '' @ mode)), w))"

definition RemoveDocument :: "('s, 'o) App \<Rightarrow> 's env \<Rightarrow> int \<Rightarrow> ('s, 'o, go_error + Document) action" where
  "RemoveDocument a E i = docs_call E (\<lambda>ctx now. st_Delete (ap_documents a) ctx now i)"

end
