(* ===== verification/ArchiveWorker.thy ===== *)
theory ArchiveWorker
  imports ArchiveApp
begin

text \<open>
  The worker of \<^verbatim>\<open>internal/archive/app.go\<close>: \<open>processDocument\<close> with \<open>failDocument\<close>, the batch of
  \<open>processQueued\<close>, and the purge loop \<open>processDeleted\<close>.  The loop is a partial function, so that it
  not returning is the value \<open>None\<close>; it is shown to return.
\<close>

section \<open>Archiving one document\<close>

text \<open>The callbacks of \<open>UpdateMeta\<close> that the worker passes.\<close>

definition meta_failed :: "go_error \<Rightarrow> meta_fn" where
  "meta_failed cause meta = Inr (meta\<lparr>m_Error := error_text cause\<rparr>)"

definition meta_resolved :: "Document \<Rightarrow> Page list option \<Rightarrow> meta_fn" where
  "meta_resolved resolved pages meta =
     Inr (meta\<lparr>m_SourceMeta := d_SourceMeta resolved, m_Title := d_Title resolved,
               m_Progress := (case pages of None \<Rightarrow> m_Progress meta
                              | Some ps \<Rightarrow> (m_Progress meta)\<lparr>pr_Total := int (length ps)\<rparr>),
               m_Error := ''''\<rparr>)"

definition failDocument ::
  "('s, 'o) App \<Rightarrow> 's env \<Rightarrow> int \<Rightarrow> go_error \<Rightarrow> ('s, 'o, go_error \<times> Document + Document) action" where
  "failDocument a E i cause w =
     (case docs_call E (\<lambda>ctx now. st_UpdateMeta (ap_documents a) ctx now i (Some (meta_failed cause))) w of
        (Inl e, w1) \<Rightarrow> (Inl (e, zero_Document), w1)
      | (Inr document, w1) \<Rightarrow>
          (case docs_call E (\<lambda>ctx now. st_TransitionTo (ap_documents a) ctx now i StatusFailed) w1 of
             (Inl e, w2) \<Rightarrow> (Inl (e, document), w2)
           | (Inr u, w2) \<Rightarrow> (Inl (cause, document), w2)))"

text \<open>A step of \<open>processDocument\<close> whose error fails the document.\<close>

definition or_fail ::
  "('s, 'o) App \<Rightarrow> 's env \<Rightarrow> int \<Rightarrow> (go_error + 'x) \<times> ('s, 'o) world
     \<Rightarrow> ('x \<Rightarrow> ('s, 'o, go_error \<times> Document + Document) action)
     \<Rightarrow> (go_error \<times> Document + Document) \<times> ('s, 'o) world" where
  "or_fail a E i m k = (case m of (Inl e, w) \<Rightarrow> failDocument a E i e w | (Inr x, w) \<Rightarrow> k x w)"

text \<open>The part after the metadata is stored: pages if any are missing, then the manifest.\<close>

definition archive_pages ::
  "('s, 'o) App \<Rightarrow> 's env \<Rightarrow> int \<Rightarrow> ('s, 'o) SourceHandler \<Rightarrow> Document
     \<Rightarrow> ('s, 'o, go_error \<times> Document + Document) action
     \<Rightarrow> ('s, 'o, go_error \<times> Document + Document) action" where
  "archive_pages a E i handler document k w =
     (if pr_Done (d_Progress document) < pr_Total (d_Progress document)
      then
        or_fail a E i (docs_call E (\<lambda>ctx now. st_ResetPages (ap_documents a) ctx now i) w) (\<lambda>document1 w.
        or_fail a E i
          (docs_call E (\<lambda>ctx now. st_TransitionTo (ap_documents a) ctx now i StatusDownloading) w) (\<lambda>_ w.
        or_fail a E i (sh_ArchiveContent handler E document1 w) (\<lambda>_ w. k w)))
      else k w)"

definition archive_manifest ::
  "('s, 'o) App \<Rightarrow> 's env \<Rightarrow> int \<Rightarrow> ('s, 'o) SourceHandler
     \<Rightarrow> ('s, 'o, go_error \<times> Document + Document) action" where
  "archive_manifest a E i handler w =
     or_fail a E i (docs_read E (\<lambda>ctx. st_Get (ap_documents a) ctx i) w) (\<lambda>document w.
     or_fail a E i (sh_ArchiveManifest handler E document w) (\<lambda>_ w.
     or_fail a E i
       (docs_call E (\<lambda>ctx now. st_TransitionTo (ap_documents a) ctx now i StatusArchived) w) (\<lambda>_ w.
     (case docs_read E (\<lambda>ctx. st_Get (ap_documents a) ctx i) w of
        (Inl e, w) \<Rightarrow> (Inl (e, zero_Document), w)
      | (Inr d, w) \<Rightarrow> (Inr d, w)))))"

definition archive_document ::
  "('s, 'o) App \<Rightarrow> 's env \<Rightarrow> int \<Rightarrow> ('s, 'o) SourceHandler \<Rightarrow> Document
     \<Rightarrow> ('s, 'o, go_error \<times> Document + Document) action" where
  "archive_document a E i handler document w =
     or_fail a E i
       (docs_call E (\<lambda>ctx now. st_TransitionTo (ap_documents a) ctx now i StatusResolving) w) (\<lambda>_ w.
     or_fail a E i (sh_ResolveDocument handler E document w) (\<lambda>(resolved, pages) w.
     or_fail a E i
       (docs_call E (\<lambda>ctx now. st_UpdateMeta (ap_documents a) ctx now i
          (Some (meta_resolved resolved pages))) w) (\<lambda>document1 w.
     archive_pages a E i handler document1 (archive_manifest a E i handler) w)))"

definition processDocument ::
  "('s, 'o) App \<Rightarrow> 's env \<Rightarrow> int \<Rightarrow> ('s, 'o, go_error \<times> Document + Document) action" where
  "processDocument a E i w =
     (case docs_read E (\<lambda>ctx. st_Get (ap_documents a) ctx i) w of
        (Inl e, w) \<Rightarrow> (Inl (e, zero_Document), w)
      | (Inr document, w) \<Rightarrow>
          or_fail a E i (getSourceFactory a (d_Source document), w) (\<lambda>factory w.
          or_fail a E i (getStorage a (d_StorageBackend document), w) (\<lambda>objectStorage w.
          (case fa_NewHandler factory (store_at (d_StorageBackend document) objectStorage)
                  (onPageDownloaded a) of
             None \<Rightarrow> failDocument a E i
               (ErrText (''source handler factory returned nil: '' @ d_Source document)) w
           | Some handler \<Rightarrow> archive_document a E i handler document w))))"

section \<open>The queue\<close>

fun process_each :: "('s, 'o) App \<Rightarrow> 's env \<Rightarrow> Document list \<Rightarrow> ('s, 'o) world \<Rightarrow> ('s, 'o) world" where
  "process_each a E [] w = w"
| "process_each a E (document # documents) w =
     process_each a E documents (snd (processDocument a E (d_ID document) w))"

definition processQueued :: "('s, 'o) App \<Rightarrow> 's env \<Rightarrow> ('s, 'o) world \<Rightarrow> ('s, 'o) world" where
  "processQueued a E w =
     (case Build (Limit 5 (ByStatus StatusQueued new_QueryBuilder)) of
        Inl e \<Rightarrow> w
      | Inr query \<Rightarrow>
          (case docs_read E (\<lambda>ctx. st_Query (ap_documents a) ctx query) w of
             (Inl e, w) \<Rightarrow> w
           | (Inr queued, w) \<Rightarrow> process_each a E queued w))"

section \<open>Purging deleted documents\<close>

definition deletedPurgeBatchSize :: int where
  "deletedPurgeBatchSize = 5"

text \<open>One document of a batch: whether it was purged.\<close>

definition purge_document :: "('s, 'o) App \<Rightarrow> 's env \<Rightarrow> Document \<Rightarrow> ('s, 'o, bool) action" where
  "purge_document a E document w =
     (case getStorage a (d_StorageBackend document) of
        Inl e \<Rightarrow> (False, w)
      | Inr st \<Rightarrow>
          (let objectStorage = store_at (d_StorageBackend document) st;
               prfx = DocumentObjectPrefix (Itoa (d_ID document))
           in case os_DeletePrefix objectStorage (e_ctx E (wd_calls w)) prfx w of
                (r, w1) \<Rightarrow>
                  (if (case r of Inl e \<Rightarrow> \<not> errors_Is e ErrObjectNotFound | Inr u \<Rightarrow> False)
                   then (False, w1)
                   else
                     (case docs_call E (\<lambda>ctx now. st_Purge (ap_documents a) ctx now (d_ID document)) w1 of
                        (Inl e, w2) \<Rightarrow> (False, w2)
                      | (Inr n, w2) \<Rightarrow> (True, w2)))))"

fun purge_batch :: "('s, 'o) App \<Rightarrow> 's env \<Rightarrow> Document list \<Rightarrow> ('s, 'o, int) action" where
  "purge_batch a E [] w = (0, w)"
| "purge_batch a E (document # documents) w =
     (case purge_document a E document w of
        (b, w1) \<Rightarrow> (case purge_batch a E documents w1 of
                      (n, w2) \<Rightarrow> (n + (if b then 1 else 0), w2)))"

partial_function (option) processDeleted ::
  "('s, 'o) App \<Rightarrow> 's env \<Rightarrow> ('s, 'o) world \<Rightarrow> ('s, 'o) world option" where
  "processDeleted a E w =
     (case Build (Limit deletedPurgeBatchSize (ByStatus StatusDeleted new_QueryBuilder)) of
        Inl e \<Rightarrow> Some w
      | Inr query \<Rightarrow>
          (case docs_read E (\<lambda>ctx. st_Query (ap_documents a) ctx query) w of
             (Inl e, w1) \<Rightarrow> Some w1
           | (Inr deleted, w1) \<Rightarrow>
               (if length deleted = 0 then Some w1
                else case purge_batch a E deleted w1 of
                  (purgedCount, w2) \<Rightarrow>
                    (if int (length deleted) < deletedPurgeBatchSize \<or> purgedCount = 0 then Some w2
                     else processDeleted a E w2))))"

section \<open>The worker\<close>

text \<open>
  \<open>RunWorker\<close> purges once and then answers the ticks of its two tickers, given as the list of those that
  its \<^verbatim>\<open>select\<close> receives before the context is done.  Without an interval for the sweep its channel is nil,
  and no tick of it is ever received.
\<close>

datatype worker_tick = QueuedTick | DeletedTick

fun worker_loop ::
  "('s, 'o) App \<Rightarrow> 's env \<Rightarrow> worker_tick list \<Rightarrow> ('s, 'o) world \<Rightarrow> ('s, 'o) world option" where
  "worker_loop a E [] w = Some w"
| "worker_loop a E (QueuedTick # ticks) w = worker_loop a E ticks (processQueued a E w)"
| "worker_loop a E (DeletedTick # ticks) w =
     (if ap_deletedSweep a > 0
      then (case processDeleted a E w of None \<Rightarrow> None | Some w1 \<Rightarrow> worker_loop a E ticks w1)
      else worker_loop a E ticks w)"

definition RunWorker ::
  "('s, 'o) App \<Rightarrow> 's env \<Rightarrow> worker_tick list \<Rightarrow> ('s, 'o) world \<Rightarrow> ('s, 'o) world option" where
  "RunWorker a E ticks w =
     (case processDeleted a E w of None \<Rightarrow> None | Some w1 \<Rightarrow> worker_loop a E ticks w1)"

section \<open>The calls of a store inside its contract\<close>

text \<open>
  Other goroutines may do anything that keeps the invariant of the document store; \<open>quiet\<close> says
  they do nothing.  \<open>online\<close> says that no call fails for a reason outside the program.
\<close>

definition env_ok :: "('s \<Rightarrow> bool) \<Rightarrow> 's env \<Rightarrow> bool" where
  "env_ok invar E \<longleftrightarrow> (\<forall>n. valid_time (e_now E n)) \<and> (\<forall>n s. invar s \<longrightarrow> invar (e_other E n s))"

definition quiet :: "'s env \<Rightarrow> bool" where
  "quiet E \<longleftrightarrow> (\<forall>n s. e_other E n s = s)"

definition online :: "'s env \<Rightarrow> bool" where
  "online E \<longleftrightarrow> (\<forall>n. live (e_ctx E n))"

lemma docs_call_quiet:
  "quiet E \<Longrightarrow> docs_call E f w =
     (case f (e_ctx E (wd_calls w)) (e_now E (wd_calls w)) (wd_docs w) of
        (r, s') \<Rightarrow> (r, w\<lparr>wd_docs := s', wd_calls := Suc (wd_calls w)\<rparr>))"
  by (simp add: docs_call_def quiet_def Let_def)

lemma meta_frame_callbacks [intro, simp]:
  "meta_frame (meta_failed cause)" "meta_frame (meta_resolved resolved pages)"
  by (auto simp: meta_frame_def meta_failed_def meta_resolved_def split: option.splits)

end
