(* ===== verification/ArchiveProofs.thy ===== *)
theory ArchiveProofs
  imports ArchiveWorker
begin

text \<open>
  The archive flow, proved once for every document store that meets the contract
  \<open>document_store\<close>: the lemmas stand in the context of that locale and reach the two stores of the
  program through its interpretations.
\<close>

section \<open>Assumptions on handlers\<close>

text \<open>
  A handler owes the application that it keeps the invariant of the document store and, while
  nobody else acts, leaves the status of every document alone.  Handlers that touch the document
  store only through the page hook do both.
\<close>

definition status_frame :: "docmap \<Rightarrow> docmap \<Rightarrow> bool" where
  "status_frame m m' \<longleftrightarrow>
     (\<forall>j d. m j = Some d \<longrightarrow> (\<exists>d'. m' j = Some d' \<and> d_status d' = d_status d))"

lemma status_frame_refl [simp]: "status_frame m m"
  by (simp add: status_frame_def)

lemma status_frame_trans: "status_frame m1 m2 \<Longrightarrow> status_frame m2 m3 \<Longrightarrow> status_frame m1 m3"
  by (fastforce simp: status_frame_def)

definition others_kept :: "int \<Rightarrow> docmap \<Rightarrow> docmap \<Rightarrow> bool" where
  "others_kept i m m' \<longleftrightarrow>
     (\<forall>j d. j \<noteq> i \<longrightarrow> m j = Some d \<longrightarrow> (\<exists>d'. m' j = Some d' \<and> d_status d' = d_status d))"

lemma others_kept_refl [simp]: "others_kept i m m"
  by (simp add: others_kept_def)

lemma others_kept_upd [simp]: "others_kept i m (m'(i \<mapsto> d)) \<longleftrightarrow> others_kept i m m'"
  by (simp add: others_kept_def)

lemma others_kept_frame: "others_kept i m m' \<Longrightarrow> status_frame m' m'' \<Longrightarrow> others_kept i m m''"
  by (fastforce simp: others_kept_def status_frame_def)

definition action_ok ::
  "('s \<Rightarrow> bool) \<Rightarrow> ('s \<Rightarrow> docmap) \<Rightarrow> 's env \<Rightarrow> ('s, 'o, 'x) action \<Rightarrow> bool" where
  "action_ok invar view E act \<longleftrightarrow>
     (\<forall>w r w'. invar (wd_docs w) \<longrightarrow> act w = (r, w') \<longrightarrow>
        invar (wd_docs w') \<and> (quiet E \<longrightarrow> status_frame (view (wd_docs w)) (view (wd_docs w'))))"

definition handler_ok ::
  "('s \<Rightarrow> bool) \<Rightarrow> ('s \<Rightarrow> docmap) \<Rightarrow> 's env \<Rightarrow> ('s, 'o) SourceHandler \<Rightarrow> bool" where
  "handler_ok invar view E h \<longleftrightarrow>
     (\<forall>d. action_ok invar view E (sh_ResolveDocument h E d) \<and>
          action_ok invar view E (sh_ArchiveContent h E d) \<and>
          action_ok invar view E (sh_ArchiveManifest h E d))"

definition factories_ok ::
  "('s \<Rightarrow> bool) \<Rightarrow> ('s \<Rightarrow> docmap) \<Rightarrow> 's env \<Rightarrow> ('s, 'o) App \<Rightarrow> bool" where
  "factories_ok invar view E a \<longleftrightarrow>
     (\<forall>src factory name st h. ap_sourceFactories a src = Some factory \<longrightarrow>
        ap_storages a name = Some st \<longrightarrow>
        fa_NewHandler factory (store_at name st) (onPageDownloaded a) = Some h \<longrightarrow>
        handler_ok invar view E h)"

section \<open>Calls\<close>

context document_store
begin

lemma quiet_call:
  assumes "quiet E" "invar (wd_docs w)"
    and "\<And>ctx. implements invar view ctx (conc ctx (e_now E (wd_calls w))) f i"
  shows "(\<exists>r w'. docs_call E conc w = (Inr r, w') \<and> invar (wd_docs w') \<and>
            upd_doc f i (view (wd_docs w)) = Some (r, view (wd_docs w')) \<and> wd_objs w' = wd_objs w) \<or>
         (\<exists>e w'. docs_call E conc w = (Inl e, w') \<and> invar (wd_docs w') \<and>
            view (wd_docs w') = view (wd_docs w) \<and> wd_objs w' = wd_objs w \<and>
            (online E \<longrightarrow> upd_doc f i (view (wd_docs w)) = None))"
proof -
  let ?n = "wd_calls w"
  obtain r s' where run: "conc (e_ctx E ?n) (e_now E ?n) (wd_docs w) = (r, s')" by fastforce
  with assms(3) [of "e_ctx E ?n"] assms(2) show ?thesis
    by (cases r) (auto simp: docs_call_quiet [OF assms(1)] implements_def online_def)
qed

lemma quiet_get:
  assumes "quiet E" "invar (wd_docs w)"
  shows "(\<exists>d w'. docs_read E (\<lambda>ctx. st_Get S ctx i) w = (Inr d, w') \<and> wd_docs w' = wd_docs w \<and>
            wd_objs w' = wd_objs w \<and> view (wd_docs w) i = Some d \<and> isVisibleDocumentStatus (d_status d)) \<or>
         (\<exists>e w'. docs_read E (\<lambda>ctx. st_Get S ctx i) w = (Inl e, w') \<and> wd_docs w' = wd_docs w \<and>
            wd_objs w' = wd_objs w \<and>
            (online E \<longrightarrow> e = ErrNotFound \<and>
               (\<forall>d. view (wd_docs w) i = Some d \<longrightarrow> \<not> isVisibleDocumentStatus (d_status d))))"
  using Get_law [OF assms(2), of "e_ctx E (wd_calls w)" i]
  by (cases "st_Get S (e_ctx E (wd_calls w)) i (wd_docs w)")
    (auto simp: docs_read_def docs_call_quiet [OF assms(1)] online_def)

text \<open>Any call keeps the invariant, whatever the others do.\<close>

lemma call_keeps:
  assumes "env_ok invar E" "invar (wd_docs w)"
    and "\<And>ctx now s. valid_time now \<Longrightarrow> invar s \<Longrightarrow> invar (snd (conc ctx now s))"
  shows "invar (wd_docs (snd (docs_call E conc w)))"
  using assms by (auto simp: docs_call_def env_ok_def Let_def split: prod.splits) (metis snd_conv)

lemma implements_keeps:
  "implements invar view ctx conc f i \<Longrightarrow> invar s \<Longrightarrow> invar (snd (conc s))"
  unfolding implements_def by (cases "conc s"; cases "fst (conc s)") (auto split: sum.splits)

section \<open>Archiving a document\<close>

text \<open>
  The state in which \<open>processDocument\<close> may leave a document: archived, or failed with the text of
  the error it returns.
\<close>

definition settled ::
  "docmap \<Rightarrow> int \<Rightarrow> (go_error \<times> Document + Document) \<times> ('s, 'o) world \<Rightarrow> bool" where
  "settled m0 i res \<longleftrightarrow>
     (case res of
        (Inr d, w) \<Rightarrow> invar (wd_docs w) \<and> others_kept i m0 (view (wd_docs w)) \<and>
          view (wd_docs w) i = Some d \<and> d_status d = StatusArchived
      | (Inl (e, _), w) \<Rightarrow> invar (wd_docs w) \<and> others_kept i m0 (view (wd_docs w)) \<and>
          (\<exists>d. view (wd_docs w) i = Some d \<and> d_status d = StatusFailed \<and> d_Error d = error_text e))"

definition in_status :: "docmap \<Rightarrow> DocumentStatus set \<Rightarrow> int \<Rightarrow> ('s, 'o) world \<Rightarrow> bool" where
  "in_status m0 st i w \<longleftrightarrow>
     invar (wd_docs w) \<and> others_kept i m0 (view (wd_docs w)) \<and>
     (\<exists>d. view (wd_docs w) i = Some d \<and> d_status d \<in> st)"

definition calm :: "'s env \<Rightarrow> bool" where
  "calm E \<longleftrightarrow> env_ok invar E \<and> quiet E \<and> online E"

lemma calmD: "calm E \<Longrightarrow> quiet E" "calm E \<Longrightarrow> online E" "calm E \<Longrightarrow> valid_time (e_now E n)"
  by (simp_all add: calm_def env_ok_def)

lemma in_status_mono: "in_status m0 A i w \<Longrightarrow> A \<subseteq> B \<Longrightarrow> in_status m0 B i w"
  by (auto simp: in_status_def)

abbreviation pending :: "DocumentStatus set" where
  "pending \<equiv> {StatusQueued, StatusResolving, StatusDownloading}"

lemma updateMeta_calm:
  assumes "calm E" "in_status m0 A i w" "A \<subseteq> Collect isVisibleDocumentStatus" "meta_frame fn"
    and "\<And>m. \<exists>m'. fn m = Inr m'"
  shows "\<exists>d meta d1 w1. docs_call E (\<lambda>ctx now. st_UpdateMeta S ctx now i (Some fn)) w = (Inr d1, w1) \<and>
     view (wd_docs w) i = Some d \<and> fn (extractDocumentMeta d) = Inr meta \<and>
     d1 = (fillDocumentMeta d meta)\<lparr>d_UpdatedAt := e_now E (wd_calls w)\<rparr> \<and>
     view (wd_docs w1) = (view (wd_docs w))(i \<mapsto> d1) \<and> invar (wd_docs w1) \<and> in_status m0 A i w1"
proof -
  obtain d where d: "view (wd_docs w) i = Some d" "d_status d \<in> A" "invar (wd_docs w)"
      "others_kept i m0 (view (wd_docs w))"
    using assms(2) by (auto simp: in_status_def)
  then have vis: "isVisibleDocumentStatus (d_status d)" using assms(3) by blast
  obtain meta where meta: "fn (extractDocumentMeta d) = Inr meta" using assms(5) by blast
  let ?d1 = "(fillDocumentMeta d meta)\<lparr>d_UpdatedAt := e_now E (wd_calls w)\<rparr>"
  have upd: "upd_doc (updateMeta_doc fn (e_now E (wd_calls w))) i (view (wd_docs w))
      = Some (?d1, (view (wd_docs w))(i \<mapsto> ?d1))"
    using d vis meta by (simp add: upd_doc_def updateMeta_doc_def Let_def)
  have st: "m_status meta = d_status d" using assms(4) meta by (simp add: meta_frame_def)
  have "implements invar view ctx (st_UpdateMeta S ctx (e_now E (wd_calls w)) i (Some fn))
      (updateMeta_doc fn (e_now E (wd_calls w))) i" for ctx
    by (rule UpdateMeta_law [OF calmD(3) [OF assms(1)] assms(4)])
  from quiet_call [where conc = "\<lambda>ctx now. st_UpdateMeta S ctx now i (Some fn)",
      OF calmD(1) [OF assms(1)] d(3) this]
  obtain w1 where "docs_call E (\<lambda>ctx now. st_UpdateMeta S ctx now i (Some fn)) w = (Inr ?d1, w1)"
      "invar (wd_docs w1)" "view (wd_docs w1) = (view (wd_docs w))(i \<mapsto> ?d1)"
    using upd calmD(2) [OF assms(1)] by auto
  then show ?thesis using d meta st by (auto simp: in_status_def)
qed

lemma transition_calm:
  assumes "calm E" "in_status m0 A i w" "\<And>st. st \<in> A \<Longrightarrow> canTransitionDocumentStatus st new"
    and "new \<noteq> StatusPurged"
  shows "\<exists>d w1. docs_call E (\<lambda>ctx now. st_TransitionTo S ctx now i new) w = (Inr (), w1) \<and>
     view (wd_docs w) i = Some d \<and>
     view (wd_docs w1) = (view (wd_docs w))(i \<mapsto> d\<lparr>d_status := new, d_UpdatedAt := e_now E (wd_calls w)\<rparr>) \<and>
     in_status m0 {new} i w1"
proof -
  obtain d where d: "view (wd_docs w) i = Some d" "d_status d \<in> A" "invar (wd_docs w)"
      "others_kept i m0 (view (wd_docs w))"
    using assms(2) by (auto simp: in_status_def)
  let ?d1 = "d\<lparr>d_status := new, d_UpdatedAt := e_now E (wd_calls w)\<rparr>"
  have "upd_doc (transition_doc new (e_now E (wd_calls w))) i (view (wd_docs w))
      = Some ((), (view (wd_docs w))(i \<mapsto> ?d1))"
    using d assms(3,4) by (simp add: upd_doc_def transition_doc_def)
  moreover have "implements invar view ctx (st_TransitionTo S ctx (e_now E (wd_calls w)) i new)
      (transition_doc new (e_now E (wd_calls w))) i" for ctx
    by (rule TransitionTo_law [OF calmD(3) [OF assms(1)]])
  from quiet_call [where conc = "\<lambda>ctx now. st_TransitionTo S ctx now i new",
      OF calmD(1) [OF assms(1)] d(3) this]
  obtain w1 where "docs_call E (\<lambda>ctx now. st_TransitionTo S ctx now i new) w = (Inr (), w1)"
      "invar (wd_docs w1)" "view (wd_docs w1) = (view (wd_docs w))(i \<mapsto> ?d1)"
    using calculation calmD(2) [OF assms(1)] by auto
  then show ?thesis using d by (auto simp: in_status_def)
qed

lemma pending_can_fail: "st \<in> pending \<Longrightarrow> canTransitionDocumentStatus st StatusFailed"
  by (auto simp: canTransition_simps)

lemma fail_settles:
  assumes "calm E" "ap_documents a = S" "in_status m0 pending i w"
  shows "settled m0 i (failDocument a E i e w)"
proof -
  obtain d1 w1 where up: "docs_call E (\<lambda>ctx now. st_UpdateMeta S ctx now i (Some (meta_failed e))) w = (Inr d1, w1)"
      "view (wd_docs w1) i = Some d1" "d_Error d1 = error_text e" "in_status m0 pending i w1"
    using updateMeta_calm [OF assms(1,3), of "meta_failed e"] by (auto simp: meta_failed_def)
  obtain w2 where "docs_call E (\<lambda>ctx now. st_TransitionTo S ctx now i StatusFailed) w1 = (Inr (), w2)"
      "view (wd_docs w2) i = Some (d1\<lparr>d_status := StatusFailed, d_UpdatedAt := e_now E (wd_calls w1)\<rparr>)"
      "in_status m0 {StatusFailed} i w2"
    using transition_calm [OF assms(1) up(4) pending_can_fail] up(2) by auto
  then show ?thesis
    using up by (simp add: failDocument_def assms(2) settled_def in_status_def)
qed

lemma action_in_status:
  assumes "action_ok invar view E act" "quiet E" "in_status m0 A i w" "act w = (r, w')"
  shows "in_status m0 A i w'"
proof -
  have frame: "status_frame (view (wd_docs w)) (view (wd_docs w'))" and inv: "invar (wd_docs w')"
    using assms by (auto simp: action_ok_def in_status_def)
  obtain d where d: "view (wd_docs w) i = Some d" "d_status d \<in> A" "others_kept i m0 (view (wd_docs w))"
    using assms(3) by (auto simp: in_status_def)
  obtain d' where "view (wd_docs w') i = Some d'" "d_status d' = d_status d"
    using frame d(1) by (auto simp: status_frame_def)
  with d(2) inv others_kept_frame [OF d(3) frame] show ?thesis by (simp add: in_status_def)
qed

lemma archive_manifest_settles:
  assumes E: "calm E" and S: "ap_documents a = S" and h: "handler_ok invar view E h"
    and w: "in_status m0 {StatusResolving, StatusDownloading} i w"
  shows "settled m0 i (archive_manifest a E i h w)"
proof -
  have inv: "invar (wd_docs w)" using w by (simp add: in_status_def)
  obtain d w1 where get: "docs_read E (\<lambda>ctx. st_Get S ctx i) w = (Inr d, w1)" "wd_docs w1 = wd_docs w"
    using quiet_get [OF calmD(1) [OF E] inv, of i] w calmD(2) [OF E] by (auto simp: in_status_def)
  have w1: "in_status m0 {StatusResolving, StatusDownloading} i w1" using w get(2) by (simp add: in_status_def)
  obtain r w2 where man: "sh_ArchiveManifest h E d w1 = (r, w2)" by fastforce
  have act: "action_ok invar view E (sh_ArchiveManifest h E d)" using h by (simp add: handler_ok_def)
  have w2: "in_status m0 {StatusResolving, StatusDownloading} i w2"
    by (rule action_in_status [OF act calmD(1) [OF E] w1 man])
  obtain w3 where tr: "docs_call E (\<lambda>ctx now. st_TransitionTo S ctx now i StatusArchived) w2 = (Inr (), w3)"
      "in_status m0 {StatusArchived} i w3"
    using transition_calm [OF E w2, of StatusArchived] by (auto simp: canTransition_simps)
  have inv3: "invar (wd_docs w3)" using tr(2) by (simp add: in_status_def)
  obtain d4 w4 where last: "docs_read E (\<lambda>ctx. st_Get S ctx i) w3 = (Inr d4, w4)" "wd_docs w4 = wd_docs w3"
      "view (wd_docs w3) i = Some d4"
    using quiet_get [OF calmD(1) [OF E] inv3, of i] tr(2) calmD(2) [OF E] by (auto simp: in_status_def)
  show ?thesis
  proof (cases r)
    case (Inl e)
    have "in_status m0 pending i w2" using w2 by (rule in_status_mono) auto
    then show ?thesis
      using Inl get(1) man S fail_settles [OF E S] by (simp add: archive_manifest_def or_fail_def)
  next
    case (Inr x)
    then show ?thesis
      using get(1) man tr last S by (simp add: archive_manifest_def or_fail_def settled_def in_status_def)
  qed
qed

lemma archive_pages_settles:
  assumes E: "calm E" and S: "ap_documents a = S" and h: "handler_ok invar view E h"
    and w: "in_status m0 {StatusResolving} i w"
    and k: "\<And>w. in_status m0 {StatusResolving, StatusDownloading} i w \<Longrightarrow> settled m0 i (k w)"
  shows "settled m0 i (archive_pages a E i h document k w)"
proof (cases "pr_Done (d_Progress document) < pr_Total (d_Progress document)")
  case False
  have "in_status m0 {StatusResolving, StatusDownloading} i w" using w by (rule in_status_mono) auto
  with False k show ?thesis by (simp add: archive_pages_def)
next
  case True
  obtain d where d: "view (wd_docs w) i = Some d" "d_status d = StatusResolving" "invar (wd_docs w)"
      "others_kept i m0 (view (wd_docs w))"
    using w by (auto simp: in_status_def)
  let ?now = "e_now E (wd_calls w)"
  have "implements invar view ctx (st_ResetPages S ctx ?now i) (resetPages_doc ?now) i" for ctx
    by (rule ResetPages_law [OF calmD(3) [OF E]])
  from quiet_call [where conc = "\<lambda>ctx now. st_ResetPages S ctx now i", OF calmD(1) [OF E] d(3) this]
  obtain d1 w1 where reset: "docs_call E (\<lambda>ctx now. st_ResetPages S ctx now i) w = (Inr d1, w1)"
      "in_status m0 {StatusResolving} i w1"
    using d calmD(2) [OF E] by (auto simp: upd_doc_def resetPages_doc_def Let_def in_status_def
        dest!: sym [of _ "view _"])
  obtain w2 where down: "docs_call E (\<lambda>ctx now. st_TransitionTo S ctx now i StatusDownloading) w1 = (Inr (), w2)"
      "in_status m0 {StatusDownloading} i w2"
    using transition_calm [OF E reset(2), of StatusDownloading] by (auto simp: canTransition_simps)
  obtain r w3 where content: "sh_ArchiveContent h E d1 w2 = (r, w3)" by fastforce
  have act: "action_ok invar view E (sh_ArchiveContent h E d1)" using h by (simp add: handler_ok_def)
  have "in_status m0 {StatusDownloading} i w3"
    by (rule action_in_status [OF act calmD(1) [OF E] down(2) content])
  then have "in_status m0 pending i w3" "in_status m0 {StatusResolving, StatusDownloading} i w3"
    by (auto elim: in_status_mono)
  then show ?thesis
    using True reset(1) down(1) content S k fail_settles [OF E S]
    by (cases r) (simp_all add: archive_pages_def or_fail_def)
qed

lemma archive_document_settles:
  assumes E: "calm E" and S: "ap_documents a = S" and h: "handler_ok invar view E h"
    and w: "in_status m0 {StatusQueued} i w"
  shows "settled m0 i (archive_document a E i h document w)"
proof -
  obtain w1 where tr: "docs_call E (\<lambda>ctx now. st_TransitionTo S ctx now i StatusResolving) w = (Inr (), w1)"
      "in_status m0 {StatusResolving} i w1"
    using transition_calm [OF E w, of StatusResolving] by (auto simp: canTransition_simps)
  obtain r w2 where res: "sh_ResolveDocument h E document w1 = (r, w2)" by fastforce
  have act: "action_ok invar view E (sh_ResolveDocument h E document)" using h by (simp add: handler_ok_def)
  have w2: "in_status m0 {StatusResolving} i w2"
    by (rule action_in_status [OF act calmD(1) [OF E] tr(2) res])
  show ?thesis
  proof (cases r)
    case (Inl e)
    have "in_status m0 pending i w2" using w2 by (rule in_status_mono) auto
    then show ?thesis
      using Inl tr(1) res S fail_settles [OF E S] by (simp add: archive_document_def or_fail_def)
  next
    case (Inr x)
    obtain resolved pages where x: "x = (resolved, pages)" by (cases x)
    obtain d1 w3 where up: "docs_call E (\<lambda>ctx now. st_UpdateMeta S ctx now i
          (Some (meta_resolved resolved pages))) w2 = (Inr d1, w3)" "in_status m0 {StatusResolving} i w3"
      using updateMeta_calm [OF E w2, of "meta_resolved resolved pages"] by (auto simp: meta_resolved_def)
    have "settled m0 i (archive_pages a E i h d1 (archive_manifest a E i h) w3)"
      by (rule archive_pages_settles [OF E S h up(2) archive_manifest_settles [OF E S h]])
    then show ?thesis
      using Inr x tr(1) res up(1) S by (simp add: archive_document_def or_fail_def)
  qed
qed

text \<open>
  The outcome of \<open>processDocument\<close> on a queued document: archived, and then the document returned
  is the stored one, or failed, and then the stored error is the text of the error returned.
\<close>

lemma processDocument_settles:
  assumes E: "calm E" and S: "ap_documents a = S" and f: "factories_ok invar view E a"
    and w: "in_status m0 {StatusQueued} i w"
  shows "settled m0 i (processDocument a E i w)"
proof -
  have inv: "invar (wd_docs w)" using w by (simp add: in_status_def)
  obtain d w1 where get: "docs_read E (\<lambda>ctx. st_Get S ctx i) w = (Inr d, w1)" "wd_docs w1 = wd_docs w"
    using quiet_get [OF calmD(1) [OF E] inv, of i] w calmD(2) [OF E] by (auto simp: in_status_def)
  have w1: "in_status m0 {StatusQueued} i w1" using w get(2) by (simp add: in_status_def)
  then have pend: "in_status m0 pending i w1" by (rule in_status_mono) auto
  note fail = fail_settles [OF E S pend]
  show ?thesis
  proof (cases "ap_sourceFactories a (d_Source d)")
    case None
    then show ?thesis using get S fail by (simp add: processDocument_def getSourceFactory_def or_fail_def)
  next
    case (Some factory)
    note fac = Some
    show ?thesis
    proof (cases "ap_storages a (d_StorageBackend d)")
      case None
      then show ?thesis
        using fac get S fail by (simp add: processDocument_def getSourceFactory_def getStorage_def or_fail_def)
    next
      case (Some st)
      show ?thesis
      proof (cases "fa_NewHandler factory (store_at (d_StorageBackend d) st) (onPageDownloaded a)")
        case None
        then show ?thesis
          using fac Some get S fail
          by (simp add: processDocument_def getSourceFactory_def getStorage_def or_fail_def)
      next
        case (Some h)
        have "handler_ok invar view E h"
          using f fac \<open>ap_storages a _ = _\<close> Some unfolding factories_ok_def by blast
        from archive_document_settles [OF E S this w1, of d] show ?thesis
          using fac \<open>ap_storages a _ = _\<close> Some get S
          by (simp add: processDocument_def getSourceFactory_def getStorage_def or_fail_def)
      qed
    qed
  qed
qed

lemma processDocument_result:
  assumes "env_ok invar E" "quiet E" "online E" "ap_documents a = S" "factories_ok invar view E a"
    and w: "invar (wd_docs w)" "view (wd_docs w) i = Some d0" "d_status d0 = StatusQueued"
  shows "case processDocument a E i w of
      (Inr d, w') \<Rightarrow> invar (wd_docs w') \<and> others_kept i (view (wd_docs w)) (view (wd_docs w')) \<and>
        view (wd_docs w') i = Some d \<and> d_status d = StatusArchived
    | (Inl (e, _), w') \<Rightarrow> invar (wd_docs w') \<and> others_kept i (view (wd_docs w)) (view (wd_docs w')) \<and>
        (\<exists>d. view (wd_docs w') i = Some d \<and> d_status d = StatusFailed \<and> d_Error d = error_text e)"
proof -
  have "calm E" using assms by (simp add: calm_def)
  moreover have "in_status (view (wd_docs w)) {StatusQueued} i w" using w by (simp add: in_status_def)
  ultimately have "settled (view (wd_docs w)) i (processDocument a E i w)"
    using assms by (intro processDocument_settles)
  then show ?thesis by (auto simp: settled_def split: prod.splits sum.splits)
qed

end

end
