(* ===== verification/DocJson.thy ===== *)
theory DocJson
  imports DocModel GoNet
begin

text \<open>
  \<^verbatim>\<open>json.Marshal\<close> of the types of \<^verbatim>\<open>internal/documents/model.go\<close>, with the names of their struct tags:
  the manifest of a document and the answers of the HTTP API are these texts.  Encoding fails when the
  source metadata of a document is not valid JSON.  A nil slice of pages prints \<^verbatim>\<open>null\<close> in Go; the
  model, where nil and empty are one list, prints the empty array.
\<close>

definition json_int :: "int \<Rightarrow> string" where
  "json_int = Itoa"

definition json_time :: "utc_time \<Rightarrow> string" where
  "json_time t = CHR 0x22 # formatTime t @ [CHR 0x22]"

text \<open>A member with \<^verbatim>\<open>omitempty\<close> is left out when its text is empty.\<close>

definition omit_empty :: "string \<Rightarrow> string \<Rightarrow> (string \<times> string) list" where
  "omit_empty name s = (if s = [] then [] else [(name, json_string s)])"

definition json_Progress :: "Progress \<Rightarrow> string" where
  "json_Progress p = json_object [(''done'', json_int (pr_Done p)), (''total'', json_int (pr_Total p))]"

definition json_Page :: "Page \<Rightarrow> string" where
  "json_Page p =
     json_object
       ([(''index'', json_int (pg_Index p)), (''key'', json_string (pg_Key p)),
         (''content_type'', json_string (pg_ContentType p)), (''size'', json_int (pg_Size p))]
        @ omit_empty ''hash'' (pg_Hash p))"

definition json_Document :: "Document \<Rightarrow> string option" where
  "json_Document d =
     (case (if d_SourceMeta d = [] then Some []
            else map_option (\<lambda>m. [(''source_meta'', m)]) (json_compact (d_SourceMeta d))) of
        None \<Rightarrow> None
      | Some meta \<Rightarrow>
          Some (json_object
            ([(''document_id'', json_int (d_ID d)), (''source'', json_string (d_Source d)),
              (''source_document_id'', json_string (d_SourceDocumentID d))]
             @ meta
             @ [(''title'', json_string (d_Title d)),
                (''storage_backend'', json_string (d_StorageBackend d)),
                (''progress'', json_Progress (d_Progress d))]
             @ omit_empty ''error'' (d_Error d)
             @ [(''pages'', json_array (map json_Page (d_Pages d))),
                (''created_at'', json_time (d_CreatedAt d)), (''updated_at'', json_time (d_UpdatedAt d)),
                (''status'', json_string (status_string (d_status d)))])))"

end
