(* ===== verification/SourceHost.thy ===== *)
theory SourceHost
  imports ArchiveProofs DocJson
begin

text \<open>
  What a source handler works with: the object storage of the document, the hook that records a
  downloaded page, and the context.  The state \<open>'w\<close> they act on is the world of the application.
  A handler may cancel a context of its own for the requests it still has under way; the flag of
  \<open>host_ctx\<close> and of the hook says that it has.

  \<open>page_host\<close> is the contract between a handler and its host: any relation between states that putting
  an object and recording a page respect is respected by every action of the handler.  It is
  interpreted for the two relations the application needs: the status frame of \<open>ArchiveProofs\<close>, and
  that no stored object disappears.
\<close>

record 'w source_host =
  ho_objects :: "'w ObjectStore option"
  ho_ctx :: "'w \<Rightarrow> ctx"
  ho_hook :: "(bool \<Rightarrow> int \<Rightarrow> Page \<Rightarrow> 'w \<Rightarrow> (go_error + unit) \<times> 'w) option"

definition canceled :: ctx where
  "canceled = (\<lambda>n. Some ''context canceled'')"

definition host_ctx :: "'w source_host \<Rightarrow> bool \<Rightarrow> 'w \<Rightarrow> ctx" where
  "host_ctx host cancelled w = (if cancelled then canceled else ho_ctx host w)"

definition host_of :: "'s env \<Rightarrow> ('s, 'o) world ObjectStore option
    \<Rightarrow> ('s env \<Rightarrow> ('s, 'o) PageDownloadHook) option \<Rightarrow> ('s, 'o) world source_host" where
  "host_of E objects hook =
     \<lparr>ho_objects = objects, ho_ctx = (\<lambda>w. e_ctx E (wd_calls w)),
      ho_hook = map_option (\<lambda>h cancelled.
        h (if cancelled then E\<lparr>e_ctx := \<lambda>n. canceled\<rparr> else E)) hook\<rparr>"

section \<open>The contract\<close>

locale page_host =
  fixes host :: "'w source_host" and keeps :: "'w \<Rightarrow> 'w \<Rightarrow> bool"
  assumes keeps_refl: "keeps w w"
    and keeps_trans: "keeps w1 w2 \<Longrightarrow> keeps w2 w3 \<Longrightarrow> keeps w1 w3"
    and Put_keeps: "ho_objects host = Some Obj \<Longrightarrow> keeps w (snd (os_PutObject Obj ctx info body w))"
    and hook_keeps: "ho_hook host = Some hook \<Longrightarrow> pg_Key page \<noteq> '''' \<Longrightarrow>
      keeps w (snd (hook cancelled i page w))"

text \<open>
  A host that keeps what it was given: an object that was found or put stays \<open>stored\<close>, and a page that the
  hook took stays \<open>recorded\<close>, from any \<open>good\<close> state on.
\<close>

locale page_store = page_host +
  fixes good :: "'w \<Rightarrow> bool" and stored :: "string \<Rightarrow> 'w \<Rightarrow> bool" and recorded :: "int \<Rightarrow> Page \<Rightarrow> 'w \<Rightarrow> bool"
  assumes good_keeps: "good w \<Longrightarrow> keeps w w' \<Longrightarrow> good w'"
    and Head_stored: "ho_objects host = Some Obj \<Longrightarrow> os_HeadObject Obj ctx key w = Inr info \<Longrightarrow> stored key w"
    and Put_stored: "ho_objects host = Some Obj \<Longrightarrow>
      os_PutObject Obj ctx info (Some (Inr content)) w = (Inr info', w') \<Longrightarrow> stored (oi_Key info) w'"
    and stored_keeps: "stored key w \<Longrightarrow> keeps w w' \<Longrightarrow> stored key w'"
    and has_hook: "ho_hook host \<noteq> None"
    and hook_recorded: "ho_hook host = Some hook \<Longrightarrow> good w \<Longrightarrow> pg_Key page \<noteq> '''' \<Longrightarrow>
      hook cancelled i page w = (Inr (), w') \<Longrightarrow> recorded i page w'"
    and recorded_keeps: "good w \<Longrightarrow> recorded i page w \<Longrightarrow> keeps w w' \<Longrightarrow> recorded i page w'"

text \<open>
  A store that never loses an object when another one is put, whether or not that succeeds.
\<close>

locale growing_object_store = object_store +
  assumes Put_grows: "contents s key \<noteq> None \<Longrightarrow> contents (snd (os_PutObject Obj ctx info body s)) key \<noteq> None"

lemma memory_Put_grows:
  "memory_contents s key \<noteq> None \<Longrightarrow>
   memory_contents (snd (MemoryObjects_PutObject now ctx info body s)) key \<noteq> None"
  by (auto simp: MemoryObjects_PutObject_def memory_contents_def Let_def split: option.splits sum.splits)

interpretation memobj: growing_object_store "memory_objects name now" memory_contents "\<lambda>key. key \<noteq> ''''"
  by unfold_locales (use memory_Put_grows in simp)

text \<open>A storage inside the world obeys the laws it obeys by itself.\<close>

lemma store_at_sel:
  "os_PutObject (store_at name Obj) ctx info body w =
     (case os_PutObject Obj ctx info body (wd_objs w name) of
        (r, o') \<Rightarrow> (r, w\<lparr>wd_objs := (wd_objs w)(name := o')\<rparr>))"
  "os_DeletePrefix (store_at name Obj) ctx prfx w =
     (case os_DeletePrefix Obj ctx prfx (wd_objs w name) of
        (r, o') \<Rightarrow> (r, w\<lparr>wd_objs := (wd_objs w)(name := o')\<rparr>))"
  "os_GetObject (store_at name Obj) ctx key w = os_GetObject Obj ctx key (wd_objs w name)"
  "os_HeadObject (store_at name Obj) ctx key w = os_HeadObject Obj ctx key (wd_objs w name)"
  unfolding store_at_def on_objs_def by simp_all

context object_store
begin

lemma store_at_laws: "object_store (store_at name Obj) (\<lambda>w. contents (wd_objs w name)) legal_key"
proof
  fix ctx info content w
  show "case os_PutObject (store_at name Obj) ctx info (Some (Inr content)) w of
        (Inl e, w') \<Rightarrow>
          live ctx \<and> legal_key (oi_Key info) \<longrightarrow> oi_Size info \<ge> 0 \<and> oi_Size info \<noteq> int (length content)
      | (Inr info', w') \<Rightarrow>
          contents (wd_objs w' name) = (contents (wd_objs w name))(oi_Key info \<mapsto> content) \<and>
          oi_Key info' = oi_Key info \<and> oi_ETag info' \<noteq> ''''"
  proof (cases "os_PutObject Obj ctx info (Some (Inr content)) (wd_objs w name)")
    case (Pair r o')
    then show ?thesis
      using Put_law [of ctx info content "wd_objs w name"] by (cases r) (simp_all add: store_at_sel)
  qed
next
  fix ctx prfx w
  assume legal: "legal_key prfx"
  show "case os_DeletePrefix (store_at name Obj) ctx prfx w of
        (Inl e, w') \<Rightarrow>
          (\<forall>k. contents (wd_objs w' name) k = contents (wd_objs w name) k \<or>
               contents (wd_objs w' name) k = None \<and> prefix prfx k) \<and>
          (live ctx \<longrightarrow> errors_Is e ErrObjectNotFound)
      | (Inr u, w') \<Rightarrow>
          contents (wd_objs w' name) = (\<lambda>k. if prefix prfx k then None else contents (wd_objs w name) k)"
  proof (cases "os_DeletePrefix Obj ctx prfx (wd_objs w name)")
    case (Pair r o')
    then show ?thesis
      using DeletePrefix_law [OF legal, where ctx = ctx and s = "wd_objs w name"] by (cases r) (simp_all add: store_at_sel)
  qed
next
  fix key ctx w
  show "case os_GetObject (store_at name Obj) ctx key w of
        Inl e \<Rightarrow> live ctx \<and> legal_key key \<longrightarrow> contents (wd_objs w name) key = None
      | Inr object \<Rightarrow> contents (wd_objs w name) key = Some (ob_Body object)"
    unfolding store_at_sel by (rule Get_law)
  show "case os_HeadObject (store_at name Obj) ctx key w of
        Inl e \<Rightarrow> live ctx \<and> legal_key key \<longrightarrow>
          contents (wd_objs w name) key = None \<and> errors_Is e ErrObjectNotFound
      | Inr info \<Rightarrow> contents (wd_objs w name) key \<noteq> None"
    unfolding store_at_sel by (rule Head_law)
next
  fix ctx info body w r w' k
  assume "os_PutObject (store_at name Obj) ctx info body w = (r, w')" "k \<noteq> oi_Key info"
  then show "contents (wd_objs w' name) k = contents (wd_objs w name) k"
    using Put_frame by (auto simp: store_at_sel split: prod.splits)
qed (rule legal)

end

context growing_object_store
begin

lemma store_at_growing: "growing_object_store (store_at name Obj) (\<lambda>w. contents (wd_objs w name)) legal_key"
proof (intro growing_object_store.intro growing_object_store_axioms.intro store_at_laws)
  show "contents (wd_objs (snd (os_PutObject (store_at name Obj) ctx info body w)) name) key \<noteq> None"
    if "contents (wd_objs w name) key \<noteq> None" for key ctx info body w
    using Put_grows [OF that, of ctx info body]
    by (cases "os_PutObject Obj ctx info body (wd_objs w name)") (simp add: store_at_sel)
qed

end

section \<open>The relations of the application\<close>

text \<open>The invariant of the document store and the status of every document.\<close>

definition frame_kept ::
  "('s \<Rightarrow> bool) \<Rightarrow> ('s \<Rightarrow> docmap) \<Rightarrow> 's Store \<Rightarrow> ('s, 'o) App \<Rightarrow> 's env
     \<Rightarrow> ('s, 'o) world \<Rightarrow> ('s, 'o) world \<Rightarrow> bool" where
  "frame_kept invar view S a E w w' \<longleftrightarrow>
     (env_ok invar E \<longrightarrow> ap_documents a = S \<longrightarrow> invar (wd_docs w) \<longrightarrow>
        invar (wd_docs w') \<and> (quiet E \<longrightarrow> status_frame (view (wd_docs w)) (view (wd_docs w'))))"

definition app_host :: "('s, 'o) App \<Rightarrow> 's env \<Rightarrow> string \<Rightarrow> 'o ObjectStore \<Rightarrow> ('s, 'o) world source_host" where
  "app_host a E name st = host_of E (Some (store_at name st)) (Some (onPageDownloaded a))"

lemma app_host_sel [simp]:
  "ho_objects (app_host a E name st) = Some (store_at name st)"
  "ho_ctx (app_host a E name st) w = e_ctx E (wd_calls w)"
  "ho_hook (app_host a E name st) = Some (\<lambda>cancelled.
     onPageDownloaded a (if cancelled then E\<lparr>e_ctx := \<lambda>n. canceled\<rparr> else E))"
  by (simp_all add: app_host_def host_of_def)

lemma store_at_Put_docs [simp]:
  "wd_docs (snd (os_PutObject (store_at name st) ctx info body w)) = wd_docs w"
  "wd_calls (snd (os_PutObject (store_at name st) ctx info body w)) = wd_calls w"
  by (simp_all add: store_at_sel split: prod.splits)

lemma onPageDownloaded_objs [simp]:
  "wd_objs (snd (onPageDownloaded a E i page w)) = wd_objs w"
  by (simp add: onPageDownloaded_def docs_call_def Let_def split: prod.splits)

context document_store
begin

lemma onPageDownloaded_frame:
  assumes "pg_Key page \<noteq> ''''"
  shows "frame_kept invar view S a E w (snd (onPageDownloaded a E i page w))"
  unfolding frame_kept_def
proof (intro impI conjI)
  assume E: "env_ok invar E" and S: "ap_documents a = S" and inv: "invar (wd_docs w)"
  show "invar (wd_docs (snd (onPageDownloaded a E i page w)))"
    unfolding onPageDownloaded_def S
    by (rule call_keeps [OF E inv]) (use AddPage_law [OF _ assms] implements_keeps in blast)
  assume q: "quiet E"
  show "status_frame (view (wd_docs w)) (view (wd_docs (snd (onPageDownloaded a E i page w))))"
    using quiet_call [OF q inv AddPage_law [OF _ assms, where i = i]] E
    unfolding onPageDownloaded_def S
    by (fastforce simp: env_ok_def upd_doc_Some addPage_doc_def status_frame_def split: if_splits)
qed

lemma app_host_frame: "page_host (app_host a E name st) (frame_kept invar view S a E)"
proof
  show "frame_kept invar view S a E w w" for w
    by (simp add: frame_kept_def)
  show "frame_kept invar view S a E w1 w3"
    if "frame_kept invar view S a E w1 w2" "frame_kept invar view S a E w2 w3" for w1 w2 w3
    using that unfolding frame_kept_def by (blast intro: status_frame_trans)
  show "frame_kept invar view S a E w (snd (os_PutObject Obj ctx info body w))"
    if "ho_objects (app_host a E name st) = Some Obj" for Obj w ctx info body
    using that by (auto simp: frame_kept_def)
  show "frame_kept invar view S a E w (snd (hook cancelled i page w))"
    if "ho_hook (app_host a E name st) = Some hook" "pg_Key page \<noteq> ''''" for hook w cancelled i page
  proof -
    let ?E = "if cancelled then E\<lparr>e_ctx := \<lambda>n. canceled\<rparr> else E"
    have "frame_kept invar view S a ?E w (snd (onPageDownloaded a ?E i page w))"
      using that(2) by (rule onPageDownloaded_frame)
    moreover have "env_ok invar ?E = env_ok invar E" "quiet ?E = quiet E"
      by (auto simp: env_ok_def quiet_def)
    ultimately show ?thesis using that(1) by (auto simp: frame_kept_def)
  qed
qed

end

text \<open>No object of a storage of the world disappears.\<close>

definition objects_kept ::
  "('o \<Rightarrow> string \<Rightarrow> string option) \<Rightarrow> ('s, 'o) world \<Rightarrow> ('s, 'o) world \<Rightarrow> bool" where
  "objects_kept contents w w' \<longleftrightarrow>
     (\<forall>name key. contents (wd_objs w name) key \<noteq> None \<longrightarrow> contents (wd_objs w' name) key \<noteq> None)"

context growing_object_store
begin

lemma app_host_objects: "page_host (app_host a E name Obj) (objects_kept contents)"
proof
  show "objects_kept contents w (snd (os_PutObject Obj' ctx info body w))"
    if "ho_objects (app_host a E name Obj) = Some Obj'" for Obj' w ctx info body
    using that Put_grows [of "wd_objs w name" _ ctx info body]
    by (cases "os_PutObject Obj ctx info body (wd_objs w name)")
      (auto simp: objects_kept_def store_at_sel)
qed (auto simp: objects_kept_def)

end

interpretation memobj_host: page_host "app_host a E name (memory_objects n now)" "objects_kept memory_contents"
  by (rule growing_object_store.app_host_objects [OF memobj.growing_object_store_axioms])

end
