(* ===== verification/Scheduler.thy ===== *)
theory Scheduler
  imports GoErrors "HOL-Library.Word"
begin

text \<open>
  \<open>ConcurrencyScheduler\<close> of \<^verbatim>\<open>internal/sources/scheduler.go\<close>: adaptive concurrency with a shared
  back-off.  The critical sections under the mutex are functions on the scheduler; the goroutines
  that call \<open>Do\<close> are a list of task states, and \<open>sched_step\<close> is one move of the whole system: a
  critical section, a wake-up, the end of a task, or time going by.

  The semaphore channel is the number of tokens in it and its capacity.  The channel \<open>changed\<close> is
  a broadcast: it is closed and replaced on every \<open>finish\<close>, so it is a counter, and a waiter that
  holds an older value has been woken.  Instants and durations are nanoseconds; the generation is
  a 64-bit word and wraps.
\<close>

section \<open>The scheduler\<close>

record ConcurrencyScheduler =
  cs_sem :: int
  cs_cap :: int
  cs_changed :: nat
  cs_limit :: int
  cs_successes :: int
  cs_generation :: "64 word"
  cs_blockedUntil :: int
  cs_backoff :: int
  cs_initialBackoff :: int
  cs_maxBackoff :: int
  cs_maxAttemptsPerTask :: int

record schedulerPermit =
  sp_generation :: "64 word"

definition second_ns :: int where "second_ns = 1000000000"

definition defaultSchedulerInitialBackoff :: int where
  "defaultSchedulerInitialBackoff = second_ns"

definition defaultSchedulerMaxBackoff :: int where
  "defaultSchedulerMaxBackoff = 30 * second_ns"

definition defaultSchedulerMaxTaskAttempts :: int where
  "defaultSchedulerMaxTaskAttempts = 5"

text \<open>The zero \<^verbatim>\<open>time.Time\<close>, as an instant: 1 January of year 1, counted from 1970.\<close>

definition zero_instant :: int where
  "zero_instant = - 62135596800 * second_ns"

definition NewConcurrencyScheduler :: "int \<Rightarrow> int \<Rightarrow> ConcurrencyScheduler" where
  "NewConcurrencyScheduler initialConcurrency maxConcurrency =
     (let max' = (if maxConcurrency < 1 then 1 else maxConcurrency);
          init = (if initialConcurrency < 1 then 1 else initialConcurrency);
          init' = (if init > max' then max' else init)
      in \<lparr>cs_sem = 0, cs_cap = max', cs_changed = 0, cs_limit = init', cs_successes = 0,
          cs_generation = 0, cs_blockedUntil = zero_instant, cs_backoff = 0,
          cs_initialBackoff = defaultSchedulerInitialBackoff,
          cs_maxBackoff = defaultSchedulerMaxBackoff,
          cs_maxAttemptsPerTask = defaultSchedulerMaxTaskAttempts\<rparr>)"

text \<open>\<^verbatim>\<open>time.Until\<close>: the difference, saturated to the range of a duration.\<close>

definition time_Until :: "int \<Rightarrow> int \<Rightarrow> int" where
  "time_Until now t = max int64_min (min int64_max (t - now))"

text \<open>
  One turn of the loop of \<open>acquire\<close> under the mutex: a permit, or how long to wait (\<open>None\<close>: until
  something changes) and the broadcast channel to wait on.
\<close>

definition acquire_turn ::
  "int \<Rightarrow> ConcurrencyScheduler \<Rightarrow> (int option \<times> nat + schedulerPermit) \<times> ConcurrencyScheduler" where
  "acquire_turn now s =
     (let wait = time_Until now (cs_blockedUntil s) in
      if wait \<le> 0 \<and> cs_sem s < cs_limit s
      then (Inr \<lparr>sp_generation = cs_generation s\<rparr>, s\<lparr>cs_sem := cs_sem s + 1\<rparr>)
      else (Inl (if wait > 0 then Some wait else None, cs_changed s), s))"

definition rate_limited :: "go_error option \<Rightarrow> bool" where
  "rate_limited taskErr = (case taskErr of None \<Rightarrow> False | Some e \<Rightarrow> errors_Is e ErrRateLimited)"

definition applyRateLimitLocked ::
  "int \<Rightarrow> schedulerPermit \<Rightarrow> go_error \<Rightarrow> ConcurrencyScheduler \<Rightarrow> ConcurrencyScheduler" where
  "applyRateLimitLocked now permit taskErr s =
     (if sp_generation permit \<noteq> cs_generation s then s
      else
        (let s1 = s\<lparr>cs_generation := cs_generation s + 1, cs_limit := max 1 (cs_limit s div 2),
                    cs_successes := 0\<rparr>;
             backoff = (if cs_backoff s < cs_initialBackoff s then cs_initialBackoff s
                        else min (cs_backoff s * 2) (cs_maxBackoff s));
             backoff' = (case retry_after_of taskErr of
                           None \<Rightarrow> backoff
                         | Some retryAfter \<Rightarrow>
                             if retryAfter > backoff then min retryAfter (cs_maxBackoff s) else backoff)
         in s1\<lparr>cs_backoff := backoff', cs_blockedUntil := now + backoff'\<rparr>))"

definition applySuccessLocked :: "ConcurrencyScheduler \<Rightarrow> ConcurrencyScheduler" where
  "applySuccessLocked s =
     (let s1 = s\<lparr>cs_successes := cs_successes s + 1\<rparr> in
      if cs_successes s1 < cs_limit s1 then s1
      else
        s1\<lparr>cs_successes := 0,
           cs_limit := (if cs_limit s < cs_cap s then cs_limit s + 1 else cs_limit s),
           cs_backoff := (if cs_backoff s > cs_initialBackoff s then cs_backoff s div 2 else 0)\<rparr>)"

definition signalLocked :: "ConcurrencyScheduler \<Rightarrow> ConcurrencyScheduler" where
  "signalLocked s = s\<lparr>cs_changed := Suc (cs_changed s)\<rparr>"

definition finish ::
  "int \<Rightarrow> schedulerPermit \<Rightarrow> go_error option \<Rightarrow> ConcurrencyScheduler \<Rightarrow> ConcurrencyScheduler" where
  "finish now permit taskErr s =
     (let s1 = s\<lparr>cs_sem := cs_sem s - 1\<rparr>;
          s2 = (case taskErr of
                  Some e \<Rightarrow> if errors_Is e ErrRateLimited then applyRateLimitLocked now permit e s1 else s1
                | None \<Rightarrow>
                    if sp_generation permit = cs_generation s1 then applySuccessLocked s1 else s1)
      in signalLocked s2)"

section \<open>Tasks\<close>

text \<open>
  A goroutine in \<open>Do\<close>, at its \<open>n\<close>-th attempt: about to take the mutex in \<open>acquire\<close>, waiting (for a
  timer deadline, if any, or for the channel it holds to be closed), running its task with a
  permit, or returned.
\<close>

datatype task_state =
    Acquiring int
  | Waiting int "int option" nat
  | Running int schedulerPermit
  | Returned "go_error option"

definition too_many_attempts :: "int \<Rightarrow> go_error \<Rightarrow> go_error" where
  "too_many_attempts attempt err =
     ErrWrap (''source request remained rate limited after '' @ Itoa attempt @ '' attempts: '') err ''''"

text \<open>What \<open>Do\<close> does after its task has returned.\<close>

definition after_task :: "ConcurrencyScheduler \<Rightarrow> int \<Rightarrow> go_error option \<Rightarrow> task_state" where
  "after_task s attempt taskErr =
     (case taskErr of
        None \<Rightarrow> Returned None
      | Some e \<Rightarrow>
          if \<not> errors_Is e ErrRateLimited then Returned (Some e)
          else if attempt \<ge> cs_maxAttemptsPerTask s then Returned (Some (too_many_attempts attempt e))
          else Acquiring (attempt + 1))"

record sched_system =
  sy_now :: int
  sy_sched :: ConcurrencyScheduler
  sy_tasks :: "task_state list"

inductive sched_step :: "sched_system \<Rightarrow> sched_system \<Rightarrow> bool" where
  tick: "sy_now y \<le> t \<Longrightarrow> sched_step y (y\<lparr>sy_now := t\<rparr>)"
| acquired: "i < length (sy_tasks y) \<Longrightarrow> sy_tasks y ! i = Acquiring n \<Longrightarrow>
    acquire_turn (sy_now y) (sy_sched y) = (Inr permit, s') \<Longrightarrow>
    sched_step y (y\<lparr>sy_sched := s', sy_tasks := (sy_tasks y)[i := Running n permit]\<rparr>)"
| must_wait: "i < length (sy_tasks y) \<Longrightarrow> sy_tasks y ! i = Acquiring n \<Longrightarrow>
    acquire_turn (sy_now y) (sy_sched y) = (Inl (w, c), s') \<Longrightarrow>
    sched_step y (y\<lparr>sy_sched := s',
      sy_tasks := (sy_tasks y)[i := Waiting n (map_option (\<lambda>d. sy_now y + d) w) c]\<rparr>)"
| timer: "i < length (sy_tasks y) \<Longrightarrow> sy_tasks y ! i = Waiting n (Some t) c \<Longrightarrow> t \<le> sy_now y \<Longrightarrow>
    sched_step y (y\<lparr>sy_tasks := (sy_tasks y)[i := Acquiring n]\<rparr>)"
| woken: "i < length (sy_tasks y) \<Longrightarrow> sy_tasks y ! i = Waiting n w c \<Longrightarrow> c < cs_changed (sy_sched y) \<Longrightarrow>
    sched_step y (y\<lparr>sy_tasks := (sy_tasks y)[i := Acquiring n]\<rparr>)"
| cancelled: "i < length (sy_tasks y) \<Longrightarrow> sy_tasks y ! i = Waiting n w c \<Longrightarrow>
    sched_step y (y\<lparr>sy_tasks := (sy_tasks y)[i := Returned (Some (ErrExternal e))]\<rparr>)"
| finished: "i < length (sy_tasks y) \<Longrightarrow> sy_tasks y ! i = Running n permit \<Longrightarrow>
    s' = finish (sy_now y) permit taskErr (sy_sched y) \<Longrightarrow>
    sched_step y (y\<lparr>sy_sched := s', sy_tasks := (sy_tasks y)[i := after_task s' n taskErr]\<rparr>)"

inductive_cases sched_stepE: "sched_step y y'"

definition sched_start :: "int \<Rightarrow> int \<Rightarrow> int \<Rightarrow> nat \<Rightarrow> sched_system" where
  "sched_start now initial maximum tasks =
     \<lparr>sy_now = now, sy_sched = NewConcurrencyScheduler initial maximum,
      sy_tasks = replicate tasks (Acquiring 1)\<rparr>"

inductive sched_reachable :: "sched_system \<Rightarrow> sched_system \<Rightarrow> bool" for y0 :: sched_system where
  start: "sched_reachable y0 y0"
| step: "sched_reachable y0 y \<Longrightarrow> sched_step y y' \<Longrightarrow> sched_reachable y0 y'"

section \<open>The scheduler keeps its bounds\<close>

definition sched_ok :: "ConcurrencyScheduler \<Rightarrow> bool" where
  "sched_ok s \<longleftrightarrow>
     1 \<le> cs_limit s \<and> cs_limit s \<le> cs_cap s \<and> 0 \<le> cs_successes s \<and> cs_successes s < cs_limit s \<and>
     0 \<le> cs_initialBackoff s \<and> cs_initialBackoff s \<le> cs_maxBackoff s \<and>
     0 \<le> cs_backoff s \<and> cs_backoff s \<le> cs_maxBackoff s"

text \<open>The fields the constructor fixes.\<close>

definition sched_params :: "ConcurrencyScheduler \<Rightarrow> int \<times> int \<times> int \<times> int" where
  "sched_params s = (cs_cap s, cs_initialBackoff s, cs_maxBackoff s, cs_maxAttemptsPerTask s)"

lemmas sched_defs = sched_ok_def sched_params_def

lemma sched_ok_New: "sched_ok (NewConcurrencyScheduler i m)"
  by (auto simp: sched_ok_def NewConcurrencyScheduler_def Let_def defaultSchedulerInitialBackoff_def
      defaultSchedulerMaxBackoff_def second_ns_def)

lemma applyRateLimitLocked_ok:
  "sched_ok s \<Longrightarrow> sched_ok (applyRateLimitLocked now p e s)"
  by (auto simp: sched_ok_def applyRateLimitLocked_def Let_def split: option.splits)

lemma applyRateLimitLocked_frame [simp]:
  "sched_params (applyRateLimitLocked now p e s) = sched_params s"
  "cs_sem (applyRateLimitLocked now p e s) = cs_sem s"
  "cs_changed (applyRateLimitLocked now p e s) = cs_changed s"
  by (simp_all add: applyRateLimitLocked_def sched_params_def Let_def)

lemma applySuccessLocked_ok: "sched_ok s \<Longrightarrow> sched_ok (applySuccessLocked s)"
  by (auto simp: sched_ok_def applySuccessLocked_def Let_def)

lemma applySuccessLocked_frame [simp]:
  "sched_params (applySuccessLocked s) = sched_params s"
  "cs_sem (applySuccessLocked s) = cs_sem s"
  "cs_changed (applySuccessLocked s) = cs_changed s"
  by (simp_all add: applySuccessLocked_def sched_params_def Let_def)

lemma sched_params_sem [simp]: "sched_params (s\<lparr>cs_sem := n\<rparr>) = sched_params s"
  by (simp add: sched_params_def)

lemma signalLocked_frame [simp]:
  "sched_params (signalLocked s) = sched_params s"
  "cs_sem (signalLocked s) = cs_sem s"
  "cs_changed (signalLocked s) = Suc (cs_changed s)"
  by (simp_all add: signalLocked_def sched_params_def)

lemma finish_frame [simp]:
  "sched_params (finish now p e s) = sched_params s"
  "cs_sem (finish now p e s) = cs_sem s - 1"
  "cs_changed (finish now p e s) = Suc (cs_changed s)"
  by (simp_all add: finish_def Let_def split: option.splits)

lemma finish_ok: "sched_ok s \<Longrightarrow> sched_ok (finish now p e s)"
proof -
  assume "sched_ok s"
  then have "sched_ok (s\<lparr>cs_sem := cs_sem s - 1\<rparr>)" by (simp add: sched_ok_def)
  moreover have "sched_ok (signalLocked t) = sched_ok t" for t
    by (simp add: sched_ok_def signalLocked_def)
  ultimately show ?thesis
    by (auto simp: finish_def Let_def applyRateLimitLocked_ok applySuccessLocked_ok split: option.splits)
qed

section \<open>The system\<close>

definition running :: "task_state list \<Rightarrow> int" where
  "running ts = int (length (filter (\<lambda>t. case t of Running n p \<Rightarrow> True | _ \<Rightarrow> False) ts))"

definition attempt_of :: "task_state \<Rightarrow> int option" where
  "attempt_of t = (case t of Acquiring n \<Rightarrow> Some n | Waiting n w c \<Rightarrow> Some n | Running n p \<Rightarrow> Some n
     | Returned e \<Rightarrow> None)"

text \<open>
  A task is well placed in a system: its attempt is one of those \<open>Do\<close> makes, and when it waits on
  a channel that is still open, with no timer, the semaphore is at the limit.
\<close>

definition task_ok :: "ConcurrencyScheduler \<Rightarrow> task_state \<Rightarrow> bool" where
  "task_ok s t \<longleftrightarrow>
     (\<forall>n. attempt_of t = Some n \<longrightarrow> 1 \<le> n \<and> n \<le> max 1 (cs_maxAttemptsPerTask s)) \<and>
     (\<forall>n w c. t = Waiting n w c \<longrightarrow> c \<le> cs_changed s \<and>
        (w = None \<and> c = cs_changed s \<longrightarrow> cs_limit s \<le> cs_sem s))"

definition system_ok :: "sched_system \<Rightarrow> bool" where
  "system_ok y \<longleftrightarrow>
     sched_ok (sy_sched y) \<and> cs_sem (sy_sched y) = running (sy_tasks y) \<and>
     cs_sem (sy_sched y) \<le> cs_cap (sy_sched y) \<and> list_all (task_ok (sy_sched y)) (sy_tasks y)"

lemma running_update:
  "i < length ts \<Longrightarrow>
   running (ts[i := t]) = running ts - (case ts ! i of Running n p \<Rightarrow> 1 | _ \<Rightarrow> 0)
     + (case t of Running n p \<Rightarrow> 1 | _ \<Rightarrow> 0)"
  unfolding running_def by (subst length_filter_update) (auto split: task_state.splits)

lemma system_ok_start: "system_ok (sched_start now i m n)"
proof -
  have "running (replicate n (Acquiring 1)) = 0" by (simp add: running_def)
  moreover have "cs_sem (NewConcurrencyScheduler i m) = 0"
    "1 \<le> cs_cap (NewConcurrencyScheduler i m)"
    by (simp_all add: NewConcurrencyScheduler_def Let_def)
  ultimately show ?thesis
    by (auto simp: system_ok_def sched_start_def sched_ok_New list_all_iff task_ok_def attempt_of_def)
qed

text \<open>How the critical sections change what the other tasks rely on.\<close>

lemma acquire_turn_cases:
  "acquire_turn now s = (r, s') \<Longrightarrow>
     (case r of
        Inr permit \<Rightarrow> cs_blockedUntil s \<le> now \<and> cs_sem s < cs_limit s \<and>
          permit = \<lparr>sp_generation = cs_generation s\<rparr> \<and> s' = s\<lparr>cs_sem := cs_sem s + 1\<rparr>
      | Inl (w, c) \<Rightarrow> s' = s \<and> c = cs_changed s \<and>
          (w = None \<longrightarrow> cs_limit s \<le> cs_sem s) \<and> (\<forall>d. w = Some d \<longrightarrow> 0 < d))"
  by (auto simp: acquire_turn_def Let_def time_Until_def int64_min_def int64_max_def not_less
      split: if_splits)

lemma task_ok_acquire:
  "task_ok s t \<Longrightarrow> task_ok (s\<lparr>cs_sem := cs_sem s + 1\<rparr>) t"
  by (auto simp: task_ok_def)

lemma task_ok_finish:
  "task_ok s t \<Longrightarrow> task_ok (finish now p e s) t"
  using finish_frame(1) [of now p e s] by (auto simp: task_ok_def sched_params_def)

lemma task_ok_after_task:
  "sched_params s' = sched_params s \<Longrightarrow> task_ok s (Running n p) \<Longrightarrow> task_ok s' (after_task s' n e)"
  by (auto simp: task_ok_def after_task_def attempt_of_def sched_params_def split: option.splits)

lemma system_ok_step:
  assumes "system_ok y" "sched_step y y'"
  shows "system_ok y' \<and> sched_params (sy_sched y') = sched_params (sy_sched y)"
  using assms(2)
proof cases
  case (acquired i n permit s')
  have s': "cs_sem (sy_sched y) < cs_limit (sy_sched y)"
    "s' = (sy_sched y)\<lparr>cs_sem := cs_sem (sy_sched y) + 1\<rparr>"
    using acquire_turn_cases [OF acquired(4)] by simp_all
  have "list_all (task_ok s') (sy_tasks y)"
  proof -
    have "list_all (task_ok (sy_sched y)) (sy_tasks y)" using assms(1) by (simp add: system_ok_def)
    then show ?thesis unfolding s'(2) list_all_iff using task_ok_acquire by blast
  qed
  moreover have "task_ok s' (Running n permit)"
    using list_all_nth [OF calculation acquired(2)] acquired(3) by (simp add: task_ok_def attempt_of_def)
  ultimately have "list_all (task_ok s') ((sy_tasks y)[i := Running n permit])"
    by (rule list_all_update)
  then show ?thesis
    using assms(1) acquired(1,2,3) s' by (auto simp: system_ok_def running_update sched_defs)
next
  case (must_wait i n w c s')
  have s': "s' = sy_sched y" "c = cs_changed s'" "w = None \<longrightarrow> cs_limit s' \<le> cs_sem s'"
    using acquire_turn_cases [OF must_wait(4)] by auto
  have all: "list_all (task_ok s') (sy_tasks y)" using assms(1) s'(1) by (simp add: system_ok_def)
  then have "task_ok s' (Waiting n (map_option (\<lambda>d. sy_now y + d) w) c)"
    using list_all_nth [OF all must_wait(2)] must_wait(3) s'(2,3) by (simp add: task_ok_def attempt_of_def)
  then have "list_all (task_ok s') ((sy_tasks y)[i := Waiting n (map_option (\<lambda>d. sy_now y + d) w) c])"
    using all by (intro list_all_update)
  then show ?thesis
    using assms(1) must_wait(1,2,3) s'(1) by (auto simp: system_ok_def running_update)
next
  case (finished i n permit s' e)
  have all: "list_all (task_ok s') (sy_tasks y)"
    using assms(1) task_ok_finish unfolding finished(4) system_ok_def by (auto simp: list_all_iff)
  have "task_ok (sy_sched y) (Running n permit)"
    using assms(1) list_all_nth [of "task_ok (sy_sched y)" "sy_tasks y" i] finished(2,3)
    by (simp add: system_ok_def)
  then have "task_ok s' (after_task s' n e)"
    using task_ok_after_task [of s' "sy_sched y"] finished(4) by simp
  then have "list_all (task_ok s') ((sy_tasks y)[i := after_task s' n e])"
    using all by (intro list_all_update)
  moreover have "running ((sy_tasks y)[i := after_task s' n e]) = running (sy_tasks y) - 1"
    using finished(2,3) by (simp add: running_update after_task_def split: option.splits)
  ultimately show ?thesis
    using assms(1) finished(1,4) finish_ok [of "sy_sched y"] finish_frame(1) [of "sy_now y" permit e "sy_sched y"]
    by (auto simp: system_ok_def sched_params_def)
qed (use assms(1) in \<open>auto simp: system_ok_def running_update task_ok_def attempt_of_def
      intro!: list_all_update dest: list_all_nth\<close>)

lemma system_ok_reachable:
  "sched_reachable y0 y \<Longrightarrow> system_ok y0 \<Longrightarrow>
   system_ok y \<and> sched_params (sy_sched y) = sched_params (sy_sched y0)"
  by (induction rule: sched_reachable.induct) (auto dest: system_ok_step)

section \<open>Rate limits\<close>

text \<open>The errors of requests that were in flight together count once.\<close>

lemma generation_changes: "g + 1 \<noteq> (g :: 64 word)"
  by simp

lemma finish_rate_limited:
  assumes "errors_Is e ErrRateLimited"
  shows "finish now p (Some e) s
    = signalLocked (applyRateLimitLocked now p e (s\<lparr>cs_sem := cs_sem s - 1\<rparr>))"
  using assms by (simp add: finish_def Let_def)

lemma finish_stale:
  assumes "errors_Is e ErrRateLimited" "sp_generation p \<noteq> cs_generation s"
  shows "finish now p (Some e) s = s\<lparr>cs_sem := cs_sem s - 1, cs_changed := Suc (cs_changed s)\<rparr>"
  using assms by (simp add: finish_rate_limited applyRateLimitLocked_def signalLocked_def)

definition finish_all ::
  "int \<Rightarrow> (schedulerPermit \<times> go_error) list \<Rightarrow> ConcurrencyScheduler \<Rightarrow> ConcurrencyScheduler" where
  "finish_all now fs s = foldl (\<lambda>s (p, e). finish now p (Some e) s) s fs"

lemma finish_all_stale:
  "\<forall>(p, e) \<in> set fs. errors_Is e ErrRateLimited \<and> sp_generation p \<noteq> cs_generation s \<Longrightarrow>
   finish_all now fs s = s\<lparr>cs_sem := cs_sem s - int (length fs), cs_changed := cs_changed s + length fs\<rparr>"
proof (induction fs arbitrary: s)
  case (Cons f fs)
  obtain p e where f: "f = (p, e)" by (cases f)
  have step: "finish now p (Some e) s = s\<lparr>cs_sem := cs_sem s - 1, cs_changed := Suc (cs_changed s)\<rparr>"
    using Cons.prems f by (intro finish_stale) auto
  show ?case
    using Cons.IH [of "finish now p (Some e) s"] Cons.prems f
    by (simp add: finish_all_def step)
qed (simp add: finish_all_def)

lemma finish_all_once:
  assumes "fs \<noteq> []" "\<forall>(p, e) \<in> set fs. errors_Is e ErrRateLimited \<and> sp_generation p = cs_generation s"
  shows "cs_generation (finish_all now fs s) = cs_generation s + 1 \<and>
    cs_limit (finish_all now fs s) = max 1 (cs_limit s div 2) \<and>
    cs_sem (finish_all now fs s) = cs_sem s - int (length fs) \<and>
    cs_backoff (finish_all now fs s) = cs_backoff (finish_all now [hd fs] s)"
proof -
  obtain p e gs where fs: "fs = (p, e) # gs" using assms(1) by (cases fs) auto
  let ?s1 = "finish now p (Some e) s"
  have pe: "errors_Is e ErrRateLimited" "sp_generation p = cs_generation s"
    using assms(2) fs by auto
  then have s1: "cs_generation ?s1 = cs_generation s + 1" "cs_limit ?s1 = max 1 (cs_limit s div 2)"
    by (simp_all add: finish_rate_limited applyRateLimitLocked_def signalLocked_def Let_def)
  have "\<forall>(q, d) \<in> set gs. errors_Is d ErrRateLimited \<and> sp_generation q \<noteq> cs_generation ?s1"
    using assms(2) fs s1(1) by auto
  from finish_all_stale [OF this, of now]
  have "finish_all now fs s = ?s1\<lparr>cs_sem := cs_sem ?s1 - int (length gs),
      cs_changed := cs_changed ?s1 + length gs\<rparr>"
    by (simp add: fs finish_all_def)
  then show ?thesis using s1 by (simp add: fs) (simp add: finish_all_def)
qed

text \<open>After a rate limit nothing starts for at least the initial back-off.\<close>

lemma rate_limit_backoff:
  assumes "sched_ok s" "errors_Is e ErrRateLimited" "sp_generation p = cs_generation s"
  shows "cs_initialBackoff s \<le> cs_backoff (finish now p (Some e) s) \<and>
    cs_backoff (finish now p (Some e) s) \<le> cs_maxBackoff s \<and>
    cs_blockedUntil (finish now p (Some e) s) = now + cs_backoff (finish now p (Some e) s)"
  using assms
  by (auto simp: finish_rate_limited applyRateLimitLocked_def signalLocked_def Let_def sched_ok_def
      split: option.splits)

lemma blocked_no_permit:
  assumes "t < cs_blockedUntil s"
  shows "\<exists>w. acquire_turn t s = (Inl w, s)"
  using assms by (auto simp: acquire_turn_def Let_def time_Until_def int64_min_def int64_max_def)

section \<open>No lost wake-up\<close>

text \<open>A task that can make its own next move without waiting for another task, or for a timer only.\<close>

definition can_move :: "ConcurrencyScheduler \<Rightarrow> task_state \<Rightarrow> bool" where
  "can_move s t =
     (case t of
        Acquiring n \<Rightarrow> True
      | Running n p \<Rightarrow> True
      | Waiting n w c \<Rightarrow> w \<noteq> None \<or> c < cs_changed s
      | Returned e \<Rightarrow> False)"

lemma running_pos:
  assumes "0 < running ts"
  shows "\<exists>t \<in> set ts. \<exists>n p. t = Running n p"
proof -
  from assms obtain t where t: "t \<in> set ts" "case t of Running n p \<Rightarrow> True | _ \<Rightarrow> False"
    unfolding running_def by (auto simp: filter_empty_conv)
  from t(2) have "\<exists>n p. t = Running n p" by (cases t) simp_all
  with t(1) show ?thesis by blast
qed

lemma system_can_move:
  assumes "system_ok y" "t \<in> set (sy_tasks y)" "\<forall>e. t \<noteq> Returned e"
  shows "\<exists>t' \<in> set (sy_tasks y). can_move (sy_sched y) t'"
proof (cases "can_move (sy_sched y) t")
  case True
  with assms(2) show ?thesis by blast
next
  case False
  then obtain n c where t: "t = Waiting n None c" "\<not> c < cs_changed (sy_sched y)"
    using assms(3) by (cases t) (auto simp: can_move_def)
  moreover have "task_ok (sy_sched y) t"
    using assms(1,2) by (auto simp: system_ok_def list_all_iff)
  ultimately have "cs_limit (sy_sched y) \<le> running (sy_tasks y)"
    using assms(1) by (auto simp: task_ok_def system_ok_def)
  moreover have "1 \<le> cs_limit (sy_sched y)" using assms(1) by (simp add: system_ok_def sched_ok_def)
  ultimately obtain t' n p where "t' \<in> set (sy_tasks y)" "t' = Running n p"
    using running_pos [of "sy_tasks y"] by auto
  moreover from this have "can_move (sy_sched y) t'" by (simp add: can_move_def)
  ultimately show ?thesis by blast
qed

end
