(* ===== verification/HitomiHandler.thy ===== *)
theory HitomiHandler
  imports HitomiResolver SourceHost Scheduler "HOL-Library.Multiset"
begin

text \<open>
  The handler of \<^verbatim>\<open>internal/sources/hitomi/handler.go\<close>.  \<open>ArchiveContent\<close> starts one goroutine per page;
  each is a \<open>page_task\<close> that stands before its next call: the scheduler, a look at the object, the
  download, the upload, the page hook.  A schedule is a list of moves: a goroutine makes its next call, a
  goroutine that waits for the scheduler sees its context cancelled, or the loop over the results receives
  the next one.  After the given moves the run is completed goroutine by goroutine, so a run always
  ends and the given moves may be any interleaving.  Which goroutines the scheduler admits is left to
  the schedule; \<open>Scheduler\<close> shows what it admits.
\<close>

section \<open>The handler\<close>

definition SourceTypeHitomi :: string where
  "SourceTypeHitomi = ''hitomi''"

datatype page_task =
    TaskWaiting nat
  | TaskHeading nat
  | TaskFetching nat string
  | TaskStoring nat string string
  | TaskRecording nat Page bool
  | TaskDone "go_error + Page"

datatype content_move = MoveTask nat | RefuseTask nat | ReceiveResult

text \<open>
  The network as one call of the handler sees it: the client of the metadata requests, that of the \<open>n\<close>-th
  attempt at each page, the clock, and the order of the moves.
\<close>

record hitomi_net =
  hn_meta :: http_client
  hn_page :: "nat \<Rightarrow> nat \<Rightarrow> http_client"
  hn_unix_milli :: int
  hn_now :: "nat \<Rightarrow> nat \<Rightarrow> nat \<Rightarrow> int"
  hn_sort :: "DownloadPage list \<Rightarrow> DownloadPage list"
  hn_moves :: "content_move list"

definition Hitomi_ArchiveManifest ::
  "'w source_host \<Rightarrow> Document \<Rightarrow> 'w \<Rightarrow> (go_error + unit) \<times> 'w" where
  "Hitomi_ArchiveManifest host document w =
     (case ho_objects host of
        None \<Rightarrow> (Inl (ErrText ''object store is required''), w)
      | Some objects \<Rightarrow>
          (case json_Document document of
             None \<Rightarrow> (Inl (ErrWrap ''marshal document snapshot: '' json_error ''''), w)
           | Some body \<Rightarrow>
               (case os_PutObject objects (ho_ctx host w)
                       \<lparr>oi_Key = ManifestObjectKey (Itoa (d_ID document)), oi_Size = int (length body),
                        oi_ContentType = ''application/json'', oi_ETag = ''''\<rparr> (Some (Inr body)) w of
                  (Inl e, w') \<Rightarrow> (Inl (ErrWrap ''put document snapshot: '' e ''''), w')
                | (Inr _, w') \<Rightarrow> (Inr (), w'))))"

definition Hitomi_recordPage ::
  "'w source_host \<Rightarrow> bool \<Rightarrow> int \<Rightarrow> Page \<Rightarrow> 'w \<Rightarrow> (go_error + unit) \<times> 'w" where
  "Hitomi_recordPage host cancelled documentID page w =
     (case ho_hook host of
        None \<Rightarrow> (Inr (), w)
      | Some hook \<Rightarrow>
          (case hook cancelled documentID page w of
             (Inl e, w') \<Rightarrow> (Inl (ErrWrap ''failed to execute page download hook: '' e ''''), w')
           | (Inr _, w') \<Rightarrow> (Inr (), w')))"

section \<open>One page\<close>

text \<open>
  What \<open>Do\<close> of the scheduler does with the result of an attempt: another attempt after a rate limit.
\<close>

definition task_result :: "nat \<Rightarrow> go_error + Page \<Rightarrow> page_task" where
  "task_result n result =
     (case result of
        Inr page \<Rightarrow> TaskDone (Inr page)
      | Inl e \<Rightarrow>
          (if \<not> errors_Is e ErrRateLimited then TaskDone (Inl e)
           else if int n \<ge> defaultSchedulerMaxTaskAttempts then TaskDone (Inl (too_many_attempts (int n) e))
           else TaskWaiting (Suc n)))"

definition archived_page :: "DownloadPage \<Rightarrow> string \<Rightarrow> int \<Rightarrow> Page" where
  "archived_page page key size' =
     \<lparr>pg_Index = dp_Index page, pg_Key = key, pg_ContentType = dp_ContentType page, pg_Size = size',
      pg_Hash = dp_Hash page\<rparr>"

text \<open>The calls of \<open>downloadPage\<close>, one at a time.\<close>

definition head_page ::
  "'w source_host \<Rightarrow> 'w ObjectStore \<Rightarrow> int \<Rightarrow> bool \<Rightarrow> nat \<Rightarrow> DownloadPage \<Rightarrow> 'w \<Rightarrow> page_task" where
  "head_page host objects documentID cancelled n page w =
     (case PageObjectKey (Itoa documentID) (dp_Hash page) (dp_ContentType page) of
        Inl e \<Rightarrow> task_result n (Inl (ErrWrap (''build page '' @ Itoa (dp_Index page) @ '' object key: '') e ''''))
      | Inr key \<Rightarrow>
          (case os_HeadObject objects (host_ctx host cancelled w) key w of
             Inr objectInfo \<Rightarrow>
               (if oi_ETag objectInfo \<noteq> '''' \<and> oi_ETag objectInfo \<noteq> dp_Hash page
                then task_result n (Inl (ErrText (''page '' @ Itoa (dp_Index page)
                       @ '' object hash mismatch: expected '' @ dp_Hash page @ '', got '' @ oi_ETag objectInfo)))
                else TaskRecording n (archived_page page key (oi_Size objectInfo)) True)
           | Inl e \<Rightarrow>
               (if \<not> errors_Is e ErrObjectNotFound
                then task_result n (Inl (ErrWrap (''head page '' @ Itoa (dp_Index page) @ '' object: '') e ''''))
                else TaskFetching n key)))"

definition fetch_page ::
  "'w source_host \<Rightarrow> hitomi_net \<Rightarrow> bool \<Rightarrow> nat \<Rightarrow> nat \<Rightarrow> string \<Rightarrow> DownloadPage \<Rightarrow> 'w \<Rightarrow> page_task" where
  "fetch_page host net cancelled position n key page w =
     (case Resolver_DownloadPage (hn_page net position n) (host_ctx host cancelled w)
             (hn_now net position n) page [] of
        (Inl e, buf) \<Rightarrow>
          task_result n (Inl (ErrWrap (''failed to download page '' @ Itoa (dp_Index page) @ '': '') e ''''))
      | (Inr _, buf) \<Rightarrow> TaskStoring n key buf)"

definition store_page ::
  "'w source_host \<Rightarrow> 'w ObjectStore \<Rightarrow> bool \<Rightarrow> nat \<Rightarrow> string \<Rightarrow> string \<Rightarrow> DownloadPage \<Rightarrow> 'w
     \<Rightarrow> page_task \<times> 'w" where
  "store_page host objects cancelled n key buf page w =
     (case os_PutObject objects (host_ctx host cancelled w)
             \<lparr>oi_Key = key, oi_Size = int (length buf), oi_ContentType = dp_ContentType page,
              oi_ETag = dp_Hash page\<rparr> (Some (Inr buf)) w of
        (Inl e, w') \<Rightarrow> (task_result n (Inl (ErrWrap ''failed to put object: '' e '''')), w')
      | (Inr _, w') \<Rightarrow> (TaskRecording n (archived_page page key (int (length buf))) False, w'))"

definition record_page ::
  "'w source_host \<Rightarrow> int \<Rightarrow> bool \<Rightarrow> nat \<Rightarrow> Page \<Rightarrow> bool \<Rightarrow> 'w \<Rightarrow> page_task \<times> 'w" where
  "record_page host documentID cancelled n docPage existed w =
     (case Hitomi_recordPage host cancelled documentID docPage w of
        (Inl e, w') \<Rightarrow>
          (task_result n (Inl (if existed then e else ErrWrap ''failed to record page: '' e '''')), w')
      | (Inr _, w') \<Rightarrow> (task_result n (Inr docPage), w'))"

fun task_step ::
  "'w source_host \<Rightarrow> 'w ObjectStore \<Rightarrow> hitomi_net \<Rightarrow> int \<Rightarrow> bool \<Rightarrow> nat \<Rightarrow> DownloadPage \<Rightarrow> page_task
     \<Rightarrow> 'w \<Rightarrow> page_task \<times> 'w" where
  "task_step host objects net i cancelled p page (TaskWaiting n) w = (TaskHeading n, w)"
| "task_step host objects net i cancelled p page (TaskHeading n) w =
     (head_page host objects i cancelled n page w, w)"
| "task_step host objects net i cancelled p page (TaskFetching n key) w =
     (fetch_page host net cancelled p n key page w, w)"
| "task_step host objects net i cancelled p page (TaskStoring n key buf) w =
     store_page host objects cancelled n key buf page w"
| "task_step host objects net i cancelled p page (TaskRecording n docPage existed) w =
     record_page host i cancelled n docPage existed w"
| "task_step host objects net i cancelled p page (TaskDone r) w = (TaskDone r, w)"

section \<open>All pages\<close>

text \<open>
  The state of \<open>ArchiveContent\<close>: the goroutines, the results in the channel, and what the loop over the
  channel has received.  The first error cancels the context of the goroutines.
\<close>

record 'w content_run =
  cr_world :: 'w
  cr_tasks :: "page_task list"
  cr_results :: "nat list"
  cr_pages :: "Page list"
  cr_completed :: "bool list"
  cr_firstErr :: "go_error option"

definition is_done :: "page_task \<Rightarrow> bool" where
  "is_done t = (case t of TaskDone r \<Rightarrow> True | _ \<Rightarrow> False)"

definition cr_cancelled :: "'w content_run \<Rightarrow> bool" where
  "cr_cancelled r \<longleftrightarrow> cr_firstErr r \<noteq> None"

text \<open>A goroutine that is done sends its position.\<close>

definition put_task :: "nat \<Rightarrow> page_task \<Rightarrow> 'w content_run \<Rightarrow> 'w content_run" where
  "put_task p t r =
     r\<lparr>cr_tasks := (cr_tasks r)[p := t],
       cr_results := cr_results r @ (if is_done t \<and> \<not> is_done (cr_tasks r ! p) then [p] else [])\<rparr>"

definition receive_result :: "nat \<Rightarrow> 'w content_run \<Rightarrow> 'w content_run" where
  "receive_result p r =
     (case cr_tasks r ! p of
        TaskDone (Inl e) \<Rightarrow>
          (if cr_firstErr r = None then r\<lparr>cr_firstErr := Some e\<rparr> else r)
      | TaskDone (Inr page) \<Rightarrow>
          r\<lparr>cr_pages := (cr_pages r)[p := page], cr_completed := (cr_completed r)[p := True]\<rparr>
      | _ \<Rightarrow> r)"

fun content_step ::
  "'w source_host \<Rightarrow> 'w ObjectStore \<Rightarrow> hitomi_net \<Rightarrow> int \<Rightarrow> DownloadPage list \<Rightarrow> content_move
     \<Rightarrow> 'w content_run \<Rightarrow> 'w content_run" where
  "content_step host objects net i pages (MoveTask p) r =
     (if p < length pages
      then (case task_step host objects net i (cr_cancelled r) p (pages ! p) (cr_tasks r ! p) (cr_world r) of
              (t, w') \<Rightarrow> (put_task p t r)\<lparr>cr_world := w'\<rparr>)
      else r)"
| "content_step host objects net i pages (RefuseTask p) r =
     (if p < length pages
      then (case (cr_tasks r ! p, host_ctx host (cr_cancelled r) (cr_world r) 0) of
              (TaskWaiting n, Some e) \<Rightarrow> put_task p (TaskDone (Inl (ErrExternal e))) r
            | _ \<Rightarrow> r)
      else r)"
| "content_step host objects net i pages ReceiveResult r =
     (case cr_results r of
        [] \<Rightarrow> r
      | p # ps \<Rightarrow> receive_result p (r\<lparr>cr_results := ps\<rparr>))"

definition content_run ::
  "'w source_host \<Rightarrow> 'w ObjectStore \<Rightarrow> hitomi_net \<Rightarrow> int \<Rightarrow> DownloadPage list \<Rightarrow> content_move list
     \<Rightarrow> 'w content_run \<Rightarrow> 'w content_run" where
  "content_run host objects net i pages moves r = fold (content_step host objects net i pages) moves r"

text \<open>
  A goroutine makes five calls in an attempt, and five attempts; then the loop receives what is left.
\<close>

definition task_bound :: nat where
  "task_bound = 25"

definition last_moves :: "nat \<Rightarrow> content_move list" where
  "last_moves n = concat (map (\<lambda>p. replicate task_bound (MoveTask p)) [0..<n]) @ replicate n ReceiveResult"

definition content_start :: "nat \<Rightarrow> 'w \<Rightarrow> 'w content_run" where
  "content_start n w =
     \<lparr>cr_world = w, cr_tasks = replicate n (TaskWaiting 1), cr_results = [],
      cr_pages = replicate n zero_Page, cr_completed = replicate n False, cr_firstErr = None\<rparr>"

definition content_end ::
  "'w source_host \<Rightarrow> 'w ObjectStore \<Rightarrow> hitomi_net \<Rightarrow> int \<Rightarrow> DownloadPage list \<Rightarrow> 'w \<Rightarrow> 'w content_run" where
  "content_end host objects net i pages w =
     content_run host objects net i pages (hn_moves net @ last_moves (length pages))
       (content_start (length pages) w)"

text \<open>The pages and the error, as Go returns both.\<close>

definition content_result :: "'w content_run \<Rightarrow> Page list \<times> go_error option" where
  "content_result r =
     (if cr_firstErr r = None then (cr_pages r, None)
      else (map snd (filter fst (zip (cr_completed r) (cr_pages r))), cr_firstErr r))"

definition Hitomi_ArchiveContent ::
  "'w source_host \<Rightarrow> hitomi_net \<Rightarrow> Document \<Rightarrow> 'w \<Rightarrow> (Page list \<times> go_error option) \<times> 'w" where
  "Hitomi_ArchiveContent host net document w =
     (case ho_objects host of
        None \<Rightarrow> (([], Some (ErrText ''object store is required'')), w)
      | Some objects \<Rightarrow>
          (case DeserializeGalleryInfo (d_SourceMeta document) of
             Inl e \<Rightarrow> (([], Some (ErrWrap ''failed to deserialize gallery info: '' e '''')), w)
           | Inr comic \<Rightarrow>
               (case ResolveComic (hn_meta net) (ho_ctx host w) (hn_unix_milli net) (hn_sort net) comic of
                  Inl e \<Rightarrow> (([], Some (ErrWrap ''failed to resolve comic: '' e '''')), w)
                | Inr resolvedComic \<Rightarrow>
                    (let r = content_end host objects net (d_ID document) (co_Pages resolvedComic) w
                     in (content_result r, cr_world r)))))"

text \<open>The pages of a resolved document carry the position in the sorted list.\<close>

fun resolved_pages :: "nat \<Rightarrow> DownloadPage list \<Rightarrow> Page list" where
  "resolved_pages index [] = []"
| "resolved_pages index (page # pages) =
     \<lparr>pg_Index = int index, pg_Key = '''', pg_ContentType = dp_ContentType page, pg_Size = 0,
      pg_Hash = dp_Hash page\<rparr> # resolved_pages (Suc index) pages"

definition Hitomi_ResolveDocument ::
  "'w source_host \<Rightarrow> hitomi_net \<Rightarrow> Document \<Rightarrow> 'w \<Rightarrow> (go_error + Document \<times> Page list option) \<times> 'w" where
  "Hitomi_ResolveDocument host net document w =
     (case ResolveID (hn_meta net) (ho_ctx host w) (hn_unix_milli net) (hn_sort net)
             (d_SourceDocumentID document) of
        Inl e \<Rightarrow> (Inl e, w)
      | Inr comic \<Rightarrow>
          (Inr (zero_Document\<lparr>d_Source := SourceTypeHitomi, d_SourceMeta := co_RawJSON comic,
                  d_SourceDocumentID := rc_ID (co_Comic comic), d_Title := rc_Title (co_Comic comic),
                  d_Pages := resolved_pages 0 (co_Pages comic)\<rparr>,
                Some (resolved_pages 0 (co_Pages comic))), w))"

section \<open>The factory\<close>

text \<open>
  The application drops the pages of an \<open>ArchiveContent\<close> that failed.  The network is a function of the
  world, so that each call meets its own.
\<close>

definition Hitomi_NewHandler ::
  "(('s, 'o) world \<Rightarrow> hitomi_net) \<Rightarrow> ('s, 'o) world ObjectStore
     \<Rightarrow> ('s env \<Rightarrow> ('s, 'o) PageDownloadHook) \<Rightarrow> ('s, 'o) SourceHandler" where
  "Hitomi_NewHandler net objects hook =
     \<lparr>sh_ResolveDocument = (\<lambda>E document w.
        Hitomi_ResolveDocument (host_of E (Some objects) (Some hook)) (net w) document w),
      sh_ArchiveContent = (\<lambda>E document w.
        (case Hitomi_ArchiveContent (host_of E (Some objects) (Some hook)) (net w) document w of
           ((pages, None), w') \<Rightarrow> (Inr pages, w')
         | ((pages, Some e), w') \<Rightarrow> (Inl e, w'))),
      sh_ArchiveManifest = (\<lambda>E document w.
        Hitomi_ArchiveManifest (host_of E (Some objects) (Some hook)) document w)\<rparr>"

definition Hitomi_NewFactory :: "(('s, 'o) world \<Rightarrow> hitomi_net) \<Rightarrow> ('s, 'o) SourceHandlerFactory" where
  "Hitomi_NewFactory net =
     \<lparr>fa_Source = SourceTypeHitomi, fa_NewHandler = (\<lambda>objects hook. Some (Hitomi_NewHandler net objects hook))\<rparr>"

end
