(* ===== verification/HitomiProofs.thy ===== *)
theory HitomiProofs
  imports HitomiHandler
begin

text \<open>
  \<open>ArchiveContent\<close> under every schedule.  A goroutine is done after at most \<open>task_bound\<close> moves, so that the
  run always ends with every result received; the result is that of the goroutines, in the order of
  the pages; and what the host owes in \<open>page_host\<close> holds from the first state to the last.
\<close>

section \<open>Termination\<close>

fun task_left :: "page_task \<Rightarrow> nat" where
  "task_left (TaskWaiting n) = 5 * (5 - n) + 5"
| "task_left (TaskHeading n) = 5 * (5 - n) + 4"
| "task_left (TaskFetching n key) = 5 * (5 - n) + 3"
| "task_left (TaskStoring n key buf) = 5 * (5 - n) + 2"
| "task_left (TaskRecording n page existed) = 5 * (5 - n) + 1"
| "task_left (TaskDone r) = 0"

lemma task_left_result: "task_left (task_result n res) \<le> 5 * (5 - n)"
  by (auto simp: task_result_def defaultSchedulerMaxTaskAttempts_def split: sum.splits)

lemma task_left_result_le: "5 * (5 - n) \<le> k \<Longrightarrow> task_left (task_result n res) \<le> k"
  using task_left_result le_trans by blast

lemma task_left_0: "task_left t = 0 \<longleftrightarrow> is_done t"
  by (cases t) (simp_all add: is_done_def)

lemma task_step_left:
  "task_left (fst (task_step host objects net i c p page t w)) \<le> task_left t - 1"
proof (cases t)
  case (TaskHeading n)
  have "task_left (head_page host objects i c n page w) \<le> 5 * (5 - n) + 3"
    by (auto simp: head_page_def split: sum.splits intro!: task_left_result_le)
  then show ?thesis using TaskHeading by simp
next
  case (TaskFetching n key)
  have "task_left (fetch_page host net c p n key page w) \<le> 5 * (5 - n) + 2"
    by (auto simp: fetch_page_def split: sum.splits prod.splits intro!: task_left_result_le)
  then show ?thesis using TaskFetching by simp
next
  case (TaskStoring n key buf)
  have "task_left (fst (store_page host objects c n key buf page w)) \<le> 5 * (5 - n) + 1"
    by (auto simp: store_page_def split: sum.splits prod.splits intro!: task_left_result_le)
  then show ?thesis using TaskStoring by simp
next
  case (TaskRecording n docPage existed)
  have "task_left (fst (record_page host i c n docPage existed w)) \<le> 5 * (5 - n)"
    by (auto simp: record_page_def split: sum.splits prod.splits intro!: task_left_result_le)
  then show ?thesis using TaskRecording by simp
qed simp_all

section \<open>The bookkeeping of the results\<close>

definition received :: "'w content_run \<Rightarrow> nat \<Rightarrow> bool" where
  "received r p \<longleftrightarrow>
     cr_completed r ! p \<and> cr_tasks r ! p = TaskDone (Inr (cr_pages r ! p)) \<or>
     cr_firstErr r \<noteq> None \<and> (\<exists>e. cr_tasks r ! p = TaskDone (Inl e))"

definition run_ok :: "nat \<Rightarrow> 'w content_run \<Rightarrow> bool" where
  "run_ok n r \<longleftrightarrow>
     length (cr_tasks r) = n \<and> length (cr_pages r) = n \<and> length (cr_completed r) = n \<and>
     distinct (cr_results r) \<and> (\<forall>p \<in> set (cr_results r). p < n \<and> is_done (cr_tasks r ! p)) \<and>
     (\<forall>p < n. is_done (cr_tasks r ! p) \<longrightarrow> p \<in> set (cr_results r) \<or> received r p) \<and>
     (\<forall>p < n. cr_completed r ! p \<longrightarrow> cr_tasks r ! p = TaskDone (Inr (cr_pages r ! p))) \<and>
     (\<forall>e. cr_firstErr r = Some e \<longrightarrow> (\<exists>p < n. cr_tasks r ! p = TaskDone (Inl e)))"

lemma run_ok_start: "run_ok n (content_start n w)"
  by (auto simp: run_ok_def content_start_def is_done_def)

lemma run_ok_world: "run_ok n (r\<lparr>cr_world := w\<rparr>) = run_ok n r"
  by (simp add: run_ok_def received_def)

lemma run_ok_put:
  assumes "run_ok n r" "p < n" "is_done (cr_tasks r ! p) \<longrightarrow> t = cr_tasks r ! p"
  shows "run_ok n (put_task p t r)"
proof (cases "is_done (cr_tasks r ! p)")
  case True
  with assms have "put_task p t r = r" by (simp add: put_task_def)
  with assms show ?thesis by simp
next
  case False
  then have fresh: "p \<notin> set (cr_results r)" using assms(1) by (auto simp: run_ok_def)
  have undone: "\<not> cr_completed r ! p" "cr_tasks r ! p \<noteq> TaskDone x" for x
    using assms(1,2) False by (auto simp: run_ok_def is_done_def)
  have len: "p < length (cr_tasks r)" using assms(1,2) by (simp add: run_ok_def)
  have first: "q \<noteq> p" if "cr_tasks r ! q = TaskDone x" for q x using that undone(2) by auto
  show ?thesis
    unfolding run_ok_def
  proof (intro conjI allI impI ballI)
    fix e
    assume "cr_firstErr (put_task p t r) = Some e"
    then obtain q where "q < n" "cr_tasks r ! q = TaskDone (Inl e)"
      using assms(1) by (auto simp: run_ok_def put_task_def)
    moreover from this first have "q \<noteq> p" by blast
    ultimately show "\<exists>q < n. cr_tasks (put_task p t r) ! q = TaskDone (Inl e)"
      by (intro exI [of _ q]) (simp add: put_task_def)
  qed (use assms(1,2) fresh undone len False in
      \<open>auto simp: run_ok_def put_task_def received_def nth_list_update split: if_splits\<close>)
qed

lemma run_ok_receive:
  assumes "run_ok n r" "cr_results r = p # ps"
  shows "run_ok n (receive_result p (r\<lparr>cr_results := ps\<rparr>))"
proof -
  have p: "p < n" "is_done (cr_tasks r ! p)" "p \<notin> set ps" "distinct ps"
    using assms by (auto simp: run_ok_def)
  then obtain res where res: "cr_tasks r ! p = TaskDone res"
    by (auto simp: is_done_def split: page_task.splits)
  show ?thesis
  proof (cases res)
    case (Inl e)
    show ?thesis
      using assms p res Inl unfolding run_ok_def received_def
      by (cases "cr_firstErr r") (auto simp: receive_result_def)
  next
    case (Inr page)
    have "receive_result p (r\<lparr>cr_results := ps\<rparr>) =
        r\<lparr>cr_results := ps, cr_pages := (cr_pages r)[p := page], cr_completed := (cr_completed r)[p := True]\<rparr>"
      using res Inr by (simp add: receive_result_def)
    with assms p res Inr show ?thesis
      unfolding run_ok_def received_def by (auto simp: nth_list_update)
  qed
qed

lemma content_step_ok:
  "run_ok n r \<Longrightarrow> n = length pages \<Longrightarrow> run_ok n (content_step host objects net i pages m r)"
proof (cases m)
  case (MoveTask p)
  assume r: "run_ok n r" "n = length pages"
  obtain t w' where t: "task_step host objects net i (cr_cancelled r) p (pages ! p) (cr_tasks r ! p) (cr_world r) = (t, w')"
    by force
  have "is_done (cr_tasks r ! p) \<longrightarrow> t = cr_tasks r ! p"
    using t by (auto simp: is_done_def split: page_task.splits)
  with r t MoveTask show ?thesis by (auto simp: run_ok_world intro: run_ok_put)
next
  case (RefuseTask p)
  assume r: "run_ok n r" "n = length pages"
  show ?thesis
    using r RefuseTask
    by (auto split: page_task.splits option.splits intro!: run_ok_put simp: is_done_def)
next
  case ReceiveResult
  assume r: "run_ok n r" "n = length pages"
  show ?thesis using r ReceiveResult by (auto split: list.splits intro: run_ok_receive)
qed

lemma content_run_ok:
  "run_ok n r \<Longrightarrow> n = length pages \<Longrightarrow> run_ok n (content_run host objects net i pages moves r)"
  by (induction moves arbitrary: r) (simp_all add: content_run_def content_step_ok)

section \<open>A run ends\<close>

lemma content_step_left:
  assumes "run_ok n r" "n = length pages" "q < n"
  shows "task_left (cr_tasks (content_step host objects net i pages m r) ! q)
    \<le> task_left (cr_tasks r ! q) - (if m = MoveTask q then 1 else 0)"
proof (cases m)
  case (MoveTask p)
  obtain t w' where t: "task_step host objects net i (cr_cancelled r) p (pages ! p) (cr_tasks r ! p) (cr_world r) = (t, w')"
    by force
  then have "task_left t \<le> task_left (cr_tasks r ! p) - 1"
    using task_step_left [of host objects net i "cr_cancelled r" p "pages ! p" "cr_tasks r ! p" "cr_world r"] by simp
  with assms t MoveTask show ?thesis by (auto simp: put_task_def nth_list_update run_ok_def)
next
  case (RefuseTask p)
  with assms show ?thesis
    by (auto simp: put_task_def nth_list_update run_ok_def split: page_task.splits option.splits)
next
  case ReceiveResult
  with assms show ?thesis
    by (auto simp: receive_result_def split: list.splits page_task.splits sum.splits)
qed

lemma content_run_left:
  assumes "run_ok n r" "n = length pages" "q < n"
  shows "task_left (cr_tasks (content_run host objects net i pages moves r) ! q)
    \<le> task_left (cr_tasks r ! q) - count_list moves (MoveTask q)"
  using assms(1)
proof (induction moves arbitrary: r)
  case (Cons m moves)
  let ?r = "content_step host objects net i pages m r"
  have "task_left (cr_tasks (content_run host objects net i pages moves ?r) ! q)
      \<le> task_left (cr_tasks ?r ! q) - count_list moves (MoveTask q)"
    using Cons.prems assms(2) by (intro Cons.IH content_step_ok)
  moreover have "content_run host objects net i pages (m # moves) r = content_run host objects net i pages moves ?r"
    by (simp add: content_run_def)
  ultimately show ?case
    using content_step_left [OF Cons.prems assms(2,3), of host objects net i m] by auto
qed (simp add: content_run_def)

lemma count_moves: "q < n \<Longrightarrow> count_list (last_moves n) (MoveTask q) = task_bound"
proof -
  have rep: "count_list (replicate k (MoveTask p)) (MoveTask q) = (if p = q then k else 0)" for k p
    by (induction k) auto
  have "count_list (replicate k ReceiveResult) (MoveTask q) = 0" for k by (induction k) auto
  moreover have "count_list (concat (map (\<lambda>p. replicate task_bound (MoveTask p)) [0..<n])) (MoveTask q)
      = (if q < n then task_bound else 0)"
    by (induction n) (auto simp: rep)
  ultimately show "q < n \<Longrightarrow> ?thesis" by (simp add: last_moves_def)
qed

lemma content_run_receive:
  "length (cr_results (content_run host objects net i pages (replicate k ReceiveResult) r))
   = length (cr_results r) - k"
proof (induction k arbitrary: r)
  case (Suc k)
  have "length (cr_results (content_step host objects net i pages ReceiveResult r)) = length (cr_results r) - 1"
    by (auto simp: receive_result_def split: list.splits page_task.splits sum.splits)
  with Suc show ?case by (simp add: content_run_def)
qed (simp add: content_run_def)

lemma content_run_append:
  "content_run host objects net i pages (ms @ ns) r
   = content_run host objects net i pages ns (content_run host objects net i pages ms r)"
  by (simp add: content_run_def)

definition all_received :: "nat \<Rightarrow> 'w content_run \<Rightarrow> bool" where
  "all_received n r \<longleftrightarrow> run_ok n r \<and> cr_results r = [] \<and> (\<forall>p < n. is_done (cr_tasks r ! p))"

lemma content_end_received:
  "all_received (length pages) (content_end host objects net i pages w)"
proof -
  let ?n = "length pages"
  let ?go = "content_run host objects net i pages"
  let ?r0 = "content_start ?n w"
  let ?moves = "hn_moves net @ concat (map (\<lambda>p. replicate task_bound (MoveTask p)) [0..<?n])"
  let ?r1 = "?go ?moves ?r0"
  have r: "content_end host objects net i pages w = ?go (replicate ?n ReceiveResult) ?r1"
    by (simp add: content_end_def last_moves_def content_run_append)
  have ok: "run_ok ?n (?go ms ?r0)" for ms
    by (rule content_run_ok) (simp_all add: run_ok_start)
  have ok_end: "run_ok ?n (content_end host objects net i pages w)"
    unfolding content_end_def by (rule ok)
  have "set (cr_results ?r1) \<subseteq> {..<?n}" "distinct (cr_results ?r1)"
    using ok [of ?moves] by (auto simp: run_ok_def)
  then have "length (cr_results ?r1) \<le> ?n"
    by (metis card_lessThan card_mono distinct_card finite_lessThan)
  then have empty: "cr_results (content_end host objects net i pages w) = []"
    using content_run_receive [of host objects net i pages ?n ?r1] r by simp
  have "is_done (cr_tasks (content_end host objects net i pages w) ! p)" if "p < ?n" for p
  proof -
    have "task_left (cr_tasks ?r0 ! p) = task_bound"
      using that by (simp add: content_start_def task_bound_def)
    moreover have "count_list (hn_moves net @ last_moves ?n) (MoveTask p) \<ge> task_bound"
      using count_moves [OF that] by simp
    ultimately have "task_left (cr_tasks (content_end host objects net i pages w) ! p) = 0"
      using content_run_left [OF run_ok_start refl that, of host objects net i "hn_moves net @ last_moves ?n" w]
      by (simp add: content_end_def)
    then show ?thesis by (simp add: task_left_0)
  qed
  with ok_end empty show ?thesis by (simp add: all_received_def)
qed

section \<open>The result\<close>

lemma map_index: "map f xs = map (\<lambda>i. f (xs ! i)) [0..<length xs]"
  by (rule nth_equalityI) simp_all

definition task_pages :: "page_task list \<Rightarrow> Page list" where
  "task_pages ts = concat (map (\<lambda>t. case t of TaskDone (Inr page) \<Rightarrow> [page] | _ \<Rightarrow> []) ts)"

lemma content_result_ok:
  assumes "all_received n r" "content_result r = (ps, None)"
  shows "length ps = n \<and> (\<forall>p < n. cr_tasks r ! p = TaskDone (Inr (ps ! p)))"
proof -
  have none: "cr_firstErr r = None" and ps: "ps = cr_pages r"
    using assms(2) by (auto simp: content_result_def split: if_splits)
  have "received r p" if "p < n" for p using assms(1) that by (auto simp: all_received_def run_ok_def)
  with none ps assms(1) show ?thesis by (auto simp: received_def all_received_def run_ok_def)
qed

lemma content_result_error:
  assumes "all_received n r" "content_result r = (ps, Some e)"
  shows "ps = task_pages (cr_tasks r) \<and> (\<exists>p < n. cr_tasks r ! p = TaskDone (Inl e))"
proof -
  have err: "cr_firstErr r = Some e" and ps: "ps = map snd (filter fst (zip (cr_completed r) (cr_pages r)))"
    using assms(2) by (auto simp: content_result_def split: if_splits)
  have len: "length (cr_tasks r) = n" "length (cr_pages r) = n" "length (cr_completed r) = n"
    using assms(1) by (auto simp: all_received_def run_ok_def)
  have each: "(if cr_completed r ! p then [cr_pages r ! p] else [])
      = (case cr_tasks r ! p of TaskDone (Inr page) \<Rightarrow> [page] | _ \<Rightarrow> [])" if "p < n" for p
  proof -
    have "received r p" "cr_completed r ! p \<longrightarrow> cr_tasks r ! p = TaskDone (Inr (cr_pages r ! p))"
      using assms(1) that by (auto simp: all_received_def run_ok_def)
    then show ?thesis by (auto simp: received_def)
  qed
  have filter_concat: "map snd (filter fst xs) = concat (map (\<lambda>(b, x). if b then [x] else []) xs)"
    for xs :: "(bool \<times> Page) list"
    by (induction xs) auto
  have "ps = concat (map (\<lambda>p. if cr_completed r ! p then [cr_pages r ! p] else []) [0..<n])"
    unfolding ps filter_concat using len
    by (intro arg_cong [where f = concat] nth_equalityI) auto
  also have "map (\<lambda>p. if cr_completed r ! p then [cr_pages r ! p] else []) [0..<n]
      = map (\<lambda>t. case t of TaskDone (Inr page) \<Rightarrow> [page] | _ \<Rightarrow> []) (cr_tasks r)"
    unfolding map_index [of _ "cr_tasks r"] using len by (intro map_cong each) simp_all
  also have "concat \<dots> = task_pages (cr_tasks r)" by (simp add: task_pages_def)
  finally show ?thesis using err assms(1) by (auto simp: all_received_def run_ok_def)
qed

lemma content_result_all:
  "case content_result (content_end host objects net i pages w) of
      (ps, None) \<Rightarrow> length ps = length pages \<and>
        cr_tasks (content_end host objects net i pages w) = map (\<lambda>page. TaskDone (Inr page)) ps
    | (ps, Some e) \<Rightarrow> TaskDone (Inl e) \<in> set (cr_tasks (content_end host objects net i pages w)) \<and>
        ps = concat (map (\<lambda>t. case t of TaskDone (Inr page) \<Rightarrow> [page] | _ \<Rightarrow> [])
          (cr_tasks (content_end host objects net i pages w)))"
proof -
  let ?r = "content_end host objects net i pages w"
  obtain ps err where res: "content_result ?r = (ps, err)" by force
  have len: "length (cr_tasks ?r) = length pages"
    using content_end_received [of pages host objects net i w] by (simp add: all_received_def run_ok_def)
  show ?thesis
  proof (cases err)
    case None
    with content_result_ok [OF content_end_received, of host objects net i pages w ps] res len show ?thesis
      by (auto intro!: nth_equalityI)
  next
    case (Some e)
    with content_result_error [OF content_end_received, of host objects net i pages w ps e] res len show ?thesis
      by (auto simp: task_pages_def) (metis nth_mem)
  qed
qed

lemma ArchiveContent_length:
  assumes "Hitomi_ArchiveContent host net document w = ((ps, None), w')"
    and "DeserializeGalleryInfo (d_SourceMeta document) = Inr comic"
    and "ResolveComic (hn_meta net) (ho_ctx host w) (hn_unix_milli net) (hn_sort net) comic = Inr resolved"
  shows "length ps = length (co_Pages resolved)"
  using assms content_result_ok [OF content_end_received]
  by (fastforce simp: Hitomi_ArchiveContent_def Let_def split: option.splits)

section \<open>The pages and their objects\<close>

definition page_done :: "int \<Rightarrow> DownloadPage \<Rightarrow> Page \<Rightarrow> bool" where
  "page_done i page docPage \<longleftrightarrow>
     (\<exists>key size'. PageObjectKey (Itoa i) (dp_Hash page) (dp_ContentType page) = Inr key \<and>
        docPage = archived_page page key size')"

lemma PageObjectKey_not_empty: "PageObjectKey (Itoa i) hash ct = Inr key \<Longrightarrow> key \<noteq> ''''"
  by (auto simp: PageObjectKey_Itoa page_key_def)

lemma page_done_key: "page_done i page docPage \<Longrightarrow> pg_Key docPage \<noteq> ''''"
  using PageObjectKey_not_empty by (auto simp: page_done_def archived_page_def)

fun task_ok_page :: "int \<Rightarrow> DownloadPage \<Rightarrow> page_task \<Rightarrow> bool" where
  "task_ok_page i page (TaskFetching n key) =
     (PageObjectKey (Itoa i) (dp_Hash page) (dp_ContentType page) = Inr key)"
| "task_ok_page i page (TaskStoring n key buf) =
     (PageObjectKey (Itoa i) (dp_Hash page) (dp_ContentType page) = Inr key)"
| "task_ok_page i page (TaskRecording n docPage existed) = page_done i page docPage"
| "task_ok_page i page (TaskDone (Inr docPage)) = page_done i page docPage"
| "task_ok_page i page t = True"

lemma task_ok_result: "(\<And>docPage. res = Inr docPage \<Longrightarrow> page_done i page docPage) \<Longrightarrow>
    task_ok_page i page (task_result n res)"
  by (cases res) (simp_all add: task_result_def)

context page_host
begin

lemma recordPage_keeps:
  "pg_Key docPage \<noteq> '''' \<Longrightarrow> keeps w (snd (Hitomi_recordPage host c i docPage w))"
  using keeps_refl hook_keeps [of _ docPage w c i]
  by (auto simp: Hitomi_recordPage_def split: option.splits prod.splits sum.splits)

lemma task_step_keeps:
  assumes "ho_objects host = Some objects" "task_ok_page i page t"
  shows "task_ok_page i page (fst (task_step host objects net i c p page t w)) \<and>
    keeps w (snd (task_step host objects net i c p page t w))"
proof (cases t)
  case (TaskHeading n)
  then show ?thesis
    by (auto simp: head_page_def keeps_refl page_done_def split: sum.splits intro!: task_ok_result)
next
  case (TaskFetching n key)
  then show ?thesis
    using assms(2) by (auto simp: fetch_page_def keeps_refl split: sum.splits prod.splits intro!: task_ok_result)
next
  case (TaskStoring n key buf)
  let ?put = "os_PutObject objects (host_ctx host c w)
    \<lparr>oi_Key = key, oi_Size = int (length buf), oi_ContentType = dp_ContentType page, oi_ETag = dp_Hash page\<rparr>
    (Some (Inr buf)) w"
  have "keeps w (snd ?put)" using assms(1) by (rule Put_keeps)
  then show ?thesis
    using assms(2) TaskStoring
    by (cases ?put; cases "fst ?put") (auto simp: store_page_def page_done_def intro!: task_ok_result)
next
  case (TaskRecording n docPage existed)
  with assms(2) have done': "page_done i page docPage" by simp
  have "keeps w (snd (Hitomi_recordPage host c i docPage w))"
    by (rule recordPage_keeps) (rule page_done_key [OF done'])
  then show ?thesis
    using TaskRecording done'
    by (cases "Hitomi_recordPage host c i docPage w"; cases "fst (Hitomi_recordPage host c i docPage w)")
      (auto simp: record_page_def intro!: task_ok_result)
qed (use assms(2) in \<open>simp_all add: keeps_refl\<close>)

end

text \<open>What every goroutine of a run knows of its page.\<close>

definition tasks_ok :: "int \<Rightarrow> DownloadPage list \<Rightarrow> 'w content_run \<Rightarrow> bool" where
  "tasks_ok i pages r \<longleftrightarrow> (\<forall>p < length pages. task_ok_page i (pages ! p) (cr_tasks r ! p))"

lemma receive_result_sel [simp]:
  "cr_tasks (receive_result p r) = cr_tasks r" "cr_world (receive_result p r) = cr_world r"
  by (auto simp: receive_result_def split: page_task.splits sum.splits)

lemma put_task_sel [simp]:
  "cr_tasks (put_task p t r) = (cr_tasks r)[p := t]" "cr_world (put_task p t r) = cr_world r"
  by (simp_all add: put_task_def)

text \<open>
  What a move may do to the goroutines and the world: nothing, refuse a goroutine that waits, or make
  one of them do its next call.
\<close>

lemma content_step_cases:
  assumes "run_ok (length pages) r"
  obtains (same) "cr_tasks (content_step host objects net i pages m r) = cr_tasks r"
      "cr_world (content_step host objects net i pages m r) = cr_world r"
    | (refused) p e where "p < length pages"
      "cr_tasks (content_step host objects net i pages m r) = (cr_tasks r)[p := TaskDone (Inl e)]"
      "cr_world (content_step host objects net i pages m r) = cr_world r"
    | (called) p t w' where "p < length pages"
      "task_step host objects net i (cr_cancelled r) p (pages ! p) (cr_tasks r ! p) (cr_world r) = (t, w')"
      "cr_tasks (content_step host objects net i pages m r) = (cr_tasks r)[p := t]"
      "cr_world (content_step host objects net i pages m r) = w'"
proof (cases m)
  case (MoveTask p)
  show ?thesis
  proof (cases "p < length pages")
    case True
    obtain t w' where t: "task_step host objects net i (cr_cancelled r) p (pages ! p) (cr_tasks r ! p) (cr_world r) = (t, w')"
      by force
    with True MoveTask show ?thesis by (intro called [of p t w']) simp_all
  qed (use MoveTask same in simp)
next
  case (RefuseTask p)
  show ?thesis
  proof (cases "p < length pages")
    case True
    show ?thesis
    proof (cases "cr_tasks r ! p")
      case (TaskWaiting n)
      with True RefuseTask show ?thesis
        by (cases "host_ctx host (cr_cancelled r) (cr_world r) 0") (auto intro: same refused)
    qed (use True RefuseTask same in simp_all)
  qed (use RefuseTask same in simp)
next
  case ReceiveResult
  then show ?thesis by (intro same) (auto split: list.splits)
qed

context page_host
begin

lemma content_step_keeps:
  assumes "ho_objects host = Some objects" "run_ok (length pages) r" "tasks_ok i pages r"
  shows "tasks_ok i pages (content_step host objects net i pages m r) \<and>
    keeps (cr_world r) (cr_world (content_step host objects net i pages m r))"
  using assms(2)
proof (cases rule: content_step_cases [where host = host and objects = objects and net = net and i = i and m = m])
  case same
  then show ?thesis using assms(3) by (simp add: tasks_ok_def keeps_refl)
next
  case (refused p e)
  then show ?thesis using assms(2,3) by (auto simp: tasks_ok_def keeps_refl nth_list_update run_ok_def)
next
  case (called p t w')
  have "task_ok_page i (pages ! p) (cr_tasks r ! p)" using assms(3) called(1) by (simp add: tasks_ok_def)
  from task_step_keeps [OF assms(1) this, of net "cr_cancelled r" p "cr_world r"] called assms(2,3)
  show ?thesis by (auto simp: tasks_ok_def nth_list_update run_ok_def)
qed

lemma content_run_keeps:
  assumes "ho_objects host = Some objects" "run_ok (length pages) r" "tasks_ok i pages r"
  shows "tasks_ok i pages (content_run host objects net i pages moves r) \<and>
    keeps (cr_world r) (cr_world (content_run host objects net i pages moves r))"
  using assms(2,3)
proof (induction moves arbitrary: r)
  case (Cons m moves)
  let ?r = "content_step host objects net i pages m r"
  have ok: "run_ok (length pages) ?r" using Cons.prems(1) by (rule content_step_ok) simp
  have step: "tasks_ok i pages ?r" "keeps (cr_world r) (cr_world ?r)"
    using content_step_keeps [OF assms(1) Cons.prems] by auto
  from Cons.IH [OF ok step(1)] step(2) show ?case
    by (auto simp: content_run_def intro: keeps_trans)
qed (simp add: content_run_def keeps_refl)

lemma content_end_keeps:
  assumes "ho_objects host = Some objects"
  shows "tasks_ok i pages (content_end host objects net i pages w)"
    and "keeps w (cr_world (content_end host objects net i pages w))"
proof -
  have "tasks_ok i pages (content_start (length pages) w)" by (simp add: tasks_ok_def content_start_def)
  from content_run_keeps [OF assms run_ok_start this, of net]
  show "tasks_ok i pages (content_end host objects net i pages w)"
    and "keeps w (cr_world (content_end host objects net i pages w))"
    by (auto simp: content_end_def content_start_def)
qed

text \<open>Every action of the handler respects what its host keeps.\<close>

lemma ArchiveContent_keeps: "keeps w (snd (Hitomi_ArchiveContent host net document w))"
proof (cases "ho_objects host")
  case (Some objects)
  then show ?thesis
    using content_end_keeps(2) [OF Some]
    by (auto simp: Hitomi_ArchiveContent_def keeps_refl Let_def split: sum.splits)
qed (simp add: Hitomi_ArchiveContent_def keeps_refl)

lemma ArchiveManifest_keeps: "keeps w (snd (Hitomi_ArchiveManifest host document w))"
proof (cases "ho_objects host")
  case (Some objects)
  let ?put = "\<lambda>body. os_PutObject objects (ho_ctx host w)
    \<lparr>oi_Key = ManifestObjectKey (Itoa (d_ID document)), oi_Size = int (length body),
     oi_ContentType = ''application/json'', oi_ETag = ''''\<rparr> (Some (Inr body)) w"
  have "snd (Hitomi_ArchiveManifest host document w)
      = (case json_Document document of None \<Rightarrow> w | Some body \<Rightarrow> snd (?put body))"
    using Some by (auto simp: Hitomi_ArchiveManifest_def split: option.splits sum.splits prod.splits)
  then show ?thesis using Put_keeps [OF Some] by (auto simp: keeps_refl split: option.splits)
qed (simp add: Hitomi_ArchiveManifest_def keeps_refl)

lemma ResolveDocument_keeps: "keeps w (snd (Hitomi_ResolveDocument host net document w))"
  by (auto simp: Hitomi_ResolveDocument_def keeps_refl split: sum.splits)

end

section \<open>Success means stored and recorded\<close>

lemma task_result_Done:
  "task_result n res = TaskDone (Inr page) \<longleftrightarrow> res = Inr page"
  "task_result n res = TaskRecording m page b \<longleftrightarrow> False"
  by (auto simp: task_result_def split: sum.splits)

context page_store
begin

definition task_fact :: "int \<Rightarrow> page_task \<Rightarrow> 'w \<Rightarrow> bool" where
  "task_fact i t w \<longleftrightarrow>
     (\<forall>n page existed. t = TaskRecording n page existed \<longrightarrow> stored (pg_Key page) w) \<and>
     (\<forall>page. t = TaskDone (Inr page) \<longrightarrow> stored (pg_Key page) w \<and> recorded i page w)"

lemma task_fact_keeps: "good w \<Longrightarrow> task_fact i t w \<Longrightarrow> keeps w w' \<Longrightarrow> task_fact i t w'"
  unfolding task_fact_def using stored_keeps recorded_keeps by metis

lemma recordPage_recorded:
  assumes "good w" "pg_Key docPage \<noteq> ''''" "Hitomi_recordPage host c i docPage w = (Inr (), w')"
  shows "recorded i docPage w'"
proof -
  obtain hook where hook: "ho_hook host = Some hook" using has_hook by auto
  with assms(3) have "hook c i docPage w = (Inr (), w')"
    by (auto simp: Hitomi_recordPage_def split: prod.splits sum.splits)
  with hook_recorded [OF hook assms(1,2)] show ?thesis by simp
qed

lemma task_step_fact:
  assumes "ho_objects host = Some objects" "task_ok_page i page t" "good w" "task_fact i t w"
    and "task_step host objects net i c p page t w = (t', w')"
  shows "task_fact i t' w'"
proof (cases t)
  case (TaskHeading n)
  have stored_key: "stored key w" if "os_HeadObject objects (host_ctx host c w) key w = Inr info" for key info
    using Head_stored [OF assms(1) that] .
  show ?thesis
    using assms(5) TaskHeading stored_key
    by (auto simp: head_page_def task_fact_def task_result_Done archived_page_def split: sum.splits if_splits)
next
  case (TaskFetching n key)
  with assms(5) show ?thesis
    by (auto simp: fetch_page_def task_fact_def task_result_Done split: sum.splits prod.splits)
next
  case (TaskStoring n key buf)
  let ?info = "\<lparr>oi_Key = key, oi_Size = int (length buf), oi_ContentType = dp_ContentType page,
    oi_ETag = dp_Hash page\<rparr>"
  have "stored key w1" if "os_PutObject objects (host_ctx host c w) ?info (Some (Inr buf)) w = (Inr u, w1)" for u w1
    using Put_stored [OF assms(1) that] by simp
  with assms(5) TaskStoring show ?thesis
    by (auto simp: store_page_def task_fact_def task_result_Done archived_page_def split: sum.splits prod.splits)
next
  case (TaskRecording n docPage existed)
  with assms(2,4) have page: "pg_Key docPage \<noteq> ''''" "stored (pg_Key docPage) w"
    by (auto simp: task_fact_def dest: page_done_key)
  obtain r w1 where rec: "Hitomi_recordPage host c i docPage w = (r, w1)" by force
  have "keeps w w1" using recordPage_keeps [OF page(1), of w c i] rec by simp
  then have "stored (pg_Key docPage) w1" using page(2) stored_keeps by blast
  moreover have "recorded i docPage w1" if "r = Inr u" for u
    using recordPage_recorded [OF assms(3) page(1)] rec that by simp
  ultimately show ?thesis
    using assms(5) TaskRecording rec
    by (auto simp: record_page_def task_fact_def task_result_Done split: sum.splits)
qed (use assms(4,5) in \<open>auto simp: task_fact_def\<close>)

definition run_facts :: "int \<Rightarrow> 'w content_run \<Rightarrow> bool" where
  "run_facts i r \<longleftrightarrow> good (cr_world r) \<and> (\<forall>t \<in> set (cr_tasks r). task_fact i t (cr_world r))"

lemma content_step_facts:
  assumes "ho_objects host = Some objects" "run_ok (length pages) r" "tasks_ok i pages r" "run_facts i r"
  shows "run_facts i (content_step host objects net i pages m r)"
  using assms(2)
proof (cases rule: content_step_cases [where host = host and objects = objects and net = net and i = i and m = m])
  case same
  then show ?thesis using assms(4) by (simp add: run_facts_def)
next
  case (refused p e)
  have "task_fact i (TaskDone (Inl e)) w" for w by (simp add: task_fact_def)
  with refused assms(4) show ?thesis
    by (auto simp: run_facts_def dest!: set_update_subset_insert [THEN subsetD])
next
  case (called p t w')
  have g: "good (cr_world r)" using assms(4) by (simp add: run_facts_def)
  have page: "task_ok_page i (pages ! p) (cr_tasks r ! p)" using assms(3) called(1) by (simp add: tasks_ok_def)
  have "cr_tasks r ! p \<in> set (cr_tasks r)" using assms(2) called(1) by (simp add: run_ok_def)
  then have "task_fact i (cr_tasks r ! p) (cr_world r)" using assms(4) by (simp add: run_facts_def)
  from task_step_fact [OF assms(1) page g this called(2)] have new: "task_fact i t w'" .
  have keeps: "keeps (cr_world r) w'"
    using task_step_keeps [OF assms(1) page, of net "cr_cancelled r" p "cr_world r"] called(2) by simp
  have "task_fact i t' w'" if "t' \<in> set ((cr_tasks r)[p := t])" for t'
    using that new assms(4) task_fact_keeps [OF g _ keeps]
    by (auto simp: run_facts_def dest!: set_update_subset_insert [THEN subsetD])
  with called good_keeps [OF g keeps] show ?thesis by (simp add: run_facts_def)
qed

lemma content_run_facts:
  assumes "ho_objects host = Some objects" "run_ok (length pages) r" "tasks_ok i pages r" "run_facts i r"
  shows "run_facts i (content_run host objects net i pages moves r)"
  using assms(2-4)
proof (induction moves arbitrary: r)
  case (Cons m moves)
  let ?r = "content_step host objects net i pages m r"
  have "run_ok (length pages) ?r" using Cons.prems(1) by (rule content_step_ok) simp
  moreover have "tasks_ok i pages ?r" using content_step_keeps [OF assms(1) Cons.prems(1,2)] by simp
  moreover have "run_facts i ?r" by (rule content_step_facts [OF assms(1) Cons.prems])
  ultimately show ?case using Cons.IH by (simp add: content_run_def)
qed (simp add: content_run_def)

text \<open>
  When \<open>ArchiveContent\<close> succeeds, under any schedule, it returns one page for each page of the gallery, in
  their order; its object is stored and it is recorded.
\<close>

lemma content_end_success:
  assumes "ho_objects host = Some objects" "good w"
    and "content_result (content_end host objects net i pages w) = (ps, None)"
  shows "length ps = length pages \<and>
    (\<forall>p < length pages. page_done i (pages ! p) (ps ! p) \<and>
       stored (pg_Key (ps ! p)) (cr_world (content_end host objects net i pages w)) \<and>
       recorded i (ps ! p) (cr_world (content_end host objects net i pages w)))"
proof -
  let ?r = "content_end host objects net i pages w"
  have res: "length ps = length pages" "\<forall>p < length pages. cr_tasks ?r ! p = TaskDone (Inr (ps ! p))"
    using content_result_ok [OF content_end_received assms(3)] by auto
  have ok: "tasks_ok i pages ?r" by (rule content_end_keeps(1) [OF assms(1)])
  have "run_facts i (content_start (length pages) w)"
    using assms(2) by (auto simp: run_facts_def content_start_def task_fact_def)
  moreover have "tasks_ok i pages (content_start (length pages) w)"
    by (simp add: tasks_ok_def content_start_def)
  ultimately have facts: "run_facts i ?r"
    unfolding content_end_def by (intro content_run_facts assms(1) run_ok_start)
  have len: "length (cr_tasks ?r) = length pages"
    using content_end_received [of pages host objects net i w] by (simp add: all_received_def run_ok_def)
  show ?thesis
  proof (intro conjI allI impI)
    fix p assume p: "p < length pages"
    then have "cr_tasks ?r ! p \<in> set (cr_tasks ?r)" using len by simp
    then have "task_fact i (TaskDone (Inr (ps ! p))) (cr_world ?r)"
      using facts res(2) p by (auto simp: run_facts_def)
    then show "stored (pg_Key (ps ! p)) (cr_world ?r)" "recorded i (ps ! p) (cr_world ?r)"
      by (simp_all add: task_fact_def)
    have "task_ok_page i (pages ! p) (cr_tasks ?r ! p)" using ok p by (simp add: tasks_ok_def)
    then show "page_done i (pages ! p) (ps ! p)" using res(2) p by simp
  qed (rule res(1))
qed

lemma ArchiveContent_success:
  assumes "Hitomi_ArchiveContent host net document w = ((ps, None), w')" "good w"
  obtains comic resolved where "DeserializeGalleryInfo (d_SourceMeta document) = Inr comic"
    "ResolveComic (hn_meta net) (ho_ctx host w) (hn_unix_milli net) (hn_sort net) comic = Inr resolved"
    "length ps = length (co_Pages resolved)"
    "\<And>p. p < length ps \<Longrightarrow> page_done (d_ID document) (co_Pages resolved ! p) (ps ! p) \<and>
       stored (pg_Key (ps ! p)) w' \<and> recorded (d_ID document) (ps ! p) w'"
proof -
  from assms(1) obtain objects comic resolved where objs: "ho_objects host = Some objects"
    and meta: "DeserializeGalleryInfo (d_SourceMeta document) = Inr comic"
      "ResolveComic (hn_meta net) (ho_ctx host w) (hn_unix_milli net) (hn_sort net) comic = Inr resolved"
    and run: "content_result (content_end host objects net (d_ID document) (co_Pages resolved) w) = (ps, None)"
      "w' = cr_world (content_end host objects net (d_ID document) (co_Pages resolved) w)"
    by (auto simp: Hitomi_ArchiveContent_def Let_def split: option.splits sum.splits)
  from content_end_success [OF objs assms(2) run(1)] meta run(2) that show ?thesis by auto
qed

text \<open>
  Every file of the gallery is recorded at its place in the list of files, whatever order the
  pages were sorted in.
\<close>

lemma ArchiveContent_files:
  assumes run: "Hitomi_ArchiveContent host net document w = ((ps, None), w')" "good w"
    and sort: "\<And>pages. mset (hn_sort net pages) = mset pages"
    and comic: "DeserializeGalleryInfo (d_SourceMeta document) = Inr comic"
    and k: "k < length (rc_Files (co_Comic comic))"
  shows "\<exists>page. recorded (d_ID document) page w' \<and> stored (pg_Key page) w' \<and> pg_Index page = int k \<and>
    pg_Hash page = pi_Hash (rc_Files (co_Comic comic) ! k)"
proof -
  from run obtain resolved where res:
      "ResolveComic (hn_meta net) (ho_ctx host w) (hn_unix_milli net) (hn_sort net) comic = Inr resolved"
    and len: "length ps = length (co_Pages resolved)"
    and pages: "\<And>p. p < length ps \<Longrightarrow> page_done (d_ID document) (co_Pages resolved ! p) (ps ! p) \<and>
       stored (pg_Key (ps ! p)) w' \<and> recorded (d_ID document) (ps ! p) w'"
    using comic by (elim ArchiveContent_success) auto
  from res obtain gg decoded where dec: "DecodeDownloadPages (co_Comic comic) gg = Inr decoded"
    and sorted: "co_Pages resolved = hn_sort net decoded"
    by (auto simp: ResolveComic_def split: sum.splits)
  note file_k = DecodeDownloadPages_ok(2,3) [OF dec k]
  have "decoded ! k \<in> set (co_Pages resolved)"
    using sort [of decoded] DecodeDownloadPages_ok(1) [OF dec] k sorted
    by (metis nth_mem mset_eq_setD)
  then obtain p where p: "p < length ps" "co_Pages resolved ! p = decoded ! k"
    using len by (auto simp: in_set_conv_nth)
  with pages [OF p(1)] file_k show ?thesis
    by (intro exI [of _ "ps ! p"]) (auto simp: page_done_def archived_page_def)
qed

end

end
