(* ===== verification/MemStore.thy ===== *)
theory MemStore
  imports StoreSpec
begin

text \<open>
  \<open>MemoryStore\<close> of \<^verbatim>\<open>internal/documents/store.go\<close>: a slice of documents indexed by id.  Each
  method holds the mutex for its whole body, so it is one step on the state; it looks at the
  context on entry.  The methods are modelled statement by statement, and the end of the theory
  interprets the contract \<open>document_store\<close> on them.
\<close>

record MemoryStore =
  idMap :: "Document list"

definition NewMemoryStore :: MemoryStore where
  "NewMemoryStore = \<lparr>idMap = []\<rparr>"

section \<open>The methods\<close>

definition MemoryStore_Get :: "ctx \<Rightarrow> int \<Rightarrow> MemoryStore \<Rightarrow> go_error + Document" where
  "MemoryStore_Get ctx i s =
     (case ctx 0 of Some e \<Rightarrow> Inl (ErrExternal e) | None \<Rightarrow>
        if i < 0 \<or> i \<ge> int (length (idMap s)) then Inl ErrNotFound
        else (let d = idMap s ! nat i in
              if \<not> isVisibleDocumentStatus (d_status d) then Inl ErrNotFound else Inr d))"

definition addPageLocked ::
  "int \<Rightarrow> Page \<Rightarrow> utc_time \<Rightarrow> MemoryStore \<Rightarrow> (go_error + unit) \<times> MemoryStore" where
  "addPageLocked i page now s =
     (if pg_Index page < 0 then (Inl (ErrText (''invalid page index: '' @ Itoa (pg_Index page))), s)
      else
        (let document = idMap s ! nat i in
         if pg_Index page < int (length (d_Pages document))
            \<and> pageSlotExists (d_Pages document ! nat (pg_Index page)) (pg_Index page)
         then (Inl (ErrPageAlreadyExists i (pg_Index page)), s)
         else
           (let pages = growPages (d_Pages document) (nat (pg_Index page));
                document' = document\<lparr>d_Pages := pages[nat (pg_Index page) := page],
                                     d_Progress := progress_add (d_Progress document),
                                     d_UpdatedAt := now\<rparr>
            in (Inr (), s\<lparr>idMap := (idMap s)[nat i := document']\<rparr>))))"

definition removePageLocked ::
  "int \<Rightarrow> int \<Rightarrow> utc_time \<Rightarrow> MemoryStore \<Rightarrow> (go_error + unit) \<times> MemoryStore" where
  "removePageLocked i pageIndex now s =
     (let document = idMap s ! nat i in
      if pageIndex < 0 \<or> pageIndex \<ge> int (length (d_Pages document))
         \<or> \<not> pageSlotExists (d_Pages document ! nat pageIndex) pageIndex
      then (Inl ErrPageNotFound, s)
      else
        (let document' = document\<lparr>d_Pages := trimPages ((d_Pages document)[nat pageIndex := zero_Page]),
                                  d_Progress := progress_remove (d_Progress document),
                                  d_UpdatedAt := now\<rparr>
         in (Inr (), s\<lparr>idMap := (idMap s)[nat i := document']\<rparr>)))"

text \<open>The two loops of \<open>Create\<close> over the pages of the input: the check and the insertion.\<close>

fun check_page_indices :: "int \<Rightarrow> Page list \<Rightarrow> go_error option" where
  "check_page_indices index [] = None"
| "check_page_indices index (page # pages) =
     (if index \<noteq> pg_Index page
      then Some (ErrText (''page index mismatch: expected '' @ Itoa index @ '', got ''
                          @ Itoa (pg_Index page)))
      else if pg_Index page < 0
      then Some (ErrText (''invalid page index: '' @ Itoa (pg_Index page)))
      else check_page_indices (index + 1) pages)"

fun create_pages ::
  "int \<Rightarrow> Page list \<Rightarrow> int \<Rightarrow> utc_time \<Rightarrow> MemoryStore \<Rightarrow> (go_error + unit) \<times> MemoryStore" where
  "create_pages index [] i now s = (Inr (), s)"
| "create_pages index (page # pages) i now s =
     (case addPageLocked i page now s of
        (Inl e, s') \<Rightarrow> (Inl (NewIndexedError (Some e) index), s')
      | (Inr u, s') \<Rightarrow> create_pages (index + 1) pages i now s')"

definition MemoryStore_Create ::
  "ctx \<Rightarrow> utc_time \<Rightarrow> Document \<Rightarrow> MemoryStore
     \<Rightarrow> (go_error \<times> Document + Document) \<times> MemoryStore" where
  "MemoryStore_Create ctx now document s =
     (case ctx 0 of Some e \<Rightarrow> (Inl (ErrExternal e, zero_Document), s) | None \<Rightarrow>
        (case find (\<lambda>d. d_Source d = d_Source document
                        \<and> d_SourceDocumentID d = d_SourceDocumentID document) (idMap s) of
           Some d \<Rightarrow> (Inl (ErrAlreadyExists, d), s)
         | None \<Rightarrow>
             (let pages = d_Pages document;
                  document1 = document\<lparr>d_Pages := [],
                                       d_Progress := (d_Progress document)\<lparr>pr_Done := 0\<rparr>\<rparr>
              in case check_page_indices 0 pages of
                   Some e \<Rightarrow> (Inl (e, zero_Document), s)
                 | None \<Rightarrow>
                     (let i = int (length (idMap s));
                          document2 = document1\<lparr>d_ID := i, d_CreatedAt := now, d_UpdatedAt := now,
                                                d_status := StatusQueued\<rparr>
                      in case create_pages 0 pages i now (s\<lparr>idMap := idMap s @ [document2]\<rparr>) of
                           (Inl e, s') \<Rightarrow> (Inl (e, zero_Document), s')
                         | (Inr u, s') \<Rightarrow> (Inr (idMap s' ! nat i), s')))))"

definition MemoryStore_Delete ::
  "ctx \<Rightarrow> utc_time \<Rightarrow> int \<Rightarrow> MemoryStore \<Rightarrow> (go_error + Document) \<times> MemoryStore" where
  "MemoryStore_Delete ctx now i s =
     (case ctx 0 of Some e \<Rightarrow> (Inl (ErrExternal e), s) | None \<Rightarrow>
        if i < 0 \<or> i \<ge> int (length (idMap s)) then (Inl ErrNotFound, s)
        else
          (let document = idMap s ! nat i in
           if \<not> isVisibleDocumentStatus (d_status document) then (Inl ErrNotFound, s)
           else if \<not> canTransitionDocumentStatus (d_status document) StatusDeleted
           then (Inl (ErrText (''invalid document status transition: ''
                               @ status_string (d_status document) @ '' -> ''
                               @ status_string StatusDeleted)), s)
           else (let document' = document\<lparr>d_status := StatusDeleted, d_UpdatedAt := now\<rparr>
                 in (Inr document', s\<lparr>idMap := (idMap s)[nat i := document']\<rparr>))))"

definition MemoryStore_Query :: "ctx \<Rightarrow> DocumentQuery \<Rightarrow> MemoryStore \<Rightarrow> go_error + Document list" where
  "MemoryStore_Query ctx query s =
     (case ctx 0 of Some e \<Rightarrow> Inl (ErrExternal e) | None \<Rightarrow>
        if (\<exists>document \<in> set (idMap s). matches_status query document
              \<and> q_source query = Some (d_Source document) \<and> q_sourceDocumentID query = None)
        then Inl (GoPanic ''invalid memory address or nil pointer dereference'')
        else
          (let result = filter (\<lambda>document. matches_status query document
                                           \<and> matches_source query document) (idMap s)
           in Inr (query_window query (SliceStable (query_less query) result))))"

definition MemoryStore_UpdateMeta ::
  "ctx \<Rightarrow> utc_time \<Rightarrow> int \<Rightarrow> meta_fn option \<Rightarrow> MemoryStore
     \<Rightarrow> (go_error + Document) \<times> MemoryStore" where
  "MemoryStore_UpdateMeta ctx now i fn s =
     (case ctx 0 of Some e \<Rightarrow> (Inl (ErrExternal e), s) | None \<Rightarrow>
        (case fn of None \<Rightarrow> (Inl (ErrText ''document update callback is required''), s) | Some f \<Rightarrow>
           if i < 0 \<or> i \<ge> int (length (idMap s)) then (Inl ErrNotFound, s)
           else
             (let document = idMap s ! nat i in
              if \<not> isVisibleDocumentStatus (d_status document) then (Inl ErrNotFound, s)
              else (case f (extractDocumentMeta document) of
                      Inl e \<Rightarrow> (Inl e, s)
                    | Inr meta \<Rightarrow>
                        (let document' = (fillDocumentMeta document meta)\<lparr>d_UpdatedAt := now\<rparr>
                         in (Inr document', s\<lparr>idMap := (idMap s)[nat i := document']\<rparr>))))))"

definition MemoryStore_TransitionTo ::
  "ctx \<Rightarrow> utc_time \<Rightarrow> int \<Rightarrow> DocumentStatus \<Rightarrow> MemoryStore \<Rightarrow> (go_error + unit) \<times> MemoryStore" where
  "MemoryStore_TransitionTo ctx now i newStatus s =
     (case ctx 0 of Some e \<Rightarrow> (Inl (ErrExternal e), s) | None \<Rightarrow>
        if i < 0 \<or> i \<ge> int (length (idMap s)) then (Inl ErrNotFound, s)
        else
          (let document = idMap s ! nat i in
           if \<not> canTransitionDocumentStatus (d_status document) newStatus
           then (Inl (ErrText (''invalid document status transition: ''
                               @ status_string (d_status document) @ '' -> ''
                               @ status_string newStatus)), s)
           else
             (case (if newStatus = StatusPurged then validatePurgedDocumentState document else None) of
                Some e \<Rightarrow> (Inl e, s)
              | None \<Rightarrow>
                  (let document' = document\<lparr>d_status := newStatus, d_UpdatedAt := now\<rparr>
                   in (Inr (), s\<lparr>idMap := (idMap s)[nat i := document']\<rparr>)))))"

definition MemoryStore_Purge ::
  "ctx \<Rightarrow> utc_time \<Rightarrow> int \<Rightarrow> MemoryStore \<Rightarrow> (go_error + int) \<times> MemoryStore" where
  "MemoryStore_Purge ctx now i s =
     (case ctx 0 of Some e \<Rightarrow> (Inl (ErrExternal e), s) | None \<Rightarrow>
        if i < 0 \<or> i \<ge> int (length (idMap s)) then (Inl ErrNotFound, s)
        else
          (let document = idMap s ! nat i in
           if \<not> canTransitionDocumentStatus (d_status document) StatusPurged
           then (Inl (ErrText (''invalid document status transition: ''
                               @ status_string (d_status document) @ '' -> ''
                               @ status_string StatusPurged)), s)
           else
             (let pageCount = countExistingPages (d_Pages document);
                  document' = document\<lparr>d_Pages := [], d_Progress := \<lparr>pr_Done = 0, pr_Total = 0\<rparr>,
                                       d_status := StatusPurged, d_UpdatedAt := now\<rparr>
              in (Inr pageCount, s\<lparr>idMap := (idMap s)[nat i := document']\<rparr>))))"

definition MemoryStore_Restore ::
  "ctx \<Rightarrow> utc_time \<Rightarrow> int \<Rightarrow> MemoryStore \<Rightarrow> (go_error + Document) \<times> MemoryStore" where
  "MemoryStore_Restore ctx now i s =
     (case ctx 0 of Some e \<Rightarrow> (Inl (ErrExternal e), s) | None \<Rightarrow>
        if i < 0 \<or> i \<ge> int (length (idMap s)) then (Inl ErrNotFound, s)
        else
          (let document = idMap s ! nat i in
           if d_status document = StatusDeleted \<or> d_status document = StatusPurged
           then (let document' = document\<lparr>d_status := StatusQueued, d_UpdatedAt := now\<rparr>
                 in (Inr document', s\<lparr>idMap := (idMap s)[nat i := document']\<rparr>))
           else (Inl (ErrInvalidStatusTransition (d_status document) StatusQueued), s)))"

definition MemoryStore_ResetPages ::
  "ctx \<Rightarrow> utc_time \<Rightarrow> int \<Rightarrow> MemoryStore \<Rightarrow> (go_error + Document) \<times> MemoryStore" where
  "MemoryStore_ResetPages ctx now i s =
     (case ctx 0 of Some e \<Rightarrow> (Inl (ErrExternal e), s) | None \<Rightarrow>
        if i < 0 \<or> i \<ge> int (length (idMap s)) then (Inl ErrNotFound, s)
        else
          (let document = idMap s ! nat i in
           if \<not> isVisibleDocumentStatus (d_status document) then (Inl ErrNotFound, s)
           else (let document' = document\<lparr>d_Pages := [],
                                          d_Progress := (d_Progress document)\<lparr>pr_Done := 0\<rparr>,
                                          d_UpdatedAt := now\<rparr>
                 in (Inr document', s\<lparr>idMap := (idMap s)[nat i := document']\<rparr>))))"

definition MemoryStore_AddPage ::
  "ctx \<Rightarrow> utc_time \<Rightarrow> int \<Rightarrow> Page \<Rightarrow> MemoryStore \<Rightarrow> (go_error + unit) \<times> MemoryStore" where
  "MemoryStore_AddPage ctx now i page s =
     (case ctx 0 of Some e \<Rightarrow> (Inl (ErrExternal e), s) | None \<Rightarrow>
        if i < 0 \<or> i \<ge> int (length (idMap s)) then (Inl ErrNotFound, s)
        else if \<not> isVisibleDocumentStatus (d_status (idMap s ! nat i)) then (Inl ErrNotFound, s)
        else addPageLocked i page now s)"

definition MemoryStore_RemovePage ::
  "ctx \<Rightarrow> utc_time \<Rightarrow> int \<Rightarrow> int \<Rightarrow> MemoryStore \<Rightarrow> (go_error + unit) \<times> MemoryStore" where
  "MemoryStore_RemovePage ctx now i pageIndex s =
     (case ctx 0 of Some e \<Rightarrow> (Inl (ErrExternal e), s) | None \<Rightarrow>
        if i < 0 \<or> i \<ge> int (length (idMap s)) then (Inl ErrPageNotFound, s)
        else if \<not> isVisibleDocumentStatus (d_status (idMap s ! nat i)) then (Inl ErrNotFound, s)
        else removePageLocked i pageIndex now s)"

text \<open>\<open>MemoryStore\<close> as a value of the interface type \<open>Store\<close>.\<close>

definition memory_store :: "MemoryStore Store" where
  "memory_store =
     \<lparr>st_Create = MemoryStore_Create, st_Get = MemoryStore_Get, st_Delete = MemoryStore_Delete,
      st_Purge = MemoryStore_Purge, st_Restore = MemoryStore_Restore,
      st_ResetPages = MemoryStore_ResetPages, st_UpdateMeta = MemoryStore_UpdateMeta,
      st_TransitionTo = MemoryStore_TransitionTo, st_AddPage = MemoryStore_AddPage,
      st_RemovePage = MemoryStore_RemovePage, st_Query = MemoryStore_Query\<rparr>"

section \<open>The contract\<close>

definition mem_view :: "MemoryStore \<Rightarrow> docmap" where
  "mem_view s i = (if in_range i (idMap s) then Some (idMap s ! nat i) else None)"

definition mem_invar :: "MemoryStore \<Rightarrow> bool" where
  "mem_invar s \<longleftrightarrow> store_wf (mem_view s)"

lemma out_of_range: "(i < 0 \<or> i \<ge> int (length xs)) \<longleftrightarrow> \<not> in_range i xs"
  by (auto simp: in_range_def)

lemma mem_view_update:
  "in_range i (idMap s) \<Longrightarrow> mem_view (s\<lparr>idMap := (idMap s)[nat i := d]\<rparr>) = (mem_view s)(i \<mapsto> d)"
  by (auto simp: fun_eq_iff mem_view_def in_range_def nth_list_update nat_eq_iff2)

lemma mem_view_append:
  "mem_view (s\<lparr>idMap := idMap s @ [d]\<rparr>) = (mem_view s)(int (length (idMap s)) \<mapsto> d)"
  by (auto simp: fun_eq_iff mem_view_def in_range_def nth_append nat_less_iff)

text \<open>
  Every method but \<open>Create\<close> and \<open>Query\<close> has one shape: the context, the bounds check, and a
  document transformer at the index.
\<close>

lemma mem_implementsI:
  assumes ok: "doc_op_ok f"
    and step: "\<And>s. conc s =
      (case ctx 0 of Some e \<Rightarrow> (Inl (ErrExternal e), s) | None \<Rightarrow>
         if \<not> in_range i (idMap s) then (Inl (out s), s)
         else (case f (idMap s ! nat i) of
                 None \<Rightarrow> (Inl (bad s), s)
               | Some (r, d') \<Rightarrow> (Inr r, s\<lparr>idMap := (idMap s)[nat i := d']\<rparr>)))"
  shows "implements mem_invar mem_view ctx conc f i"
proof -
  have "case conc s of
          (Inr r, s') \<Rightarrow> mem_invar s' \<and> upd_doc f i (mem_view s) = Some (r, mem_view s')
        | (Inl e, s') \<Rightarrow> mem_invar s' \<and> mem_view s' = mem_view s
            \<and> (live ctx \<longrightarrow> upd_doc f i (mem_view s) = None)" if inv: "mem_invar s" for s
  proof (cases "ctx 0 = None \<and> in_range i (idMap s)")
    case True
    show ?thesis
    proof (cases "f (idMap s ! nat i)")
      case None
      with True inv show ?thesis by (auto simp: step upd_doc_def mem_view_def)
    next
      case (Some p)
      obtain r d' where p: "p = (r, d')" by (cases p)
      let ?s = "s\<lparr>idMap := (idMap s)[nat i := d']\<rparr>"
      have upd: "upd_doc f i (mem_view s) = Some (r, mem_view ?s)"
        unfolding upd_doc_Some using True Some p
        by (auto simp: mem_view_update) (simp add: mem_view_def)
      then have "mem_invar ?s"
        using inv ok unfolding mem_invar_def by (blast intro: store_wf_upd)
      with upd True Some p show ?thesis by (simp add: step)
    qed
  next
    case False
    with inv show ?thesis
      by (auto simp: liveD step upd_doc_def mem_view_def split: option.splits)
  qed
  then show ?thesis unfolding implements_def by blast
qed

lemma visible_canDelete: "isVisibleDocumentStatus st \<Longrightarrow> canTransitionDocumentStatus st StatusDeleted"
  by (simp add: status_simps)

lemma mem_Delete:
  "valid_time now \<Longrightarrow>
   implements mem_invar mem_view ctx (MemoryStore_Delete ctx now i) (delete_doc now) i"
  by (rule mem_implementsI [where out = "\<lambda>_. ErrNotFound" and bad = "\<lambda>_. ErrNotFound"],
      rule delete_doc_ok, assumption)
    (simp add: MemoryStore_Delete_def delete_doc_def out_of_range visible_canDelete Let_def
      split: option.splits)

lemma mem_Restore:
  "valid_time now \<Longrightarrow>
   implements mem_invar mem_view ctx (MemoryStore_Restore ctx now i) (restore_doc now) i"
  by (rule mem_implementsI [where out = "\<lambda>_. ErrNotFound"
        and bad = "\<lambda>s. ErrInvalidStatusTransition (d_status (idMap s ! nat i)) StatusQueued"],
      rule restore_doc_ok, assumption)
    (simp add: MemoryStore_Restore_def restore_doc_def out_of_range Let_def split: option.splits)

lemma mem_ResetPages:
  "valid_time now \<Longrightarrow>
   implements mem_invar mem_view ctx (MemoryStore_ResetPages ctx now i) (resetPages_doc now) i"
  by (rule mem_implementsI [where out = "\<lambda>_. ErrNotFound" and bad = "\<lambda>_. ErrNotFound"],
      rule resetPages_doc_ok, assumption)
    (simp add: MemoryStore_ResetPages_def resetPages_doc_def out_of_range Let_def
      split: option.splits)

lemma mem_Purge:
  "valid_time now \<Longrightarrow>
   implements mem_invar mem_view ctx (MemoryStore_Purge ctx now i) (purge_doc now) i"
  by (rule mem_implementsI [where out = "\<lambda>_. ErrNotFound"
        and bad = "\<lambda>s. ErrText (''invalid document status transition: ''
          @ status_string (d_status (idMap s ! nat i)) @ '' -> '' @ status_string StatusPurged)"],
      rule purge_doc_ok, assumption)
    (simp add: MemoryStore_Purge_def purge_doc_def out_of_range status_simps Let_def
      split: option.splits)

lemma mem_UpdateMeta:
  "valid_time now \<Longrightarrow> meta_frame fn \<Longrightarrow>
   implements mem_invar mem_view ctx (MemoryStore_UpdateMeta ctx now i (Some fn))
     (updateMeta_doc fn now) i"
  by (rule mem_implementsI [where out = "\<lambda>_. ErrNotFound"
        and bad = "\<lambda>s. (if isVisibleDocumentStatus (d_status (idMap s ! nat i))
          then projl (fn (extractDocumentMeta (idMap s ! nat i))) else ErrNotFound)"],
      rule updateMeta_doc_ok, assumption, assumption)
    (simp add: MemoryStore_UpdateMeta_def updateMeta_doc_def out_of_range Let_def
      split: option.splits sum.splits)

lemma mem_TransitionTo:
  "valid_time now \<Longrightarrow>
   implements mem_invar mem_view ctx (MemoryStore_TransitionTo ctx now i newStatus)
     (transition_doc newStatus now) i"
  by (rule mem_implementsI [where out = "\<lambda>_. ErrNotFound"
        and bad = "\<lambda>s. (if canTransitionDocumentStatus (d_status (idMap s ! nat i)) newStatus
          then the (validatePurgedDocumentState (idMap s ! nat i))
          else ErrText (''invalid document status transition: ''
            @ status_string (d_status (idMap s ! nat i)) @ '' -> '' @ status_string newStatus))"],
      rule transition_doc_ok, assumption)
    (auto simp: MemoryStore_TransitionTo_def transition_doc_def out_of_range Let_def
      split: option.splits)

lemma mem_AddPage:
  "valid_time now \<Longrightarrow> pg_Key page \<noteq> '''' \<Longrightarrow>
   implements mem_invar mem_view ctx (MemoryStore_AddPage ctx now i page) (addPage_doc page now) i"
  by (rule mem_implementsI [where out = "\<lambda>_. ErrNotFound"
        and bad = "\<lambda>s. (if \<not> isVisibleDocumentStatus (d_status (idMap s ! nat i)) then ErrNotFound
          else if pg_Index page < 0
          then ErrText (''invalid page index: '' @ Itoa (pg_Index page))
          else ErrPageAlreadyExists i (pg_Index page))"],
      rule addPage_doc_ok, assumption, assumption)
    (auto simp: MemoryStore_AddPage_def addPageLocked_def addPage_doc_def out_of_range Let_def
      slot_taken_def in_range_def split: option.splits)

lemma mem_RemovePage:
  "valid_time now \<Longrightarrow>
   implements mem_invar mem_view ctx (MemoryStore_RemovePage ctx now i index)
     (removePage_doc index now) i"
  by (rule mem_implementsI [where out = "\<lambda>_. ErrPageNotFound"
        and bad = "\<lambda>s. (if \<not> isVisibleDocumentStatus (d_status (idMap s ! nat i)) then ErrNotFound
          else ErrPageNotFound)"],
      rule removePage_doc_ok, assumption)
    (auto simp: MemoryStore_RemovePage_def removePageLocked_def removePage_doc_def in_range_def
      Let_def slot_taken_def split: option.splits)

lemma mem_Get:
  "case MemoryStore_Get ctx i s of
     Inr d \<Rightarrow> mem_view s i = Some d \<and> isVisibleDocumentStatus (d_status d)
   | Inl e \<Rightarrow> live ctx \<longrightarrow> e = ErrNotFound \<and>
       (\<forall>d. mem_view s i = Some d \<longrightarrow> \<not> isVisibleDocumentStatus (d_status d))"
  by (auto simp: liveD MemoryStore_Get_def mem_view_def out_of_range Let_def split: option.splits)

lemma mem_wf_nth:
  "mem_invar s \<Longrightarrow> k < length (idMap s) \<Longrightarrow> doc_wf (int k) (idMap s ! k)"
  using store_wfD [of "mem_view s" "int k"] by (simp add: mem_invar_def mem_view_def)

lemma dom_mem_view: "dom (mem_view s) = {0..<int (length (idMap s))}"
  by (auto simp: mem_view_def in_range_def split: if_splits)

lemma docs_list_mem: "docs_list (mem_view s) = idMap s"
proof -
  have "set (map int [0..<length (idMap s)]) = dom (mem_view s)"
    by (simp add: dom_mem_view image_int_atLeastLessThan)
  moreover have "sorted (map int [0..<length (idMap s)])"
    by (simp add: sorted_iff_nth_mono)
  moreover have "distinct (map int [0..<length (idMap s)])" by (simp add: distinct_map)
  ultimately have "sorted_list_of_set (dom (mem_view s)) = map int [0..<length (idMap s)]"
    by (metis sorted_list_of_set.idem_if_sorted_distinct)
  then show ?thesis
    by (auto simp: docs_list_def mem_view_def intro: nth_equalityI)
qed

lemma mem_Query_run:
  "ctx 0 = None \<Longrightarrow> built q \<Longrightarrow> MemoryStore_Query ctx q s = Inr (run_query q (idMap s))"
  by (auto simp: MemoryStore_Query_def run_query_def built_def)

lemma mem_Query:
  assumes "mem_invar s" "built q"
  shows "case MemoryStore_Query ctx q s of
     Inr ds \<Rightarrow>
       (\<forall>d \<in> set ds. mem_view s (d_ID d) = Some d \<and> matches_status q d \<and> matches_source q d) \<and>
       (q_orderBy q = ''id'' \<longrightarrow> ds = run_query q (docs_list (mem_view s)))
   | Inl e \<Rightarrow> \<not> live ctx"
proof (cases "ctx 0")
  case None
  have "mem_view s (d_ID d) = Some d" if "d \<in> set (idMap s)" for d
    using that mem_wf_nth [OF assms(1)]
    by (auto simp: in_set_conv_nth doc_wf_def mem_view_def)
  then show ?thesis
    using mem_Query_run [of ctx, OF None assms(2), of s] by (auto simp: docs_list_mem dest: set_run_query)
next
  case (Some e)
  then show ?thesis by (auto simp: MemoryStore_Query_def liveD)
qed

subsection \<open>Create\<close>

lemma check_page_indices_None:
  "check_page_indices k pages = None \<longleftrightarrow>
     (\<forall>n < length pages. pg_Index (pages ! n) = k + int n \<and> 0 \<le> k + int n)"
proof (induction k pages rule: check_page_indices.induct)
  case (2 k page pages)
  then show ?case by (auto simp: less_Suc_eq_0_disj algebra_simps)
qed simp

lemma d_UpdatedAt_same:
  "d_UpdatedAt d = now \<Longrightarrow>
   d\<lparr>d_Pages := p, d_Progress := q, d_UpdatedAt := now\<rparr> = d\<lparr>d_Pages := p, d_Progress := q\<rparr>"
  by (cases d) simp

text \<open>
  The pages of the input are appended one by one to the new document.  None of these
  insertions can fail: the slot after the last one is always free.
\<close>

lemma create_pages_ok:
  assumes "n < length (idMap s)"
    and "\<forall>m < length pages. pg_Index (pages ! m) = int (length (d_Pages (idMap s ! n))) + int m"
    and "d_UpdatedAt (idMap s ! n) = now"
  shows "create_pages k pages (int n) now s
    = (Inr (), s\<lparr>idMap := (idMap s)[n := (idMap s ! n)\<lparr>d_Pages := d_Pages (idMap s ! n) @ pages,
         d_Progress := (progress_add ^^ length pages) (d_Progress (idMap s ! n))\<rparr>]\<rparr>)"
  using assms
proof (induction pages arbitrary: k s)
  case Nil
  then show ?case by simp
next
  case (Cons page pages)
  let ?d = "idMap s ! n" and ?l = "length (d_Pages (idMap s ! n))"
  have idx: "pg_Index page = int ?l" using Cons.prems(2) by (auto dest: spec [of _ 0])
  let ?d1 = "?d\<lparr>d_Pages := d_Pages ?d @ [page], d_Progress := progress_add (d_Progress ?d)\<rparr>"
  let ?s1 = "s\<lparr>idMap := (idMap s)[n := ?d1]\<rparr>"
  have grow: "(growPages (d_Pages ?d) ?l)[?l := page] = d_Pages ?d @ [page]"
    by (simp add: growPages_def list_update_append)
  have "addPageLocked (int n) page now s = (Inr (), ?s1)"
    using idx Cons.prems(3) by (simp add: addPageLocked_def grow Let_def d_UpdatedAt_same)
  moreover have "create_pages (k + 1) pages (int n) now ?s1
    = (Inr (), ?s1\<lparr>idMap := (idMap ?s1)[n := (idMap ?s1 ! n)\<lparr>d_Pages := d_Pages (idMap ?s1 ! n) @ pages,
         d_Progress := (progress_add ^^ length pages) (d_Progress (idMap ?s1 ! n))\<rparr>]\<rparr>)"
    using Cons.prems by (intro Cons.IH) (auto dest: spec [of _ "Suc _"])
  ultimately show ?case using Cons.prems(1) by (simp add: funpow_swap1)
qed

lemma mem_Create_ok:
  assumes "ctx 0 = None" "\<forall>d \<in> set (idMap s). identity d \<noteq> identity document"
    and "check_page_indices 0 (d_Pages document) = None"
  shows "MemoryStore_Create ctx now document s =
    (let d = created_doc (int (length (idMap s))) now document
     in (Inr d, s\<lparr>idMap := idMap s @ [d]\<rparr>))"
proof -
  have "find (\<lambda>d. d_Source d = d_Source document
      \<and> d_SourceDocumentID d = d_SourceDocumentID document) (idMap s) = None"
    using assms(2) by (auto simp: find_None_iff identity_def)
  moreover have "\<forall>m < length (d_Pages document). pg_Index (d_Pages document ! m) = int m"
    using assms(3) by (simp add: check_page_indices_None)
  ultimately show ?thesis
    using assms(1,3)
    by (simp add: MemoryStore_Create_def Let_def create_pages_ok created_doc_def
        progress_add_funpow nth_append)
qed

lemma mem_Create:
  assumes inv: "mem_invar s" and now: "valid_time now" and inp: "pages_input (d_Pages document)"
  shows "case MemoryStore_Create ctx now document s of
     (Inr d, s') \<Rightarrow>
       mem_invar s' \<and> mem_view s (d_ID d) = None \<and> d = created_doc (d_ID d) now document \<and>
       mem_view s' = (mem_view s)(d_ID d \<mapsto> d) \<and>
       (\<forall>j e. mem_view s j = Some e \<longrightarrow> identity e \<noteq> identity document)
   | (Inl (e, d0), s') \<Rightarrow>
       mem_invar s' \<and> mem_view s' = mem_view s \<and>
       (live ctx \<longrightarrow> e = ErrAlreadyExists \<and>
          (\<exists>j. mem_view s j = Some d0 \<and> identity d0 = identity document))"
proof (cases "ctx 0")
  case (Some e)
  then show ?thesis using inv by (auto simp: liveD MemoryStore_Create_def)
next
  case None
  show ?thesis
  proof (cases "find (\<lambda>d. d_Source d = d_Source document
      \<and> d_SourceDocumentID d = d_SourceDocumentID document) (idMap s)")
    case (Some d)
    then obtain k where "k < length (idMap s)" "d = idMap s ! k" "identity d = identity document"
      by (auto simp: find_Some_iff identity_def)
    then have "mem_view s (int k) = Some d" "identity d = identity document"
      by (simp_all add: mem_view_def)
    with Some None inv show ?thesis by (auto simp: MemoryStore_Create_def)
  next
    case new: None
    let ?i = "int (length (idMap s))"
    let ?d = "created_doc ?i now document"
    have fresh: "\<forall>d \<in> set (idMap s). identity d \<noteq> identity document"
      using new by (auto simp: find_None_iff identity_def)
    have idx: "check_page_indices 0 (d_Pages document) = None"
      using inp by (simp add: check_page_indices_None pages_input_def)
    have all: "\<forall>j e. mem_view s j = Some e \<longrightarrow> identity e \<noteq> identity document"
      using fresh by (auto simp: mem_view_def in_range_nat)
    have free: "mem_view s ?i = None" by (simp add: mem_view_def)
    have "store_wf ((mem_view s)(?i \<mapsto> ?d))"
      using inv free now inp all by (intro store_wf_create) (simp_all add: mem_invar_def)
    then have "mem_invar (s\<lparr>idMap := idMap s @ [?d]\<rparr>)"
      by (simp add: mem_invar_def mem_view_append)
    moreover have "d_ID ?d = ?i" by (simp add: created_doc_def)
    ultimately show ?thesis
      using mem_Create_ok [of ctx, OF None fresh idx, of now] free all
      by (simp add: Let_def mem_view_append)
  qed
qed

lemma mem_invar_new: "mem_invar NewMemoryStore"
  by (auto simp: mem_invar_def store_wf_def dom_mem_view NewMemoryStore_def mem_view_def in_range_def)

interpretation mem: document_store memory_store mem_view mem_invar
  by unfold_locales
    (simp_all add: memory_store_def mem_Create mem_Get mem_Delete mem_Purge mem_Restore
      mem_ResetPages mem_UpdateMeta mem_TransitionTo mem_AddPage mem_RemovePage mem_Query,
     simp add: mem_invar_def)

end
