(* ===== verification/HostStore.thy ===== *)
theory HostStore
  imports SourceHost MemStore
begin

text \<open>
  The host of a handler over a document store and an object storage that obey their contracts is a
  \<open>page_store\<close>: in a world where nobody else acts, a page that the hook took stays in its slot of the
  document while the handler works, and the status of every document stays what it is.
\<close>

definition slots_kept :: "docmap \<Rightarrow> docmap \<Rightarrow> bool" where
  "slots_kept m m' \<longleftrightarrow>
     (\<forall>i d. m i = Some d \<longrightarrow>
        (\<exists>d'. m' i = Some d' \<and> d_status d' = d_status d \<and>
          (\<forall>index. slot_taken (d_Pages d) index \<longrightarrow>
             slot_taken (d_Pages d') index \<and> d_Pages d' ! nat index = d_Pages d ! nat index)))"

lemma slots_kept_refl [simp]: "slots_kept m m"
  by (simp add: slots_kept_def)

lemma slots_kept_trans: "slots_kept m1 m2 \<Longrightarrow> slots_kept m2 m3 \<Longrightarrow> slots_kept m1 m3"
  unfolding slots_kept_def by (metis (no_types, lifting))

definition in_slot :: "docmap \<Rightarrow> int \<Rightarrow> Page \<Rightarrow> bool" where
  "in_slot m i page \<longleftrightarrow>
     (\<exists>d. m i = Some d \<and> slot_taken (d_Pages d) (pg_Index page) \<and>
        d_Pages d ! nat (pg_Index page) = page)"

lemma in_slot_kept: "in_slot m i page \<Longrightarrow> slots_kept m m' \<Longrightarrow> in_slot m' i page"
  by (fastforce simp: in_slot_def slots_kept_def)

lemma addPage_doc_slots:
  assumes "addPage_doc page now d = Some (u, d')" "pg_Key page \<noteq> ''''" "m i = Some d"
  shows "slots_kept m (m(i \<mapsto> d'))" and "in_slot (m(i \<mapsto> d')) i page"
proof -
  let ?n = "nat (pg_Index page)"
  from assms(1) have idx: "0 \<le> pg_Index page" and free: "\<not> slot_taken (d_Pages d) (pg_Index page)"
    and d': "d_Pages d' = (growPages (d_Pages d) ?n)[?n := page]" "d_status d' = d_status d"
    by (auto simp: addPage_doc_def split: if_splits)
  have keep: "slot_taken (d_Pages d') index \<and> d_Pages d' ! nat index = d_Pages d ! nat index"
    if "slot_taken (d_Pages d) index" for index
  proof -
    have "index \<noteq> pg_Index page" "0 \<le> index" "nat index < length (d_Pages d)"
      using that free by (auto simp: slot_taken_def in_range_def)
    then have "nat index \<noteq> ?n" using idx by (simp add: eq_nat_nat_iff)
    then show ?thesis
      using that \<open>nat index < length (d_Pages d)\<close>
      by (auto simp: d' slot_taken_def in_range_def nth_growPages)
  qed
  show "slots_kept m (m(i \<mapsto> d'))"
    using assms(3) keep d'(2) by (auto simp: slots_kept_def)
  have "d_Pages d' ! ?n = page" "in_range (pg_Index page) (d_Pages d')"
    using idx by (auto simp: d' in_range_def)
  with assms(2) show "in_slot (m(i \<mapsto> d')) i page"
    by (simp add: in_slot_def slot_taken_def pageSlotExists_def)
qed

section \<open>The relation\<close>

definition quiet_world ::
  "('s \<Rightarrow> bool) \<Rightarrow> 's Store \<Rightarrow> ('s, 'o) App \<Rightarrow> 's env \<Rightarrow> ('s, 'o) world \<Rightarrow> bool" where
  "quiet_world invar S a E w \<longleftrightarrow>
     env_ok invar E \<and> quiet E \<and> ap_documents a = S \<and> invar (wd_docs w)"

definition content_kept ::
  "('o \<Rightarrow> string \<Rightarrow> string option) \<Rightarrow> ('s \<Rightarrow> bool) \<Rightarrow> ('s \<Rightarrow> docmap) \<Rightarrow> 's Store \<Rightarrow> ('s, 'o) App \<Rightarrow> 's env
     \<Rightarrow> ('s, 'o) world \<Rightarrow> ('s, 'o) world \<Rightarrow> bool" where
  "content_kept contents invar view S a E w w' \<longleftrightarrow>
     objects_kept contents w w' \<and>
     (quiet_world invar S a E w \<longrightarrow>
        quiet_world invar S a E w' \<and> slots_kept (view (wd_docs w)) (view (wd_docs w')))"

context document_store
begin

lemma onPageDownloaded_slots:
  assumes "quiet_world invar S a E w" "pg_Key page \<noteq> ''''" "onPageDownloaded a E i page w = (r, w')"
  shows "quiet_world invar S a E w' \<and> slots_kept (view (wd_docs w)) (view (wd_docs w')) \<and>
    (is_ok r \<longrightarrow> in_slot (view (wd_docs w')) i page)"
proof -
  have E: "env_ok invar E" and q: "quiet E" and S: "ap_documents a = S" and inv: "invar (wd_docs w)"
    using assms(1) by (auto simp: quiet_world_def)
  have now: "valid_time (e_now E n)" for n using E by (simp add: env_ok_def)
  from quiet_call [where conc = "\<lambda>ctx now. st_AddPage S ctx now i page"
      and f = "addPage_doc page (e_now E (wd_calls w))" and i = i, OF q inv AddPage_law [OF now assms(2)]] assms(3)
  consider u where "r = Inr u" "invar (wd_docs w')"
      "upd_doc (addPage_doc page (e_now E (wd_calls w))) i (view (wd_docs w)) = Some (u, view (wd_docs w'))"
    | e where "r = Inl e" "invar (wd_docs w')" "view (wd_docs w') = view (wd_docs w)"
    unfolding onPageDownloaded_def S by auto
  then show ?thesis
  proof cases
    case 1
    then obtain d d' where d: "view (wd_docs w) i = Some d"
      "addPage_doc page (e_now E (wd_calls w)) d = Some (u, d')" "view (wd_docs w') = (view (wd_docs w))(i \<mapsto> d')"
      by (auto simp: upd_doc_Some)
    from addPage_doc_slots [where m = "view (wd_docs w)" and i = i, OF d(2) assms(2) d(1)] 1 d(3) E q S
    show ?thesis by (simp add: quiet_world_def)
  next
    case 2
    with E q S show ?thesis by (simp add: quiet_world_def)
  qed
qed

lemma app_page_store:
  assumes "growing_object_store Obj contents legal_key"
  shows "page_store (app_host a E name Obj) (content_kept contents invar view S a E)
    (quiet_world invar S a E) (\<lambda>key w. contents (wd_objs w name) key \<noteq> None)
    (\<lambda>i page w. in_slot (view (wd_docs w)) i page)"
proof -
  have objs: "page_host (app_host a E name Obj) (objects_kept contents)"
    by (rule growing_object_store.app_host_objects [OF assms])
  have obj: "object_store Obj contents legal_key"
    using assms by (simp add: growing_object_store_def)
  have in_world: "object_store (store_at name Obj) (\<lambda>w. contents (wd_objs w name)) legal_key"
    by (rule object_store.store_at_laws [OF obj])
  have hook: "quiet_world invar S a E w' \<and> slots_kept (view (wd_docs w)) (view (wd_docs w')) \<and>
      (is_ok r \<longrightarrow> in_slot (view (wd_docs w')) i page) \<and> objects_kept contents w w'"
    if "ho_hook (app_host a E name Obj) = Some hook" "hook cancelled i page w = (r, w')"
      "quiet_world invar S a E w" "pg_Key page \<noteq> ''''"
    for hook cancelled i page and w w' r
  proof -
    let ?E = "if cancelled then E\<lparr>e_ctx := \<lambda>n. canceled\<rparr> else E"
    have same: "quiet_world invar S a ?E = quiet_world invar S a E"
      by (auto simp: quiet_world_def env_ok_def quiet_def fun_eq_iff)
    have run: "onPageDownloaded a ?E i page w = (r, w')" using that(1,2) by auto
    have "wd_objs w' = wd_objs w" using onPageDownloaded_objs [of a ?E i page w] run by simp
    then show ?thesis
      using onPageDownloaded_slots [of a ?E w page i r w'] run that(3,4)
      by (simp add: same objects_kept_def)
  qed
  show ?thesis
  proof
    fix w w' w''
    show "content_kept contents invar view S a E w w" by (simp add: content_kept_def objects_kept_def)
    show "content_kept contents invar view S a E w w''"
      if "content_kept contents invar view S a E w w'" "content_kept contents invar view S a E w' w''"
      using that unfolding content_kept_def objects_kept_def by (metis slots_kept_trans)
    show "content_kept contents invar view S a E w (snd (os_PutObject Obj' ctx info body w))"
      if "ho_objects (app_host a E name Obj) = Some Obj'" for Obj' ctx info body
      using page_host.Put_keeps [OF objs that] that
      by (auto simp: content_kept_def quiet_world_def)
    show "content_kept contents invar view S a E w (snd (hook cancelled i page w))"
      if "ho_hook (app_host a E name Obj) = Some hook" "pg_Key page \<noteq> ''''" for hook cancelled i page
      using page_host.hook_keeps [OF objs that]
        hook [OF that(1), of cancelled i page w "fst (hook cancelled i page w)" "snd (hook cancelled i page w)"] that(2)
      by (auto simp: content_kept_def)
    show "quiet_world invar S a E w'"
      if "quiet_world invar S a E w" "content_kept contents invar view S a E w w'"
      using that by (simp add: content_kept_def)
    show "contents (wd_objs w name) key \<noteq> None"
      if "ho_objects (app_host a E name Obj) = Some Obj'" "os_HeadObject Obj' ctx key w = Inr info" for Obj' ctx key info
      using object_store.Head_law [OF obj, of ctx key "wd_objs w name"] that by (auto simp: store_at_sel)
    show "contents (wd_objs w' name) (oi_Key info) \<noteq> None"
      if "ho_objects (app_host a E name Obj) = Some Obj'"
        "os_PutObject Obj' ctx info (Some (Inr content)) w = (Inr info', w')" for Obj' ctx info content info'
      using object_store.Put_law [OF in_world, of ctx info content w] that by auto
    show "contents (wd_objs w' name) key \<noteq> None"
      if "contents (wd_objs w name) key \<noteq> None" "content_kept contents invar view S a E w w'" for key
      using that by (auto simp: content_kept_def objects_kept_def)
    show "in_slot (view (wd_docs w')) i page"
      if "ho_hook (app_host a E name Obj) = Some hook" "quiet_world invar S a E w" "pg_Key page \<noteq> ''''"
        "hook cancelled i page w = (Inr (), w')" for hook cancelled i page
      using hook [OF that(1,4,2,3)] by simp
    show "in_slot (view (wd_docs w')) i page"
      if "quiet_world invar S a E w" "in_slot (view (wd_docs w)) i page"
        "content_kept contents invar view S a E w w'" for i page
      using that by (auto simp: content_kept_def intro: in_slot_kept)
  qed simp
qed

end

text \<open>The two relations on the memory store and the memory storage.\<close>

interpretation mem_frame: page_host "app_host a E name st" "frame_kept mem_invar mem_view memory_store a E"
  by (rule document_store.app_host_frame [OF mem.document_store_axioms])

interpretation mem_pages: page_store "app_host a E name (memory_objects n now)"
  "content_kept memory_contents mem_invar mem_view memory_store a E" "quiet_world mem_invar memory_store a E"
  "\<lambda>key w. memory_contents (wd_objs w name) key \<noteq> None" "\<lambda>i page w. in_slot (mem_view (wd_docs w)) i page"
  by (rule document_store.app_page_store [OF mem.document_store_axioms memobj.growing_object_store_axioms])

end
