(* ===== verification/HitomiLive.thy ===== *)
theory HitomiLive
  imports HitomiProofs HostStore
begin

text \<open>
  \<open>ArchiveContent\<close> does archive a gallery: on a host whose storage and page hook work and a network that
  answers the first request for each page, every schedule ends without an error.  \<open>reliable_host\<close> says
  what that takes of the host; it is interpreted for the memory store and the memory storage of the
  application.
\<close>

section \<open>A host on which nothing fails\<close>

text \<open>
  \<open>free j w\<close>: the document takes a page at index \<open>j\<close>; \<open>tagged key h w\<close>: an object at \<open>key\<close>, if there is
  one, has the tag of the hash \<open>h\<close>.
\<close>

locale reliable_host =
  fixes host :: "'w source_host" and objects :: "'w ObjectStore" and i :: int
    and ready :: "'w \<Rightarrow> bool" and free :: "int \<Rightarrow> 'w \<Rightarrow> bool" and tagged :: "string \<Rightarrow> string \<Rightarrow> 'w \<Rightarrow> bool"
  assumes host_objects: "ho_objects host = Some objects"
    and host_live: "ready w \<Longrightarrow> live (ho_ctx host w)"
    and Head_ok: "ready w \<Longrightarrow> tagged key h w \<Longrightarrow> PageObjectKey (Itoa i) h ct = Inr key \<Longrightarrow>
      (\<exists>e. os_HeadObject objects (ho_ctx host w) key w = Inl e \<and> errors_Is e ErrObjectNotFound) \<or>
      (\<exists>info. os_HeadObject objects (ho_ctx host w) key w = Inr info \<and> oi_ETag info \<in> {'''', h})"
    and Put_ok: "ready w \<Longrightarrow> PageObjectKey (Itoa i) h ct = Inr key \<Longrightarrow>
      \<exists>info w'. os_PutObject objects (ho_ctx host w)
          \<lparr>oi_Key = key, oi_Size = int (length buf), oi_ContentType = ct, oi_ETag = h\<rparr> (Some (Inr buf)) w
          = (Inr info, w') \<and>
        ready w' \<and> (\<forall>j. free j w \<longrightarrow> free j w') \<and>
        (\<forall>key' h'. tagged key' h' w \<and> (key' = key \<longrightarrow> h' = h) \<longrightarrow> tagged key' h' w')"
    and hook_ok: "ready w \<Longrightarrow> free (pg_Index page) w \<Longrightarrow> pg_Key page \<noteq> '''' \<Longrightarrow>
      \<exists>hook w'. ho_hook host = Some hook \<and> hook False i page w = (Inr (), w') \<and> ready w' \<and>
        (\<forall>j. free j w \<and> j \<noteq> pg_Index page \<longrightarrow> free j w') \<and>
        (\<forall>key h. tagged key h w \<longrightarrow> tagged key h w')"

section \<open>Every goroutine succeeds\<close>

text \<open>
  The pages of a gallery that can be archived together: every hash makes a key, equal keys come from
  equal hashes, and no two pages share an index.
\<close>

definition gallery_ok :: "int \<Rightarrow> DownloadPage list \<Rightarrow> bool" where
  "gallery_ok i pages \<longleftrightarrow>
     distinct (map dp_Index pages) \<and>
     (\<forall>page \<in> set pages. hash_ok (TrimSpace (dp_Hash page))) \<and>
     (\<forall>page \<in> set pages. \<forall>page' \<in> set pages.
        TrimSpace (dp_Hash page) = TrimSpace (dp_Hash page') \<longrightarrow> dp_Hash page = dp_Hash page')"

definition network_answers :: "hitomi_net \<Rightarrow> DownloadPage list \<Rightarrow> bool" where
  "network_answers net pages \<longleftrightarrow>
     (\<forall>p < length pages. hc_url_error (hn_page net p 1) (dp_URL (pages ! p)) = None \<and>
        (\<exists>body. answered (hn_page net p 1) (page_request (pages ! p)) body 0))"

definition object_key :: "int \<Rightarrow> DownloadPage \<Rightarrow> string" where
  "object_key i page = page_key i (TrimSpace (dp_Hash page)) (dp_ContentType page)"

lemma gallery_object_key:
  "gallery_ok i pages \<Longrightarrow> p < length pages \<Longrightarrow>
   PageObjectKey (Itoa i) (dp_Hash (pages ! p)) (dp_ContentType (pages ! p)) = Inr (object_key i (pages ! p))"
  by (simp add: PageObjectKey_Itoa gallery_ok_def object_key_def)

lemma gallery_same_key:
  "gallery_ok i pages \<Longrightarrow> p < length pages \<Longrightarrow> q < length pages \<Longrightarrow>
   object_key i (pages ! p) = object_key i (pages ! q) \<Longrightarrow> dp_Hash (pages ! p) = dp_Hash (pages ! q)"
  by (auto simp: gallery_ok_def object_key_def dest!: page_key_inject)

lemma Download_answered:
  assumes "live ctx" "hc_url_error cl (dp_URL page) = None" "answered cl (page_request page) body 0"
  shows "Resolver_DownloadPage cl ctx now page [] = (Inr (), body)"
proof -
  from assms(3) obtain resp where resp: "hc_Do cl 0 (page_request page) = Inr resp" "rs_ReadError resp = None"
    "rs_Body resp = body" "200 \<le> rs_StatusCode resp" "rs_StatusCode resp < 300"
    by (auto simp: answered_def ok_status_def split: sum.splits)
  have "DownloadPage_loop cl ctx now page (Suc n) 0 None [] = (Inr (), body)" for n
    using resp assms(1,2)
    by (simp add: live_def page_request_def StatusNotFound_def StatusTooManyRequests_def
        StatusServiceUnavailable_def)
  from this [of 4] show ?thesis by (simp add: Resolver_DownloadPage_def)
qed

fun task_well :: "int \<Rightarrow> DownloadPage \<Rightarrow> page_task \<Rightarrow> bool" where
  "task_well i page (TaskWaiting n) = (n = 1)"
| "task_well i page (TaskHeading n) = (n = 1)"
| "task_well i page (TaskFetching n key) = (n = 1 \<and> key = object_key i page)"
| "task_well i page (TaskStoring n key buf) = (n = 1 \<and> key = object_key i page)"
| "task_well i page (TaskRecording n docPage existed) =
     (n = 1 \<and> (\<exists>size'. docPage = archived_page page (object_key i page) size'))"
| "task_well i page (TaskDone r) = is_ok r"

context reliable_host
begin

definition page_well :: "DownloadPage \<Rightarrow> page_task \<Rightarrow> 'w \<Rightarrow> bool" where
  "page_well page t w \<longleftrightarrow>
     task_well i page t \<and> (is_done t \<or> free (dp_Index page) w) \<and> tagged (object_key i page) (dp_Hash page) w"

definition run_well :: "DownloadPage list \<Rightarrow> 'w content_run \<Rightarrow> bool" where
  "run_well pages r \<longleftrightarrow>
     cr_firstErr r = None \<and> ready (cr_world r) \<and>
     (\<forall>p < length pages. page_well (pages ! p) (cr_tasks r ! p) (cr_world r))"

lemma object_key_not_empty: "object_key i page \<noteq> ''''"
  by (simp add: object_key_def page_key_def)

text \<open>The next call of a goroutine succeeds and leaves the others what they need.\<close>

lemma task_step_well:
  assumes ok: "gallery_ok i pages" and net: "network_answers net pages"
    and p: "p < length pages" and ready: "ready w" and well: "page_well (pages ! p) t w"
    and step: "task_step host objects net i False p (pages ! p) t w = (t', w')"
  shows "ready w' \<and> page_well (pages ! p) t' w' \<and>
    (\<forall>q < length pages. \<forall>u. q \<noteq> p \<longrightarrow> page_well (pages ! q) u w \<longrightarrow> page_well (pages ! q) u w')"
proof -
  let ?page = "pages ! p" and ?key = "object_key i (pages ! p)"
  note key = gallery_object_key [OF ok p]
  have ctx: "host_ctx host False w = ho_ctx host w" by (simp add: host_ctx_def)
  have index: "dp_Index (pages ! q) \<noteq> dp_Index ?page" if "q < length pages" "q \<noteq> p" for q
    using ok p that by (auto simp: gallery_ok_def distinct_conv_nth)
  show ?thesis
  proof (cases t)
    case (TaskHeading n)
    have "tagged ?key (dp_Hash ?page) w" using well by (simp add: page_well_def)
    from Head_ok [OF ready this key] TaskHeading step well ready key ctx show ?thesis
      by (auto simp: head_page_def page_well_def is_done_def)
  next
    case (TaskFetching n key')
    from net p obtain body where "hc_url_error (hn_page net p 1) (dp_URL ?page) = None"
      "answered (hn_page net p 1) (page_request ?page) body 0"
      by (auto simp: network_answers_def)
    with Download_answered [OF host_live [OF ready] this, of "hn_now net p n"] TaskFetching step well ready ctx
    show ?thesis by (auto simp: fetch_page_def page_well_def is_done_def)
  next
    case (TaskStoring n key' buf)
    from Put_ok [OF ready key, of buf] obtain info w1 where put:
      "os_PutObject objects (ho_ctx host w) \<lparr>oi_Key = ?key, oi_Size = int (length buf),
         oi_ContentType = dp_ContentType ?page, oi_ETag = dp_Hash ?page\<rparr> (Some (Inr buf)) w = (Inr info, w1)"
      and after: "ready w1" "\<And>j. free j w \<Longrightarrow> free j w1"
        "\<And>key' h'. tagged key' h' w \<Longrightarrow> key' = ?key \<Longrightarrow> h' = dp_Hash ?page \<Longrightarrow> tagged key' h' w1"
        "\<And>key' h'. tagged key' h' w \<Longrightarrow> key' \<noteq> ?key \<Longrightarrow> tagged key' h' w1"
      by blast
    have "tagged (object_key i (pages ! q)) (dp_Hash (pages ! q)) w1"
      if "q < length pages" "tagged (object_key i (pages ! q)) (dp_Hash (pages ! q)) w" for q
      using after(3,4) gallery_same_key [OF ok that(1) p] that(2) by blast
    then show ?thesis
      using TaskStoring step well put after(1,2) p ctx
      by (auto simp: store_page_def page_well_def is_done_def)
  next
    case (TaskRecording n docPage existed)
    then obtain size' where docPage: "docPage = archived_page ?page ?key size'" and n: "n = 1"
      using well by (auto simp: page_well_def)
    then have "free (pg_Index docPage) w" "pg_Key docPage \<noteq> ''''"
      using well TaskRecording by (simp_all add: page_well_def is_done_def archived_page_def object_key_not_empty)
    from hook_ok [OF ready this] obtain hook w1 where "ho_hook host = Some hook"
      "hook False i docPage w = (Inr (), w1)" and after: "ready w1"
      "\<And>j. free j w \<Longrightarrow> j \<noteq> dp_Index ?page \<Longrightarrow> free j w1" "\<And>key h. tagged key h w \<Longrightarrow> tagged key h w1"
      by (auto simp: docPage archived_page_def)
    then have "record_page host i False n docPage existed w = (TaskDone (Inr docPage), w1)"
      by (simp add: record_page_def Hitomi_recordPage_def task_result_def)
    then show ?thesis
      using TaskRecording step well after index by (auto simp: page_well_def is_done_def)
  qed (use step well ready in \<open>auto simp: page_well_def is_done_def\<close>)
qed

lemma content_step_well:
  assumes "gallery_ok i pages" "network_answers net pages" "run_ok (length pages) r" "run_well pages r"
  shows "run_well pages (content_step host objects net i pages m r)"
proof (cases m)
  case (MoveTask p)
  have len: "length (cr_tasks r) = length pages" using assms(3) by (simp add: run_ok_def)
  show ?thesis
  proof (cases "p < length pages")
    case True
    obtain t w' where t: "task_step host objects net i False p (pages ! p) (cr_tasks r ! p) (cr_world r) = (t, w')"
      by force
    from assms(4) have well: "ready (cr_world r)" "cr_firstErr r = None"
      and each: "\<And>q. q < length pages \<Longrightarrow> page_well (pages ! q) (cr_tasks r ! q) (cr_world r)"
      by (auto simp: run_well_def)
    from task_step_well [OF assms(1,2) True well(1) each [OF True] t] each t True MoveTask well(2) len
    show ?thesis by (auto simp: run_well_def cr_cancelled_def put_task_def nth_list_update)
  qed (use MoveTask assms(4) in simp)
next
  case (RefuseTask p)
  have "host_ctx host (cr_cancelled r) (cr_world r) 0 = None"
    using assms(4) host_live [of "cr_world r"] by (auto simp: run_well_def cr_cancelled_def host_ctx_def live_def)
  with RefuseTask assms(4) show ?thesis by (simp split: page_task.splits)
next
  case ReceiveResult
  have "is_ok res" if "cr_tasks r ! p = TaskDone res" "p < length pages" for p res
    using assms(4) that by (auto simp: run_well_def page_well_def dest!: spec [of _ p])
  then have "cr_firstErr (receive_result p (r\<lparr>cr_results := ps\<rparr>)) = None" if "cr_results r = p # ps" for p ps
    using that assms(3,4) by (fastforce simp: receive_result_def run_ok_def run_well_def split: page_task.splits sum.splits)
  with ReceiveResult assms(4) show ?thesis by (auto simp: run_well_def split: list.splits)
qed

lemma content_run_well:
  assumes "gallery_ok i pages" "network_answers net pages" "run_ok (length pages) r" "run_well pages r"
  shows "run_well pages (content_run host objects net i pages moves r)"
  using assms(3,4)
proof (induction moves arbitrary: r)
  case (Cons m moves)
  have "run_ok (length pages) (content_step host objects net i pages m r)"
    using Cons.prems(1) by (rule content_step_ok) simp
  from Cons.IH [OF this content_step_well [OF assms(1,2) Cons.prems]] show ?case
    by (simp add: content_run_def)
qed (simp add: content_run_def)

lemma content_end_well:
  assumes "gallery_ok i pages" "network_answers net pages" "ready w"
    and "\<And>page. page \<in> set pages \<Longrightarrow> free (dp_Index page) w \<and> tagged (object_key i page) (dp_Hash page) w"
  shows "cr_firstErr (content_end host objects net i pages w) = None"
proof -
  have "run_well pages (content_start (length pages) w)"
    using assms(3,4) by (auto simp: run_well_def content_start_def page_well_def)
  from content_run_well [OF assms(1,2) run_ok_start this] show ?thesis
    by (simp add: content_end_def run_well_def)
qed

lemma ArchiveContent_succeeds:
  assumes "DeserializeGalleryInfo (d_SourceMeta document) = Inr comic" "d_ID document = i"
    and "ResolveComic (hn_meta net) (ho_ctx host w) (hn_unix_milli net) (hn_sort net) comic = Inr resolved"
    and "gallery_ok i (co_Pages resolved)" "network_answers net (co_Pages resolved)" "ready w"
    and "\<And>page. page \<in> set (co_Pages resolved) \<Longrightarrow>
      free (dp_Index page) w \<and> tagged (object_key i page) (dp_Hash page) w"
  shows "\<exists>ps w'. Hitomi_ArchiveContent host net document w = ((ps, None), w')"
  using content_end_well [OF assms(4-7)] assms(1-3) host_objects
  by (auto simp: Hitomi_ArchiveContent_def Let_def content_result_def)

end


section \<open>The host of the application\<close>

text \<open>A store that gives an object the tag it was put with, unless that tag is empty.\<close>

locale tagging_object_store = object_store Obj contents legal_key
  for Obj :: "'o ObjectStore" and contents legal_key +
  fixes tag :: "'o \<Rightarrow> string \<Rightarrow> string option"
  assumes Head_tag: "os_HeadObject Obj ctx key s = Inr info \<Longrightarrow> tag s key = Some (oi_ETag info)"
    and Put_tag: "os_PutObject Obj ctx info body s = (Inr info', s') \<Longrightarrow> oi_ETag info \<noteq> '''' \<Longrightarrow>
      tag s' = (tag s)(oi_Key info \<mapsto> oi_ETag info)"

definition tagged_at :: "('o \<Rightarrow> string \<Rightarrow> string option) \<Rightarrow> string \<Rightarrow> string \<Rightarrow> string \<Rightarrow> ('s, 'o) world \<Rightarrow> bool" where
  "tagged_at tag name key h w \<longleftrightarrow> tag (wd_objs w name) key \<in> {None, Some '''', Some h}"

definition slot_free :: "('s \<Rightarrow> docmap) \<Rightarrow> int \<Rightarrow> int \<Rightarrow> ('s, 'o) world \<Rightarrow> bool" where
  "slot_free view i index w \<longleftrightarrow>
     (\<exists>d. view (wd_docs w) i = Some d \<and> isVisibleDocumentStatus (d_status d) \<and> 0 \<le> index \<and>
        \<not> slot_taken (d_Pages d) index)"

lemma addPage_doc_free:
  assumes "addPage_doc page now d = Some (u, d')" "\<not> slot_taken (d_Pages d) index" "index \<noteq> pg_Index page" "0 \<le> index"
  shows "\<not> slot_taken (d_Pages d') index"
proof -
  from assms(1) have "d_Pages d' = (growPages (d_Pages d) (nat (pg_Index page)))[nat (pg_Index page) := page]" "0 \<le> pg_Index page"
    by (auto simp: addPage_doc_def split: if_splits)
  with assms(2-4) show ?thesis
    by (auto simp: slot_taken_def in_range_def nth_growPages nth_list_update eq_nat_nat_iff pageSlotExists_def
        growPages_def nth_append zero_Page_def split: if_splits)
qed

context document_store
begin

lemma onPageDownloaded_free:
  assumes "quiet_world invar S a E w" "online E" "slot_free view i (pg_Index page) w" "pg_Key page \<noteq> ''''"
  shows "\<exists>w'. onPageDownloaded a E i page w = (Inr (), w') \<and> quiet_world invar S a E w' \<and>
    (\<forall>j. slot_free view i j w \<and> j \<noteq> pg_Index page \<longrightarrow> slot_free view i j w') \<and> wd_objs w' = wd_objs w"
proof -
  have E: "env_ok invar E" and q: "quiet E" and S: "ap_documents a = S" and inv: "invar (wd_docs w)"
    using assms(1) by (auto simp: quiet_world_def)
  have now: "valid_time (e_now E n)" for n using E by (simp add: env_ok_def)
  from assms(3) obtain d where d: "view (wd_docs w) i = Some d" "isVisibleDocumentStatus (d_status d)"
    "0 \<le> pg_Index page" "\<not> slot_taken (d_Pages d) (pg_Index page)"
    by (auto simp: slot_free_def)
  then obtain d' where d': "addPage_doc page (e_now E (wd_calls w)) d = Some ((), d')" "d_status d' = d_status d"
    by (simp add: addPage_doc_def)
  then have upd: "upd_doc (addPage_doc page (e_now E (wd_calls w))) i (view (wd_docs w))
      = Some ((), (view (wd_docs w))(i \<mapsto> d'))"
    using d(1) by (simp add: upd_doc_def)
  from quiet_call [where conc = "\<lambda>ctx now. st_AddPage S ctx now i page"
      and f = "addPage_doc page (e_now E (wd_calls w))" and i = i, OF q inv AddPage_law [OF now assms(4)]] upd assms(2)
  obtain w' where run: "onPageDownloaded a E i page w = (Inr (), w')" "invar (wd_docs w')"
    "view (wd_docs w') = (view (wd_docs w))(i \<mapsto> d')" "wd_objs w' = wd_objs w"
    unfolding onPageDownloaded_def S by auto
  moreover have "slot_free view i j w'" if "slot_free view i j w" "j \<noteq> pg_Index page" for j
    using that addPage_doc_free [OF d'(1) _ that(2)] d d'(2) run(3) by (auto simp: slot_free_def)
  ultimately show ?thesis using E q S by (intro exI [of _ w']) (simp add: quiet_world_def)
qed

lemma app_reliable_host:
  assumes store: "tagging_object_store Obj contents legal_key tag" and "online E"
    and legal: "\<And>h ct key. PageObjectKey (Itoa i) h ct = Inr key \<Longrightarrow> legal_key key"
  shows "reliable_host (app_host a E name Obj) (store_at name Obj) i (quiet_world invar S a E)
    (slot_free view i) (tagged_at tag name)"
proof
  have obj: "object_store Obj contents legal_key" using store by (simp add: tagging_object_store_def)
  have live: "live (ho_ctx (app_host a E name Obj) w)" for w using assms(2) by (simp add: online_def)
  fix w
  show "live (ho_ctx (app_host a E name Obj) w)" by (rule live)
  show "(\<exists>e. os_HeadObject (store_at name Obj) (ho_ctx (app_host a E name Obj) w) key w = Inl e \<and>
        errors_Is e ErrObjectNotFound) \<or>
      (\<exists>info. os_HeadObject (store_at name Obj) (ho_ctx (app_host a E name Obj) w) key w = Inr info \<and>
        oi_ETag info \<in> {'''', h})"
    if "tagged_at tag name key h w" "PageObjectKey (Itoa i) h ct = Inr key" for key h ct
    using object_store.Head_law [OF obj, of "ho_ctx (app_host a E name Obj) w" key "wd_objs w name"]
      tagging_object_store.Head_tag [OF store, of "ho_ctx (app_host a E name Obj) w" key "wd_objs w name"]
      live [of w] legal [OF that(2)] that(1)
    by (cases "os_HeadObject Obj (ho_ctx (app_host a E name Obj) w) key (wd_objs w name)")
      (auto simp: store_at_sel tagged_at_def)
  show "\<exists>info w'. os_PutObject (store_at name Obj) (ho_ctx (app_host a E name Obj) w)
        \<lparr>oi_Key = key, oi_Size = int (length buf), oi_ContentType = ct, oi_ETag = h\<rparr> (Some (Inr buf)) w
        = (Inr info, w') \<and> quiet_world invar S a E w' \<and> (\<forall>j. slot_free view i j w \<longrightarrow> slot_free view i j w') \<and>
      (\<forall>key' h'. tagged_at tag name key' h' w \<and> (key' = key \<longrightarrow> h' = h) \<longrightarrow> tagged_at tag name key' h' w')"
    if "quiet_world invar S a E w" "PageObjectKey (Itoa i) h ct = Inr key" for h ct key buf
  proof -
    let ?info = "\<lparr>oi_Key = key, oi_Size = int (length buf), oi_ContentType = ct, oi_ETag = h\<rparr>"
    obtain r o' where put: "os_PutObject Obj (ho_ctx (app_host a E name Obj) w) ?info (Some (Inr buf)) (wd_objs w name) = (r, o')"
      by force
    with object_store.Put_law [OF obj, of "ho_ctx (app_host a E name Obj) w" ?info buf "wd_objs w name"]
      live [of w] legal [OF that(2)] obtain info where r: "r = Inr info" by (cases r) auto
    have "h \<noteq> ''''" using that(2) by (auto simp: PageObjectKey_Itoa hash_ok_def TrimSpace_def)
    with tagging_object_store.Put_tag [OF store put [unfolded r]]
    have "tag o' = (tag (wd_objs w name))(key \<mapsto> h)" by simp
    with put r that(1) show ?thesis
      by (auto simp: store_at_sel quiet_world_def slot_free_def tagged_at_def)
  qed
  show "\<exists>hook w'. ho_hook (app_host a E name Obj) = Some hook \<and> hook False i page w = (Inr (), w') \<and>
      quiet_world invar S a E w' \<and>
      (\<forall>j. slot_free view i j w \<and> j \<noteq> pg_Index page \<longrightarrow> slot_free view i j w') \<and>
      (\<forall>key h. tagged_at tag name key h w \<longrightarrow> tagged_at tag name key h w')"
    if "quiet_world invar S a E w" "slot_free view i (pg_Index page) w" "pg_Key page \<noteq> ''''" for page
    using onPageDownloaded_free [OF that(1) assms(2) that(2,3)] by (auto simp: tagged_at_def)
qed simp

end

definition memory_tag :: "MemoryObjects \<Rightarrow> string \<Rightarrow> string option" where
  "memory_tag s key = map_option mo_etag (ms_objects s key)"

interpretation memobj_tags: tagging_object_store "memory_objects name now" memory_contents
  "\<lambda>key. key \<noteq> ''''" memory_tag
proof
  show "memory_tag s key = Some (oi_ETag info)"
    if "os_HeadObject (memory_objects name now) ctx key s = Inr info" for ctx key s info
    using that by (auto simp: MemoryObjects_HeadObject_def memory_tag_def info_of_object_def split: option.splits)
  show "memory_tag s' = (memory_tag s)(oi_Key info \<mapsto> oi_ETag info)"
    if "os_PutObject (memory_objects name now) ctx info body s = (Inr info', s')" "oi_ETag info \<noteq> ''''"
    for ctx info body s info' s'
    using that
    by (auto simp: MemoryObjects_PutObject_def memory_tag_def fun_eq_iff Let_def
        split: option.splits sum.splits if_splits)
qed

interpretation mem_live: reliable_host
  "app_host a (E\<lparr>e_ctx := \<lambda>n. background\<rparr>) name (memory_objects n now)" "store_at name (memory_objects n now)" i
  "quiet_world mem_invar memory_store a (E\<lparr>e_ctx := \<lambda>n. background\<rparr>)" "slot_free mem_view i" "tagged_at memory_tag name"
proof (rule document_store.app_reliable_host [OF mem.document_store_axioms memobj_tags.tagging_object_store_axioms])
  show "online (E\<lparr>e_ctx := \<lambda>n. background\<rparr>)" by (simp add: online_def)
qed (auto simp: PageObjectKey_not_empty)

end
