(* ===== verification/ArchivePurge.thy ===== *)
theory ArchivePurge
  imports ArchiveProofs
begin

text \<open>
  The purge of deleted documents, over any document store that meets the contract and object
  storages that meet theirs.  While no other goroutine acts on the documents, \<open>processDeleted\<close> ends, turns
  only deleted documents into purged ones, each after its objects are gone, and removes no object
  but theirs.
\<close>

definition deleted_ids :: "docmap \<Rightarrow> int set" where
  "deleted_ids m = {i. \<exists>d. m i = Some d \<and> d_status d = StatusDeleted}"

text \<open>The storages an application has registered, as object stores with a reading of the state of each.\<close>

definition storages_ok ::
  "(string \<Rightarrow> 'o \<Rightarrow> string \<Rightarrow> string option) \<Rightarrow> (string \<Rightarrow> bool) \<Rightarrow> ('s, 'o) App \<Rightarrow> bool" where
  "storages_ok contents legal_key a \<longleftrightarrow>
     (\<forall>i. legal_key (DocumentObjectPrefix (Itoa i))) \<and>
     (\<forall>name st. ap_storages a name = Some st \<longrightarrow> complete_object_store st (contents name) legal_key)"

text \<open>
  What a purge may do: the documents of \<open>I\<close> that were gone may become purged, once no storage object
  of theirs is left; objects may disappear under the prefixes of these documents only.
\<close>

definition doc_purged ::
  "(string \<Rightarrow> 'o \<Rightarrow> string \<Rightarrow> string option) \<Rightarrow> (string \<Rightarrow> 'o) \<Rightarrow> int \<Rightarrow> Document \<Rightarrow> Document \<Rightarrow> bool" where
  "doc_purged contents objs i d d' \<longleftrightarrow>
     d_status d \<in> {StatusDeleted, StatusPurged} \<and> d_status d' = StatusPurged \<and>
     d_StorageBackend d' = d_StorageBackend d \<and>
     (\<forall>key. prefix (DocumentObjectPrefix (Itoa i)) key \<longrightarrow> contents (d_StorageBackend d) (objs (d_StorageBackend d)) key = None)"

definition purges ::
  "(string \<Rightarrow> 'o \<Rightarrow> string \<Rightarrow> string option) \<Rightarrow> int set \<Rightarrow> docmap \<Rightarrow> (string \<Rightarrow> 'o) \<Rightarrow> docmap \<Rightarrow> (string \<Rightarrow> 'o) \<Rightarrow> bool"
where
  "purges contents I m objs m' objs' \<longleftrightarrow>
     dom m' = dom m \<and>
     (\<forall>i d d'. m i = Some d \<longrightarrow> m' i = Some d' \<longrightarrow>
        d' = d \<or> i \<in> I \<and> doc_purged contents objs' i d d') \<and>
     (\<forall>name key. contents name (objs' name) key = contents name (objs name) key \<or>
        contents name (objs' name) key = None \<and> (\<exists>i \<in> I. prefix (DocumentObjectPrefix (Itoa i)) key))"

lemma purges_refl [simp]: "purges contents I m objs m objs"
  by (simp add: purges_def)

lemma purgesD:
  assumes "purges contents I m objs m' objs'"
  shows "m' i = None \<longleftrightarrow> m i = None"
    and "m i = Some d \<Longrightarrow> m' i = Some d' \<Longrightarrow> d' = d \<or> i \<in> I \<and> doc_purged contents objs' i d d'"
    and "contents name (objs' name) key = contents name (objs name) key \<or>
      contents name (objs' name) key = None \<and> (\<exists>i \<in> I. prefix (DocumentObjectPrefix (Itoa i)) key)"
    and "contents name (objs' name) key = contents name (objs name) key \<or> contents name (objs' name) key = None"
proof -
  have dom: "dom m' = dom m"
    and docs: "\<And>i d d'. m i = Some d \<Longrightarrow> m' i = Some d' \<Longrightarrow> d' = d \<or> i \<in> I \<and> doc_purged contents objs' i d d'"
    and objs: "\<And>name key. contents name (objs' name) key = contents name (objs name) key \<or>
      contents name (objs' name) key = None \<and> (\<exists>i \<in> I. prefix (DocumentObjectPrefix (Itoa i)) key)"
    using assms by (simp_all add: purges_def)
  have "i \<in> dom m' \<longleftrightarrow> i \<in> dom m" using dom by simp
  then show "m' i = None \<longleftrightarrow> m i = None" by (auto simp: domIff)
  show "m i = Some d \<Longrightarrow> m' i = Some d' \<Longrightarrow> d' = d \<or> i \<in> I \<and> doc_purged contents objs' i d d'"
    by (rule docs)
  show "contents name (objs' name) key = contents name (objs name) key \<or>
      contents name (objs' name) key = None \<and> (\<exists>i \<in> I. prefix (DocumentObjectPrefix (Itoa i)) key)"
    by (rule objs)
  then show "contents name (objs' name) key = contents name (objs name) key \<or> contents name (objs' name) key = None"
    by argo
qed

lemma purgesI:
  assumes "\<And>i. m' i = None \<longleftrightarrow> m i = None"
    and "\<And>i d d'. m i = Some d \<Longrightarrow> m' i = Some d' \<Longrightarrow> d' = d \<or> i \<in> I \<and> doc_purged contents objs' i d d'"
    and "\<And>name key. contents name (objs' name) key = contents name (objs name) key \<or>
      contents name (objs' name) key = None \<and> (\<exists>i \<in> I. prefix (DocumentObjectPrefix (Itoa i)) key)"
  shows "purges contents I m objs m' objs'"
  unfolding purges_def using assms by (auto simp: dom_def)

lemma doc_purged_later:
  assumes "doc_purged contents objs i d d'" and p: "purges contents I m objs m' objs'"
  shows "doc_purged contents objs' i d d'"
  unfolding doc_purged_def
proof (intro conjI allI impI)
  fix key assume "prefix (DocumentObjectPrefix (Itoa i)) key"
  then have "contents (d_StorageBackend d) (objs (d_StorageBackend d)) key = None"
    using assms(1) by (simp add: doc_purged_def)
  with purgesD(4) [OF p, of "d_StorageBackend d" key]
  show "contents (d_StorageBackend d) (objs' (d_StorageBackend d)) key = None" by simp
qed (use assms(1) in \<open>simp_all add: doc_purged_def\<close>)

lemma purges_mono:
  assumes p: "purges contents I m objs m' objs'" and "I \<subseteq> J"
  shows "purges contents J m objs m' objs'"
proof (rule purgesI)
  show "m' i = None \<longleftrightarrow> m i = None" for i by (rule purgesD(1) [OF p])
  show "d' = d \<or> i \<in> J \<and> doc_purged contents objs' i d d'" if "m i = Some d" "m' i = Some d'" for i d d'
    using purgesD(2) [OF p that] assms(2) by blast
  show "contents name (objs' name) key = contents name (objs name) key \<or>
      contents name (objs' name) key = None \<and> (\<exists>i \<in> J. prefix (DocumentObjectPrefix (Itoa i)) key)" for name key
    using purgesD(3) [OF p, of name key] assms(2) by blast
qed

lemma purges_trans:
  assumes 1: "purges contents I m1 objs1 m2 objs2" and 2: "purges contents I m2 objs2 m3 objs3"
  shows "purges contents I m1 objs1 m3 objs3"
proof (rule purgesI)
  show "m3 i = None \<longleftrightarrow> m1 i = None" for i using purgesD(1) [OF 1] purgesD(1) [OF 2] by simp
next
  fix name key
  show "contents name (objs3 name) key = contents name (objs1 name) key \<or>
      contents name (objs3 name) key = None \<and> (\<exists>i \<in> I. prefix (DocumentObjectPrefix (Itoa i)) key)"
    using purgesD(3) [OF 1, of name key] purgesD(3) [OF 2, of name key] by argo
next
  fix i d d3 assume d: "m1 i = Some d" "m3 i = Some d3"
  then have "m2 i \<noteq> None" using purgesD(1) [OF 1, of i] by simp
  then obtain d2 where d2: "m2 i = Some d2" by blast
  have a: "d2 = d \<or> i \<in> I \<and> doc_purged contents objs3 i d d2"
    using purgesD(2) [OF 1 d(1) d2] doc_purged_later [OF _ 2] by blast
  have b: "d3 = d2 \<or> i \<in> I \<and> doc_purged contents objs3 i d2 d3"
    by (rule purgesD(2) [OF 2 d2 d(2)])
  show "d3 = d \<or> i \<in> I \<and> doc_purged contents objs3 i d d3"
    using a b unfolding doc_purged_def by auto
qed

lemma finite_deleted_ids: "store_wf m \<Longrightarrow> finite (deleted_ids m)"
  by (rule finite_subset [of _ "dom m"]) (auto simp: deleted_ids_def store_wf_def)

section \<open>One document\<close>

context document_store
begin

lemma purge_document_step:
  assumes E: "env_ok invar E" "quiet E" and S: "ap_documents a = S" and st: "storages_ok contents legal_key a"
    and w: "invar (wd_docs w)" and d: "view (wd_docs w) (d_ID d) = Some d" "d_status d = StatusDeleted"
    and run: "purge_document a E d w = (b, w')"
  shows "invar (wd_docs w') \<and>
    purges contents {d_ID d} (view (wd_docs w)) (wd_objs w) (view (wd_docs w')) (wd_objs w') \<and>
    deleted_ids (view (wd_docs w')) = deleted_ids (view (wd_docs w)) - (if b then {d_ID d} else {}) \<and>
    (\<forall>j. j \<noteq> d_ID d \<longrightarrow> view (wd_docs w') j = view (wd_docs w) j) \<and>
    (online E \<and> ap_storages a (d_StorageBackend d) \<noteq> None \<longrightarrow> b)"
proof (cases "ap_storages a (d_StorageBackend d)")
  case None
  then have "b = False" "w' = w" using run by (simp_all add: purge_document_def getStorage_def)
  with None w show ?thesis by simp
next
  case (Some st')
  let ?i = "d_ID d" and ?name = "d_StorageBackend d" and ?p = "DocumentObjectPrefix (Itoa (d_ID d))"
  let ?ctx = "e_ctx E (wd_calls w)"
  have cos: "complete_object_store st' (contents ?name) legal_key" and legal: "legal_key ?p"
    using st Some unfolding storages_ok_def by blast+
  obtain r o' where del: "os_DeletePrefix st' ?ctx ?p (wd_objs w ?name) = (r, o')" by fastforce
  let ?w1 = "w\<lparr>wd_objs := (wd_objs w)(?name := o')\<rparr>"
  have shrink: "contents name ((wd_objs ?w1) name) key = contents name (wd_objs w name) key \<or>
      contents name ((wd_objs ?w1) name) key = None \<and> (\<exists>i \<in> {?i}. prefix (DocumentObjectPrefix (Itoa i)) key)" for name key
    using complete_object_store.DeletePrefix_shrinks [OF cos legal del, of key] by simp
  have unchanged: "purges contents {?i} (view (wd_docs w)) (wd_objs w) (view (wd_docs w)) (wd_objs ?w1)"
    by (rule purgesI) (use shrink in auto)
  show ?thesis
  proof (cases "\<exists>e. r = Inl e \<and> \<not> errors_Is e ErrObjectNotFound")
    case True
    then have "b = False" "w' = ?w1"
      using run del Some by (auto simp: purge_document_def getStorage_def store_at_def on_objs_def)
    moreover have "\<not> online E"
      using True object_store.DeletePrefix_law [OF complete_object_store.axioms(1) [OF cos] legal,
          where ctx = ?ctx and s = "wd_objs w ?name"] del
      by (auto simp: online_def)
    ultimately show ?thesis using w unchanged by simp
  next
    case False
    have gone: "contents ?name o' = (\<lambda>key. if prefix ?p key then None else contents ?name (wd_objs w ?name) key)"
      by (rule complete_object_store.DeletePrefix_done [OF cos legal del]) (use False in blast)
    have "\<not> (case r of Inl e \<Rightarrow> \<not> errors_Is e ErrObjectNotFound | Inr u \<Rightarrow> False)"
      using False by (cases r) auto
    then have run': "(case docs_call E (\<lambda>ctx now. st_Purge S ctx now ?i) ?w1 of
        (Inl e, w2) \<Rightarrow> (False, w2) | (Inr n, w2) \<Rightarrow> (True, w2)) = (b, w')"
      using run del Some S by (simp add: purge_document_def getStorage_def store_at_def on_objs_def)
    let ?now = "e_now E (wd_calls ?w1)"
    let ?d' = "d\<lparr>d_Pages := [], d_Progress := \<lparr>pr_Done = 0, pr_Total = 0\<rparr>,
                d_status := StatusPurged, d_UpdatedAt := ?now\<rparr>"
    have upd: "upd_doc (purge_doc ?now) ?i (view (wd_docs w))
        = Some (countExistingPages (d_Pages d), (view (wd_docs w))(?i \<mapsto> ?d'))"
      using d by (simp add: upd_doc_def purge_doc_def)
    have law: "\<And>ctx. implements invar view ctx (st_Purge S ctx ?now ?i) (purge_doc ?now) ?i"
      by (rule Purge_law) (use E in \<open>simp add: env_ok_def\<close>)
    have "invar (wd_docs ?w1)" using w by simp
    from quiet_call [where conc = "\<lambda>ctx now. st_Purge S ctx now ?i" and w = ?w1, OF E(2) this law] upd run'
    consider (ok) "b" "invar (wd_docs w')" "view (wd_docs w') = (view (wd_docs w))(?i \<mapsto> ?d')" "wd_objs w' = wd_objs ?w1"
      | (failed) "\<not> b" "invar (wd_docs w')" "view (wd_docs w') = view (wd_docs w)" "wd_objs w' = wd_objs ?w1" "\<not> online E"
      by (auto split: prod.splits)
    then show ?thesis
    proof cases
      case ok
      have "doc_purged contents (wd_objs w') ?i d ?d'"
        using d(2) ok(4) gone by (simp add: doc_purged_def)
      then have "purges contents {?i} (view (wd_docs w)) (wd_objs w) (view (wd_docs w')) (wd_objs w')"
        using ok(3,4) d(1) shrink by (intro purgesI) (auto split: if_splits simp del: fun_upd_apply simp add: fun_upd_def)
      with ok show ?thesis by (auto simp: deleted_ids_def)
    next
      case failed
      then show ?thesis using unchanged by simp
    qed
  qed
qed

end

section \<open>A batch\<close>

context document_store
begin

lemma purge_batch_steps:
  assumes E: "env_ok invar E" "quiet E" and S: "ap_documents a = S" and st: "storages_ok contents legal_key a"
  shows "invar (wd_docs w) \<Longrightarrow> distinct (map d_ID ds) \<Longrightarrow>
    \<forall>d \<in> set ds. view (wd_docs w) (d_ID d) = Some d \<and> d_status d = StatusDeleted \<Longrightarrow>
    purge_batch a E ds w = (n, w') \<Longrightarrow>
    invar (wd_docs w') \<and>
    purges contents (d_ID ` set ds) (view (wd_docs w)) (wd_objs w) (view (wd_docs w')) (wd_objs w') \<and>
    deleted_ids (view (wd_docs w')) \<subseteq> deleted_ids (view (wd_docs w)) \<and>
    int (card (deleted_ids (view (wd_docs w')))) + n = int (card (deleted_ids (view (wd_docs w)))) \<and> 0 \<le> n \<and>
    (online E \<and> (\<forall>d \<in> set ds. ap_storages a (d_StorageBackend d) \<noteq> None) \<longrightarrow>
       n = int (length ds) \<and> deleted_ids (view (wd_docs w')) = deleted_ids (view (wd_docs w)) - d_ID ` set ds)"
proof (induction ds arbitrary: w n)
  case (Cons d ds)
  obtain b w1 where one: "purge_document a E d w = (b, w1)" by fastforce
  obtain m where rest: "purge_batch a E ds w1 = (m, w')" and n: "n = m + (if b then 1 else 0)"
    using Cons.prems(4) one by (auto split: prod.splits)
  have d: "view (wd_docs w) (d_ID d) = Some d" "d_status d = StatusDeleted" using Cons.prems(3) by auto
  note step = purge_document_step [OF E S st Cons.prems(1) d one]
  have inv1: "invar (wd_docs w1)" using step by blast
  have listed: "\<forall>e \<in> set ds. view (wd_docs w1) (d_ID e) = Some e \<and> d_status e = StatusDeleted"
  proof
    fix e assume e: "e \<in> set ds"
    then have "d_ID e \<noteq> d_ID d" using Cons.prems(2) by (auto simp: image_iff)
    then show "view (wd_docs w1) (d_ID e) = Some e \<and> d_status e = StatusDeleted"
      using step e Cons.prems(3) by auto
  qed
  have dist: "distinct (map d_ID ds)" using Cons.prems(2) by simp
  note ih = Cons.IH [OF inv1 dist listed rest]
  have fin: "finite (deleted_ids (view (wd_docs w)))"
    using finite_deleted_ids [OF invar_wf [OF Cons.prems(1)]] .
  have mem: "d_ID d \<in> deleted_ids (view (wd_docs w))" using d by (auto simp: deleted_ids_def)
  then have pos: "0 < card (deleted_ids (view (wd_docs w)))" using fin by (auto simp: card_gt_0_iff)
  have D1: "deleted_ids (view (wd_docs w1)) = deleted_ids (view (wd_docs w)) - (if b then {d_ID d} else {})"
    using step by blast
  then have card1: "int (card (deleted_ids (view (wd_docs w1)))) + (if b then 1 else 0)
      = int (card (deleted_ids (view (wd_docs w))))"
    using mem fin pos by (simp add: card_Diff_singleton)
  have "purges contents (d_ID ` set (d # ds)) (view (wd_docs w)) (wd_objs w) (view (wd_docs w1)) (wd_objs w1)"
    using step purges_mono [of contents "{d_ID d}"] by auto
  moreover have "purges contents (d_ID ` set ds) (view (wd_docs w1)) (wd_objs w1) (view (wd_docs w')) (wd_objs w')"
    using ih by blast
  then have "purges contents (d_ID ` set (d # ds)) (view (wd_docs w1)) (wd_objs w1) (view (wd_docs w')) (wd_objs w')"
    by (rule purges_mono) auto
  ultimately have P: "purges contents (d_ID ` set (d # ds)) (view (wd_docs w)) (wd_objs w) (view (wd_docs w')) (wd_objs w')"
    by (rule purges_trans)
  have last: "n = int (length (d # ds)) \<and> deleted_ids (view (wd_docs w'))
      = deleted_ids (view (wd_docs w)) - d_ID ` set (d # ds)"
    if "online E" "\<forall>d \<in> set (d # ds). ap_storages a (d_StorageBackend d) \<noteq> None"
  proof -
    have b using step that by auto
    moreover have "m = int (length ds) \<and> deleted_ids (view (wd_docs w')) = deleted_ids (view (wd_docs w1)) - d_ID ` set ds"
      using ih that by auto
    ultimately show ?thesis using n D1 by auto
  qed
  have "deleted_ids (view (wd_docs w')) \<subseteq> deleted_ids (view (wd_docs w))" using ih D1 by auto
  moreover have "int (card (deleted_ids (view (wd_docs w')))) + n = int (card (deleted_ids (view (wd_docs w))))" "0 \<le> n"
    using ih card1 n by auto
  ultimately show ?case using ih P last by blast
qed simp

end

section \<open>The whole pass\<close>

definition status_query :: "DocumentStatus \<Rightarrow> DocumentQuery" where
  "status_query st = (ByStatus st new_QueryBuilder)\<lparr>q_order := ''ASC'', q_orderBy := ''id'', q_limit := 5\<rparr>"

lemma Build_status: "Build (Limit 5 (ByStatus st new_QueryBuilder)) = Inr (status_query st)"
  by (simp add: Build_ok status_query_def Limit_def ByStatus_def new_QueryBuilder_def)

lemma Build_deleted:
  "Build (Limit deletedPurgeBatchSize (ByStatus StatusDeleted new_QueryBuilder)) = Inr (status_query StatusDeleted)"
  by (simp add: Build_status deletedPurgeBatchSize_def)

lemma status_query_sel [simp]:
  "q_orderBy (status_query st) = ''id''" "q_limit (status_query st) = 5" "q_status (status_query st) = Some st"
  "q_source (status_query st) = None" "q_offset (status_query st) = 0" "built (status_query st)"
  "limit_in_range (status_query st)"
  using Build_built [OF Build_status]
  by (simp_all add: status_query_def ByStatus_def new_QueryBuilder_def limit_in_range_def)

lemma docs_list_distinct:
  assumes "store_wf m"
  shows "distinct (map d_ID (docs_list m))" "set (docs_list m) = ran m"
proof -
  have fin: "finite (dom m)" using assms by (simp add: store_wf_def)
  have id: "d_ID (the (m i)) = i" if "i \<in> dom m" for i
    using that store_wfD [OF assms] by (auto simp: doc_wf_def)
  then have "map d_ID (docs_list m) = sorted_list_of_set (dom m)"
    unfolding docs_list_def map_map by (intro map_idI) (use fin in auto)
  then show "distinct (map d_ID (docs_list m))" by simp
  show "set (docs_list m) = ran m" using fin by (auto simp: docs_list_def ran_def dom_def image_iff) force+
qed

text \<open>What the query lists: documents in that status, each once, and all of them when they are fewer than five.\<close>

lemma run_status_query:
  assumes wf: "store_wf m" and known: "isKnownDocumentStatus st"
    and ds: "ds = run_query (status_query st) (docs_list m)"
  shows "distinct (map d_ID ds)" "\<forall>d \<in> set ds. m (d_ID d) = Some d \<and> d_status d = st"
    "length ds \<le> 5" "length ds < 5 \<Longrightarrow> d_ID ` set ds = {i. \<exists>d. m i = Some d \<and> d_status d = st}"
proof -
  let ?xs = "SliceStable (query_less (status_query st))
    (filter (\<lambda>d. matches_status (status_query st) d \<and> matches_source (status_query st) d) (docs_list m))"
  have take: "ds = take 5 ?xs" by (simp add: ds run_query_def query_window_eq)
  have stored: "d \<in> ran m \<Longrightarrow> m (d_ID d) = Some d \<and> isKnownDocumentStatus (d_status d)" for d
    using store_wfD [OF wf] by (auto simp: ran_def doc_wf_def)
  have deleted: "isKnownDocumentStatus st' \<Longrightarrow> status_string st' = status_string st \<longleftrightarrow> st' = st" for st'
    by (rule status_string_inject) (use known in simp_all)
  have xs: "set ?xs = {d \<in> ran m. d_status d = st}"
    using stored deleted by (auto simp: docs_list_distinct [OF wf] matches_status_def matches_source_def)
  have inj: "inj_on d_ID (set ?xs)" "distinct ?xs"
    using docs_list_distinct(1) [OF wf] by (auto simp: distinct_map inj_on_def)
  then have "distinct (map d_ID ?xs)" by (simp add: distinct_map)
  then show "distinct (map d_ID ds)" unfolding take by (simp add: distinct_take flip: take_map)
  show "\<forall>d \<in> set ds. m (d_ID d) = Some d \<and> d_status d = st"
    using xs stored unfolding take by (auto dest: in_set_takeD)
  show "length ds \<le> 5" by (simp add: take)
  show "d_ID ` set ds = {i. \<exists>d. m i = Some d \<and> d_status d = st}" if "length ds < 5"
  proof -
    have "ds = ?xs" using that by (simp add: take)
    then have set: "set ds = {d \<in> ran m. d_status d = st}" using xs by simp
    have "i \<in> d_ID ` set ds" if "m i = Some d" "d_status d = st" for i d
    proof (rule image_eqI [of _ _ d])
      show "i = d_ID d" using store_wfD [OF wf that(1)] by (simp add: doc_wf_def)
      show "d \<in> set ds" using set that by (auto simp: ran_def)
    qed
    moreover have "\<exists>e. m (d_ID d) = Some e \<and> d_status e = st" if "d \<in> set ds" for d
      using set stored that by auto
    ultimately show ?thesis by auto
  qed
qed

context document_store
begin

lemma processDeleted_result:
  assumes E: "env_ok invar E" "quiet E" and S: "ap_documents a = S" and st: "storages_ok contents legal_key a"
    and w: "invar (wd_docs w)"
  shows "\<exists>w'. processDeleted a E w = Some w' \<and> invar (wd_docs w') \<and>
    purges contents (deleted_ids (view (wd_docs w))) (view (wd_docs w)) (wd_objs w) (view (wd_docs w')) (wd_objs w') \<and>
    (online E \<and> (\<forall>i d. view (wd_docs w) i = Some d \<longrightarrow> d_status d = StatusDeleted \<longrightarrow>
        ap_storages a (d_StorageBackend d) \<noteq> None) \<longrightarrow> deleted_ids (view (wd_docs w')) = {})"
  using w
proof (induction "card (deleted_ids (view (wd_docs w)))" arbitrary: w rule: less_induct)
  case less
  let ?m = "view (wd_docs w)"
  let ?ctx = "e_ctx E (wd_calls w)" and ?w1 = "w\<lparr>wd_calls := Suc (wd_calls w)\<rparr>"
  have wf: "store_wf ?m" by (rule invar_wf [OF less.prems])
  have read: "docs_read E (\<lambda>ctx. st_Query S ctx (status_query StatusDeleted)) w
      = (st_Query S ?ctx (status_query StatusDeleted) (wd_docs w), ?w1)"
    by (simp add: docs_read_def docs_call_quiet [OF E(2)])
  show ?case
  proof (cases "st_Query S ?ctx (status_query StatusDeleted) (wd_docs w)")
    case (Inl e)
    then have "\<not> online E" using Query_law [OF less.prems, of "status_query StatusDeleted" ?ctx] by (auto simp: online_def)
    then show ?thesis
      using Inl read S less.prems
      by (subst processDeleted.simps) (simp add: Build_deleted)
  next
    case (Inr ds)
    then have ds: "ds = run_query (status_query StatusDeleted) (docs_list ?m)"
      using Query_law [OF less.prems, of "status_query StatusDeleted" ?ctx] by simp
    note listed = run_status_query [OF wf _ ds, simplified, folded deleted_ids_def]
    obtain n w2 where batch: "purge_batch a E ds ?w1 = (n, w2)" by fastforce
    have inv1: "invar (wd_docs ?w1)" and view1: "view (wd_docs ?w1) = ?m" using less.prems by simp_all
    note steps = purge_batch_steps [OF E S st inv1 listed(1) _ batch, unfolded view1, OF listed(2), simplified]
    have sub: "d_ID ` set ds \<subseteq> deleted_ids ?m" using listed(2) by (auto simp: deleted_ids_def)
    have P: "purges contents (deleted_ids ?m) ?m (wd_objs w) (view (wd_docs w2)) (wd_objs w2)"
    proof (rule purges_mono [OF _ sub])
      show "purges contents (d_ID ` set ds) ?m (wd_objs w) (view (wd_docs w2)) (wd_objs w2)"
        using steps by blast
    qed
    have len: "length ds < 5 \<or> length ds = 5" using listed(3) by linarith
    have body: "processDeleted a E w = (if ds = [] \<or> int (length ds) < 5 \<or> n = 0 then Some w2 else processDeleted a E w2)"
    proof (cases "ds = []")
      case True
      then show ?thesis
        using Inr read S batch by (subst processDeleted.simps) (simp add: Build_deleted)
    next
      case False
      then show ?thesis
        using Inr read S batch by (subst processDeleted.simps) (simp add: Build_deleted [unfolded deletedPurgeBatchSize_def] deletedPurgeBatchSize_def)
    qed
    have full: "n = int (length ds) \<and> deleted_ids (view (wd_docs w2)) = deleted_ids ?m - d_ID ` set ds"
      if "online E" "\<forall>i d. ?m i = Some d \<longrightarrow> d_status d = StatusDeleted \<longrightarrow> ap_storages a (d_StorageBackend d) \<noteq> None"
      using steps that listed(2) by auto
    show ?thesis
    proof (cases "ds = [] \<or> int (length ds) < 5 \<or> n = 0")
      case True
      have "deleted_ids (view (wd_docs w2)) = {}"
        if reg: "online E" "\<forall>i d. ?m i = Some d \<longrightarrow> d_status d = StatusDeleted \<longrightarrow> ap_storages a (d_StorageBackend d) \<noteq> None"
      proof -
        have "length ds < 5" using True full [OF reg] by auto
        then show ?thesis using full [OF reg] listed(4) by simp
      qed
      with True body steps P show ?thesis by simp
    next
      case False
      have inv2: "invar (wd_docs w2)" using steps by blast
      have "0 \<le> n" using steps by blast
      then have "0 < n" using False by simp
      then have "card (deleted_ids (view (wd_docs w2))) < card (deleted_ids ?m)" using steps by linarith
      from less.hyps [OF this inv2]
      obtain w' where w': "processDeleted a E w2 = Some w'" "invar (wd_docs w')"
          "purges contents (deleted_ids (view (wd_docs w2))) (view (wd_docs w2)) (wd_objs w2) (view (wd_docs w')) (wd_objs w')"
          "online E \<and> (\<forall>i d. view (wd_docs w2) i = Some d \<longrightarrow> d_status d = StatusDeleted \<longrightarrow>
             ap_storages a (d_StorageBackend d) \<noteq> None) \<longrightarrow> deleted_ids (view (wd_docs w')) = {}"
        by blast
      have "deleted_ids (view (wd_docs w2)) \<subseteq> deleted_ids ?m" using steps by blast
      from purges_trans [OF P purges_mono [OF w'(3) this]]
      have "purges contents (deleted_ids ?m) ?m (wd_objs w) (view (wd_docs w')) (wd_objs w')" .
      moreover have same: "?m i = Some d" if "view (wd_docs w2) i = Some d" "d_status d = StatusDeleted" for i d
      proof -
        have "?m i \<noteq> None" using purgesD(1) [OF P, of i] that(1) by simp
        then obtain d0 where d0: "?m i = Some d0" by blast
        from purgesD(2) [OF P d0 that(1)] that(2) d0 show ?thesis by (auto simp: doc_purged_def)
      qed
      have "deleted_ids (view (wd_docs w')) = {}"
        if "online E \<and> (\<forall>i d. ?m i = Some d \<longrightarrow> d_status d = StatusDeleted \<longrightarrow>
          ap_storages a (d_StorageBackend d) \<noteq> None)"
        using w'(4) that same by blast
      with calculation w'(1,2) body False show ?thesis by auto
    qed
  qed
qed

end

end
