(* ===== verification/ArchiveQueue.thy ===== *)
theory ArchiveQueue
  imports ArchivePurge
begin

text \<open>
  The pass over the queue, and the requests of the HTTP side, over any document store that meets the
  contract.
\<close>

definition settled_status :: "DocumentStatus \<Rightarrow> bool" where
  "settled_status st \<longleftrightarrow> st = StatusArchived \<or> st = StatusFailed"

section \<open>The queue\<close>

context document_store
begin

lemma processDocument_kept:
  assumes "env_ok invar E" "quiet E" "online E" "ap_documents a = S" "factories_ok invar view E a"
    and "invar (wd_docs w)" "view (wd_docs w) i = Some d0" "d_status d0 = StatusQueued"
    and run: "processDocument a E i w = (r, w')"
  shows "invar (wd_docs w') \<and> others_kept i (view (wd_docs w)) (view (wd_docs w')) \<and>
    (\<exists>d. view (wd_docs w') i = Some d \<and> settled_status (d_status d))"
  using processDocument_result [OF assms(1-8)] run by (auto simp: settled_status_def split: sum.splits prod.splits)

lemma process_each_result:
  assumes a: "env_ok invar E" "quiet E" "online E" "ap_documents a = S" "factories_ok invar view E a"
  shows "invar (wd_docs w) \<Longrightarrow> distinct (map d_ID ds) \<Longrightarrow>
    \<forall>d \<in> set ds. \<exists>e. view (wd_docs w) (d_ID d) = Some e \<and> d_status e = StatusQueued \<Longrightarrow>
    process_each a E ds w = w' \<Longrightarrow>
    invar (wd_docs w') \<and>
    (\<forall>j d. j \<notin> d_ID ` set ds \<longrightarrow> view (wd_docs w) j = Some d \<longrightarrow>
       (\<exists>d'. view (wd_docs w') j = Some d' \<and> d_status d' = d_status d)) \<and>
    (\<forall>d \<in> set ds. \<exists>d'. view (wd_docs w') (d_ID d) = Some d' \<and> settled_status (d_status d'))"
proof (induction ds arbitrary: w)
  case (Cons d ds)
  let ?w1 = "snd (processDocument a E (d_ID d) w)"
  obtain r where run: "processDocument a E (d_ID d) w = (r, ?w1)" by (metis prod.collapse)
  obtain e where e: "view (wd_docs w) (d_ID d) = Some e" "d_status e = StatusQueued"
    using Cons.prems(3) by auto
  have one: "invar (wd_docs ?w1)" "others_kept (d_ID d) (view (wd_docs w)) (view (wd_docs ?w1))"
      "\<exists>d'. view (wd_docs ?w1) (d_ID d) = Some d' \<and> settled_status (d_status d')"
    using processDocument_kept [OF a Cons.prems(1) e run] by auto
  have new: "d_ID d \<notin> d_ID ` set ds" using Cons.prems(2) by simp
  have queued: "\<forall>d \<in> set ds. \<exists>e. view (wd_docs ?w1) (d_ID d) = Some e \<and> d_status e = StatusQueued"
  proof
    fix f assume f: "f \<in> set ds"
    then have "d_ID f \<noteq> d_ID d" using new by (metis imageI)
    moreover obtain e where "view (wd_docs w) (d_ID f) = Some e" "d_status e = StatusQueued"
      using Cons.prems(3) f by auto
    ultimately show "\<exists>e. view (wd_docs ?w1) (d_ID f) = Some e \<and> d_status e = StatusQueued"
      using one(2) by (fastforce simp: others_kept_def)
  qed
  have "distinct (map d_ID ds)" using Cons.prems(2) by simp
  note rest = Cons.IH [OF one(1) this queued]
  have "process_each a E ds ?w1 = w'" using Cons.prems(4) by simp
  note rest = rest [OF this]
  show ?case
  proof (intro conjI allI impI ballI)
    show "invar (wd_docs w')" using rest by blast
    show "\<exists>d'. view (wd_docs w') j = Some d' \<and> d_status d' = d_status f"
      if nj: "j \<notin> d_ID ` set (d # ds)" and vj: "view (wd_docs w) j = Some f" for j f
    proof -
      have j: "j \<noteq> d_ID d" "j \<notin> d_ID ` set ds" using nj by simp_all
      obtain f1 where f1: "view (wd_docs ?w1) j = Some f1" "d_status f1 = d_status f"
        using one(2) j(1) vj unfolding others_kept_def by blast
      then obtain f2 where "view (wd_docs w') j = Some f2" "d_status f2 = d_status f1"
        using rest j(2) by blast
      with f1(2) show ?thesis by simp
    qed
    show "\<exists>d'. view (wd_docs w') (d_ID f) = Some d' \<and> settled_status (d_status d')"
      if "f \<in> set (d # ds)" for f
    proof (cases "f \<in> set ds")
      case True
      then show ?thesis using rest by blast
    next
      case False
      then have "f = d" using that by simp
      obtain d1 where d1: "view (wd_docs ?w1) (d_ID d) = Some d1" "settled_status (d_status d1)"
        using one(3) by blast
      then obtain d2 where "view (wd_docs w') (d_ID d) = Some d2" "d_status d2 = d_status d1"
        using rest new by blast
      with d1(2) \<open>f = d\<close> show ?thesis by simp
    qed
  qed
qed simp

lemma processQueued_result:
  assumes a: "env_ok invar E" "quiet E" "online E" "ap_documents a = S" "factories_ok invar view E a"
    and w: "invar (wd_docs w)"
    and ds: "ds = run_query (status_query StatusQueued) (docs_list (view (wd_docs w)))"
    and w': "w' = processQueued a E w"
  shows "invar (wd_docs w') \<and>
    (\<forall>j d. j \<notin> d_ID ` set ds \<longrightarrow> view (wd_docs w) j = Some d \<longrightarrow>
       (\<exists>d'. view (wd_docs w') j = Some d' \<and> d_status d' = d_status d)) \<and>
    (\<forall>d \<in> set ds. \<exists>d'. view (wd_docs w') (d_ID d) = Some d' \<and> settled_status (d_status d'))"
proof -
  let ?ctx = "e_ctx E (wd_calls w)" and ?w1 = "w\<lparr>wd_calls := Suc (wd_calls w)\<rparr>"
  have "live ?ctx" using a(3) by (simp add: online_def)
  then have "st_Query S ?ctx (status_query StatusQueued) (wd_docs w) = Inr ds"
    using Query_law [OF w, of "status_query StatusQueued" ?ctx] ds
    by (cases "st_Query S ?ctx (status_query StatusQueued) (wd_docs w)") simp_all
  then have run: "process_each a E ds ?w1 = w'"
    using a(4) by (simp add: w' processQueued_def Build_status docs_read_def docs_call_quiet [OF a(2)])
  have wf: "store_wf (view (wd_docs w))" by (rule invar_wf [OF w])
  note listed = run_status_query [OF wf _ ds, simplified]
  have "\<forall>d \<in> set ds. \<exists>e. view (wd_docs ?w1) (d_ID d) = Some e \<and> d_status e = StatusQueued"
    using listed(2) by simp
  from process_each_result [OF a _ listed(1) this run] w show ?thesis by simp
qed

end

section \<open>Requests\<close>

context document_store
begin

text \<open>The worker never hangs: whatever ticks it receives, it answers them all.\<close>

lemma worker_loop_result:
  assumes a: "env_ok invar E" "quiet E" "online E" "ap_documents a = S" "factories_ok invar view E a"
    and st: "storages_ok contents legal_key a"
  shows "invar (wd_docs w) \<Longrightarrow> \<exists>w'. worker_loop a E ticks w = Some w' \<and> invar (wd_docs w')"
proof (induction ticks arbitrary: w)
  case (Cons tick ticks)
  show ?case
  proof (cases tick)
    case QueuedTick
    then show ?thesis using Cons processQueued_result [OF a Cons.prems refl refl] by simp
  next
    case DeletedTick
    from processDeleted_result [OF a(1,2,4) st Cons.prems]
    obtain w1 where "processDeleted a E w = Some w1" "invar (wd_docs w1)" by blast
    with DeletedTick show ?thesis using Cons.IH [OF Cons.prems] Cons.IH [of w1] by simp
  qed
qed simp

lemma RunWorker_result:
  assumes a: "env_ok invar E" "quiet E" "online E" "ap_documents a = S" "factories_ok invar view E a"
    and st: "storages_ok contents legal_key a" and w: "invar (wd_docs w)"
  shows "\<exists>w'. RunWorker a E ticks w = Some w' \<and> invar (wd_docs w')"
proof -
  from processDeleted_result [OF a(1,2,4) st w]
  obtain w1 where "processDeleted a E w = Some w1" "invar (wd_docs w1)" by blast
  then show ?thesis using worker_loop_result [OF a st] by (simp add: RunWorker_def)
qed

lemma RefreshDocument_stuck:
  assumes "env_ok invar E" "quiet E" "online E" "ap_documents a = S"
    and w: "invar (wd_docs w)" "view (wd_docs w) i = Some d"
    and st: "d_status d \<in> {StatusResolving, StatusDownloading}"
    and run: "RefreshDocument a E i mode w = (r, w')"
  shows "\<not> is_ok r \<and> view (wd_docs w') = view (wd_docs w)"
proof -
  let ?now = "e_now E (wd_calls w)"
  have now: "valid_time ?now" using assms(1) by (simp add: env_ok_def)
  have no_transition: "upd_doc (transition_doc StatusQueued ?now) i (view (wd_docs w)) = None"
    using w(2) st by (auto simp: upd_doc_def transition_doc_def canTransition_simps)
  have no_restore: "upd_doc (restore_doc ?now) i (view (wd_docs w)) = None"
    using w(2) st by (auto simp: upd_doc_def restore_doc_def)
  obtain e w1 where tr: "docs_call E (\<lambda>ctx now. st_TransitionTo S ctx now i StatusQueued) w = (Inl e, w1)"
      "view (wd_docs w1) = view (wd_docs w)"
    using quiet_call [where conc = "\<lambda>ctx now. st_TransitionTo S ctx now i StatusQueued",
        OF assms(2) w(1) TransitionTo_law [OF now]] no_transition by auto
  obtain e' w2 where re: "docs_call E (\<lambda>ctx now. st_Restore S ctx now i) w = (Inl e', w2)"
      "view (wd_docs w2) = view (wd_docs w)"
    using quiet_call [where conc = "\<lambda>ctx now. st_Restore S ctx now i",
        OF assms(2) w(1) Restore_law [OF now]] no_restore by auto
  show ?thesis
    using run tr re assms(4) by (auto simp: RefreshDocument_def bind_st_def split: if_splits)
qed

lemma RequestDocument_found:
  assumes "env_ok invar E" "quiet E" "online E" "ap_documents a = S" and w: "invar (wd_docs w)"
    and run: "RequestDocument a E input w = (r, w')"
    and accepted: "getSourceFactory a (rd_Source input) = Inr factory" "rd_Source input \<noteq> ''''"
      "rd_SourceDocumentID input \<noteq> ''''"
      "getStorage a (if rd_StorageBackend input = '''' then ap_defaultStorageName a else rd_StorageBackend input) = Inr st"
  shows "invar (wd_docs w') \<and>
    (case r of
       Inr d \<Rightarrow> view (wd_docs w') (d_ID d) = Some d \<and> d_status d = StatusQueued \<and>
         identity d = (rd_Source input, rd_SourceDocumentID input) \<and> view (wd_docs w) (d_ID d) = None \<and>
         (\<forall>j e. view (wd_docs w) j = Some e \<longrightarrow> identity e \<noteq> identity d)
     | Inl (e, d) \<Rightarrow> e = ErrAlreadyExists \<and> view (wd_docs w') = view (wd_docs w) \<and>
         view (wd_docs w') (d_ID d) = Some d \<and> identity d = (rd_Source input, rd_SourceDocumentID input))"
proof -
  let ?n = "wd_calls w"
  let ?name = "if rd_StorageBackend input = '''' then ap_defaultStorageName a else rd_StorageBackend input"
  let ?doc = "zero_Document\<lparr>d_Source := rd_Source input, d_SourceDocumentID := rd_SourceDocumentID input,
      d_StorageBackend := ?name\<rparr>"
  have now: "valid_time (e_now E ?n)" and live: "live (e_ctx E ?n)"
    using assms(1,3) by (simp_all add: env_ok_def online_def)
  obtain x s' where create: "st_Create S (e_ctx E ?n) (e_now E ?n) ?doc (wd_docs w) = (x, s')" by fastforce
  have r: "r = x" "wd_docs w' = s'"
    using run create accepted assms(4)
    by (auto simp: RequestDocument_def docs_call_quiet [OF assms(2)] Let_def split: if_splits)
  have id: "identity ?doc = (rd_Source input, rd_SourceDocumentID input)"
    by (simp add: identity_def)
  have law: "case (x, s') of (Inr d, s') \<Rightarrow>
           invar s' \<and> view (wd_docs w) (d_ID d) = None \<and> d = created_doc (d_ID d) (e_now E ?n) ?doc \<and>
           view s' = (view (wd_docs w))(d_ID d \<mapsto> d) \<and>
           (\<forall>j e. view (wd_docs w) j = Some e \<longrightarrow> identity e \<noteq> identity ?doc)
       | (Inl (e, d0), s') \<Rightarrow>
           invar s' \<and> view s' = view (wd_docs w) \<and>
           (live (e_ctx E ?n) \<longrightarrow> e = ErrAlreadyExists \<and>
              (\<exists>j. view (wd_docs w) j = Some d0 \<and> identity d0 = identity ?doc))"
    using Create_law [OF w now, of ?doc "e_ctx E ?n"] create by (simp add: pages_input_def zero_Document_def)
  show ?thesis
  proof (cases x)
    case (Inl p)
    obtain e d where p: "p = (e, d)" by (cases p)
    with law Inl live obtain j where j: "e = ErrAlreadyExists" "view (wd_docs w) j = Some d"
        "identity d = identity ?doc" "view s' = view (wd_docs w)" "invar s'" by auto
    have "d_ID d = j" using store_wfD [OF invar_wf [OF w] j(2)] by (simp add: doc_wf_def)
    with j id r p Inl show ?thesis by simp
  next
    case (Inr d)
    then have d: "d = created_doc (d_ID d) (e_now E ?n) ?doc" "view s' = (view (wd_docs w))(d_ID d \<mapsto> d)" "invar s'"
        "view (wd_docs w) (d_ID d) = None" "\<forall>j e. view (wd_docs w) j = Some e \<longrightarrow> identity e \<noteq> identity ?doc"
      using law by auto
    have "d_status d = StatusQueued" "identity d = identity ?doc"
      by (subst d(1), simp add: created_doc_def) (subst d(1), rule identity_created_doc)
    with d id r Inr show ?thesis by simp
  qed
qed

end

section \<open>What interference and failures can do\<close>

context document_store
begin

text \<open>A batch whose documents all name storages that are not registered purges nothing, and ends the pass.\<close>

lemma purge_batch_unregistered:
  "\<forall>d \<in> set ds. ap_storages a (d_StorageBackend d) = None \<Longrightarrow> purge_batch a E ds w = (0, w)"
  by (induction ds) (simp_all add: purge_document_def getStorage_def)

lemma purge_blocked:
  assumes "quiet E" "online E" "ap_documents a = S" and w: "invar (wd_docs w)"
    and ds: "ds = run_query (status_query StatusDeleted) (docs_list (view (wd_docs w)))"
    and "\<forall>d \<in> set ds. ap_storages a (d_StorageBackend d) = None"
  shows "\<exists>w'. processDeleted a E w = Some w' \<and> wd_docs w' = wd_docs w \<and> wd_objs w' = wd_objs w"
proof -
  let ?ctx = "e_ctx E (wd_calls w)" and ?w1 = "w\<lparr>wd_calls := Suc (wd_calls w)\<rparr>"
  have "live ?ctx" using assms(2) by (simp add: online_def)
  then have q: "st_Query S ?ctx (status_query StatusDeleted) (wd_docs w) = Inr ds"
    using Query_law [OF w, of "status_query StatusDeleted" ?ctx] ds
    by (cases "st_Query S ?ctx (status_query StatusDeleted) (wd_docs w)") simp_all
  show ?thesis
    using assms(3) q purge_batch_unregistered [OF assms(6)]
    by (subst processDeleted.simps) (simp add: Build_deleted docs_read_def docs_call_quiet [OF assms(1)])
qed

text \<open>
  A \<open>Restore\<close> that comes between the deletion of the objects and the purge: the document is queued
  again with all its pages, and none of its objects is left.
\<close>

lemma restore_race:
  assumes S: "ap_documents a = S" and st: "storages_ok contents legal_key a"
    and reg: "ap_storages a (d_StorageBackend d) = Some st'" and on: "online E"
    and w: "invar (wd_docs w)" and d: "view (wd_docs w) (d_ID d) = Some d" "d_status d = StatusDeleted"
    and now: "valid_time now" "valid_time (e_now E (wd_calls w))"
    and other: "\<And>s. e_other E (wd_calls w) s = snd (st_Restore S background now (d_ID d) s)"
    and run: "purge_document a E d w = (b, w')"
  shows "\<not> b \<and> (\<forall>key. prefix (DocumentObjectPrefix (Itoa (d_ID d))) key \<longrightarrow>
        contents (d_StorageBackend d) (wd_objs w' (d_StorageBackend d)) key = None) \<and>
    view (wd_docs w') (d_ID d) = Some (d\<lparr>d_status := StatusQueued, d_UpdatedAt := now\<rparr>)"
proof -
  let ?i = "d_ID d" and ?name = "d_StorageBackend d" and ?p = "DocumentObjectPrefix (Itoa (d_ID d))"
  let ?n = "wd_calls w"
  have cos: "complete_object_store st' (contents ?name) legal_key" and legal: "legal_key ?p"
    using st reg unfolding storages_ok_def by blast+
  have live: "live (e_ctx E ?n)" using on by (simp add: online_def)
  obtain r o' where del: "os_DeletePrefix st' (e_ctx E ?n) ?p (wd_objs w ?name) = (r, o')" by fastforce
  have found: "r = Inl e \<Longrightarrow> errors_Is e ErrObjectNotFound" for e
    using object_store.DeletePrefix_law [OF complete_object_store.axioms(1) [OF cos] legal,
        where ctx = "e_ctx E ?n" and s = "wd_objs w ?name"] del live by simp
  have gone: "contents ?name o' = (\<lambda>key. if prefix ?p key then None else contents ?name (wd_objs w ?name) key)"
    by (rule complete_object_store.DeletePrefix_done [OF cos legal del found])
  let ?d' = "d\<lparr>d_status := StatusQueued, d_UpdatedAt := now\<rparr>"
  obtain x s1 where restore: "st_Restore S background now ?i (wd_docs w) = (x, s1)" by fastforce
  have upd: "upd_doc (restore_doc now) ?i (view (wd_docs w)) = Some (?d', (view (wd_docs w))(?i \<mapsto> ?d'))"
    using d by (simp add: upd_doc_def restore_doc_def Let_def)
  have s1: "invar s1 \<and> view s1 = (view (wd_docs w))(?i \<mapsto> ?d')"
    using Restore_law [OF now(1), of background ?i] w restore upd
    unfolding implements_def by (cases x) fastforce+
  obtain y s2 where purge: "st_Purge S (e_ctx E ?n) (e_now E ?n) ?i s1 = (y, s2)" by fastforce
  have "upd_doc (purge_doc (e_now E ?n)) ?i (view s1) = None"
    using s1 by (simp add: upd_doc_def purge_doc_def)
  then obtain e where y: "y = Inl e" "view s2 = view s1"
    using Purge_law [OF now(2), of "e_ctx E ?n" ?i] s1 purge live
    unfolding implements_def by (cases y) fastforce+
  have "\<not> (case r of Inl e \<Rightarrow> \<not> errors_Is e ErrObjectNotFound | Inr u \<Rightarrow> False)"
    using found by (cases r) auto
  then have "b = False" "wd_docs w' = s2" "wd_objs w' ?name = o'"
    using run S reg del other restore purge y(1)
    by (auto simp: purge_document_def getStorage_def store_at_def on_objs_def docs_call_def Let_def)
  with y(2) s1 gone show ?thesis by simp
qed

end

end
