(* ===== verification/StoreRuns.thy ===== *)
theory StoreRuns
  imports StoreSpec
begin

text \<open>
  Sequences of store calls.  \<open>exec_op\<close> runs one modifying method of a store, with the context and the
  clock of that call, and \<open>exec_ops\<close> a sequence of them, in the order in which the mutex of the memory
  store or the single connection of the database serialises the callers.  Inside the contract
  \<open>document_store\<close> every such sequence keeps the store invariant, moves each document along
  \<open>status_move\<close> only, and never changes its identity or its creation time.
\<close>

datatype store_op =
    OpCreate Document
  | OpDelete int
  | OpPurge int
  | OpRestore int
  | OpResetPages int
  | OpUpdateMeta int meta_fn
  | OpTransitionTo int DocumentStatus
  | OpAddPage int Page
  | OpRemovePage int int

text \<open>The inputs the contract asks for.\<close>

fun op_ok :: "store_op \<Rightarrow> bool" where
  "op_ok (OpCreate document) = pages_input (d_Pages document)"
| "op_ok (OpUpdateMeta i fn) = meta_frame fn"
| "op_ok (OpAddPage i page) = (pg_Key page \<noteq> '''')"
| "op_ok op = True"

definition ok_call :: "('e + 'a) \<times> 's \<Rightarrow> bool \<times> 's" where
  "ok_call r = (is_ok (fst r), snd r)"

text \<open>One call: whether it succeeded, and the new state.\<close>

fun exec_op :: "'s Store \<Rightarrow> ctx \<Rightarrow> utc_time \<Rightarrow> store_op \<Rightarrow> 's \<Rightarrow> bool \<times> 's" where
  "exec_op S ctx now (OpCreate document) s = ok_call (st_Create S ctx now document s)"
| "exec_op S ctx now (OpDelete i) s = ok_call (st_Delete S ctx now i s)"
| "exec_op S ctx now (OpPurge i) s = ok_call (st_Purge S ctx now i s)"
| "exec_op S ctx now (OpRestore i) s = ok_call (st_Restore S ctx now i s)"
| "exec_op S ctx now (OpResetPages i) s = ok_call (st_ResetPages S ctx now i s)"
| "exec_op S ctx now (OpUpdateMeta i fn) s = ok_call (st_UpdateMeta S ctx now i (Some fn) s)"
| "exec_op S ctx now (OpTransitionTo i st) s = ok_call (st_TransitionTo S ctx now i st s)"
| "exec_op S ctx now (OpAddPage i page) s = ok_call (st_AddPage S ctx now i page s)"
| "exec_op S ctx now (OpRemovePage i index) s = ok_call (st_RemovePage S ctx now i index s)"

fun exec_ops :: "'s Store \<Rightarrow> (ctx \<times> utc_time \<times> store_op) list \<Rightarrow> 's \<Rightarrow> bool list \<times> 's" where
  "exec_ops S [] s = ([], s)"
| "exec_ops S ((ctx, now, op) # ops) s =
     (case exec_op S ctx now op s of (ok, s1) \<Rightarrow>
      (case exec_ops S ops s1 of (oks, s2) \<Rightarrow> (ok # oks, s2)))"

definition ops_ok :: "(ctx \<times> utc_time \<times> store_op) list \<Rightarrow> bool" where
  "ops_ok ops \<longleftrightarrow> list_all (\<lambda>(ctx, now, op). valid_time now \<and> op_ok op) ops"

lemma ops_ok_simps [simp]:
  "ops_ok []"
  "ops_ok ((ctx, now, op) # ops) \<longleftrightarrow> valid_time now \<and> op_ok op \<and> ops_ok ops"
  by (simp_all add: ops_ok_def)

section \<open>What one call does to a document\<close>

text \<open>A transformer that moves the status along one allowed move, from a set of statuses.\<close>

definition doc_moves :: "(DocumentStatus \<Rightarrow> DocumentStatus \<Rightarrow> bool) \<Rightarrow> 'r doc_op \<Rightarrow> bool" where
  "doc_moves R f \<longleftrightarrow>
     (\<forall>i d r d'. doc_wf i d \<longrightarrow> f d = Some (r, d') \<longrightarrow>
        R (d_status d) (d_status d') \<and> identity d' = identity d \<and> d_CreatedAt d' = d_CreatedAt d)"

lemma canTransition_same: "isKnownDocumentStatus a \<Longrightarrow> canTransitionDocumentStatus a a"
  by (simp add: canTransitionDocumentStatus_def)

lemma canTransition_visible: "isVisibleDocumentStatus a \<Longrightarrow> canTransitionDocumentStatus a a"
  by (simp add: canTransition_same visible_known)

lemma doc_moves_table:
  "doc_moves canTransitionDocumentStatus (delete_doc now)"
  "doc_moves canTransitionDocumentStatus (purge_doc now)"
  "doc_moves canTransitionDocumentStatus (resetPages_doc now)"
  "doc_moves canTransitionDocumentStatus (transition_doc st now)"
  "doc_moves canTransitionDocumentStatus (addPage_doc page now)"
  "doc_moves canTransitionDocumentStatus (removePage_doc index now)"
  by (auto simp: doc_moves_def delete_doc_def purge_doc_def resetPages_doc_def transition_doc_def
      addPage_doc_def removePage_doc_def identity_def canTransition_visible canTransition_simps Let_def
      split: if_splits)

lemma doc_moves_updateMeta:
  "meta_frame fn \<Longrightarrow> doc_moves canTransitionDocumentStatus (updateMeta_doc fn now)"
  by (auto simp: doc_moves_def updateMeta_doc_def identity_def meta_frame_def canTransition_visible
      Let_def split: if_splits sum.splits)

lemma doc_moves_restore:
  "doc_moves (\<lambda>a b. a \<in> {StatusDeleted, StatusPurged} \<and> b = StatusQueued) (restore_doc now)"
  by (auto simp: doc_moves_def restore_doc_def identity_def Let_def split: if_splits)

section \<open>What a sequence of calls does to the documents\<close>

text \<open>
  From one state of the documents to a later one: no document is lost, its identity and creation
  time stay, and its status changed as \<open>R\<close> allows for its id, if at all.
\<close>

definition kept :: "(int \<Rightarrow> DocumentStatus \<Rightarrow> DocumentStatus \<Rightarrow> bool) \<Rightarrow> docmap \<Rightarrow> docmap \<Rightarrow> bool" where
  "kept R m m' \<longleftrightarrow>
     (\<forall>i d. m i = Some d \<longrightarrow>
        (\<exists>d'. m' i = Some d' \<and> (d_status d' = d_status d \<or> R i (d_status d) (d_status d')) \<and>
              identity d' = identity d \<and> d_CreatedAt d' = d_CreatedAt d))"

lemma kept_refl [simp]: "kept R m m"
  by (simp add: kept_def)

lemma kept_mono: "kept R m m' \<Longrightarrow> (\<And>i a b. R i a b \<Longrightarrow> Q i a b) \<Longrightarrow> kept Q m m'"
  unfolding kept_def by blast

lemma kept_trans:
  assumes "kept R m1 m2" "kept R m2 m3" and "\<And>i a b c. R i a b \<Longrightarrow> R i b c \<Longrightarrow> R i a c"
  shows "kept R m1 m3"
  unfolding kept_def
proof (intro allI impI)
  fix i d assume "m1 i = Some d"
  then obtain d2 where d2: "m2 i = Some d2" "d_status d2 = d_status d \<or> R i (d_status d) (d_status d2)"
      "identity d2 = identity d" "d_CreatedAt d2 = d_CreatedAt d"
    using assms(1) unfolding kept_def by blast
  then obtain d3 where "m3 i = Some d3" "d_status d3 = d_status d2 \<or> R i (d_status d2) (d_status d3)"
      "identity d3 = identity d2" "d_CreatedAt d3 = d_CreatedAt d2"
    using assms(2) unfolding kept_def by blast
  with d2 assms(3) show "\<exists>d'. m3 i = Some d' \<and> (d_status d' = d_status d \<or> R i (d_status d) (d_status d')) \<and>
      identity d' = identity d \<and> d_CreatedAt d' = d_CreatedAt d"
    by metis
qed

text \<open>The status moves of a call: a restore of that document, or the table.\<close>

fun op_move :: "store_op \<Rightarrow> int \<Rightarrow> DocumentStatus \<Rightarrow> DocumentStatus \<Rightarrow> bool" where
  "op_move (OpRestore i) j a b =
     (j = i \<and> a \<in> {StatusDeleted, StatusPurged} \<and> b = StatusQueued)"
| "op_move op j a b = canTransitionDocumentStatus a b"

lemma op_move_status_move: "op_move op j a b \<Longrightarrow> status_move a b"
  by (cases op) (auto intro: status_move.intros)

context document_store
begin

lemma call_kept:
  assumes impl: "implements invar view ctx conc f i" and moves: "doc_moves R f" and s: "invar s"
    and call: "ok_call (conc s) = (ok, s')"
  shows "invar s' \<and> kept (\<lambda>j a b. j = i \<and> R a b) (view s) (view s')"
proof -
  obtain r where run: "conc s = (r, s')" using call by (cases "conc s") (auto simp: ok_call_def)
  show ?thesis
  proof (cases r)
    case (Inl e)
    then show ?thesis using impl s run unfolding implements_def by fastforce
  next
    case (Inr x)
    then have inv: "invar s'" and upd: "upd_doc f i (view s) = Some (x, view s')"
      using impl s run unfolding implements_def by fastforce+
    then obtain d d' where d: "view s i = Some d" "f d = Some (x, d')" "view s' = (view s)(i \<mapsto> d')"
      by (auto simp: upd_doc_Some)
    with moves store_wfD [OF invar_wf [OF s] d(1)] have
      "R (d_status d) (d_status d') \<and> identity d' = identity d \<and> d_CreatedAt d' = d_CreatedAt d"
      unfolding doc_moves_def by blast
    with inv d show ?thesis by (simp add: kept_def)
  qed
qed

lemma create_kept:
  assumes s: "invar s" and "valid_time now" "pages_input (d_Pages document)"
    and call: "ok_call (st_Create S ctx now document s) = (ok, s')"
  shows "invar s' \<and> kept R (view s) (view s')"
proof -
  obtain r where run: "st_Create S ctx now document s = (r, s')"
    using call by (cases "st_Create S ctx now document s") (auto simp: ok_call_def)
  show ?thesis
    using Create_law [OF assms(1-3), of ctx] run
    by (cases r) (auto simp: kept_def)
qed

lemma exec_op_kept:
  assumes "invar s" "valid_time now" "op_ok op" "exec_op S ctx now op s = (ok, s')"
  shows "invar s' \<and> kept (op_move op) (view s) (view s')"
proof -
  note call = call_kept [OF _ _ assms(1)]
  have table: "kept (\<lambda>j a b. j = i \<and> canTransitionDocumentStatus a b) m m' \<Longrightarrow>
      (\<And>j. op \<noteq> OpRestore j) \<Longrightarrow> kept (op_move op) m m'" for i m m'
    by (erule kept_mono) (cases op; auto)
  show ?thesis
  proof (cases op)
    case (OpCreate document)
    then show ?thesis using create_kept [OF assms(1,2), of document ctx ok s'] assms(3,4) by simp
  next
    case (OpRestore i)
    from call [OF Restore_law [OF assms(2)] doc_moves_restore, of ctx i ok s']
    have "invar s' \<and> kept (\<lambda>j a b. j = i \<and> a \<in> {StatusDeleted, StatusPurged} \<and> b = StatusQueued) (view s) (view s')"
      using assms(4) OpRestore by simp
    then show ?thesis using OpRestore by (auto elim: kept_mono)
  next
    case (OpDelete i)
    then show ?thesis using call [OF Delete_law [OF assms(2)] doc_moves_table(1), of ctx i ok s'] assms(4) table by auto
  next
    case (OpPurge i)
    then show ?thesis using call [OF Purge_law [OF assms(2)] doc_moves_table(2), of ctx i ok s'] assms(4) table by auto
  next
    case (OpResetPages i)
    then show ?thesis using call [OF ResetPages_law [OF assms(2)] doc_moves_table(3), of ctx i ok s'] assms(4) table by auto
  next
    case (OpTransitionTo i st)
    then show ?thesis using call [OF TransitionTo_law [OF assms(2)] doc_moves_table(4), of ctx i st ok s'] assms(4) table by auto
  next
    case (OpAddPage i page)
    then have "pg_Key page \<noteq> ''''" using assms(3) by simp
    from call [OF AddPage_law [OF assms(2) this] doc_moves_table(5), of ctx i ok s'] OpAddPage assms(4) table
    show ?thesis by auto
  next
    case (OpRemovePage i index)
    then show ?thesis using call [OF RemovePage_law [OF assms(2)] doc_moves_table(6), of ctx i index ok s'] assms(4) table by auto
  next
    case (OpUpdateMeta i fn)
    then have "meta_frame fn" using assms(3) by simp
    from call [OF UpdateMeta_law [OF assms(2) this] doc_moves_updateMeta [OF this], of ctx i ok s'] OpUpdateMeta assms(4) table
    show ?thesis by auto
  qed
qed

lemma exec_ops_kept:
  assumes "ops_ok ops" "invar s" "exec_ops S ops s = (oks, s')"
    and "\<And>i a b c. R i a b \<Longrightarrow> R i b c \<Longrightarrow> R i a c"
    and "\<And>ctx now op i a b. (ctx, now, op) \<in> set ops \<Longrightarrow> op_move op i a b \<Longrightarrow> R i a b"
  shows "invar s' \<and> kept R (view s) (view s')"
  using assms(1,2,3,5)
proof (induction ops arbitrary: s oks)
  case (Cons c ops)
  obtain ctx now op where c: "c = (ctx, now, op)" by (cases c) auto
  obtain ok s1 where one: "exec_op S ctx now op s = (ok, s1)" by fastforce
  obtain oks2 where rest: "exec_ops S ops s1 = (oks2, s')"
    using Cons.prems(3) c one by (auto split: prod.splits)
  have "invar s1 \<and> kept (op_move op) (view s) (view s1)"
    using exec_op_kept [OF Cons.prems(2) _ _ one] Cons.prems(1) c by simp
  moreover have "op_move op i a b \<Longrightarrow> R i a b" for i a b
    by (rule Cons.prems(4) [of ctx now op]) (simp_all add: c)
  ultimately have 1: "invar s1" "kept R (view s) (view s1)"
    by (auto elim: kept_mono)
  have "invar s' \<and> kept R (view s1) (view s')"
  proof (rule Cons.IH [OF _ 1(1) rest])
    show "ops_ok ops" using Cons.prems(1) c by simp
    show "R i a b" if "(ctx', now', op') \<in> set ops" "op_move op' i a b" for ctx' now' op' i a b
      by (rule Cons.prems(4) [of ctx' now' op']) (use that in simp_all)
  qed
  with 1 kept_trans assms(4) show ?case by blast
qed simp

end

text \<open>What happens to a document that was deleted, as long as nobody restores it.\<close>

definition gone :: "DocumentStatus \<Rightarrow> bool" where
  "gone st \<longleftrightarrow> st \<in> {StatusDeleted, StatusPurged}"

lemma gone_table: "gone a \<Longrightarrow> canTransitionDocumentStatus a b \<Longrightarrow> gone b"
  by (auto simp: gone_def canTransition_simps)

context document_store
begin

text \<open>Status histories, and documents nobody restores.\<close>

lemma exec_ops_history:
  assumes "ops_ok ops" "invar s" "exec_ops S ops s = (oks, s')"
  shows "invar s' \<and> kept (\<lambda>i. status_move\<^sup>+\<^sup>+) (view s) (view s')"
  by (rule exec_ops_kept [OF assms]) (auto dest: op_move_status_move)

lemma exec_ops_gone:
  assumes "ops_ok ops" "invar s" "exec_ops S ops s = (oks, s')"
    and "\<forall>(ctx, now, op) \<in> set ops. op \<noteq> OpRestore i"
    and d: "view s i = Some d" "gone (d_status d)"
  shows "\<exists>d'. view s' i = Some d' \<and> gone (d_status d') \<and> identity d' = identity d"
proof -
  let ?R = "\<lambda>j a b. j = i \<longrightarrow> gone a \<longrightarrow> gone b"
  have "invar s' \<and> kept ?R (view s) (view s')"
  proof (rule exec_ops_kept [OF assms(1-3)])
    show "?R j a b" if "(ctx, now, op) \<in> set ops" "op_move op j a b" for ctx now op j a b
      using that assms(4) gone_table by (cases op) (auto split: prod.splits)
  qed blast
  with d show ?thesis unfolding kept_def by fastforce
qed

lemma gone_not_got:
  assumes "invar s" "view s i = Some d" "gone (d_status d)"
  shows "\<not> is_ok (st_Get S ctx i s)"
  using Get_law [OF assms(1), of ctx i] assms(2,3)
  by (cases "st_Get S ctx i s") (auto simp: gone_def)

end

text \<open>The history of a document that the relation allows.\<close>

lemma kept_history:
  assumes "kept (\<lambda>i. status_move\<^sup>+\<^sup>+) m m'" "m i = Some d"
  shows "\<exists>d'. m' i = Some d' \<and> status_move\<^sup>*\<^sup>* (d_status d) (d_status d') \<and>
    identity d' = identity d \<and> d_CreatedAt d' = d_CreatedAt d"
proof -
  obtain d' where "m' i = Some d'" "d_status d' = d_status d \<or> status_move\<^sup>+\<^sup>+ (d_status d) (d_status d')"
      "identity d' = identity d" "d_CreatedAt d' = d_CreatedAt d"
    using assms unfolding kept_def by blast
  then show ?thesis by (metis rtranclp.rtrancl_refl tranclp_into_rtranclp)
qed

end
