(* ===== verification/SqlStore.thy ===== *)
theory SqlStore
  imports StoreSpec
begin

text \<open>
  \<open>SQLiteStore\<close> of \<^verbatim>\<open>internal/documents/sqlite_store.go\<close>.  The database is its two tables: the rows
  of \<open>documents\<close> in rowid order with the AUTOINCREMENT counter, and the rows of
  \<open>document_pages\<close>.  Each SQL text of the source is one definition \<open>sql_...\<close> that does what the
  statement says, with the constraints of the schema (\<^verbatim>\<open>CHECK\<close>, \<^verbatim>\<open>UNIQUE\<close>, \<^verbatim>\<open>PRIMARY KEY\<close>,
  \<^verbatim>\<open>FOREIGN KEY\<close>).  A transaction is a computation on the tables that numbers its database calls:
  the call number \<open>n\<close> fails with \<open>ctx n\<close> when that is an error, because the context was cancelled or the
  driver failed.  \<open>with_tx\<close> is \<^verbatim>\<open>BeginTx\<close>, the deferred \<^verbatim>\<open>rollback\<close> and \<^verbatim>\<open>Commit\<close>.
\<close>

section \<open>Tables\<close>

record doc_row =
  r_id :: int
  r_source :: string
  r_source_document_id :: string
  r_source_meta :: "string option"
  r_title :: string
  r_storage_backend :: string
  r_document_status :: string
  r_progress_done :: int
  r_progress_total :: int
  r_error :: string
  r_created_at :: string
  r_updated_at :: string

record page_row =
  w_document_id :: int
  w_page_index :: int
  w_object_key :: string
  w_content_type :: string
  w_size :: int
  w_hash :: string

record sqlite_db =
  t_documents :: "doc_row list"
  t_document_pages :: "page_row list"
  t_sequence :: int

text \<open>The database after \<^verbatim>\<open>init\<close> on a new file.\<close>

definition empty_db :: sqlite_db where
  "empty_db = \<lparr>t_documents = [], t_document_pages = [], t_sequence = 0\<rparr>"

section \<open>Transactions\<close>

type_synonym ('e, 'a) tx = "ctx \<Rightarrow> nat \<times> sqlite_db \<Rightarrow> ('e + 'a) \<times> (nat \<times> sqlite_db)"

definition tx_return :: "'a \<Rightarrow> ('e, 'a) tx" where
  "tx_return x ctx st = (Inr x, st)"

definition tx_fail :: "'e \<Rightarrow> ('e, 'a) tx" where
  "tx_fail e ctx st = (Inl e, st)"

definition tx_bind :: "('e, 'a) tx \<Rightarrow> ('a \<Rightarrow> ('e, 'b) tx) \<Rightarrow> ('e, 'b) tx" where
  "tx_bind m k ctx st = (case m ctx st of (Inl e, st') \<Rightarrow> (Inl e, st') | (Inr x, st') \<Rightarrow> k x ctx st')"

definition tx_map_err :: "('e \<Rightarrow> 'f) \<Rightarrow> ('e, 'a) tx \<Rightarrow> ('f, 'a) tx" where
  "tx_map_err g m ctx st = (case m ctx st of (Inl e, st') \<Rightarrow> (Inl (g e), st') | (Inr x, st') \<Rightarrow> (Inr x, st'))"

text \<open>One call of the driver: a statement on the tables.\<close>

definition tx_stmt :: "(sqlite_db \<Rightarrow> (go_error + 'a) \<times> sqlite_db) \<Rightarrow> (go_error, 'a) tx" where
  "tx_stmt f ctx st =
     (case ctx (fst st) of
        Some e \<Rightarrow> (Inl (ErrExternal e), (Suc (fst st), snd st))
      | None \<Rightarrow> (case f (snd st) of (r, db') \<Rightarrow> (r, (Suc (fst st), db'))))"

definition tx_query :: "(sqlite_db \<Rightarrow> go_error + 'a) \<Rightarrow> (go_error, 'a) tx" where
  "tx_query f = tx_stmt (\<lambda>db. (f db, db))"

text \<open>
  The frame of every method: the context check (step 0), \<^verbatim>\<open>BeginTx\<close> (step 1), the body, \<^verbatim>\<open>Commit\<close>.
  Any error before the commit has returned runs the deferred \<^verbatim>\<open>rollback\<close>, which
  restores the tables as they were at \<^verbatim>\<open>BeginTx\<close>.
\<close>

definition with_tx ::
  "(go_error \<Rightarrow> 'e) \<Rightarrow> ('e, 'a) tx \<Rightarrow> ctx \<Rightarrow> sqlite_db \<Rightarrow> ('e + 'a) \<times> sqlite_db" where
  "with_tx lift body ctx db =
     (case ctx 0 of Some e \<Rightarrow> (Inl (lift (ErrExternal e)), db) | None \<Rightarrow>
        (case ctx 1 of Some e \<Rightarrow> (Inl (lift (ErrExternal e)), db) | None \<Rightarrow>
           (case body ctx (2, db) of
              (Inl e, st) \<Rightarrow> (Inl e, db)
            | (Inr x, (n, db')) \<Rightarrow>
                (case ctx n of Some e \<Rightarrow> (Inl (lift (ErrExternal e)), db) | None \<Rightarrow> (Inr x, db')))))"

section \<open>Conversions\<close>

definition rawJSONToNullString :: "string \<Rightarrow> string option" where
  "rawJSONToNullString raw = (if length raw = 0 then None else Some raw)"

text \<open>
  \<^verbatim>\<open>scanDocument\<close> on a row that was found; its \<^verbatim>\<open>sql.ErrNoRows\<close> branch is \<open>scan_first\<close> below.
  A time that does not parse is an error of the standard library, wrapped.
\<close>

definition scanDocument :: "doc_row \<Rightarrow> go_error + Document" where
  "scanDocument row =
     (let document = zero_Document
        \<lparr>d_ID := r_id row, d_SourceDocumentID := r_source_document_id row, d_Title := r_title row,
         d_Progress := \<lparr>pr_Done = r_progress_done row, pr_Total = r_progress_total row\<rparr>,
         d_Error := r_error row, d_Source := r_source row,
         d_SourceMeta := (case r_source_meta row of Some m \<Rightarrow> if m \<noteq> '''' then m else '''' | None \<Rightarrow> ''''),
         d_StorageBackend := r_storage_backend row,
         d_status := status_of_string (r_document_status row)\<rparr>
      in case parseTime (r_created_at row) of
           None \<Rightarrow> Inl (ErrWrap ''parse created_at: '' (ErrExternal (r_created_at row)) '''')
         | Some created \<Rightarrow>
             (case parseTime (r_updated_at row) of
                None \<Rightarrow> Inl (ErrWrap ''parse updated_at: '' (ErrExternal (r_updated_at row)) '''')
              | Some updated \<Rightarrow> Inr (document\<lparr>d_CreatedAt := created, d_UpdatedAt := updated\<rparr>)))"

definition scan_first :: "doc_row option \<Rightarrow> go_error + Document" where
  "scan_first row = (case row of None \<Rightarrow> Inl ErrNotFound | Some r \<Rightarrow> scanDocument r)"

text \<open>The values bound to the columns of a document, in \<^verbatim>\<open>INSERT\<close> and in \<^verbatim>\<open>UPDATE\<close>.\<close>

definition row_of_doc :: "Document \<Rightarrow> doc_row" where
  "row_of_doc document =
     \<lparr>r_id = d_ID document, r_source = d_Source document,
      r_source_document_id = d_SourceDocumentID document,
      r_source_meta = rawJSONToNullString (d_SourceMeta document), r_title = d_Title document,
      r_storage_backend = d_StorageBackend document,
      r_document_status = status_string (d_status document),
      r_progress_done = pr_Done (d_Progress document),
      r_progress_total = pr_Total (d_Progress document), r_error = d_Error document,
      r_created_at = formatTime (d_CreatedAt document),
      r_updated_at = formatTime (d_UpdatedAt document)\<rparr>"

definition page_of_row :: "page_row \<Rightarrow> Page" where
  "page_of_row w =
     \<lparr>pg_Index = w_page_index w, pg_Key = w_object_key w, pg_ContentType = w_content_type w,
      pg_Size = w_size w, pg_Hash = w_hash w\<rparr>"

definition row_of_page :: "int \<Rightarrow> Page \<Rightarrow> page_row" where
  "row_of_page i page =
     \<lparr>w_document_id = i, w_page_index = pg_Index page, w_object_key = pg_Key page,
      w_content_type = pg_ContentType page, w_size = pg_Size page, w_hash = pg_Hash page\<rparr>"

section \<open>Statements\<close>

text \<open>The status lists written in the SQL texts, and the two conditions on a row they express.\<close>

definition status_check :: "string \<Rightarrow> bool" where
  "status_check s \<longleftrightarrow>
     s \<in> {''queued'', ''resolving'', ''downloading'', ''archived'', ''failed'', ''deleted'', ''purged''}"

definition status_visible_sql :: "string \<Rightarrow> bool" where
  "status_visible_sql s \<longleftrightarrow> s \<in> {''queued'', ''resolving'', ''downloading'', ''archived'', ''failed''}"

definition sql_select_document :: "int \<Rightarrow> bool \<Rightarrow> sqlite_db \<Rightarrow> doc_row option" where
  "sql_select_document i visibleOnly db =
     find (\<lambda>r. r_id r = i \<and> (visibleOnly \<longrightarrow> status_visible_sql (r_document_status r)))
       (t_documents db)"

definition sql_select_identity :: "string \<Rightarrow> string \<Rightarrow> bool \<Rightarrow> sqlite_db \<Rightarrow> doc_row option" where
  "sql_select_identity src sid visibleOnly db =
     find (\<lambda>r. r_source r = src \<and> r_source_document_id r = sid
               \<and> (visibleOnly \<longrightarrow> status_visible_sql (r_document_status r)))
       (t_documents db)"

definition sql_select_pages :: "int \<Rightarrow> sqlite_db \<Rightarrow> page_row list" where
  "sql_select_pages i db =
     sort_key w_page_index (filter (\<lambda>w. w_document_id w = i) (t_document_pages db))"

definition sql_constraint :: "string \<Rightarrow> go_error" where
  "sql_constraint name = ErrExternal (''constraint failed: '' @ name)"

definition sql_insert_document :: "Document \<Rightarrow> sqlite_db \<Rightarrow> (go_error + int) \<times> sqlite_db" where
  "sql_insert_document document db =
     (let i = t_sequence db + 1; row = (row_of_doc document)\<lparr>r_id := i\<rparr> in
      if \<not> status_check (r_document_status row) then (Inl (sql_constraint ''CHECK''), db)
      else if (\<exists>r \<in> set (t_documents db). r_source r = r_source row
                 \<and> r_source_document_id r = r_source_document_id row)
      then (Inl (sql_constraint ''UNIQUE''), db)
      else (Inr i, db\<lparr>t_documents := t_documents db @ [row], t_sequence := i\<rparr>))"

definition sql_update_document :: "Document \<Rightarrow> sqlite_db \<Rightarrow> (go_error + int) \<times> sqlite_db" where
  "sql_update_document document db =
     (let row = row_of_doc document in
      if \<not> (\<exists>r \<in> set (t_documents db). r_id r = d_ID document) then (Inr 0, db)
      else if \<not> status_check (r_document_status row) then (Inl (sql_constraint ''CHECK''), db)
      else if (\<exists>r \<in> set (t_documents db). r_id r \<noteq> d_ID document \<and> r_source r = r_source row
                 \<and> r_source_document_id r = r_source_document_id row)
      then (Inl (sql_constraint ''UNIQUE''), db)
      else (Inr 1, db\<lparr>t_documents :=
                       map (\<lambda>r. if r_id r = d_ID document then row else r) (t_documents db)\<rparr>))"

definition sql_page_exists :: "int \<Rightarrow> int \<Rightarrow> sqlite_db \<Rightarrow> bool" where
  "sql_page_exists i index db =
     (\<exists>w \<in> set (t_document_pages db). w_document_id w = i \<and> w_page_index w = index)"

definition sql_insert_page :: "int \<Rightarrow> Page \<Rightarrow> sqlite_db \<Rightarrow> (go_error + unit) \<times> sqlite_db" where
  "sql_insert_page i page db =
     (if sql_page_exists i (pg_Index page) db then (Inl (sql_constraint ''PRIMARY KEY''), db)
      else if \<not> (\<exists>r \<in> set (t_documents db). r_id r = i)
      then (Inl (sql_constraint ''FOREIGN KEY''), db)
      else (Inr (), db\<lparr>t_document_pages := t_document_pages db @ [row_of_page i page]\<rparr>))"

definition sql_delete_page :: "int \<Rightarrow> int \<Rightarrow> sqlite_db \<Rightarrow> int \<times> sqlite_db" where
  "sql_delete_page i index db =
     (let hit = (\<lambda>w. w_document_id w = i \<and> w_page_index w = index) in
      (int (length (filter hit (t_document_pages db))),
       db\<lparr>t_document_pages := filter (\<lambda>w. \<not> hit w) (t_document_pages db)\<rparr>))"

definition sql_delete_pages :: "int \<Rightarrow> sqlite_db \<Rightarrow> int \<times> sqlite_db" where
  "sql_delete_pages i db =
     (int (length (filter (\<lambda>w. w_document_id w = i) (t_document_pages db))),
      db\<lparr>t_document_pages := filter (\<lambda>w. w_document_id w \<noteq> i) (t_document_pages db)\<rparr>)"

section \<open>Helpers on a transaction\<close>

text \<open>\<open>listPagesTx\<close>: the loop over the rows, from the slice built so far.\<close>

fun collect_pages :: "Page list \<Rightarrow> page_row list \<Rightarrow> go_error + Page list" where
  "collect_pages pages [] = Inr pages"
| "collect_pages pages (w # ws) =
     (if w_page_index w < 0 then Inl (GoPanic ''index out of range'')
      else
        (let n = nat (w_page_index w);
             grown = (if w_page_index w \<ge> int (length pages)
                      then pages @ replicate (nat (w_page_index w - int (length pages) + 1)) zero_Page
                      else pages)
         in collect_pages (grown[n := page_of_row w]) ws))"

definition listPagesTx :: "int \<Rightarrow> (go_error, Page list) tx" where
  "listPagesTx i = tx_query (\<lambda>db. collect_pages [] (sql_select_pages i db))"

definition getByQueryRow :: "(sqlite_db \<Rightarrow> doc_row option) \<Rightarrow> (go_error, Document) tx" where
  "getByQueryRow sel =
     tx_bind (tx_query (\<lambda>db. scan_first (sel db))) (\<lambda>document.
     tx_bind (listPagesTx (d_ID document)) (\<lambda>pages.
     tx_return (document\<lparr>d_Pages := pages\<rparr>)))"

definition getTx :: "int \<Rightarrow> bool \<Rightarrow> (go_error, Document) tx" where
  "getTx i visibleOnly = getByQueryRow (sql_select_document i visibleOnly)"

definition getBySourceDocumentIDTx :: "string \<Rightarrow> string \<Rightarrow> bool \<Rightarrow> (go_error, Document) tx" where
  "getBySourceDocumentIDTx src sid visibleOnly = getByQueryRow (sql_select_identity src sid visibleOnly)"

definition updateDocumentTx :: "Document \<Rightarrow> (go_error, unit) tx" where
  "updateDocumentTx document =
     tx_bind (tx_stmt (sql_update_document document)) (\<lambda>affected.
     if affected = 0 then tx_fail ErrNotFound else tx_return ())"

definition updateMeta :: "utc_time \<Rightarrow> int \<Rightarrow> meta_fn \<Rightarrow> (go_error, Document) tx" where
  "updateMeta now i fn =
     tx_bind (getTx i True) (\<lambda>document.
       case fn (extractDocumentMeta document) of
         Inl e \<Rightarrow> tx_fail e
       | Inr meta \<Rightarrow>
           (let document' = (fillDocumentMeta document meta)\<lparr>d_UpdatedAt := now\<rparr> in
            tx_bind (updateDocumentTx document') (\<lambda>_. tx_return document')))"

text \<open>The callbacks the store itself passes to \<open>updateMeta\<close>.\<close>

definition meta_page_added :: meta_fn where
  "meta_page_added meta = Inr (meta\<lparr>m_Progress := progress_add (m_Progress meta)\<rparr>)"

definition meta_page_removed :: meta_fn where
  "meta_page_removed meta = Inr (meta\<lparr>m_Progress := progress_remove (m_Progress meta)\<rparr>)"

definition meta_pages_reset :: meta_fn where
  "meta_pages_reset meta = Inr (meta\<lparr>m_Progress := (m_Progress meta)\<lparr>pr_Done := 0\<rparr>\<rparr>)"

definition addPage_tx :: "utc_time \<Rightarrow> int \<Rightarrow> Page \<Rightarrow> (go_error, unit) tx" where
  "addPage_tx now i page =
     (if pg_Index page < 0
      then tx_fail (ErrText (''invalid page index: '' @ Itoa (pg_Index page)))
      else
        tx_bind (tx_query (\<lambda>db. Inr (sql_page_exists i (pg_Index page) db))) (\<lambda>found.
        if found then tx_fail (ErrPageAlreadyExists i (pg_Index page))
        else
          tx_bind (updateMeta now i meta_page_added) (\<lambda>_.
          tx_stmt (sql_insert_page i page))))"

definition removePage_tx :: "utc_time \<Rightarrow> int \<Rightarrow> int \<Rightarrow> (go_error, unit) tx" where
  "removePage_tx now i pageIndex =
     tx_bind (tx_stmt (\<lambda>db. let (cnt, db') = sql_delete_page i pageIndex db in (Inr cnt, db')))
       (\<lambda>cnt. if cnt = 0 then tx_fail ErrPageNotFound
              else tx_bind (updateMeta now i meta_page_removed) (\<lambda>_. tx_return ()))"

section \<open>The methods\<close>

abbreviation plain_tx :: "(go_error, 'a) tx \<Rightarrow> ctx \<Rightarrow> sqlite_db \<Rightarrow> (go_error + 'a) \<times> sqlite_db" where
  "plain_tx \<equiv> with_tx (\<lambda>e. e)"

definition no_doc :: "go_error \<Rightarrow> go_error \<times> Document" where
  "no_doc e = (e, zero_Document)"

text \<open>Running a computation and looking at its error, as the \<^verbatim>\<open>switch\<close> at the start of \<open>Create\<close> does.\<close>

definition tx_try :: "('e, 'a) tx \<Rightarrow> ('f, 'e + 'a) tx" where
  "tx_try m ctx st = (case m ctx st of (r, st') \<Rightarrow> (Inr r, st'))"

fun create_pages_tx :: "utc_time \<Rightarrow> int \<Rightarrow> int \<Rightarrow> Page list \<Rightarrow> (go_error, unit) tx" where
  "create_pages_tx now i index [] = tx_return ()"
| "create_pages_tx now i index (page # pages) =
     (if index \<noteq> pg_Index page
      then tx_fail (ErrText (''page index mismatch: expected '' @ Itoa index @ '', got ''
                             @ Itoa (pg_Index page)))
      else
        tx_bind (tx_map_err (\<lambda>e. NewIndexedError (Some e) index) (addPage_tx now i page)) (\<lambda>_.
        create_pages_tx now i (index + 1) pages))"

definition create_tx :: "utc_time \<Rightarrow> Document \<Rightarrow> (go_error \<times> Document, Document) tx" where
  "create_tx now document =
     tx_bind (tx_try (getBySourceDocumentIDTx (d_Source document) (d_SourceDocumentID document) False))
       (\<lambda>existing. case existing of
          Inr d \<Rightarrow> tx_fail (ErrAlreadyExists, d)
        | Inl e \<Rightarrow>
            (if \<not> errors_Is e ErrNotFound then tx_fail (no_doc e)
             else
               (let pages = d_Pages document;
                    document1 = document\<lparr>d_CreatedAt := now, d_UpdatedAt := now,
                                         d_status := StatusQueued, d_Pages := [],
                                         d_Progress := (d_Progress document)\<lparr>pr_Done := 0\<rparr>\<rparr>
                in tx_map_err no_doc
                     (tx_bind (tx_stmt (sql_insert_document document1)) (\<lambda>i.
                      tx_bind (create_pages_tx now i 0 pages) (\<lambda>_.
                      getTx i False))))))"

definition SQLiteStore_Create ::
  "ctx \<Rightarrow> utc_time \<Rightarrow> Document \<Rightarrow> sqlite_db \<Rightarrow> (go_error \<times> Document + Document) \<times> sqlite_db" where
  "SQLiteStore_Create ctx now document = with_tx no_doc (create_tx now document) ctx"

definition SQLiteStore_Get :: "ctx \<Rightarrow> int \<Rightarrow> sqlite_db \<Rightarrow> go_error + Document" where
  "SQLiteStore_Get ctx i db = fst (plain_tx (getTx i True) ctx db)"

definition SQLiteStore_Delete ::
  "ctx \<Rightarrow> utc_time \<Rightarrow> int \<Rightarrow> sqlite_db \<Rightarrow> (go_error + Document) \<times> sqlite_db" where
  "SQLiteStore_Delete ctx now i =
     plain_tx (tx_bind (getTx i True) (\<lambda>document.
       if \<not> canTransitionDocumentStatus (d_status document) StatusDeleted
       then tx_fail (ErrInvalidStatusTransition (d_status document) StatusDeleted)
       else
         (let document' = document\<lparr>d_status := StatusDeleted, d_UpdatedAt := now\<rparr> in
          tx_bind (updateDocumentTx document') (\<lambda>_. tx_return document')))) ctx"

definition SQLiteStore_UpdateMeta ::
  "ctx \<Rightarrow> utc_time \<Rightarrow> int \<Rightarrow> meta_fn option \<Rightarrow> sqlite_db \<Rightarrow> (go_error + Document) \<times> sqlite_db" where
  "SQLiteStore_UpdateMeta ctx now i fn db =
     (case ctx 0 of Some e \<Rightarrow> (Inl (ErrExternal e), db) | None \<Rightarrow>
        (case fn of
           None \<Rightarrow> (Inl (ErrText ''document update callback is required''), db)
         | Some f \<Rightarrow> plain_tx (updateMeta now i f) ctx db))"

definition SQLiteStore_AddPage ::
  "ctx \<Rightarrow> utc_time \<Rightarrow> int \<Rightarrow> Page \<Rightarrow> sqlite_db \<Rightarrow> (go_error + unit) \<times> sqlite_db" where
  "SQLiteStore_AddPage ctx now i page = plain_tx (addPage_tx now i page) ctx"

definition SQLiteStore_RemovePage ::
  "ctx \<Rightarrow> utc_time \<Rightarrow> int \<Rightarrow> int \<Rightarrow> sqlite_db \<Rightarrow> (go_error + unit) \<times> sqlite_db" where
  "SQLiteStore_RemovePage ctx now i pageIndex = plain_tx (removePage_tx now i pageIndex) ctx"

definition SQLiteStore_Purge ::
  "ctx \<Rightarrow> utc_time \<Rightarrow> int \<Rightarrow> sqlite_db \<Rightarrow> (go_error + int) \<times> sqlite_db" where
  "SQLiteStore_Purge ctx now i =
     plain_tx (tx_bind (getTx i False) (\<lambda>document.
       if \<not> canTransitionDocumentStatus (d_status document) StatusPurged
       then tx_fail (ErrInvalidStatusTransition (d_status document) StatusPurged)
       else
         tx_bind (tx_stmt (\<lambda>db. let (cnt, db') = sql_delete_pages i db in (Inr cnt, db'))) (\<lambda>affected.
         let document' = document\<lparr>d_Pages := [], d_Progress := \<lparr>pr_Done = 0, pr_Total = 0\<rparr>,
                                  d_status := StatusPurged, d_UpdatedAt := now\<rparr> in
         tx_bind (updateDocumentTx document') (\<lambda>_. tx_return affected)))) ctx"

definition SQLiteStore_Restore ::
  "ctx \<Rightarrow> utc_time \<Rightarrow> int \<Rightarrow> sqlite_db \<Rightarrow> (go_error + Document) \<times> sqlite_db" where
  "SQLiteStore_Restore ctx now i =
     plain_tx (tx_bind (getTx i False) (\<lambda>document.
       if d_status document = StatusDeleted \<or> d_status document = StatusPurged
       then
         (let document' = document\<lparr>d_status := StatusQueued, d_UpdatedAt := now\<rparr> in
          tx_bind (updateDocumentTx document') (\<lambda>_. tx_return document'))
       else tx_fail (ErrInvalidStatusTransition (d_status document) StatusQueued))) ctx"

definition SQLiteStore_ResetPages ::
  "ctx \<Rightarrow> utc_time \<Rightarrow> int \<Rightarrow> sqlite_db \<Rightarrow> (go_error + Document) \<times> sqlite_db" where
  "SQLiteStore_ResetPages ctx now i =
     plain_tx (tx_bind (getTx i True) (\<lambda>_.
       tx_bind (tx_stmt (\<lambda>db. let (cnt, db') = sql_delete_pages i db in (Inr cnt, db'))) (\<lambda>_.
       tx_bind (updateMeta now i meta_pages_reset) (\<lambda>document.
       tx_return (document\<lparr>d_Pages := []\<rparr>))))) ctx"

definition SQLiteStore_TransitionTo ::
  "ctx \<Rightarrow> utc_time \<Rightarrow> int \<Rightarrow> DocumentStatus \<Rightarrow> sqlite_db \<Rightarrow> (go_error + unit) \<times> sqlite_db" where
  "SQLiteStore_TransitionTo ctx now i newStatus =
     plain_tx (tx_bind (getTx i False) (\<lambda>document.
       if \<not> canTransitionDocumentStatus (d_status document) newStatus
       then tx_fail (ErrInvalidStatusTransition (d_status document) newStatus)
       else
         (case (if newStatus = StatusPurged then validatePurgedDocumentState document else None) of
            Some e \<Rightarrow> tx_fail e
          | None \<Rightarrow> updateDocumentTx (document\<lparr>d_status := newStatus, d_UpdatedAt := now\<rparr>)))) ctx"

section \<open>Query\<close>

definition row_matches :: "DocumentQuery \<Rightarrow> doc_row \<Rightarrow> bool" where
  "row_matches query r \<longleftrightarrow>
     (case q_status query of
        Some status \<Rightarrow> r_document_status r = status_string status
      | None \<Rightarrow> status_visible_sql (r_document_status r)) \<and>
     (case q_source query of
        None \<Rightarrow> True
      | Some src \<Rightarrow> r_source r = src \<and> q_sourceDocumentID query = Some (r_source_document_id r))"

definition row_less :: "DocumentQuery \<Rightarrow> doc_row \<Rightarrow> doc_row \<Rightarrow> bool" where
  "row_less query =
     (if q_orderBy query = ''created_at'' then key_less (q_order query = ''DESC'') r_created_at
      else if q_orderBy query = ''updated_at'' then key_less (q_order query = ''DESC'') r_updated_at
      else key_less (q_order query = ''DESC'') r_id)"

text \<open>
  The \<^verbatim>\<open>SELECT\<close> that \<open>query\<close> builds.  SQL leaves open in which order rows with equal sort keys
  come out; \<open>plan\<close> is the order in which the engine visits the matching rows.  Without a
  positive limit the text says \<^verbatim>\<open>LIMIT -1\<close>, which is no limit.
\<close>

definition sql_select_documents ::
  "(doc_row list \<Rightarrow> doc_row list) \<Rightarrow> DocumentQuery \<Rightarrow> sqlite_db \<Rightarrow> doc_row list" where
  "sql_select_documents plan query db =
     (let hits = SliceStable (row_less query) (plan (filter (row_matches query) (t_documents db)));
          from = (if q_offset query > 0 then drop (nat (q_offset query)) hits else hits)
      in if q_limit query > 0 then take (nat (q_limit query)) from else from)"

fun scan_all :: "doc_row list \<Rightarrow> go_error + Document list" where
  "scan_all [] = Inr []"
| "scan_all (r # rs) =
     (case scanDocument r of Inl e \<Rightarrow> Inl e
      | Inr d \<Rightarrow> (case scan_all rs of Inl e \<Rightarrow> Inl e | Inr ds \<Rightarrow> Inr (d # ds)))"

fun attach_pages :: "Document list \<Rightarrow> (go_error, Document list) tx" where
  "attach_pages [] = tx_return []"
| "attach_pages (d # ds) =
     tx_bind (listPagesTx (d_ID d)) (\<lambda>pages.
     tx_bind (attach_pages ds) (\<lambda>rest. tx_return (d\<lparr>d_Pages := pages\<rparr> # rest)))"

definition query_tx ::
  "(doc_row list \<Rightarrow> doc_row list) \<Rightarrow> DocumentQuery \<Rightarrow> (go_error, Document list) tx" where
  "query_tx plan query =
     (if q_source query \<noteq> None \<and> q_sourceDocumentID query = None
      then tx_fail (GoPanic ''invalid memory address or nil pointer dereference'')
      else
        tx_bind (tx_query (\<lambda>db. Inr (sql_select_documents plan query db))) (\<lambda>rows.
        if \<not> limit_in_range query then tx_fail (GoPanic ''makeslice: cap out of range'')
        else tx_bind (tx_query (\<lambda>db. scan_all rows)) attach_pages))"

definition SQLiteStore_Query ::
  "(doc_row list \<Rightarrow> doc_row list) \<Rightarrow> ctx \<Rightarrow> DocumentQuery \<Rightarrow> sqlite_db \<Rightarrow> go_error + Document list"
where
  "SQLiteStore_Query plan ctx query db = fst (plain_tx (query_tx plan query) ctx db)"

definition sqlite_store :: "(doc_row list \<Rightarrow> doc_row list) \<Rightarrow> sqlite_db Store" where
  "sqlite_store plan =
     \<lparr>st_Create = SQLiteStore_Create, st_Get = SQLiteStore_Get, st_Delete = SQLiteStore_Delete,
      st_Purge = SQLiteStore_Purge, st_Restore = SQLiteStore_Restore,
      st_ResetPages = SQLiteStore_ResetPages, st_UpdateMeta = SQLiteStore_UpdateMeta,
      st_TransitionTo = SQLiteStore_TransitionTo, st_AddPage = SQLiteStore_AddPage,
      st_RemovePage = SQLiteStore_RemovePage, st_Query = SQLiteStore_Query plan\<rparr>"

end
