(* ===== verification/SqlRefine.thy ===== *)
theory SqlRefine
  imports SqlStore
begin

text \<open>
  \<open>SQLiteStore\<close> meets the contract \<open>document_store\<close>: the tables are read as a map from ids to
  documents by \<open>sql_view\<close>, and every method refines the transformer of its document under the
  table invariant \<open>sql_invar\<close>.  The first part says how a failing database call can change a
  transaction (it only turns the result into an error), the second relates rows to documents and
  page rows to page slices, the third goes through the methods.
\<close>

lemma option_eqI: "(\<And>x. a = Some x \<longleftrightarrow> b = Some x) \<Longrightarrow> a = b"
  by (cases a; cases b) auto

section \<open>Failing calls\<close>

lemma tx_background [simp]:
  "tx_stmt f background (n, db) = (fst (f db), (Suc n, snd (f db)))"
  "tx_query g background (n, db) = (g db, (Suc n, db))"
  by (simp_all add: tx_stmt_def tx_query_def background_def split: prod.splits)

lemma tx_basic [simp]:
  "tx_return x ctx st = (Inr x, st)"
  "tx_fail e ctx st = (Inl e, st)"
  by (simp_all add: tx_return_def tx_fail_def)

lemma live_iff: "live ctx \<longleftrightarrow> ctx = background"
  by (auto simp: live_def background_def)

text \<open>
  A computation meets failing calls soberly when it either does what it does without failures, or
  ends in an error of the given kind.
\<close>

definition tx_faults :: "('e \<Rightarrow> bool) \<Rightarrow> ('e, 'a) tx \<Rightarrow> bool" where
  "tx_faults P m \<longleftrightarrow>
     (\<forall>ctx st. m ctx st = m background st \<or> (\<exists>e st'. P e \<and> m ctx st = (Inl e, st')))"

definition external :: "go_error \<Rightarrow> bool" where
  "external e \<longleftrightarrow> (\<exists>s. e = ErrExternal s)"

lemma external_ErrExternal [simp]: "external (ErrExternal s)"
  by (simp add: external_def)

lemma tx_faults_return [simp, intro]: "tx_faults P (tx_return x)"
  by (simp add: tx_faults_def)

lemma tx_faults_fail [simp, intro]: "tx_faults P (tx_fail e)"
  by (simp add: tx_faults_def)

lemma tx_faults_stmt [simp, intro]: "(\<And>s. P (ErrExternal s)) \<Longrightarrow> tx_faults P (tx_stmt f)"
  by (auto simp: tx_faults_def tx_stmt_def background_def split: option.splits)

lemma tx_faults_query [simp, intro]: "(\<And>s. P (ErrExternal s)) \<Longrightarrow> tx_faults P (tx_query f)"
  by (simp add: tx_query_def)

lemma tx_faults_bind [intro]:
  assumes "tx_faults P m" "\<And>x. tx_faults P (k x)"
  shows "tx_faults P (tx_bind m k)"
  unfolding tx_faults_def
proof (intro allI)
  fix ctx st
  consider (fault) e st' where "P e" "m ctx st = (Inl e, st')"
    | (same) "m ctx st = m background st"
    using assms(1) unfolding tx_faults_def by blast
  then show "tx_bind m k ctx st = tx_bind m k background st \<or>
      (\<exists>e st'. P e \<and> tx_bind m k ctx st = (Inl e, st'))"
  proof cases
    case fault
    then show ?thesis by (simp add: tx_bind_def)
  next
    case same
    then show ?thesis
      using assms(2) unfolding tx_faults_def
      by (cases "m background st") (auto simp: tx_bind_def split: sum.splits)
  qed
qed

lemma tx_faults_map_err [intro]:
  "tx_faults P m \<Longrightarrow> (\<And>e. P e \<Longrightarrow> Q (g e)) \<Longrightarrow> tx_faults Q (tx_map_err g m)"
  unfolding tx_faults_def
proof (intro allI)
  fix ctx st
  assume m: "\<forall>ctx st. m ctx st = m background st \<or> (\<exists>e st'. P e \<and> m ctx st = (Inl e, st'))"
    and g: "\<And>e. P e \<Longrightarrow> Q (g e)"
  show "tx_map_err g m ctx st = tx_map_err g m background st \<or>
      (\<exists>e st'. Q e \<and> tx_map_err g m ctx st = (Inl e, st'))"
    using m [rule_format, of ctx st] g by (auto simp: tx_map_err_def)
qed

lemma tx_faults_mono: "tx_faults P m \<Longrightarrow> (\<And>e. P e \<Longrightarrow> Q e) \<Longrightarrow> tx_faults Q m"
  unfolding tx_faults_def by blast

text \<open>A whole method: what it commits is what it commits without failures.\<close>

lemma with_tx_cases:
  assumes "tx_faults P body"
  shows "(\<exists>e. with_tx lift body ctx db = (Inl e, db)) \<or>
         with_tx lift body ctx db = with_tx lift body background db"
proof (cases "body ctx (2, db) = body background (2, db)")
  case True
  then show ?thesis
    by (auto simp: with_tx_def background_def split: option.splits sum.splits prod.splits)
next
  case False
  with assms obtain e st' where "body ctx (2, db) = (Inl e, st')"
    unfolding tx_faults_def by blast
  then show ?thesis by (auto simp: with_tx_def split: option.splits)
qed

lemma with_tx_Inl: "with_tx lift body ctx db = (Inl e, db') \<Longrightarrow> db' = db"
  by (auto simp: with_tx_def split: option.splits prod.splits sum.splits)

lemma with_tx_background:
  "with_tx lift body background db =
     (case body background (2, db) of (Inl e, st) \<Rightarrow> (Inl e, db) | (Inr x, st) \<Rightarrow> (Inr x, snd st))"
  by (simp add: with_tx_def background_def split: prod.splits sum.splits)

section \<open>Rows and documents\<close>

definition row_ok :: "doc_row \<Rightarrow> bool" where
  "row_ok r \<longleftrightarrow>
     (\<exists>d. isKnownDocumentStatus (d_status d) \<and> valid_time (d_CreatedAt d) \<and>
          valid_time (d_UpdatedAt d) \<and> r = row_of_doc d)"

lemma scanDocument_row_of_doc:
  "isKnownDocumentStatus (d_status d) \<Longrightarrow> valid_time (d_CreatedAt d) \<Longrightarrow> valid_time (d_UpdatedAt d)
    \<Longrightarrow> scanDocument (row_of_doc d) = Inr (d\<lparr>d_Pages := []\<rparr>)"
  by (cases d) (auto simp: scanDocument_def row_of_doc_def rawJSONToNullString_def
      parseTime_formatTime zero_Document_def Let_def)

lemma row_of_doc_sel [simp]:
  "r_id (row_of_doc d) = d_ID d"
  "r_source (row_of_doc d) = d_Source d"
  "r_source_document_id (row_of_doc d) = d_SourceDocumentID d"
  "r_document_status (row_of_doc d) = status_string (d_status d)"
  "r_created_at (row_of_doc d) = formatTime (d_CreatedAt d)"
  "r_updated_at (row_of_doc d) = formatTime (d_UpdatedAt d)"
  by (simp_all add: row_of_doc_def)

lemma row_of_doc_pages [simp]: "row_of_doc (d\<lparr>d_Pages := ps\<rparr>) = row_of_doc d"
  by (simp add: row_of_doc_def)

lemma row_ok_scan:
  "row_ok r \<Longrightarrow> \<exists>d. scanDocument r = Inr d \<and> row_of_doc d = r \<and> isKnownDocumentStatus (d_status d)
     \<and> d_ID d = r_id r \<and> d_Pages d = []"
  unfolding row_ok_def using scanDocument_row_of_doc by fastforce

lemma status_check_known: "isKnownDocumentStatus st \<Longrightarrow> status_check (status_string st)"
  by (cases st) (simp_all add: status_check_def)

lemma status_visible_sql_iff:
  "isKnownDocumentStatus st \<Longrightarrow> status_visible_sql (status_string st) \<longleftrightarrow> isVisibleDocumentStatus st"
  by (cases st) (simp_all add: status_visible_sql_def)

definition doc_rows_ok :: "doc_row list \<Rightarrow> int \<Rightarrow> bool" where
  "doc_rows_ok rs sequence \<longleftrightarrow>
     sorted_wrt (<) (map r_id rs) \<and>
     distinct (map (\<lambda>r. (r_source r, r_source_document_id r)) rs) \<and>
     0 \<le> sequence \<and> (\<forall>r \<in> set rs. 1 \<le> r_id r \<and> r_id r \<le> sequence \<and> row_ok r)"

definition page_rows_ok :: "page_row list \<Rightarrow> bool" where
  "page_rows_ok ws \<longleftrightarrow>
     (\<forall>w \<in> set ws. 0 \<le> w_page_index w \<and> w_object_key w \<noteq> '''') \<and>
     distinct (map (\<lambda>w. (w_document_id w, w_page_index w)) ws)"

definition db_ok :: "sqlite_db \<Rightarrow> bool" where
  "db_ok db \<longleftrightarrow>
     doc_rows_ok (t_documents db) (t_sequence db) \<and> page_rows_ok (t_document_pages db) \<and>
     w_document_id ` set (t_document_pages db) \<subseteq> r_id ` set (t_documents db)"

definition doc_view :: "sqlite_db \<Rightarrow> docmap" where
  "doc_view db i =
     (case find (\<lambda>r. r_id r = i) (t_documents db) of
        None \<Rightarrow> None
      | Some r \<Rightarrow> (case scanDocument r of Inl e \<Rightarrow> None | Inr d \<Rightarrow> Some d))"

definition page_view :: "sqlite_db \<Rightarrow> int \<Rightarrow> Page list" where
  "page_view db i = (case collect_pages [] (sql_select_pages i db) of Inl e \<Rightarrow> [] | Inr ps \<Rightarrow> ps)"

definition sql_view :: "sqlite_db \<Rightarrow> docmap" where
  "sql_view db i = map_option (\<lambda>d. d\<lparr>d_Pages := page_view db i\<rparr>) (doc_view db i)"

definition sql_invar :: "sqlite_db \<Rightarrow> bool" where
  "sql_invar db \<longleftrightarrow> db_ok db \<and> store_wf (sql_view db)"

section \<open>Page slots\<close>

text \<open>A page slice as the map from indices to the pages present; a well-formed slice is
  determined by this map.\<close>

definition slot :: "Page list \<Rightarrow> int \<Rightarrow> Page option" where
  "slot ps k = (if slot_taken ps k then Some (ps ! nat k) else None)"

lemma slot_Nil [simp]: "slot [] k = None"
  by (simp add: slot_def slot_taken_def in_range_def)

lemma slot_taken_iff: "slot_taken ps k \<longleftrightarrow> slot ps k \<noteq> None"
  by (simp add: slot_def)

lemma slot_grow:
  "pageSlotExists page (int n) \<Longrightarrow>
   slot ((growPages ps n)[n := page]) = (slot ps)(int n \<mapsto> page)"
  by (auto simp: fun_eq_iff slot_def slot_taken_def in_range_def nth_list_update nth_growPages
      nat_eq_iff2 nat_less_iff max_def split: if_splits)

lemma slot_clear:
  "n < length ps \<Longrightarrow> slot (ps[n := zero_Page]) = (slot ps)(int n := None)"
  by (auto simp: fun_eq_iff slot_def slot_taken_def in_range_def nth_list_update nat_eq_iff2)

lemma slot_butlast:
  assumes "ps \<noteq> []" "\<not> pageSlotExists (last ps) (int (length ps) - 1)"
  shows "slot (butlast ps) = slot ps"
proof
  fix k
  show "slot (butlast ps) k = slot ps k"
  proof (cases "k = int (length ps) - 1")
    case True
    then have "nat k = length ps - 1" by simp
    then have "ps ! nat k = last ps" using assms(1) by (simp add: last_conv_nth)
    moreover have "\<not> in_range k (butlast ps)"
      using True assms(1) by (cases ps) (auto simp: in_range_def)
    ultimately show ?thesis using True assms(2) by (auto simp: slot_def slot_taken_def)
  next
    case False
    then have "in_range k (butlast ps) \<longleftrightarrow> in_range k ps"
      using assms(1) by (cases ps) (auto simp: in_range_def)
    moreover have "butlast ps ! nat k = ps ! nat k" if "in_range k (butlast ps)"
      using in_range_nat [OF that] by (simp add: nth_butlast)
    ultimately show ?thesis by (auto simp: slot_def slot_taken_def)
  qed
qed

lemma slot_trim [simp]: "slot (trimPages ps) = slot ps"
proof (induction ps rule: trimPages.induct)
  case (1 ps)
  then show ?case
    by (subst trimPages.simps) (auto simp: slot_butlast)
qed

lemma pages_wf_length:
  assumes "pages_wf ps"
  shows "int (length ps) = (if \<forall>k. slot ps k = None then 0 else 1 + (GREATEST k. slot ps k \<noteq> None))"
proof (cases "ps = []")
  case False
  let ?k = "int (length ps) - 1"
  have nk: "nat ?k = length ps - 1" using False by simp
  have "slot ps ?k \<noteq> None"
    using assms False nk by (auto simp: slot_def slot_taken_def in_range_def pages_wf_def last_conv_nth)
  moreover have "k \<le> ?k" if "slot ps k \<noteq> None" for k
    using that by (auto simp: slot_def slot_taken_def in_range_def split: if_splits)
  ultimately have "(GREATEST k. slot ps k \<noteq> None) = ?k" by (intro Greatest_equality) auto
  with \<open>slot ps ?k \<noteq> None\<close> show ?thesis by auto
qed simp

lemma pages_wf_nth:
  "pages_wf ps \<Longrightarrow> i < length ps \<Longrightarrow>
   ps ! i = (case slot ps (int i) of None \<Rightarrow> zero_Page | Some p \<Rightarrow> p)"
  by (auto simp: pages_wf_def slot_def slot_taken_def in_range_def)

lemma pages_wf_ext:
  assumes "pages_wf ps" "pages_wf qs" "slot ps = slot qs"
  shows "ps = qs"
proof (rule nth_equalityI)
  show "length ps = length qs"
    using pages_wf_length [OF assms(1)] pages_wf_length [OF assms(2)]
    unfolding assms(3) by (metis of_nat_eq_iff)
  then show "ps ! i = qs ! i" if "i < length ps" for i
    using that pages_wf_nth [OF assms(1), of i] pages_wf_nth [OF assms(2), of i] assms(3) by simp
qed

text \<open>What \<open>listPagesTx\<close> builds from the rows of a document.\<close>

lemma collect_pages_spec:
  "\<forall>w \<in> set ws. 0 \<le> w_page_index w \<and> w_object_key w \<noteq> '''' \<Longrightarrow> pages_wf ps \<Longrightarrow>
   \<exists>qs. collect_pages ps ws = Inr qs \<and> pages_wf qs \<and>
        slot qs = slot ps ++ map_of (rev (map (\<lambda>w. (w_page_index w, page_of_row w)) ws))"
proof (induction ws arbitrary: ps)
  case (Cons w ws)
  let ?n = "nat (w_page_index w)"
  let ?ps = "(growPages ps ?n)[?n := page_of_row w]"
  have w: "0 \<le> w_page_index w" "pageSlotExists (page_of_row w) (int ?n)"
    using Cons.prems(1) by (simp_all add: pageSlotExists_def page_of_row_def)
  have grown: "(if w_page_index w \<ge> int (length ps)
      then ps @ replicate (nat (w_page_index w - int (length ps) + 1)) zero_Page else ps)
      = growPages ps ?n"
    using w(1) by (auto simp: growPages_def intro!: arg_cong [where f = "\<lambda>m. replicate m zero_Page"])
  have "pages_wf ?ps" using Cons.prems(2) w(2) by (rule pages_wf_add)
  with Cons obtain qs where "collect_pages ?ps ws = Inr qs" "pages_wf qs"
      "slot qs = slot ?ps ++ map_of (rev (map (\<lambda>w. (w_page_index w, page_of_row w)) ws))"
    by force
  moreover have "collect_pages ps (w # ws) = collect_pages ?ps ws"
    using w(1) grown by (simp add: Let_def)
  ultimately show ?case using slot_grow [OF w(2)] w(1) by (simp del: collect_pages.simps)
qed simp

lemma distinct_page_rows:
  "distinct (map (\<lambda>w. (w_document_id w, w_page_index w)) ws) \<Longrightarrow>
   distinct (map w_page_index (filter (\<lambda>w. w_document_id w = i) ws))"
  by (induction ws) (auto simp: image_iff)

lemma page_view_wf: "page_rows_ok (t_document_pages db) \<Longrightarrow> pages_wf (page_view db i)"
  and page_view_Inr: "page_rows_ok (t_document_pages db) \<Longrightarrow>
    collect_pages [] (sql_select_pages i db) = Inr (page_view db i)"
  and page_view_slot: "page_rows_ok (t_document_pages db) \<Longrightarrow>
    slot (page_view db i) k = Some p \<longleftrightarrow>
      (\<exists>w \<in> set (t_document_pages db). w_document_id w = i \<and> w_page_index w = k \<and> p = page_of_row w)"
proof -
  assume ok: "page_rows_ok (t_document_pages db)"
  let ?ws = "sql_select_pages i db"
  have sub: "set ?ws = {w \<in> set (t_document_pages db). w_document_id w = i}"
    by (auto simp: sql_select_pages_def)
  have "distinct (map w_page_index (filter (\<lambda>w. w_document_id w = i) (t_document_pages db)))"
    using ok by (simp add: page_rows_ok_def distinct_page_rows)
  then have "distinct (map w_page_index ?ws)"
    by (simp add: sql_select_pages_def distinct_map)
  then have dist: "distinct (map fst (rev (map (\<lambda>w. (w_page_index w, page_of_row w)) ?ws)))"
    by (simp add: comp_def rev_map [symmetric])
  obtain qs where qs: "collect_pages [] ?ws = Inr qs" "pages_wf qs"
      "slot qs = slot [] ++ map_of (rev (map (\<lambda>w. (w_page_index w, page_of_row w)) ?ws))"
    using collect_pages_spec [of ?ws "[]"] ok sub by (auto simp: page_rows_ok_def)
  then have pv: "page_view db i = qs" by (simp add: page_view_def)
  show "pages_wf (page_view db i)" "collect_pages [] ?ws = Inr (page_view db i)"
    using qs pv by simp_all
  have "slot qs = map_of (rev (map (\<lambda>w. (w_page_index w, page_of_row w)) ?ws))"
    using qs(3) by (simp add: fun_eq_iff map_add_def split: option.splits)
  then show "slot (page_view db i) k = Some p \<longleftrightarrow>
      (\<exists>w \<in> set (t_document_pages db). w_document_id w = i \<and> w_page_index w = k \<and> p = page_of_row w)"
    using dist sub by (auto simp: pv map_of_eq_Some_iff simp del: map_map)
qed

lemma slot_taken_page_view:
  "page_rows_ok (t_document_pages db) \<Longrightarrow> slot_taken (page_view db i) k \<longleftrightarrow> sql_page_exists i k db"
  using page_view_slot [of db i k]
  by (auto simp: slot_taken_iff sql_page_exists_def)

lemma page_view_cong:
  "t_document_pages db = t_document_pages db' \<Longrightarrow> page_view db i = page_view db' i"
  by (simp add: page_view_def sql_select_pages_def)

section \<open>Reading a document\<close>

lemma find_distinct_key:
  "distinct (map key xs) \<Longrightarrow>
   find (\<lambda>r. key r = i \<and> Q r) xs =
     (case find (\<lambda>r. key r = i) xs of None \<Rightarrow> None | Some r \<Rightarrow> if Q r then Some r else None)"
proof (induction xs)
  case (Cons x xs)
  have "find (\<lambda>r. key r = i \<and> Q r) xs = None" if "key x = i"
    using Cons.prems that by (auto simp: find_None_iff image_iff)
  with Cons show ?case by auto
qed simp

lemma find_key_Some:
  "distinct (map key xs) \<Longrightarrow> find (\<lambda>r. key r = i) xs = Some x \<longleftrightarrow> x \<in> set xs \<and> key x = i"
  by (induction xs) (auto simp: image_iff)

lemma doc_rows_distinct: "doc_rows_ok rs n \<Longrightarrow> distinct (map r_id rs)"
  by (auto simp: doc_rows_ok_def strict_sorted_iff)

lemma row_of_doc_view:
  assumes "db_ok db" "r \<in> set (t_documents db)"
  shows "\<exists>d. doc_view db (r_id r) = Some d \<and> row_of_doc d = r \<and> scanDocument r = Inr d
     \<and> isKnownDocumentStatus (d_status d) \<and> d_ID d = r_id r \<and> d_Pages d = []"
proof -
  have rs: "doc_rows_ok (t_documents db) (t_sequence db)" using assms(1) by (simp add: db_ok_def)
  have "find (\<lambda>x. r_id x = r_id r) (t_documents db) = Some r"
    using assms(2) by (simp add: find_key_Some [OF doc_rows_distinct [OF rs]])
  moreover have "row_ok r" using rs assms(2) by (simp add: doc_rows_ok_def)
  moreover obtain d where "scanDocument r = Inr d" "row_of_doc d = r"
      "isKnownDocumentStatus (d_status d)" "d_ID d = r_id r" "d_Pages d = []"
    using row_ok_scan [OF \<open>row_ok r\<close>] by blast
  ultimately show ?thesis by (simp add: doc_view_def)
qed

lemma sql_view_Some:
  assumes "db_ok db"
  shows "sql_view db i = Some d \<longleftrightarrow>
     (\<exists>r d0. r \<in> set (t_documents db) \<and> r_id r = i \<and> scanDocument r = Inr d0 \<and>
             d = d0\<lparr>d_Pages := page_view db i\<rparr>)"
proof -
  have dist: "distinct (map r_id (t_documents db))"
    using assms doc_rows_distinct by (auto simp: db_ok_def)
  show ?thesis
  proof
    assume "sql_view db i = Some d"
    then show "\<exists>r d0. r \<in> set (t_documents db) \<and> r_id r = i \<and> scanDocument r = Inr d0 \<and>
             d = d0\<lparr>d_Pages := page_view db i\<rparr>"
      by (auto simp: sql_view_def doc_view_def find_key_Some [OF dist] split: option.splits sum.splits)
  next
    assume "\<exists>r d0. r \<in> set (t_documents db) \<and> r_id r = i \<and> scanDocument r = Inr d0 \<and>
             d = d0\<lparr>d_Pages := page_view db i\<rparr>"
    then obtain r d0 where r: "r \<in> set (t_documents db)" "r_id r = i" "scanDocument r = Inr d0"
        "d = d0\<lparr>d_Pages := page_view db i\<rparr>"
      by blast
    with row_of_doc_view [OF assms r(1)] show "sql_view db i = Some d"
      by (auto simp: sql_view_def)
  qed
qed

lemma sql_view_row:
  assumes "db_ok db" "sql_view db i = Some d"
  shows "row_of_doc d \<in> set (t_documents db)" "d_ID d = i" "d_Pages d = page_view db i"
    "isKnownDocumentStatus (d_status d)"
proof -
  obtain r d0 where r: "r \<in> set (t_documents db)" "r_id r = i" "scanDocument r = Inr d0"
      "d = d0\<lparr>d_Pages := page_view db i\<rparr>"
    using assms by (auto simp: sql_view_Some)
  with row_of_doc_view [OF assms(1) r(1)] show "row_of_doc d \<in> set (t_documents db)" "d_ID d = i"
      "d_Pages d = page_view db i" "isKnownDocumentStatus (d_status d)"
    by auto
qed

lemma sql_view_None_iff:
  assumes "db_ok db"
  shows "sql_view db i = None \<longleftrightarrow> i \<notin> r_id ` set (t_documents db)"
proof
  assume none: "sql_view db i = None"
  show "i \<notin> r_id ` set (t_documents db)"
  proof
    assume "i \<in> r_id ` set (t_documents db)"
    then obtain r where "r \<in> set (t_documents db)" "i = r_id r" by blast
    with row_of_doc_view [OF assms this(1)] none show False by (auto simp: sql_view_def)
  qed
next
  assume "i \<notin> r_id ` set (t_documents db)"
  then show "sql_view db i = None"
    using sql_view_Some [OF assms, of i] by (cases "sql_view db i") auto
qed

text \<open>A document read through a condition on its row: the document of the view, if the row is there.\<close>

definition found_doc :: "docmap \<Rightarrow> int \<Rightarrow> bool \<Rightarrow> go_error + Document" where
  "found_doc m i visibleOnly =
     (case m i of
        None \<Rightarrow> Inl ErrNotFound
      | Some d \<Rightarrow> if visibleOnly \<longrightarrow> isVisibleDocumentStatus (d_status d) then Inr d else Inl ErrNotFound)"

lemma getByQueryRow_background:
  assumes "db_ok db"
  shows "sel db = Some r \<Longrightarrow> r \<in> set (t_documents db) \<Longrightarrow>
      getByQueryRow sel background (n, db) = (Inr (the (sql_view db (r_id r))), (n + 2, db))"
    and "sel db = None \<Longrightarrow> getByQueryRow sel background (n, db) = (Inl ErrNotFound, (Suc n, db))"
proof -
  have pages: "page_rows_ok (t_document_pages db)" using assms by (simp add: db_ok_def)
  show "sel db = None \<Longrightarrow> getByQueryRow sel background (n, db) = (Inl ErrNotFound, (Suc n, db))"
    by (simp add: getByQueryRow_def tx_bind_def scan_first_def)
  assume "sel db = Some r" "r \<in> set (t_documents db)"
  moreover obtain d where "doc_view db (r_id r) = Some d" "scanDocument r = Inr d" "d_ID d = r_id r"
    using row_of_doc_view [OF assms \<open>r \<in> _\<close>] by blast
  ultimately show "getByQueryRow sel background (n, db)
      = (Inr (the (sql_view db (r_id r))), (n + 2, db))"
    by (simp add: getByQueryRow_def tx_bind_def scan_first_def listPagesTx_def
        page_view_Inr [OF pages] sql_view_def)
qed

lemma getTx_background:
  assumes "db_ok db"
  shows "\<exists>n'. getTx i v background (n, db) = (found_doc (sql_view db) i v, (n', db))"
proof -
  have rs: "doc_rows_ok (t_documents db) (t_sequence db)" using assms by (simp add: db_ok_def)
  note key = find_key_Some [OF doc_rows_distinct [OF rs]]
  show ?thesis
  proof (cases "find (\<lambda>r. r_id r = i) (t_documents db)")
    case None
    then have "sql_view db i = None" by (simp add: sql_view_def doc_view_def)
    moreover have "sql_select_document i v db = None"
      using None by (simp add: sql_select_document_def find_distinct_key [OF doc_rows_distinct [OF rs]])
    ultimately show ?thesis
      unfolding getTx_def using getByQueryRow_background(2) [OF assms] by (auto simp: found_doc_def)
  next
    case (Some r)
    then have r: "r \<in> set (t_documents db)" "r_id r = i" by (simp_all add: key)
    obtain d where d: "scanDocument r = Inr d" "isKnownDocumentStatus (d_status d)" "row_of_doc d = r"
      using row_of_doc_view [OF assms r(1)] by blast
    have view: "sql_view db i = Some (d\<lparr>d_Pages := page_view db i\<rparr>)"
      using r d assms by (auto simp: sql_view_Some)
    have "sql_select_document i v db =
        (if v \<longrightarrow> isVisibleDocumentStatus (d_status d) then Some r else None)"
      using Some d status_visible_sql_iff [OF d(2)]
      by (auto simp: sql_select_document_def find_distinct_key [OF doc_rows_distinct [OF rs]])
    then show ?thesis
      unfolding getTx_def
      using getByQueryRow_background [OF assms, of "sql_select_document i v"] r view
      by (auto simp: found_doc_def)
  qed
qed

section \<open>Writing a document\<close>

definition doc_stored :: "Document \<Rightarrow> bool" where
  "doc_stored d \<longleftrightarrow>
     isKnownDocumentStatus (d_status d) \<and> valid_time (d_CreatedAt d) \<and> valid_time (d_UpdatedAt d)"

lemma doc_wf_stored: "doc_wf i d \<Longrightarrow> doc_stored d \<and> d_ID d = i"
  by (simp add: doc_wf_def doc_stored_def)

lemma row_key_identity:
  "(r_source (row_of_doc d), r_source_document_id (row_of_doc d)) = identity d"
  by (simp add: identity_def)

lemma scan_stored: "doc_stored d \<Longrightarrow> scanDocument (row_of_doc d) = Inr (d\<lparr>d_Pages := []\<rparr>)"
  by (simp add: doc_stored_def scanDocument_row_of_doc)

text \<open>The rows after an update that keeps the identity of the document.\<close>

lemma doc_rows_ok_update:
  assumes rows: "doc_rows_ok rs n" and old: "row_of_doc d \<in> set rs" "d_ID d = i"
    and new: "doc_stored d'" "d_ID d' = i" "identity d' = identity d"
  shows "doc_rows_ok (map (\<lambda>r. if r_id r = i then row_of_doc d' else r) rs) n"
proof -
  let ?f = "\<lambda>r. if r_id r = i then row_of_doc d' else r"
  have dist: "distinct (map r_id rs)" using rows by (rule doc_rows_distinct)
  have unique: "r = row_of_doc d" if "r \<in> set rs" "r_id r = i" for r
    using dist that old by (auto simp: distinct_map inj_on_def)
  have ids: "map r_id (map ?f rs) = map r_id rs"
    using new(2) by simp
  have "r_source (?f r) = r_source r \<and> r_source_document_id (?f r) = r_source_document_id r"
    if "r \<in> set rs" for r
    using unique [OF that] new(3) by (cases "r_id r = i") (simp_all add: identity_def)
  then have keys: "map (\<lambda>r. (r_source r, r_source_document_id r)) (map ?f rs)
      = map (\<lambda>r. (r_source r, r_source_document_id r)) rs"
    by simp
  have "row_ok (row_of_doc d')" using new(1) by (auto simp: row_ok_def doc_stored_def)
  moreover have "1 \<le> i \<and> i \<le> n" using rows old by (auto simp: doc_rows_ok_def)
  ultimately have "\<forall>r \<in> set (map ?f rs). 1 \<le> r_id r \<and> r_id r \<le> n \<and> row_ok r"
    using rows new(2) by (auto simp: doc_rows_ok_def)
  moreover have "sorted_wrt (<) (map r_id (map ?f rs))" "0 \<le> n"
    using rows unfolding ids by (simp_all add: doc_rows_ok_def)
  moreover have "distinct (map (\<lambda>r. (r_source r, r_source_document_id r)) (map ?f rs))"
    using rows unfolding keys by (simp add: doc_rows_ok_def)
  ultimately show ?thesis unfolding doc_rows_ok_def by blast
qed

lemma sql_update_document_ok:
  assumes db: "db_ok db" and old: "sql_view db i = Some d"
    and new: "doc_stored d'" "d_ID d' = i" "identity d' = identity d"
  shows "\<exists>db'. sql_update_document d' db = (Inr 1, db') \<and> db_ok db' \<and>
     t_document_pages db' = t_document_pages db \<and>
     sql_view db' = (sql_view db)(i \<mapsto> d'\<lparr>d_Pages := page_view db i\<rparr>)"
proof -
  let ?f = "\<lambda>r. if r_id r = i then row_of_doc d' else r"
  let ?db = "db\<lparr>t_documents := map ?f (t_documents db)\<rparr>"
  note row = sql_view_row [OF db old]
  have rows: "doc_rows_ok (t_documents db) (t_sequence db)" using db by (simp add: db_ok_def)
  have dist: "distinct (map (\<lambda>r. (r_source r, r_source_document_id r)) (t_documents db))"
    using rows by (simp add: doc_rows_ok_def)
  have "r_id r = i" if "r \<in> set (t_documents db)" "r_source r = d_Source d'"
      "r_source_document_id r = d_SourceDocumentID d'" for r
  proof -
    have "r = row_of_doc d"
      using dist that row(1) new(3) by (auto simp: distinct_map inj_on_def identity_def)
    with row(2) show ?thesis by simp
  qed
  then have "sql_update_document d' db = (Inr 1, ?db)"
    using row new by (auto simp: sql_update_document_def Let_def doc_stored_def status_check_known
        intro!: bexI [of _ "row_of_doc d"])
  moreover have "map r_id (map ?f (t_documents db)) = map r_id (t_documents db)"
    using new(2) by simp
  then have "r_id ` set (map ?f (t_documents db)) = r_id ` set (t_documents db)"
    by (metis list.set_map)
  then have db': "db_ok ?db"
    using db doc_rows_ok_update [OF rows row(1,2) new] by (simp add: db_ok_def)
  moreover note db'
  moreover have "sql_view ?db = (sql_view db)(i \<mapsto> d'\<lparr>d_Pages := page_view db i\<rparr>)"
  proof
    fix j
    have pv: "page_view ?db n = page_view db n" for n by (rule page_view_cong) simp
    have mem: "r \<in> set (t_documents ?db) \<longleftrightarrow>
        r = row_of_doc d' \<or> r \<in> set (t_documents db) \<and> r_id r \<noteq> i" for r
      using row(1,2) by auto
    have "sql_view ?db j = Some x \<longleftrightarrow> ((sql_view db)(i \<mapsto> d'\<lparr>d_Pages := page_view db i\<rparr>)) j = Some x"
      for x
    proof (cases "j = i")
      case True
      have "sql_view ?db i = Some x \<longleftrightarrow> x = d'\<lparr>d_Pages := page_view db i\<rparr>"
        unfolding sql_view_Some [OF db'] mem pv using new(2) scan_stored [OF new(1)] by auto
      with True show ?thesis by auto
    next
      case False
      then have "r \<in> set (t_documents ?db) \<and> r_id r = j \<longleftrightarrow> r \<in> set (t_documents db) \<and> r_id r = j"
        for r unfolding mem using new(2) by auto
      then have "sql_view ?db j = Some x \<longleftrightarrow> sql_view db j = Some x"
        unfolding sql_view_Some [OF db'] sql_view_Some [OF db] pv by blast
      with False show ?thesis by simp
    qed
    then show "sql_view ?db j = ((sql_view db)(i \<mapsto> d'\<lparr>d_Pages := page_view db i\<rparr>)) j"
      by (rule option_eqI)
  qed
  ultimately show ?thesis by force
qed

lemma updateDocumentTx_background:
  assumes "db_ok db" "sql_view db i = Some d"
    "doc_stored d'" "d_ID d' = i" "identity d' = identity d"
  shows "\<exists>db' n'. updateDocumentTx d' background (n, db) = (Inr (), (n', db')) \<and> db_ok db' \<and>
     t_document_pages db' = t_document_pages db \<and>
     sql_view db' = (sql_view db)(i \<mapsto> d'\<lparr>d_Pages := page_view db i\<rparr>)"
  using sql_update_document_ok [OF assms]
  by (auto simp: updateDocumentTx_def tx_bind_def)

section \<open>Writing pages\<close>

lemma page_rows_ok_insert:
  "page_rows_ok ws \<Longrightarrow> 0 \<le> pg_Index page \<Longrightarrow> pg_Key page \<noteq> '''' \<Longrightarrow>
   \<not> (\<exists>w \<in> set ws. w_document_id w = i \<and> w_page_index w = pg_Index page) \<Longrightarrow>
   page_rows_ok (ws @ [row_of_page i page])"
  by (auto simp: page_rows_ok_def row_of_page_def)

lemma page_rows_ok_filter: "page_rows_ok ws \<Longrightarrow> page_rows_ok (filter P ws)"
  by (auto simp: page_rows_ok_def distinct_map inj_on_def)

lemma page_of_row_of_page [simp]: "page_of_row (row_of_page i page) = page"
  by (simp add: page_of_row_def row_of_page_def)

lemma page_view_eqI:
  assumes "page_rows_ok (t_document_pages db)" "pages_wf ps"
    "\<And>k p. slot ps k = Some p \<longleftrightarrow>
       (\<exists>w \<in> set (t_document_pages db). w_document_id w = i \<and> w_page_index w = k \<and> p = page_of_row w)"
  shows "page_view db i = ps"
proof (rule pages_wf_ext)
  show "slot (page_view db i) = slot ps"
  proof
    fix k
    have "slot (page_view db i) k = Some p \<longleftrightarrow> slot ps k = Some p" for p
      unfolding page_view_slot [OF assms(1)] assms(3) ..
    then show "slot (page_view db i) k = slot ps k" by (rule option_eqI)
  qed
qed (use assms page_view_wf in auto)

lemma page_view_insert:
  assumes "page_rows_ok (t_document_pages db)" "0 \<le> pg_Index page" "pg_Key page \<noteq> ''''"
    "\<not> sql_page_exists i (pg_Index page) db"
    "t_document_pages db' = t_document_pages db @ [row_of_page i page]"
  shows "page_rows_ok (t_document_pages db')"
    "page_view db' j = (if j = i then (growPages (page_view db i) (nat (pg_Index page)))
       [nat (pg_Index page) := page] else page_view db j)"
proof -
  show ok': "page_rows_ok (t_document_pages db')"
    using page_rows_ok_insert [OF assms(1-3), of i] assms(4,5) by (simp add: sql_page_exists_def)
  have new: "pageSlotExists page (int (nat (pg_Index page)))"
    using assms(2,3) by (simp add: pageSlotExists_def)
  show "page_view db' j = (if j = i then (growPages (page_view db i) (nat (pg_Index page)))
       [nat (pg_Index page) := page] else page_view db j)"
  proof (rule page_view_eqI [OF ok'])
    show "pages_wf (if j = i then (growPages (page_view db i) (nat (pg_Index page)))
       [nat (pg_Index page) := page] else page_view db j)"
      using pages_wf_add [OF page_view_wf [OF assms(1)] new] page_view_wf [OF assms(1)] by simp
    show "slot (if j = i then (growPages (page_view db i) (nat (pg_Index page)))
       [nat (pg_Index page) := page] else page_view db j) k = Some p \<longleftrightarrow>
       (\<exists>w \<in> set (t_document_pages db'). w_document_id w = j \<and> w_page_index w = k \<and> p = page_of_row w)"
      for k p
      using assms(2,4,5)
      by (auto simp: slot_grow [OF new] page_view_slot [OF assms(1)] sql_page_exists_def
          row_of_page_def page_of_row_def)
  qed
qed

lemma page_view_delete:
  assumes "page_rows_ok (t_document_pages db)" "sql_page_exists i k db"
    "t_document_pages db' =
       filter (\<lambda>w. \<not> (w_document_id w = i \<and> w_page_index w = k)) (t_document_pages db)"
  shows "page_view db' j =
     (if j = i then trimPages ((page_view db i)[nat k := zero_Page]) else page_view db j)"
proof -
  have taken: "slot_taken (page_view db i) k"
    using assms(1,2) by (simp add: slot_taken_page_view)
  then have k: "0 \<le> k" "nat k < length (page_view db i)"
    by (auto simp: slot_taken_def in_range_def)
  have wf: "pages_wf (page_view db n)" for n using assms(1) by (rule page_view_wf)
  show ?thesis
  proof (rule page_view_eqI)
    show "page_rows_ok (t_document_pages db')"
      using page_rows_ok_filter [OF assms(1)] assms(3) by simp
    have "pages_wf (trimPages ((page_view db i)[nat k := zero_Page]))"
      using wf [of i] k(2) by (intro pages_wf_trim) (auto simp: pages_wf_def nth_list_update)
    then show "pages_wf
        (if j = i then trimPages ((page_view db i)[nat k := zero_Page]) else page_view db j)"
      using wf by simp
    show "slot (if j = i then trimPages ((page_view db i)[nat k := zero_Page]) else page_view db j) l
        = Some p \<longleftrightarrow>
       (\<exists>w \<in> set (t_document_pages db'). w_document_id w = j \<and> w_page_index w = l \<and> p = page_of_row w)"
      for l p
      using k by (auto simp: slot_clear assms(3) page_view_slot [OF assms(1)])
  qed
qed

lemma page_view_delete_all:
  assumes "page_rows_ok (t_document_pages db)"
    "t_document_pages db' = filter (\<lambda>w. w_document_id w \<noteq> i) (t_document_pages db)"
  shows "page_view db' j = (if j = i then [] else page_view db j)"
proof (rule page_view_eqI)
  show "page_rows_ok (t_document_pages db')"
    using page_rows_ok_filter [OF assms(1)] assms(2) by simp
  show "pages_wf (if j = i then [] else page_view db j)"
    using page_view_wf [OF assms(1)] by simp
  show "slot (if j = i then [] else page_view db j) k = Some p \<longleftrightarrow>
     (\<exists>w \<in> set (t_document_pages db'). w_document_id w = j \<and> w_page_index w = k \<and> p = page_of_row w)"
    for k p
    by (auto simp: assms(2) page_view_slot [OF assms(1)])
qed

text \<open>The view after the pages of one document changed.\<close>

lemma sql_view_pages:
  assumes "db_ok db" "db_ok db'" "t_documents db' = t_documents db"
    "\<And>j. page_view db' j = (if j = i then ps else page_view db j)"
  shows "sql_view db' = (\<lambda>j. if j = i then map_option (\<lambda>d. d\<lparr>d_Pages := ps\<rparr>) (sql_view db j)
                              else sql_view db j)"
proof
  fix j
  have "doc_view db' j = doc_view db j" by (simp add: doc_view_def assms(3))
  then show "sql_view db' j = (if j = i then map_option (\<lambda>d. d\<lparr>d_Pages := ps\<rparr>) (sql_view db j)
                              else sql_view db j)"
    by (simp add: sql_view_def assms(4) option.map_comp comp_def)
qed

lemma db_ok_pages:
  "db_ok db \<Longrightarrow> page_rows_ok (t_document_pages db') \<Longrightarrow> t_documents db' = t_documents db \<Longrightarrow>
   t_sequence db' = t_sequence db \<Longrightarrow>
   w_document_id ` set (t_document_pages db') \<subseteq> r_id ` set (t_documents db) \<Longrightarrow> db_ok db'"
  by (simp add: db_ok_def)

section \<open>The methods refine the transformers\<close>

lemmas tx_faults_calls [simp, intro] =
  tx_faults_stmt [of "\<lambda>_. True"] tx_faults_query [of "\<lambda>_. True"]

lemma tx_faults_getTx: "(\<And>s. P (ErrExternal s)) \<Longrightarrow> tx_faults P (getTx i v)"
  unfolding getTx_def getByQueryRow_def listPagesTx_def by (intro tx_faults_bind) auto

lemma tx_faults_updateDocumentTx: "tx_faults (\<lambda>_. True) (updateDocumentTx d)"
  unfolding updateDocumentTx_def by (intro tx_faults_bind) auto

lemma tx_faults_updateMeta: "tx_faults (\<lambda>_. True) (updateMeta now i fn)"
  unfolding updateMeta_def
  by (intro tx_faults_bind tx_faults_getTx)
    (auto simp: Let_def tx_faults_updateDocumentTx split: sum.splits)

lemmas tx_faults_rules =
  tx_faults_bind tx_faults_getTx tx_faults_updateDocumentTx tx_faults_updateMeta

text \<open>
  A method whose transaction body meets failing calls soberly implements a transformer, if it
  does so when no call fails.
\<close>

definition body_ok ::
  "(nat \<times> sqlite_db \<Rightarrow> (go_error + 'r) \<times> (nat \<times> sqlite_db)) \<Rightarrow> 'r doc_op \<Rightarrow> int \<Rightarrow> bool" where
  "body_ok run f i \<longleftrightarrow>
     (\<forall>db. sql_invar db \<longrightarrow>
       (case run (2, db) of
          (Inr r, st) \<Rightarrow>
            db_ok (snd st) \<and> upd_doc f i (sql_view db) = Some (r, sql_view (snd st))
        | (Inl e, st) \<Rightarrow> upd_doc f i (sql_view db) = None))"

lemma sql_implementsI:
  assumes "tx_faults (\<lambda>_. True) body" "doc_op_ok f" "body_ok (body background) f i"
  shows "implements sql_invar sql_view ctx (plain_tx body ctx) f i"
  unfolding implements_def
proof (intro allI impI)
  fix db assume inv: "sql_invar db"
  have bg: "case plain_tx body background db of
      (Inr r, db') \<Rightarrow> sql_invar db' \<and> upd_doc f i (sql_view db) = Some (r, sql_view db')
    | (Inl e, db') \<Rightarrow> db' = db \<and> upd_doc f i (sql_view db) = None"
  proof -
    obtain res st where Pair: "body background (2, db) = (res, st)"
      by (cases "body background (2, db)") blast
    then have run: "case res of
        Inr r \<Rightarrow> db_ok (snd st) \<and> upd_doc f i (sql_view db) = Some (r, sql_view (snd st))
      | Inl e \<Rightarrow> upd_doc f i (sql_view db) = None"
      using assms(3) [unfolded body_ok_def, rule_format, OF inv] by simp
    show ?thesis
    proof (cases res)
      case (Inl e)
      then show ?thesis using run Pair by (simp add: with_tx_background)
    next
      case (Inr r)
      then have "sql_invar (snd st)"
        using run inv store_wf_upd [OF _ assms(2), of "sql_view db" i r] by (simp add: sql_invar_def)
      then show ?thesis using Inr run Pair by (simp add: with_tx_background)
    qed
  qed
  consider (fault) e where "plain_tx body ctx db = (Inl e, db)" "ctx \<noteq> background"
    | (same) "plain_tx body ctx db = plain_tx body background db"
    using with_tx_cases [OF assms(1)] by metis
  then show "case plain_tx body ctx db of
      (Inl e, db') \<Rightarrow> sql_invar db' \<and> sql_view db' = sql_view db \<and>
        (live ctx \<longrightarrow> upd_doc f i (sql_view db) = None)
    | (Inr r, db') \<Rightarrow> sql_invar db' \<and> upd_doc f i (sql_view db) = Some (r, sql_view db')"
  proof cases
    case fault
    then show ?thesis using inv by (simp add: live_iff)
  next
    case same
    then show ?thesis using bg inv by (auto split: prod.splits sum.splits)
  qed
qed

lemma sql_view_wf: "sql_invar db \<Longrightarrow> sql_view db i = Some d \<Longrightarrow> doc_wf i d"
  unfolding sql_invar_def using store_wfD by blast

text \<open>A document of the view after an update of its fields only.\<close>

lemma update_in_place:
  assumes "sql_invar db" "sql_view db i = Some d" "doc_wf i d'" "identity d' = identity d"
    "d_Pages d' = d_Pages d"
  shows "\<exists>db' n'. updateDocumentTx d' background (n, db) = (Inr (), (n', db')) \<and> db_ok db' \<and>
     t_document_pages db' = t_document_pages db \<and> sql_view db' = (sql_view db)(i \<mapsto> d')"
proof -
  have db: "db_ok db" using assms(1) by (simp add: sql_invar_def)
  have "d'\<lparr>d_Pages := page_view db i\<rparr> = d'"
    using sql_view_row [OF db assms(2)] assms(5) by simp
  then show ?thesis
    using updateDocumentTx_background [OF db assms(2)] doc_wf_stored [OF assms(3)] assms(4) by force
qed


lemma body_okI:
  assumes "\<And>db. sql_invar db \<Longrightarrow> db_ok db \<Longrightarrow>
      (\<exists>e st. run (2, db) = (Inl e, st) \<and> upd_doc f i (sql_view db) = None) \<or>
      (\<exists>r n db'. run (2, db) = (Inr r, (n, db')) \<and> db_ok db' \<and>
                 upd_doc f i (sql_view db) = Some (r, sql_view db'))"
  shows "body_ok run f i"
  unfolding body_ok_def
proof (intro allI impI)
  fix db assume "sql_invar db"
  with assms [of db] show "case run (2, db) of
      (Inr r, st) \<Rightarrow> db_ok (snd st) \<and> upd_doc f i (sql_view db) = Some (r, sql_view (snd st))
    | (Inl e, st) \<Rightarrow> upd_doc f i (sql_view db) = None"
    by (force simp: sql_invar_def)
qed

text \<open>The methods that read a document, check it, and rewrite its row.\<close>

lemma read_write_body:
  assumes ok: "doc_op_ok f"
    and step: "\<And>db d. sql_invar db \<Longrightarrow> sql_view db i = Some d \<Longrightarrow>
        (v \<longrightarrow> isVisibleDocumentStatus (d_status d)) \<Longrightarrow>
        (case f d of
           None \<Rightarrow> (\<exists>e. k d = tx_fail e)
         | Some (r, d') \<Rightarrow> d_Pages d' = d_Pages d \<and>
             k d = tx_bind (updateDocumentTx d') (\<lambda>_. tx_return r))"
    and hidden: "\<And>d. v \<Longrightarrow> \<not> isVisibleDocumentStatus (d_status d) \<Longrightarrow> f d = None"
  shows "body_ok (tx_bind (getTx i v) k background) f i"
proof (rule body_okI)
  fix db assume inv: "sql_invar db" and db: "db_ok db"
  obtain n where get: "getTx i v background (2, db) = (found_doc (sql_view db) i v, (n, db))"
    using getTx_background [OF db] by blast
  show "(\<exists>e st. tx_bind (getTx i v) k background (2, db) = (Inl e, st) \<and>
           upd_doc f i (sql_view db) = None) \<or>
        (\<exists>r n db'. tx_bind (getTx i v) k background (2, db) = (Inr r, (n, db')) \<and> db_ok db' \<and>
           upd_doc f i (sql_view db) = Some (r, sql_view db'))"
  proof (cases "found_doc (sql_view db) i v")
    case (Inl e)
    then have "upd_doc f i (sql_view db) = None"
      using hidden by (auto simp: found_doc_def upd_doc_def split: option.splits if_splits)
    with Inl get show ?thesis by (simp add: tx_bind_def)
  next
    case (Inr d)
    then have d: "sql_view db i = Some d" "v \<longrightarrow> isVisibleDocumentStatus (d_status d)"
      by (auto simp: found_doc_def split: option.splits if_splits)
    show ?thesis
    proof (cases "f d")
      case None
      with step [OF inv d] obtain e where "k d = tx_fail e" by auto
      with None d get Inr show ?thesis by (simp add: tx_bind_def upd_doc_def)
    next
      case (Some res)
      then obtain r d' where f: "f d = Some (r, d')" by (cases res) simp
      have wf: "doc_wf i d'" "identity d' = identity d"
        using ok f sql_view_wf [OF inv d(1)] by (auto simp: doc_op_ok_def)
      have k: "d_Pages d' = d_Pages d" "k d = tx_bind (updateDocumentTx d') (\<lambda>_. tx_return r)"
        using step [OF inv d] f by auto
      obtain db' n' where up: "updateDocumentTx d' background (n, db) = (Inr (), (n', db'))"
          "db_ok db'" "sql_view db' = (sql_view db)(i \<mapsto> d')"
        using update_in_place [OF inv d(1) wf k(1)] by blast
      then have "tx_bind (getTx i v) k background (2, db) = (Inr r, (n', db'))"
        using get Inr k(2) by (simp add: tx_bind_def)
      with up d f show ?thesis by (simp add: upd_doc_def)
    qed
  qed
qed

end
