(* ===== verification/SqlMethods.thy ===== *)
theory SqlMethods
  imports SqlRefine
begin

text \<open>
  The methods of \<open>SQLiteStore\<close>, one lemma each, and the interpretation of the contract
  \<open>document_store\<close> on them.
\<close>

section \<open>Methods that rewrite one row\<close>

lemma sql_Delete_law:
  assumes "valid_time now"
  shows "implements sql_invar sql_view ctx (SQLiteStore_Delete ctx now i) (delete_doc now) i"
  unfolding SQLiteStore_Delete_def
proof (intro sql_implementsI read_write_body delete_doc_ok assms)
  show "tx_faults (\<lambda>_. True) (tx_bind (getTx i True) (\<lambda>document.
      if \<not> canTransitionDocumentStatus (d_status document) StatusDeleted
      then tx_fail (ErrInvalidStatusTransition (d_status document) StatusDeleted)
      else let document' = document\<lparr>d_status := StatusDeleted, d_UpdatedAt := now\<rparr> in
           tx_bind (updateDocumentTx document') (\<lambda>_. tx_return document')))"
    by (intro tx_faults_rules) (auto simp: Let_def intro: tx_faults_rules)
qed (auto simp: delete_doc_def Let_def canTransition_simps)

lemma sql_Restore_law:
  assumes "valid_time now"
  shows "implements sql_invar sql_view ctx (SQLiteStore_Restore ctx now i) (restore_doc now) i"
  unfolding SQLiteStore_Restore_def
proof (intro sql_implementsI read_write_body restore_doc_ok assms)
  show "tx_faults (\<lambda>_. True) (tx_bind (getTx i False) (\<lambda>document.
      if d_status document = StatusDeleted \<or> d_status document = StatusPurged
      then let document' = document\<lparr>d_status := StatusQueued, d_UpdatedAt := now\<rparr> in
           tx_bind (updateDocumentTx document') (\<lambda>_. tx_return document')
      else tx_fail (ErrInvalidStatusTransition (d_status document) StatusQueued)))"
    by (intro tx_faults_rules) (auto simp: Let_def intro: tx_faults_rules)
qed (auto simp: restore_doc_def Let_def)

lemma tx_bind_return [simp]: "tx_bind m tx_return = m"
  by (auto simp: tx_bind_def fun_eq_iff split: prod.splits sum.splits)

lemma sql_TransitionTo_law:
  assumes "valid_time now"
  shows "implements sql_invar sql_view ctx (SQLiteStore_TransitionTo ctx now i newStatus)
    (transition_doc newStatus now) i"
  unfolding SQLiteStore_TransitionTo_def
proof (intro sql_implementsI read_write_body transition_doc_ok assms)
  show "tx_faults (\<lambda>_. True) (tx_bind (getTx i False) (\<lambda>document.
      if \<not> canTransitionDocumentStatus (d_status document) newStatus
      then tx_fail (ErrInvalidStatusTransition (d_status document) newStatus)
      else case (if newStatus = StatusPurged then validatePurgedDocumentState document else None) of
             None \<Rightarrow> updateDocumentTx (document\<lparr>d_status := newStatus, d_UpdatedAt := now\<rparr>)
           | Some e \<Rightarrow> tx_fail e))"
    by (intro tx_faults_rules) (auto intro: tx_faults_rules split: option.splits)
qed (auto simp: transition_doc_def split: option.splits)

lemma sql_UpdateMeta_eq:
  "SQLiteStore_UpdateMeta ctx now i (Some fn) = plain_tx (updateMeta now i fn) ctx"
  by (simp add: fun_eq_iff SQLiteStore_UpdateMeta_def with_tx_def split: option.splits)

lemma sql_UpdateMeta_law:
  assumes "valid_time now" "meta_frame fn"
  shows "implements sql_invar sql_view ctx (SQLiteStore_UpdateMeta ctx now i (Some fn))
    (updateMeta_doc fn now) i"
  unfolding sql_UpdateMeta_eq
proof (intro sql_implementsI updateMeta_doc_ok assms tx_faults_updateMeta)
  show "body_ok (updateMeta now i fn background) (updateMeta_doc fn now) i"
    unfolding updateMeta_def
    by (intro read_write_body updateMeta_doc_ok assms)
      (auto simp: updateMeta_doc_def Let_def split: sum.splits)
qed

section \<open>Methods that also write pages\<close>

lemma sql_view_stored: "db_ok db \<Longrightarrow> sql_view db i = Some d \<Longrightarrow> doc_stored d"
proof -
  assume db: "db_ok db" and d: "sql_view db i = Some d"
  then obtain r d0 where r: "r \<in> set (t_documents db)" "scanDocument r = Inr d0"
      "d = d0\<lparr>d_Pages := page_view db i\<rparr>"
    by (auto simp: sql_view_Some)
  then obtain e where "doc_stored e" "r = row_of_doc e"
    using db by (auto simp: db_ok_def doc_rows_ok_def row_ok_def doc_stored_def)
  with r show "doc_stored d" by (simp add: scan_stored) (auto simp: doc_stored_def)
qed

lemma updateMeta_background:
  assumes db: "db_ok db" and now: "valid_time now"
  shows "sql_view db i = Some d \<Longrightarrow> isVisibleDocumentStatus (d_status d) \<Longrightarrow>
      fn (extractDocumentMeta d) = Inr meta \<Longrightarrow> m_status meta = d_status d \<Longrightarrow>
      d' = (fillDocumentMeta d meta)\<lparr>d_UpdatedAt := now\<rparr> \<Longrightarrow>
      \<exists>n' db'. updateMeta now i fn background (n, db) = (Inr d', (n', db')) \<and> db_ok db' \<and>
        t_document_pages db' = t_document_pages db \<and> sql_view db' = (sql_view db)(i \<mapsto> d')"
    and "\<not> (\<exists>d. sql_view db i = Some d \<and> isVisibleDocumentStatus (d_status d)) \<Longrightarrow>
      \<exists>e st. updateMeta now i fn background (n, db) = (Inl e, st)"
proof -
  obtain n1 where get: "getTx i True background (n, db) = (found_doc (sql_view db) i True, (n1, db))"
    using getTx_background [OF db] by blast
  {
    assume "\<not> (\<exists>d. sql_view db i = Some d \<and> isVisibleDocumentStatus (d_status d))"
    then have "found_doc (sql_view db) i True = Inl ErrNotFound"
      by (auto simp: found_doc_def split: option.splits)
    with get show "\<exists>e st. updateMeta now i fn background (n, db) = (Inl e, st)"
      by (simp add: updateMeta_def tx_bind_def)
  next
    assume d: "sql_view db i = Some d" "isVisibleDocumentStatus (d_status d)"
      and fn: "fn (extractDocumentMeta d) = Inr meta" "m_status meta = d_status d"
      and d': "d' = (fillDocumentMeta d meta)\<lparr>d_UpdatedAt := now\<rparr>"
    have "doc_stored d'" "d_ID d' = i" "identity d' = identity d"
      using sql_view_stored [OF db d(1)] sql_view_row [OF db d(1)] fn(2) now
      by (auto simp: d' doc_stored_def identity_def)
    moreover have "d'\<lparr>d_Pages := page_view db i\<rparr> = d'"
      using sql_view_row [OF db d(1)] by (simp add: d' fillDocumentMeta_def)
    ultimately obtain n2 db' where
      up: "updateDocumentTx d' background (n1, db) = (Inr (), (n2, db'))" "db_ok db'"
        "t_document_pages db' = t_document_pages db" "sql_view db' = (sql_view db)(i \<mapsto> d')"
      using updateDocumentTx_background [OF db d(1), of d' n1] by auto
    moreover have "updateMeta now i fn background (n, db) = (Inr d', (n2, db'))"
      using get d fn up(1) by (simp add: updateMeta_def tx_bind_def found_doc_def Let_def flip: d')
    ultimately show "\<exists>n' db'. updateMeta now i fn background (n, db) = (Inr d', (n', db')) \<and>
        db_ok db' \<and> t_document_pages db' = t_document_pages db \<and>
        sql_view db' = (sql_view db)(i \<mapsto> d')"
      by blast
  }
qed

lemma doc_update_order:
  "d\<lparr>d_Progress := p, d_UpdatedAt := t, d_Pages := ps\<rparr> = d\<lparr>d_Pages := ps, d_Progress := p, d_UpdatedAt := t\<rparr>"
  by (cases d) simp

lemma doc_set_pages: "d_Pages d = ps \<Longrightarrow> d\<lparr>d_Pages := ps\<rparr> = d"
  by (cases d) simp

lemma db_okD: "db_ok db \<Longrightarrow> page_rows_ok (t_document_pages db)"
  by (simp add: db_ok_def)

lemma tx_faults_addPage: "tx_faults (\<lambda>_. True) (addPage_tx now i page)"
  unfolding addPage_tx_def by (auto intro!: tx_faults_bind tx_faults_updateMeta)

text \<open>The transaction body of \<open>AddPage\<close>, from any table state with sound rows.\<close>

lemma addPage_background:
  assumes db: "db_ok db" and now: "valid_time now" and key: "pg_Key page \<noteq> ''''"
  shows "(\<exists>e st. addPage_tx now i page background (n, db) = (Inl e, st) \<and>
            upd_doc (addPage_doc page now) i (sql_view db) = None) \<or>
         (\<exists>n' db'. addPage_tx now i page background (n, db) = (Inr (), (n', db')) \<and> db_ok db' \<and>
            upd_doc (addPage_doc page now) i (sql_view db) = Some ((), sql_view db'))"
proof -
  note pages = db_okD [OF db]
  consider (none) "\<not> (\<exists>d. sql_view db i = Some d \<and> isVisibleDocumentStatus (d_status d))"
    | (bad) d where "sql_view db i = Some d" "pg_Index page < 0 \<or> sql_page_exists i (pg_Index page) db"
    | (ok) d where "sql_view db i = Some d" "isVisibleDocumentStatus (d_status d)"
        "0 \<le> pg_Index page" "\<not> sql_page_exists i (pg_Index page) db"
    by fastforce
  then show ?thesis
  proof cases
    case none
    then have "upd_doc (addPage_doc page now) i (sql_view db) = None"
      by (auto simp: upd_doc_None addPage_doc_def)
    then show ?thesis
      using updateMeta_background(2) [OF db now none, of meta_page_added "Suc n"]
      by (auto simp: addPage_tx_def tx_bind_def)
  next
    case bad
    then have "upd_doc (addPage_doc page now) i (sql_view db) = None"
      using slot_taken_page_view [OF pages, of i "pg_Index page"] sql_view_row(3) [OF db bad(1)]
      by (auto simp: upd_doc_None addPage_doc_def)
    with bad(2) show ?thesis by (auto simp: addPage_tx_def tx_bind_def)
  next
    case ok
    let ?d = "d\<lparr>d_Progress := progress_add (d_Progress d), d_UpdatedAt := now\<rparr>"
    let ?ps = "(growPages (d_Pages d) (nat (pg_Index page)))[nat (pg_Index page) := page]"
    obtain n1 db1 where up: "updateMeta now i meta_page_added background (Suc n, db) = (Inr ?d, (n1, db1))"
        "db_ok db1" "t_document_pages db1 = t_document_pages db" "sql_view db1 = (sql_view db)(i \<mapsto> ?d)"
      using updateMeta_background(1) [OF db now ok(1,2), of meta_page_added _ ?d "Suc n"]
      by (auto simp: meta_page_added_def fillDocumentMeta_def extractDocumentMeta_def)
    let ?db = "db1\<lparr>t_document_pages := t_document_pages db1 @ [row_of_page i page]\<rparr>"
    have row: "\<exists>r \<in> set (t_documents db1). r_id r = i"
      using sql_view_None_iff [OF up(2), of i] up(4) by auto
    have fresh: "\<not> sql_page_exists i (pg_Index page) db1"
      using ok(4) up(3) by (simp add: sql_page_exists_def)
    note ins = page_view_insert [OF db_okD [OF up(2)] ok(3) key fresh, of ?db, simplified]
    have db': "db_ok ?db"
      using up(2) ins(1) row by (auto simp: db_ok_def row_of_page_def)
    have "page_view db1 i = d_Pages d"
      using sql_view_row(3) [OF db ok(1)] page_view_cong [OF up(3)] by simp
    then have "sql_view ?db = (sql_view db)(i \<mapsto> ?d\<lparr>d_Pages := ?ps\<rparr>)"
      using sql_view_pages [OF up(2) db', of i ?ps] ins(2) up(4) by (auto simp: fun_eq_iff)
    then have "sql_view ?db = (sql_view db)(i \<mapsto>
        d\<lparr>d_Pages := ?ps, d_Progress := progress_add (d_Progress d), d_UpdatedAt := now\<rparr>)"
      unfolding doc_update_order .
    moreover have "addPage_tx now i page background (n, db) = (Inr (), (Suc n1, ?db))"
      using ok(3,4) up(1) fresh row by (simp add: addPage_tx_def tx_bind_def sql_insert_page_def)
    moreover have "\<not> slot_taken (d_Pages d) (pg_Index page)"
      using slot_taken_page_view [OF pages] sql_view_row(3) [OF db ok(1)] ok(4) by simp
    ultimately show ?thesis using ok db' by (simp add: upd_doc_def addPage_doc_def)
  qed
qed

lemma sql_AddPage_law:
  assumes "valid_time now" "pg_Key page \<noteq> ''''"
  shows "implements sql_invar sql_view ctx (SQLiteStore_AddPage ctx now i page) (addPage_doc page now) i"
  unfolding SQLiteStore_AddPage_def
  by (intro sql_implementsI tx_faults_addPage addPage_doc_ok body_okI assms)
    (use addPage_background [OF _ assms] in \<open>auto simp: upd_doc_def\<close>)

lemma db_ok_delete:
  "db_ok db \<Longrightarrow> db_ok (db\<lparr>t_document_pages := filter P (t_document_pages db)\<rparr>)"
  by (rule db_ok_pages) (auto simp: page_rows_ok_filter db_ok_def)

lemma tx_faults_removePage: "tx_faults (\<lambda>_. True) (removePage_tx now i index)"
  unfolding removePage_tx_def by (auto intro!: tx_faults_bind tx_faults_updateMeta)

lemma sql_RemovePage_law:
  assumes now: "valid_time now"
  shows "implements sql_invar sql_view ctx (SQLiteStore_RemovePage ctx now i index)
    (removePage_doc index now) i"
  unfolding SQLiteStore_RemovePage_def
proof (intro sql_implementsI tx_faults_removePage removePage_doc_ok body_okI now)
  fix db assume db: "db_ok db"
  let ?hit = "\<lambda>w. w_document_id w = i \<and> w_page_index w = index"
  let ?db1 = "db\<lparr>t_document_pages := filter (\<lambda>w. \<not> ?hit w) (t_document_pages db)\<rparr>"
  let ?run = "removePage_tx now i index background (2, db)"
  have run: "?run = (if sql_page_exists i index db
      then tx_bind (updateMeta now i meta_page_removed) (\<lambda>_. tx_return ()) background (3, ?db1)
      else (Inl ErrPageNotFound, (3, ?db1)))"
    by (auto simp: removePage_tx_def tx_bind_def sql_delete_page_def Let_def sql_page_exists_def
        filter_empty_conv numeral_3_eq_3)
  note pages = db_okD [OF db]
  have db1: "db_ok ?db1" using db by (rule db_ok_delete)
  show "(\<exists>e st. ?run = (Inl e, st) \<and> upd_doc (removePage_doc index now) i (sql_view db) = None) \<or>
    (\<exists>r n db'. ?run = (Inr r, (n, db')) \<and> db_ok db' \<and>
       upd_doc (removePage_doc index now) i (sql_view db) = Some (r, sql_view db'))"
  proof (cases "sql_page_exists i index db")
    case False
    then have "\<not> slot_taken (page_view db i) index"
      by (simp add: slot_taken_page_view [OF pages])
    then have "upd_doc (removePage_doc index now) i (sql_view db) = None"
      using sql_view_row(3) [OF db] by (auto simp: upd_doc_None removePage_doc_def)
    with False run show ?thesis by simp
  next
    case True
    let ?ps = "trimPages ((page_view db i)[nat index := zero_Page])"
    have view1: "sql_view ?db1 = (\<lambda>j. if j = i then map_option (\<lambda>d. d\<lparr>d_Pages := ?ps\<rparr>) (sql_view db j)
                              else sql_view db j)"
      by (rule sql_view_pages [OF db db1]) (use page_view_delete [OF pages True] in auto)
    show ?thesis
    proof (cases "\<exists>d. sql_view db i = Some d \<and> isVisibleDocumentStatus (d_status d)")
      case False
      then have "\<not> (\<exists>d. sql_view ?db1 i = Some d \<and> isVisibleDocumentStatus (d_status d))"
        unfolding view1 by auto
      from updateMeta_background(2) [OF db1 now this, of meta_page_removed 3]
      have "\<exists>e st. ?run = (Inl e, st)" using True run by (auto simp: tx_bind_def)
      moreover have "upd_doc (removePage_doc index now) i (sql_view db) = None"
        using False by (auto simp: upd_doc_None removePage_doc_def)
      ultimately show ?thesis by blast
    next
      case vis: True
      then obtain d where d: "sql_view db i = Some d" "isVisibleDocumentStatus (d_status d)" by blast
      let ?d1 = "d\<lparr>d_Pages := ?ps\<rparr>"
      let ?d = "?d1\<lparr>d_Progress := progress_remove (d_Progress d), d_UpdatedAt := now\<rparr>"
      have d1: "sql_view ?db1 i = Some ?d1" "isVisibleDocumentStatus (d_status ?d1)"
        unfolding view1 using d by simp_all
      obtain n' db' where up: "updateMeta now i meta_page_removed background (3, ?db1) = (Inr ?d, (n', db'))"
          "db_ok db'" "sql_view db' = (sql_view ?db1)(i \<mapsto> ?d)"
        using updateMeta_background(1) [OF db1 now d1, of meta_page_removed _ ?d 3]
        by (auto simp: meta_page_removed_def fillDocumentMeta_def extractDocumentMeta_def)
      have "slot_taken (d_Pages d) index"
        using True sql_view_row(3) [OF db d(1)] by (simp add: slot_taken_page_view [OF pages])
      moreover have "sql_view db' = (sql_view db)(i \<mapsto> ?d)"
        unfolding up(3) view1 by (auto simp: fun_eq_iff)
      ultimately have "upd_doc (removePage_doc index now) i (sql_view db) = Some ((), sql_view db')"
        using d sql_view_row(3) [OF db d(1)] by (simp add: upd_doc_def removePage_doc_def)
      with True run up show ?thesis by (simp add: tx_bind_def)
    qed
  qed
qed

lemma countExistingPages_from_card:
  "countExistingPages_from k ps = int (card {j. j < length ps \<and> pageSlotExists (ps ! j) (k + int j)})"
proof (induction k ps rule: countExistingPages_from.induct)
  case (2 k p ps)
  let ?S = "{j. j < length ps \<and> pageSlotExists (ps ! j) (k + 1 + int j)}"
  have "{j. j < length (p # ps) \<and> pageSlotExists ((p # ps) ! j) (k + int j)}
      = (if pageSlotExists p k then insert 0 (Suc ` ?S) else Suc ` ?S)"
    by (auto simp: image_iff less_Suc_eq_0_disj ac_simps split: if_splits)
  moreover have "0 \<notin> Suc ` ?S" "finite (Suc ` ?S)" "card (Suc ` ?S) = card ?S"
    by (auto simp: card_image)
  ultimately show ?case using 2 by simp
qed simp

lemma countExistingPages_slots: "countExistingPages ps = int (card {k. slot ps k \<noteq> None})"
proof -
  have "{k. slot ps k \<noteq> None} = int ` {j. j < length ps \<and> pageSlotExists (ps ! j) (0 + int j)}"
    by (intro set_eqI iffI; (rule image_eqI [of _ _ "nat _"])?)
      (auto simp: slot_def slot_taken_def in_range_def nat_less_iff split: if_splits)
  then show ?thesis
    by (simp add: countExistingPages_def countExistingPages_from_card card_image)
qed

lemma count_page_view:
  assumes "page_rows_ok (t_document_pages db)"
  shows "countExistingPages (page_view db i)
    = int (length (filter (\<lambda>w. w_document_id w = i) (t_document_pages db)))"
proof -
  let ?ws = "filter (\<lambda>w. w_document_id w = i) (t_document_pages db)"
  have "slot (page_view db i) k \<noteq> None \<longleftrightarrow> k \<in> w_page_index ` set ?ws" for k
    using page_view_slot [OF assms, of i k] by auto
  then have "{k. slot (page_view db i) k \<noteq> None} = set (map w_page_index ?ws)" by auto
  moreover have "distinct (map w_page_index ?ws)"
    using assms by (simp add: page_rows_ok_def distinct_page_rows)
  ultimately show ?thesis
    by (simp only: countExistingPages_slots distinct_card length_map)
qed

text \<open>The tables without the pages of one document.\<close>

definition no_pages :: "int \<Rightarrow> sqlite_db \<Rightarrow> sqlite_db" where
  "no_pages i db = db\<lparr>t_document_pages := filter (\<lambda>w. w_document_id w \<noteq> i) (t_document_pages db)\<rparr>"

lemma sql_delete_pages_eq:
  "sql_delete_pages i db =
     (int (length (filter (\<lambda>w. w_document_id w = i) (t_document_pages db))), no_pages i db)"
  by (simp add: sql_delete_pages_def no_pages_def)

lemma no_pages_view:
  assumes "db_ok db"
  shows "db_ok (no_pages i db)" "page_view (no_pages i db) i = []"
    "sql_view (no_pages i db) = (\<lambda>j. if j = i then map_option (\<lambda>d. d\<lparr>d_Pages := []\<rparr>) (sql_view db j)
                              else sql_view db j)"
proof -
  show ok: "db_ok (no_pages i db)" unfolding no_pages_def using assms by (rule db_ok_delete)
  have pv: "page_view (no_pages i db) j = (if j = i then [] else page_view db j)" for j
    by (rule page_view_delete_all [OF db_okD [OF assms]]) (simp add: no_pages_def)
  then show "page_view (no_pages i db) i = []" by simp
  show "sql_view (no_pages i db) = (\<lambda>j. if j = i then map_option (\<lambda>d. d\<lparr>d_Pages := []\<rparr>) (sql_view db j)
                              else sql_view db j)"
    by (rule sql_view_pages [OF assms ok]) (simp_all add: no_pages_def pv [unfolded no_pages_def])
qed

lemma sql_Purge_law:
  assumes now: "valid_time now"
  shows "implements sql_invar sql_view ctx (SQLiteStore_Purge ctx now i) (purge_doc now) i"
  unfolding SQLiteStore_Purge_def
proof (intro sql_implementsI purge_doc_ok body_okI now)
  let ?k = "\<lambda>document.
       if \<not> canTransitionDocumentStatus (d_status document) StatusPurged
       then tx_fail (ErrInvalidStatusTransition (d_status document) StatusPurged)
       else
         tx_bind (tx_stmt (\<lambda>db. let (cnt, db') = sql_delete_pages i db in (Inr cnt, db'))) (\<lambda>affected.
         let document' = document\<lparr>d_Pages := [], d_Progress := \<lparr>pr_Done = 0, pr_Total = 0\<rparr>,
                                  d_status := StatusPurged, d_UpdatedAt := now\<rparr> in
         tx_bind (updateDocumentTx document') (\<lambda>_. tx_return affected))"
  show "tx_faults (\<lambda>_. True) (tx_bind (getTx i False) ?k)"
    by (intro tx_faults_rules) (auto simp: Let_def intro!: tx_faults_rules tx_faults_stmt)
  fix db assume inv: "sql_invar db" and db: "db_ok db"
  let ?run = "tx_bind (getTx i False) ?k background (2, db)"
  obtain n where get: "getTx i False background (2, db) = (found_doc (sql_view db) i False, (n, db))"
    using getTx_background [OF db] by blast
  show "(\<exists>e st. ?run = (Inl e, st) \<and> upd_doc (purge_doc now) i (sql_view db) = None) \<or>
    (\<exists>r n db'. ?run = (Inr r, (n, db')) \<and> db_ok db' \<and>
       upd_doc (purge_doc now) i (sql_view db) = Some (r, sql_view db'))"
  proof (cases "\<exists>d. sql_view db i = Some d \<and> canTransitionDocumentStatus (d_status d) StatusPurged")
    case False
    then have "upd_doc (purge_doc now) i (sql_view db) = None"
      by (auto simp: upd_doc_None purge_doc_def canTransition_simps)
    moreover have "\<exists>e st. ?run = (Inl e, st)"
      using False get by (auto simp: tx_bind_def found_doc_def split: option.splits)
    ultimately show ?thesis by blast
  next
    case True
    then obtain d where d: "sql_view db i = Some d" "canTransitionDocumentStatus (d_status d) StatusPurged"
      by blast
    let ?d = "d\<lparr>d_Pages := [], d_Progress := \<lparr>pr_Done = 0, pr_Total = 0\<rparr>,
                d_status := StatusPurged, d_UpdatedAt := now\<rparr>"
    have stored: "doc_stored ?d" "d_ID ?d = i" "identity ?d = identity (d\<lparr>d_Pages := []\<rparr>)"
      using sql_view_stored [OF db d(1)] sql_view_row(2) [OF db d(1)] now
      by (simp_all add: doc_stored_def identity_def)
    note np = no_pages_view [OF db, of i]
    have "sql_view (no_pages i db) i = Some (d\<lparr>d_Pages := []\<rparr>)"
      unfolding np(3) using d by simp
    moreover have "?d\<lparr>d_Pages := page_view (no_pages i db) i\<rparr> = ?d"
      by (rule doc_set_pages) (simp add: np(2))
    ultimately obtain n' db' where
      up: "updateDocumentTx ?d background (Suc n, no_pages i db) = (Inr (), (n', db'))" "db_ok db'"
        "sql_view db' = (sql_view (no_pages i db))(i \<mapsto> ?d)"
      using updateDocumentTx_background [OF np(1) _ stored, of "Suc n"] by auto
    have "sql_view db' = (sql_view db)(i \<mapsto> ?d)"
      unfolding up(3) np(3) by (auto simp: fun_eq_iff)
    moreover have "?run = (Inr (countExistingPages (d_Pages d)), (n', db'))"
      using get d up(1) sql_view_row(3) [OF db d(1)] count_page_view [OF db_okD [OF db], of i]
      by (simp add: tx_bind_def found_doc_def sql_delete_pages_eq Let_def)
    ultimately show ?thesis
      using d up(2) by (auto simp: upd_doc_def purge_doc_def canTransition_simps)
  qed
qed

lemma sql_ResetPages_law:
  assumes now: "valid_time now"
  shows "implements sql_invar sql_view ctx (SQLiteStore_ResetPages ctx now i) (resetPages_doc now) i"
  unfolding SQLiteStore_ResetPages_def
proof (intro sql_implementsI resetPages_doc_ok body_okI now)
  let ?k = "\<lambda>_. tx_bind (tx_stmt (\<lambda>db. let (cnt, db') = sql_delete_pages i db in (Inr cnt, db'))) (\<lambda>_.
       tx_bind (updateMeta now i meta_pages_reset) (\<lambda>document.
       tx_return (document\<lparr>d_Pages := []\<rparr>)))"
  show "tx_faults (\<lambda>_. True) (tx_bind (getTx i True) ?k)"
    by (intro tx_faults_rules) (auto simp: Let_def intro!: tx_faults_rules tx_faults_stmt)
  fix db assume inv: "sql_invar db" and db: "db_ok db"
  let ?run = "tx_bind (getTx i True) ?k background (2, db)"
  obtain n where get: "getTx i True background (2, db) = (found_doc (sql_view db) i True, (n, db))"
    using getTx_background [OF db] by blast
  show "(\<exists>e st. ?run = (Inl e, st) \<and> upd_doc (resetPages_doc now) i (sql_view db) = None) \<or>
    (\<exists>r n db'. ?run = (Inr r, (n, db')) \<and> db_ok db' \<and>
       upd_doc (resetPages_doc now) i (sql_view db) = Some (r, sql_view db'))"
  proof (cases "\<exists>d. sql_view db i = Some d \<and> isVisibleDocumentStatus (d_status d)")
    case False
    then have "upd_doc (resetPages_doc now) i (sql_view db) = None"
      by (auto simp: upd_doc_None resetPages_doc_def)
    moreover have "\<exists>e st. ?run = (Inl e, st)"
      using False get by (auto simp: tx_bind_def found_doc_def split: option.splits)
    ultimately show ?thesis by blast
  next
    case True
    then obtain d where d: "sql_view db i = Some d" "isVisibleDocumentStatus (d_status d)" by blast
    let ?d = "d\<lparr>d_Pages := [], d_Progress := (d_Progress d)\<lparr>pr_Done := 0\<rparr>, d_UpdatedAt := now\<rparr>"
    note np = no_pages_view [OF db, of i]
    have d1: "sql_view (no_pages i db) i = Some (d\<lparr>d_Pages := []\<rparr>)"
      "isVisibleDocumentStatus (d_status (d\<lparr>d_Pages := []\<rparr>))"
      unfolding np(3) using d by simp_all
    obtain n' db' where
      up: "updateMeta now i meta_pages_reset background (Suc n, no_pages i db) = (Inr ?d, (n', db'))"
        "db_ok db'" "sql_view db' = (sql_view (no_pages i db))(i \<mapsto> ?d)"
      using updateMeta_background(1) [OF np(1) now d1, of meta_pages_reset _ ?d "Suc n"]
      by (auto simp: meta_pages_reset_def fillDocumentMeta_def extractDocumentMeta_def)
    have "sql_view db' = (sql_view db)(i \<mapsto> ?d)"
      unfolding up(3) np(3) by (auto simp: fun_eq_iff)
    moreover have "?run = (Inr ?d, (n', db'))"
      using get d up(1) doc_set_pages [of ?d "[]"]
      by (simp add: tx_bind_def found_doc_def sql_delete_pages_eq)
    ultimately show ?thesis
      using d up(2) by (simp add: upd_doc_def resetPages_doc_def Let_def)
  qed
qed

section \<open>Get\<close>

lemma sql_Get_law:
  assumes "sql_invar db"
  shows "case SQLiteStore_Get ctx i db of
      Inr d \<Rightarrow> sql_view db i = Some d \<and> isVisibleDocumentStatus (d_status d)
    | Inl e \<Rightarrow> live ctx \<longrightarrow> e = ErrNotFound \<and>
        (\<forall>d. sql_view db i = Some d \<longrightarrow> \<not> isVisibleDocumentStatus (d_status d))"
proof -
  have db: "db_ok db" using assms by (simp add: sql_invar_def)
  obtain n where get: "getTx i True background (2, db) = (found_doc (sql_view db) i True, (n, db))"
    using getTx_background [OF db] by blast
  have "fst (plain_tx (getTx i True) background db) = found_doc (sql_view db) i True"
    using get by (auto simp: with_tx_background split: sum.splits)
  moreover have "tx_faults (\<lambda>_. True) (getTx i True)" by (rule tx_faults_getTx) simp
  then have "(\<exists>e. plain_tx (getTx i True) ctx db = (Inl e, db)) \<and> ctx \<noteq> background \<or>
      plain_tx (getTx i True) ctx db = plain_tx (getTx i True) background db"
    using with_tx_cases by metis
  ultimately show ?thesis
    by (auto simp: SQLiteStore_Get_def live_iff found_doc_def split: sum.splits option.splits if_splits)
qed

section \<open>Create\<close>

lemma create_pages_background:
  assumes "db_ok db" "sql_view db i = Some d" "isVisibleDocumentStatus (d_status d)"
    and "d_UpdatedAt d = now" "valid_time now"
    and "\<forall>m < length pages. pg_Index (pages ! m) = int (length (d_Pages d)) + int m
       \<and> pg_Key (pages ! m) \<noteq> ''''"
  shows "\<exists>n' db'. create_pages_tx now i (int (length (d_Pages d))) pages background (n, db)
      = (Inr (), (n', db')) \<and> db_ok db' \<and>
      sql_view db' = (sql_view db)(i \<mapsto> d\<lparr>d_Pages := d_Pages d @ pages,
         d_Progress := (progress_add ^^ length pages) (d_Progress d)\<rparr>)"
  using assms
proof (induction pages arbitrary: d db n)
  case Nil
  then show ?case by (auto simp: fun_eq_iff)
next
  case (Cons page pages)
  let ?l = "length (d_Pages d)"
  let ?d1 = "d\<lparr>d_Pages := d_Pages d @ [page], d_Progress := progress_add (d_Progress d)\<rparr>"
  have page: "pg_Index page = int ?l" "pg_Key page \<noteq> ''''"
    using Cons.prems(6) by (auto dest: spec [of _ 0])
  have grow: "(growPages (d_Pages d) ?l)[?l := page] = d_Pages d @ [page]"
    by (simp add: growPages_def list_update_append)
  have same: "?d1\<lparr>d_UpdatedAt := now\<rparr> = ?d1" using Cons.prems(4) by (cases d) simp
  then have step: "upd_doc (addPage_doc page now) i (sql_view db) = Some ((), (sql_view db)(i \<mapsto> ?d1))"
    using Cons.prems page by (simp add: upd_doc_def addPage_doc_def slot_taken_def in_range_def grow same)
  obtain n1 db1 where add: "addPage_tx now i page background (n, db) = (Inr (), (n1, db1))"
      "db_ok db1" "sql_view db1 = (sql_view db)(i \<mapsto> ?d1)"
    using addPage_background [OF Cons.prems(1,5) page(2), of i n] step by auto
  have "\<exists>n' db'. create_pages_tx now i (int (length (d_Pages ?d1))) pages background (n1, db1)
      = (Inr (), (n', db')) \<and> db_ok db' \<and>
      sql_view db' = (sql_view db1)(i \<mapsto> ?d1\<lparr>d_Pages := d_Pages ?d1 @ pages,
         d_Progress := (progress_add ^^ length pages) (d_Progress ?d1)\<rparr>)"
    using Cons.prems add by (intro Cons.IH) (auto dest: spec [of _ "Suc _"])
  then obtain n' db' where
    rest: "create_pages_tx now i (int ?l + 1) pages background (n1, db1) = (Inr (), (n', db'))"
      "db_ok db'" "sql_view db' = (sql_view db1)(i \<mapsto> ?d1\<lparr>d_Pages := d_Pages ?d1 @ pages,
         d_Progress := (progress_add ^^ length pages) (d_Progress ?d1)\<rparr>)"
    by (auto simp: ac_simps)
  have "create_pages_tx now i (int ?l) (page # pages) background (n, db) = (Inr (), (n', db'))"
    using page(1) add(1) rest(1) by (simp add: tx_bind_def tx_map_err_def)
  moreover have "sql_view db' = (sql_view db)(i \<mapsto> d\<lparr>d_Pages := d_Pages d @ page # pages,
         d_Progress := (progress_add ^^ length (page # pages)) (d_Progress d)\<rparr>)"
    using rest(3) add(3) by (simp add: funpow_swap1)
  ultimately show ?case using rest(2) by blast
qed

lemma sql_insert_document_ok:
  assumes db: "db_ok db" and doc: "doc_stored d" "d_Pages d = []"
    and fresh: "\<forall>r \<in> set (t_documents db). (r_source r, r_source_document_id r) \<noteq> identity d"
  shows "\<exists>i db'. sql_insert_document d db = (Inr i, db') \<and> db_ok db' \<and> sql_view db i = None \<and>
     sql_view db' = (sql_view db)(i \<mapsto> d\<lparr>d_ID := i\<rparr>)"
proof -
  let ?i = "t_sequence db + 1"
  let ?d = "d\<lparr>d_ID := ?i\<rparr>"
  let ?db = "db\<lparr>t_documents := t_documents db @ [row_of_doc ?d], t_sequence := ?i\<rparr>"
  have row: "(row_of_doc d)\<lparr>r_id := ?i\<rparr> = row_of_doc ?d" by (simp add: row_of_doc_def)
  have rows: "doc_rows_ok (t_documents db) (t_sequence db)" using db by (simp add: db_ok_def)
  have new: "\<forall>r \<in> set (t_documents db). r_id r < ?i" using rows by (auto simp: doc_rows_ok_def)
  have stored: "doc_stored ?d" using doc(1) by (simp add: doc_stored_def)
  then have "row_ok (row_of_doc ?d)" unfolding row_ok_def doc_stored_def by blast
  then have rows': "doc_rows_ok (t_documents ?db) (t_sequence ?db)"
    using rows new fresh by (fastforce simp: doc_rows_ok_def sorted_wrt_append identity_def)
  have none: "sql_view db ?i = None" unfolding sql_view_None_iff [OF db] using new by auto
  have db': "db_ok ?db" using db rows' by (auto simp: db_ok_def)
  have pv: "page_view ?db j = page_view db j" for j by (rule page_view_cong) simp
  have "page_view db ?i = []"
    using db new by (intro page_view_eqI db_okD) (fastforce simp: db_ok_def)+
  then have "sql_view ?db = (sql_view db)(?i \<mapsto> ?d)"
    using scan_stored [OF stored] new none doc_set_pages [of ?d "[]"] doc(2)
    by (intro ext option_eqI) (auto simp: sql_view_Some [OF db'] sql_view_Some [OF db] pv)
  moreover have "sql_insert_document d db = (Inr ?i, ?db)"
    using fresh doc(1)
    by (auto simp: sql_insert_document_def row identity_def doc_stored_def status_check_known Let_def)
  ultimately show ?thesis using db' none by blast
qed

lemma tx_faults_try_bind:
  assumes "tx_faults external m" "\<And>e. external e \<Longrightarrow> \<exists>e'. k (Inl e) = tx_fail e'"
    "\<And>r. tx_faults (\<lambda>_. True) (k r)"
  shows "tx_faults (\<lambda>_. True) (tx_bind (tx_try m) k)"
  unfolding tx_faults_def
proof (intro allI)
  fix ctx st
  consider (fault) e st' where "external e" "m ctx st = (Inl e, st')"
    | (same) "m ctx st = m background st"
    using assms(1) unfolding tx_faults_def by blast
  then show "tx_bind (tx_try m) k ctx st = tx_bind (tx_try m) k background st \<or>
      (\<exists>e st'. True \<and> tx_bind (tx_try m) k ctx st = (Inl e, st'))"
  proof cases
    case fault
    then show ?thesis using assms(2) by (fastforce simp: tx_bind_def tx_try_def)
  next
    case same
    then show ?thesis
      using assms(3) unfolding tx_faults_def
      by (cases "m background st") (auto simp: tx_bind_def tx_try_def)
  qed
qed

lemma tx_faults_create_pages: "tx_faults (\<lambda>_. True) (create_pages_tx now i k pages)"
  by (induction now i k pages rule: create_pages_tx.induct)
    (auto intro!: tx_faults_bind tx_faults_map_err tx_faults_addPage simp del: tx_basic)

lemma external_not_found: "external e \<Longrightarrow> \<not> errors_Is e ErrNotFound"
  by (auto simp: external_def)

lemma tx_faults_create: "tx_faults (\<lambda>_. True) (create_tx now document)"
  unfolding create_tx_def
proof (rule tx_faults_try_bind)
  show "tx_faults external
      (getBySourceDocumentIDTx (d_Source document) (d_SourceDocumentID document) False)"
    unfolding getBySourceDocumentIDTx_def getByQueryRow_def listPagesTx_def
    by (intro tx_faults_bind) auto
qed (auto simp: external_not_found Let_def no_doc_def simp del: tx_basic
      intro!: tx_faults_map_err tx_faults_bind tx_faults_create_pages tx_faults_getTx
      split: sum.splits)

definition queued_doc :: "utc_time \<Rightarrow> Document \<Rightarrow> Document" where
  "queued_doc now document =
     document\<lparr>d_CreatedAt := now, d_UpdatedAt := now, d_status := StatusQueued, d_Pages := [],
              d_Progress := (d_Progress document)\<lparr>pr_Done := 0\<rparr>\<rparr>"

lemma created_doc_pages:
  "(queued_doc now document)\<lparr>d_ID := i, d_Pages := d_Pages document,
      d_Progress := (progress_add ^^ length (d_Pages document)) ((d_Progress document)\<lparr>pr_Done := 0\<rparr>)\<rparr>
    = created_doc i now document"
  by (cases document) (auto simp: queued_doc_def created_doc_def progress_add_funpow)

lemma create_tx_background:
  assumes db: "db_ok db" and now: "valid_time now" and inp: "pages_input (d_Pages document)"
  shows "(\<exists>d0 st. create_tx now document background (2, db) = (Inl (ErrAlreadyExists, d0), st) \<and>
            (\<exists>j. sql_view db j = Some d0 \<and> identity d0 = identity document)) \<or>
         (\<exists>i n db'. create_tx now document background (2, db)
              = (Inr (created_doc i now document), (n, db')) \<and> db_ok db' \<and> sql_view db i = None \<and>
            sql_view db' = (sql_view db)(i \<mapsto> created_doc i now document) \<and>
            (\<forall>j e. sql_view db j = Some e \<longrightarrow> identity e \<noteq> identity document))"
proof (cases "sql_select_identity (d_Source document) (d_SourceDocumentID document) False db")
  case (Some r)
  then have r: "r \<in> set (t_documents db)" "(r_source r, r_source_document_id r) = identity document"
    by (auto simp: sql_select_identity_def find_Some_iff identity_def)
  obtain d0 where d0: "doc_view db (r_id r) = Some d0" "row_of_doc d0 = r"
    using row_of_doc_view [OF db r(1)] by blast
  obtain d where d: "sql_view db (r_id r) = Some d" "row_of_doc d = r"
    using d0 by (simp add: sql_view_def)
  then have "create_tx now document background (2, db) = (Inl (ErrAlreadyExists, d), (4, db))"
    using getByQueryRow_background(1) [where sel = "sql_select_identity (d_Source document)
        (d_SourceDocumentID document) False", OF db Some r(1), of 2]
    by (simp add: create_tx_def tx_bind_def tx_try_def getBySourceDocumentIDTx_def)
  moreover have "identity d = identity document" using r(2) d(2) row_key_identity by metis
  ultimately show ?thesis using d(1) by blast
next
  case None
  then have fresh: "\<forall>r \<in> set (t_documents db). (r_source r, r_source_document_id r) \<noteq> identity document"
    by (auto simp: sql_select_identity_def find_None_iff identity_def)
  let ?q = "queued_doc now document"
  have q: "doc_stored ?q" "d_Pages ?q = []" "identity ?q = identity document"
    using now by (simp_all add: queued_doc_def doc_stored_def identity_def)
  obtain i db1 where ins: "sql_insert_document ?q db = (Inr i, db1)" "db_ok db1" "sql_view db i = None"
      "sql_view db1 = (sql_view db)(i \<mapsto> ?q\<lparr>d_ID := i\<rparr>)"
    using sql_insert_document_ok [OF db q(1,2)] fresh q(3) by auto
  have "\<exists>n db'. create_pages_tx now i (int (length (d_Pages (?q\<lparr>d_ID := i\<rparr>)))) (d_Pages document)
      background (4, db1) = (Inr (), (n, db')) \<and> db_ok db' \<and>
      sql_view db' = (sql_view db1)(i \<mapsto> (?q\<lparr>d_ID := i\<rparr>)\<lparr>d_Pages := d_Pages (?q\<lparr>d_ID := i\<rparr>) @ d_Pages document,
         d_Progress := (progress_add ^^ length (d_Pages document)) (d_Progress (?q\<lparr>d_ID := i\<rparr>))\<rparr>)"
    by (rule create_pages_background) (use ins inp now in \<open>auto simp: queued_doc_def pages_input_def\<close>)
  then obtain n db' where pages: "create_pages_tx now i 0 (d_Pages document) background (4, db1)
      = (Inr (), (n, db'))" "db_ok db'" "sql_view db' = (sql_view db)(i \<mapsto> created_doc i now document)"
    using ins(4) q(2) created_doc_pages [where i = i and now = now and document = document] by (auto simp: queued_doc_def)
  obtain n' where get: "getTx i False background (n, db') = (found_doc (sql_view db') i False, (n', db'))"
    using getTx_background [OF pages(2)] by blast
  have "create_tx now document background (2, db) = (Inr (created_doc i now document), (n', db'))"
    using getByQueryRow_background(2) [where sel = "sql_select_identity (d_Source document)
        (d_SourceDocumentID document) False", OF db None, of 2] ins(1) pages(1) get pages(3)
    by (simp add: create_tx_def tx_bind_def tx_try_def tx_map_err_def getBySourceDocumentIDTx_def Let_def
        found_doc_def flip: queued_doc_def)
  moreover have "identity e \<noteq> identity document" if "sql_view db j = Some e" for j e
    using sql_view_row(1) [OF db that] fresh row_key_identity [of e] by force
  ultimately show ?thesis using pages ins(3) by blast
qed

end
