(* ===== verification/SqlQuery.thy ===== *)
theory SqlQuery
  imports SqlMethods "HOL-Library.Multiset"
begin

text \<open>
  \<open>Query\<close> of \<open>SQLiteStore\<close>, for every order in which the engine may visit the rows, and the
  interpretation of the contract \<open>document_store\<close>.  The locale \<open>sqlite_engine\<close> is what the
  store relies on of the engine: a \<^verbatim>\<open>SELECT\<close> visits every matching row once.
\<close>

section \<open>Sorting rows and sorting documents\<close>

lemma map_insert_by:
  "(\<And>y. y \<in> set ys \<Longrightarrow> lt (f y) (f x) = lt' y x) \<Longrightarrow>
   map f (insert_by lt' x ys) = insert_by lt (f x) (map f ys)"
  by (induction ys) auto

lemma map_SliceStable:
  "(\<And>x y. x \<in> set xs \<Longrightarrow> y \<in> set xs \<Longrightarrow> lt (f x) (f y) = lt' x y) \<Longrightarrow>
   map f (SliceStable lt' xs) = SliceStable lt (map f xs)"
proof (induction xs)
  case (Cons x xs)
  have "map f (insert_by lt' x (SliceStable lt' xs)) = insert_by lt (f x) (map f (SliceStable lt' xs))"
    using Cons.prems by (intro map_insert_by) simp
  with Cons show ?case by simp
qed simp

lemma sorted_key_unique:
  assumes "sorted (map key xs)" "sorted (map key ys)" "set xs = set ys"
    and "distinct (map key xs)" "distinct (map key ys)"
  shows "xs = ys"
proof -
  have "map key xs = map key ys"
    using assms by (intro sorted_distinct_set_unique) auto
  moreover have "inj_on key (set xs \<union> set ys)" using assms(3,4) by (simp add: distinct_map)
  ultimately show ?thesis by (simp add: inj_on_map_eq_map)
qed

lemma SliceStable_set:
  assumes "set xs = set ys" "distinct (map key xs)" "distinct (map key ys)"
  shows "SliceStable (key_less desc key) xs = SliceStable (key_less desc key) ys"
proof -
  have dist: "distinct (map key (SliceStable (key_less desc key) zs))" if "distinct (map key zs)" for zs
    using that by (simp add: distinct_map)
  have sorted: "sorted (map key (if desc then rev (SliceStable (key_less desc key) zs)
      else SliceStable (key_less desc key) zs))" for zs
    using sorted_SliceStable [of desc key zs]
    by (cases desc)
      (simp_all add: key_less_def sorted_map sorted_wrt_rev sorted_wrt_map rev_map [symmetric] not_less)
  show ?thesis
  proof (cases desc)
    case True
    have "rev (SliceStable (key_less desc key) xs) = rev (SliceStable (key_less desc key) ys)"
      using sorted [of xs] sorted [of ys] dist assms True
      by (intro sorted_key_unique [where key = key]) (auto simp: rev_map [symmetric])
    then show ?thesis by simp
  next
    case False
    then show ?thesis
      using sorted [of xs] sorted [of ys] dist assms
      by (intro sorted_key_unique [where key = key]) auto
  qed
qed

section \<open>Rows of the result\<close>

definition doc_of_row :: "sqlite_db \<Rightarrow> doc_row \<Rightarrow> Document" where
  "doc_of_row db r = the (sql_view db (r_id r))"

lemma doc_of_row:
  assumes "db_ok db" "r \<in> set (t_documents db)"
  shows "sql_view db (r_id r) = Some (doc_of_row db r)" "row_of_doc (doc_of_row db r) = r"
    "d_ID (doc_of_row db r) = r_id r" "isKnownDocumentStatus (d_status (doc_of_row db r))"
proof -
  obtain d where "doc_view db (r_id r) = Some d" "row_of_doc d = r"
    using row_of_doc_view [OF assms] by blast
  then show view: "sql_view db (r_id r) = Some (doc_of_row db r)"
    and "row_of_doc (doc_of_row db r) = r"
    by (simp_all add: doc_of_row_def sql_view_def)
  show "d_ID (doc_of_row db r) = r_id r" "isKnownDocumentStatus (d_status (doc_of_row db r))"
    using sql_view_row [OF assms(1) view] by simp_all
qed

lemma docs_list_sql:
  assumes "db_ok db"
  shows "docs_list (sql_view db) = map (doc_of_row db) (t_documents db)"
proof -
  have rows: "doc_rows_ok (t_documents db) (t_sequence db)" using assms by (simp add: db_ok_def)
  have "dom (sql_view db) = set (map r_id (t_documents db))"
    using sql_view_None_iff [OF assms] by (intro set_eqI) (simp add: domIff)
  moreover have "sorted (map r_id (t_documents db))" "distinct (map r_id (t_documents db))"
    using rows by (auto simp: doc_rows_ok_def strict_sorted_iff)
  ultimately have "sorted_list_of_set (dom (sql_view db)) = map r_id (t_documents db)"
    by (metis sorted_list_of_set.idem_if_sorted_distinct)
  then show ?thesis by (simp add: docs_list_def doc_of_row_def)
qed

lemma row_matches_iff:
  assumes "db_ok db" "r \<in> set (t_documents db)"
  shows "row_matches q r \<longleftrightarrow> matches_status q (doc_of_row db r) \<and> matches_source q (doc_of_row db r)"
proof -
  let ?d = "doc_of_row db r"
  note d = doc_of_row [OF assms(1,2)]
  have cols: "r_document_status r = status_string (d_status ?d)" "r_source r = d_Source ?d"
    "r_source_document_id r = d_SourceDocumentID ?d"
    using row_of_doc_sel [of ?d] d(2) by simp_all
  show ?thesis
    using d(4)
    by (auto simp: row_matches_def matches_status_def matches_source_def cols status_visible_sql_iff
        split: option.splits)
qed

lemma scan_attach:
  assumes db: "db_ok db" and sub: "set rows \<subseteq> set (t_documents db)"
  shows "\<exists>ds. scan_all rows = Inr ds \<and>
     (\<forall>n. \<exists>n'. attach_pages ds background (n, db) = (Inr (map (doc_of_row db) rows), (n', db)))"
  using sub
proof (induction rows)
  case Nil
  then show ?case by simp
next
  case (Cons r rows)
  then obtain ds where ds: "scan_all rows = Inr ds"
      "\<forall>n. \<exists>n'. attach_pages ds background (n, db) = (Inr (map (doc_of_row db) rows), (n', db))"
    by auto
  obtain d where d: "doc_view db (r_id r) = Some d" "scanDocument r = Inr d" "d_ID d = r_id r"
    using row_of_doc_view [OF db, of r] Cons.prems by auto
  then have doc: "doc_of_row db r = d\<lparr>d_Pages := page_view db (r_id r)\<rparr>"
    by (simp add: doc_of_row_def sql_view_def)
  have "\<exists>n'. attach_pages (d # ds) background (n, db) = (Inr (map (doc_of_row db) (r # rows)), (n', db))"
    for n
  proof -
    obtain n' where "attach_pages ds background (Suc n, db) = (Inr (map (doc_of_row db) rows), (n', db))"
      using ds(2) by blast
    then show ?thesis
      using d(3) by (simp add: tx_bind_def listPagesTx_def page_view_Inr [OF db_okD [OF db]] doc)
  qed
  moreover have "scan_all (r # rows) = Inr (d # ds)" using d(2) ds(1) by simp
  ultimately show ?case by blast
qed

lemma row_less_ids:
  "q_orderBy q = ''id'' \<Longrightarrow> row_less q = key_less (q_order q = ''DESC'') r_id"
  by (simp add: row_less_def)

lemma sql_select_window:
  "sql_select_documents plan q db =
     query_window q (SliceStable (row_less q) (plan (filter (row_matches q) (t_documents db))))"
  by (simp add: sql_select_documents_def query_window_eq Let_def)

lemma set_sql_select_documents:
  assumes "\<And>xs. mset (plan xs) = mset xs"
  shows "set (sql_select_documents plan q db) \<subseteq> {r \<in> set (t_documents db). row_matches q r}"
proof -
  have "set (plan xs) = set xs" for xs using assms by (metis set_mset_mset)
  then show ?thesis
    unfolding sql_select_window using set_query_window [of q] by fastforce
qed

text \<open>The rows by id are the rows of the query on the documents.\<close>

lemma sql_select_by_id:
  assumes db: "db_ok db" and id: "q_orderBy q = ''id''" and perm: "\<And>xs. mset (plan xs) = mset xs"
  shows "map (doc_of_row db) (sql_select_documents plan q db) = run_query q (docs_list (sql_view db))"
proof -
  let ?D = "doc_of_row db" and ?rs = "filter (row_matches q) (t_documents db)"
  have rows: "distinct (map r_id (t_documents db))"
    using db by (auto simp: db_ok_def doc_rows_distinct)
  then have dist: "distinct (map r_id ?rs)" by (simp add: distinct_map_filter)
  have "mset (map r_id (plan ?rs)) = mset (map r_id ?rs)" by (simp add: perm)
  then have dist': "distinct (map r_id (plan ?rs))" using dist by (metis mset_eq_imp_distinct_iff)
  have "set (plan ?rs) = set ?rs" using perm by (metis set_mset_mset)
  then have "SliceStable (row_less q) (plan ?rs) = SliceStable (row_less q) ?rs"
    unfolding row_less_ids [OF id] using dist dist' by (intro SliceStable_set)
  moreover have "map ?D (SliceStable (row_less q) ?rs) = SliceStable (query_less q) (map ?D ?rs)"
    by (rule map_SliceStable)
      (use doc_of_row(3) [OF db] id in \<open>auto simp: query_less_key row_less_def key_less_def\<close>)
  moreover have "map ?D ?rs = filter (\<lambda>d. matches_status q d \<and> matches_source q d) (map ?D (t_documents db))"
    by (simp add: filter_map comp_def row_matches_iff [OF db] cong: filter_cong)
  moreover have "map ?D (query_window q xs) = query_window q (map ?D xs)" for xs
    by (simp add: query_window_eq take_map drop_map)
  ultimately show ?thesis by (simp add: run_query_def docs_list_sql [OF db] sql_select_window)
qed

section \<open>The contract\<close>

lemma tx_faults_attach_pages: "tx_faults (\<lambda>_. True) (attach_pages ds)"
  by (induction ds) (auto simp: listPagesTx_def simp del: tx_basic intro!: tx_faults_bind)

lemma tx_faults_query_tx: "tx_faults (\<lambda>_. True) (query_tx plan q)"
  unfolding query_tx_def
  by (auto intro!: tx_faults_bind tx_faults_attach_pages)

lemma query_tx_background:
  assumes db: "db_ok db" and q: "built q" "limit_in_range q" and perm: "\<And>xs. mset (plan xs) = mset xs"
  shows "\<exists>n. query_tx plan q background (2, db)
    = (Inr (map (doc_of_row db) (sql_select_documents plan q db)), (n, db))"
proof -
  have "set (sql_select_documents plan q db) \<subseteq> set (t_documents db)"
    using set_sql_select_documents [OF perm] by blast
  from scan_attach [OF db this] obtain ds n where
    "scan_all (sql_select_documents plan q db) = Inr ds"
    "attach_pages ds background (4, db)
       = (Inr (map (doc_of_row db) (sql_select_documents plan q db)), (n, db))"
    by blast
  then show ?thesis
    using q by (auto simp: query_tx_def tx_bind_def built_def)
qed

lemma sql_Query_law:
  assumes inv: "sql_invar db" and q: "built q" "limit_in_range q"
    and perm: "\<And>xs. mset (plan xs) = mset xs"
  shows "case SQLiteStore_Query plan ctx q db of
      Inr ds \<Rightarrow>
        (\<forall>d \<in> set ds. sql_view db (d_ID d) = Some d \<and> matches_status q d \<and> matches_source q d) \<and>
        (q_orderBy q = ''id'' \<longrightarrow> ds = run_query q (docs_list (sql_view db)))
    | Inl e \<Rightarrow> \<not> live ctx"
proof -
  have db: "db_ok db" using inv by (simp add: sql_invar_def)
  let ?ds = "map (doc_of_row db) (sql_select_documents plan q db)"
  obtain n where "query_tx plan q background (2, db) = (Inr ?ds, (n, db))"
    using query_tx_background [OF db q perm] by blast
  then have "plain_tx (query_tx plan q) background db = (Inr ?ds, db)"
    by (simp add: with_tx_background)
  then consider (fault) e where "SQLiteStore_Query plan ctx q db = Inl e" "ctx \<noteq> background"
    | (same) "SQLiteStore_Query plan ctx q db = Inr ?ds"
    unfolding SQLiteStore_Query_def using with_tx_cases [OF tx_faults_query_tx] by (metis fst_conv)
  then show ?thesis
  proof cases
    case fault
    then show ?thesis by (simp add: live_iff)
  next
    case same
    have "sql_view db (d_ID d) = Some d \<and> matches_status q d \<and> matches_source q d" if mem: "d \<in> set ?ds" for d
    proof -
      obtain r where r: "r \<in> set (t_documents db)" "row_matches q r" "d = doc_of_row db r"
        using mem set_sql_select_documents [OF perm, where q = q and db = db] by auto
      then show ?thesis
        using doc_of_row [OF db r(1)] row_matches_iff [OF db r(1)] by simp
    qed
    with same show ?thesis using sql_select_by_id [OF db _ perm] by simp
  qed
qed

lemma sql_Create_law:
  assumes inv: "sql_invar db" and now: "valid_time now" and inp: "pages_input (d_Pages document)"
  shows "case SQLiteStore_Create ctx now document db of
      (Inr d, db') \<Rightarrow>
        sql_invar db' \<and> sql_view db (d_ID d) = None \<and> d = created_doc (d_ID d) now document \<and>
        sql_view db' = (sql_view db)(d_ID d \<mapsto> d) \<and>
        (\<forall>j e. sql_view db j = Some e \<longrightarrow> identity e \<noteq> identity document)
    | (Inl (e, d0), db') \<Rightarrow>
        sql_invar db' \<and> sql_view db' = sql_view db \<and>
        (live ctx \<longrightarrow> e = ErrAlreadyExists \<and>
           (\<exists>j. sql_view db j = Some d0 \<and> identity d0 = identity document))"
proof -
  have db: "db_ok db" using inv by (simp add: sql_invar_def)
  consider (fault) e where "SQLiteStore_Create ctx now document db = (Inl e, db)" "ctx \<noteq> background"
    | (same) "SQLiteStore_Create ctx now document db = SQLiteStore_Create background now document db"
    unfolding SQLiteStore_Create_def using with_tx_cases [OF tx_faults_create] by metis
  then show ?thesis
  proof cases
    case fault
    then show ?thesis using inv by (cases e) (simp add: live_iff)
  next
    case same
    from create_tx_background [OF db now inp] show ?thesis
    proof (elim disjE exE conjE)
      fix d0 st j
      assume "create_tx now document background (2, db) = (Inl (ErrAlreadyExists, d0), st)"
        "sql_view db j = Some d0" "identity d0 = identity document"
      then show ?thesis
        unfolding same using inv by (auto simp: SQLiteStore_Create_def with_tx_background)
    next
      fix i n db'
      let ?d = "created_doc i now document"
      assume run: "create_tx now document background (2, db) = (Inr ?d, (n, db'))" "db_ok db'"
        and view: "sql_view db i = None" "sql_view db' = (sql_view db)(i \<mapsto> ?d)"
        and fresh: "\<forall>j e. sql_view db j = Some e \<longrightarrow> identity e \<noteq> identity document"
      have "d_ID ?d = i" by (simp add: created_doc_def)
      moreover have "store_wf (sql_view db')"
        using inv view fresh now inp store_wf_create [of "sql_view db" i now document]
        by (simp add: sql_invar_def)
      ultimately show ?thesis
        unfolding same using run view fresh
        by (simp add: SQLiteStore_Create_def with_tx_background sql_invar_def)
    qed
  qed
qed

text \<open>
  The engine: the order in which it visits the rows of a \<^verbatim>\<open>SELECT\<close> is some permutation of them.
\<close>

locale sqlite_engine =
  fixes plan :: "doc_row list \<Rightarrow> doc_row list"
  assumes plan_perm: "mset (plan rows) = mset rows"

sublocale sqlite_engine \<subseteq> sql: document_store "sqlite_store plan" sql_view sql_invar
proof unfold_locales
  show "store_wf (sql_view s)" if "sql_invar s" for s
    using that by (simp add: sql_invar_def)
qed (simp_all add: sqlite_store_def sql_Create_law sql_Get_law sql_Delete_law sql_Purge_law
    sql_Restore_law sql_ResetPages_law sql_UpdateMeta_law sql_TransitionTo_law sql_AddPage_law
    sql_RemovePage_law sql_Query_law plan_perm)

context sqlite_engine
begin

lemma refines: "document_store (sqlite_store plan) sql_view sql_invar"
  by (rule sql.document_store_axioms)

end

lemma sqlite_document_store:
  "(\<And>rows. mset (plan rows) = mset rows) \<Longrightarrow> document_store (sqlite_store plan) sql_view sql_invar"
  by (rule sqlite_engine.refines [OF sqlite_engine.intro])

text \<open>An engine that visits the rows by rowid.\<close>

interpretation rowid: sqlite_engine "\<lambda>rows. rows"
  by unfold_locales simp

lemma sql_invar_empty [simp]: "sql_invar empty_db"
  by (simp add: sql_invar_def db_ok_def doc_rows_ok_def page_rows_ok_def empty_db_def store_wf_def
      sql_view_def doc_view_def dom_def)

end
