(* ===== verification/StoreAgree.thy ===== *)
theory StoreAgree
  imports StoreRuns MemStore SqlQuery
begin

text \<open>
  The two document stores agree.  Started empty and given the same calls, the memory store and the
  database succeed and fail together and hold the same documents, up to the ids: the memory store
  counts from 0, \<^verbatim>\<open>AUTOINCREMENT\<close> from 1.  The proof is a simulation between the two concrete
  states that rests on the contract for everything but the ids, which the contract leaves open; for
  those it follows the counter \<open>t_sequence\<close> through the transactions.
\<close>

section \<open>The id counter of the database\<close>

definition tx_seq :: "(int \<Rightarrow> int \<Rightarrow> bool) \<Rightarrow> ('e, 'a) tx \<Rightarrow> bool" where
  "tx_seq R m \<longleftrightarrow> (\<forall>ctx st. R (t_sequence (snd st)) (t_sequence (snd (snd (m ctx st)))))"

lemma tx_seq_return [intro!]: "reflp R \<Longrightarrow> tx_seq R (tx_return x)"
  and tx_seq_fail [intro!]: "reflp R \<Longrightarrow> tx_seq R (tx_fail e)"
  by (simp_all add: tx_seq_def reflp_def)

lemma tx_seq_stmt:
  "reflp R \<Longrightarrow> (\<And>db. R (t_sequence db) (t_sequence (snd (f db)))) \<Longrightarrow> tx_seq R (tx_stmt f)"
  by (auto simp: tx_seq_def tx_stmt_def reflp_def split: option.splits prod.splits) (metis snd_conv)

lemma tx_seq_query [intro!]: "reflp R \<Longrightarrow> tx_seq R (tx_query f)"
  unfolding tx_query_def by (rule tx_seq_stmt) (simp_all add: reflp_def)

lemma tx_seq_bind:
  assumes "tx_seq P m" "\<And>x. tx_seq Q (k x)" "\<And>a b. P a b \<Longrightarrow> R a b"
    and "\<And>a b c. P a b \<Longrightarrow> Q b c \<Longrightarrow> R a c"
  shows "tx_seq R (tx_bind m k)"
  unfolding tx_seq_def
proof (intro allI)
  fix ctx st
  obtain r st1 where run: "m ctx st = (r, st1)" by (cases "m ctx st")
  then have 1: "P (t_sequence (snd st)) (t_sequence (snd st1))"
    using assms(1) unfolding tx_seq_def by (metis snd_conv)
  show "R (t_sequence (snd st)) (t_sequence (snd (snd (tx_bind m k ctx st))))"
  proof (cases r)
    case (Inl e)
    then show ?thesis using run 1 assms(3) by (simp add: tx_bind_def)
  next
    case (Inr x)
    have "Q (t_sequence (snd st1)) (t_sequence (snd (snd (k x ctx st1))))"
      using assms(2) unfolding tx_seq_def by blast
    with Inr run 1 assms(4) show ?thesis by (simp add: tx_bind_def)
  qed
qed

lemma tx_seq_map_err [intro!]: "tx_seq R m \<Longrightarrow> tx_seq R (tx_map_err g m)"
  by (auto simp: tx_seq_def tx_map_err_def split: prod.splits sum.splits) (metis snd_conv)+

lemma tx_seq_try [intro!]: "tx_seq R m \<Longrightarrow> tx_seq R (tx_try m)"
  by (auto simp: tx_seq_def tx_try_def split: prod.splits) (metis snd_conv)

text \<open>Everything but the insertion of a document keeps the counter.\<close>

abbreviation tx_same :: "('e, 'a) tx \<Rightarrow> bool" where
  "tx_same \<equiv> tx_seq (=)"

lemma tx_same_bind [intro!]: "tx_same m \<Longrightarrow> (\<And>x. tx_same (k x)) \<Longrightarrow> tx_same (tx_bind m k)"
  by (rule tx_seq_bind [where P = "(=)" and Q = "(=)"]) auto

lemma tx_same_stmt [intro!]:
  "(\<And>db. t_sequence (snd (f db)) = t_sequence db) \<Longrightarrow> tx_same (tx_stmt f)"
  by (rule tx_seq_stmt) (auto simp: reflp_def)

lemma tx_same_basic [intro!]: "tx_same (tx_return x)" "tx_same (tx_fail e)" "tx_same (tx_query f)"
  by (auto simp: reflp_def)

lemma tx_same_updateDocument [intro!]: "tx_same (updateDocumentTx d)"
  unfolding updateDocumentTx_def
  by (intro tx_same_bind tx_same_stmt) (auto simp: sql_update_document_def Let_def)

lemma tx_same_get [intro!]: "tx_same (getByQueryRow sel)"
  unfolding getByQueryRow_def listPagesTx_def by auto

lemma tx_same_gets [intro!]: "tx_same (getTx i v)" "tx_same (getBySourceDocumentIDTx src sid v)"
  by (auto simp: getTx_def getBySourceDocumentIDTx_def)

lemma tx_same_updateMeta [intro!]: "tx_same (updateMeta now i fn)"
  unfolding updateMeta_def Let_def by (intro tx_same_bind tx_same_gets) (auto split: sum.splits)

lemma tx_same_addPage [intro!]: "tx_same (addPage_tx now i page)"
  unfolding addPage_tx_def by (auto simp: sql_insert_page_def)

lemma tx_same_removePage [intro!]: "tx_same (removePage_tx now i index)"
  unfolding removePage_tx_def by (auto simp: sql_delete_page_def Let_def)

lemma tx_same_create_pages [intro!]: "tx_same (create_pages_tx now i index pages)"
  by (induction now i index pages rule: create_pages_tx.induct) (auto simp del: tx_basic)

lemma with_tx_seq:
  assumes "tx_seq R body" "reflp R" "with_tx lift body ctx db = (r, db')"
  shows "R (t_sequence db) (t_sequence db')"
proof -
  obtain b st where body: "body ctx (2, db) = (b, st)" by (cases "body ctx (2, db)")
  then have "R (t_sequence db) (t_sequence (snd st))"
    using assms(1) unfolding tx_seq_def by (metis snd_conv)
  with assms(2,3) body show ?thesis
    by (auto simp: with_tx_def reflp_def split: option.splits sum.splits prod.splits)
qed

text \<open>\<open>Create\<close> takes at most one id.\<close>

definition at_most_next :: "int \<Rightarrow> int \<Rightarrow> bool" where
  "at_most_next a b \<longleftrightarrow> b = a \<or> b = a + 1"

lemma create_tx_seq: "tx_seq at_most_next (create_tx now document)"
proof -
  have "tx_seq at_most_next (tx_stmt (sql_insert_document d))" for d
    by (rule tx_seq_stmt) (auto simp: reflp_def at_most_next_def sql_insert_document_def Let_def)
  then have "tx_seq at_most_next
      (tx_bind (tx_stmt (sql_insert_document d)) (\<lambda>i. tx_bind (create_pages_tx now i 0 pages) (\<lambda>_. getTx i False)))"
    for d pages
    by (rule tx_seq_bind [where Q = "(=)"]) auto
  moreover have "tx_seq at_most_next (tx_fail e)" for e :: "'e"
    by (auto simp: reflp_def at_most_next_def)
  ultimately show ?thesis
    unfolding create_tx_def Let_def
    by (intro tx_seq_bind [where P = "(=)" and Q = at_most_next])
      (auto simp: at_most_next_def reflp_def split: sum.splits)
qed

lemma with_tx_same: "tx_same body \<Longrightarrow> t_sequence (snd (with_tx lift body ctx db)) = t_sequence db"
  using with_tx_seq [of "(=)" body lift ctx db] by (cases "with_tx lift body ctx db") (auto simp: reflp_def)

lemma sql_seq [simp]:
  "t_sequence (snd (SQLiteStore_Delete ctx now i db)) = t_sequence db"
  "t_sequence (snd (SQLiteStore_Purge ctx now i db)) = t_sequence db"
  "t_sequence (snd (SQLiteStore_Restore ctx now i db)) = t_sequence db"
  "t_sequence (snd (SQLiteStore_ResetPages ctx now i db)) = t_sequence db"
  "t_sequence (snd (SQLiteStore_TransitionTo ctx now i st db)) = t_sequence db"
  "t_sequence (snd (SQLiteStore_AddPage ctx now i page db)) = t_sequence db"
  "t_sequence (snd (SQLiteStore_RemovePage ctx now i index db)) = t_sequence db"
  unfolding SQLiteStore_Delete_def SQLiteStore_Purge_def SQLiteStore_Restore_def
    SQLiteStore_ResetPages_def SQLiteStore_TransitionTo_def SQLiteStore_AddPage_def
    SQLiteStore_RemovePage_def Let_def
  by (rule with_tx_same; auto simp: sql_delete_pages_def simp del: tx_basic split: option.splits)+

lemma sql_seq_UpdateMeta [simp]:
  "t_sequence (snd (SQLiteStore_UpdateMeta ctx now i fn db)) = t_sequence db"
  by (auto simp: SQLiteStore_UpdateMeta_def split: option.splits intro!: with_tx_same)

lemma sql_seq_Create:
  "at_most_next (t_sequence db) (t_sequence (snd (SQLiteStore_Create ctx now document db)))"
  unfolding SQLiteStore_Create_def
  by (rule with_tx_seq [OF create_tx_seq _ prod.collapse [symmetric]])
    (simp add: reflp_def at_most_next_def)

section \<open>The length of the memory store\<close>

lemma addPageLocked_length [simp]: "length (idMap (snd (addPageLocked i page now s))) = length (idMap s)"
  by (simp add: addPageLocked_def Let_def)

lemma create_pages_length [simp]:
  "length (idMap (snd (create_pages index pages i now s))) = length (idMap s)"
proof (induction index pages i now s rule: create_pages.induct)
  case (2 index page pages i now s)
  then show ?case
    using addPageLocked_length [of i page now s]
    by (cases "addPageLocked i page now s") (auto simp del: addPageLocked_length split: sum.splits)
qed simp

lemma mem_length [simp]:
  "length (idMap (snd (MemoryStore_Delete ctx now i s))) = length (idMap s)"
  "length (idMap (snd (MemoryStore_Purge ctx now i s))) = length (idMap s)"
  "length (idMap (snd (MemoryStore_Restore ctx now i s))) = length (idMap s)"
  "length (idMap (snd (MemoryStore_ResetPages ctx now i s))) = length (idMap s)"
  "length (idMap (snd (MemoryStore_UpdateMeta ctx now i fn s))) = length (idMap s)"
  "length (idMap (snd (MemoryStore_TransitionTo ctx now i st s))) = length (idMap s)"
  "length (idMap (snd (MemoryStore_AddPage ctx now i page s))) = length (idMap s)"
  "length (idMap (snd (MemoryStore_RemovePage ctx now i index s))) = length (idMap s)"
  by (simp_all add: MemoryStore_Delete_def MemoryStore_Purge_def MemoryStore_Restore_def
      MemoryStore_ResetPages_def MemoryStore_UpdateMeta_def MemoryStore_TransitionTo_def
      MemoryStore_AddPage_def MemoryStore_RemovePage_def removePageLocked_def Let_def
      split: option.splits sum.splits)

lemma mem_length_Create:
  "length (idMap (snd (MemoryStore_Create ctx now document s))) \<le> Suc (length (idMap s))"
proof -
  have "length (idMap (snd (case create_pages 0 ps i now s' of
      (Inl e, s'') \<Rightarrow> (Inl (e, zero_Document), s'') | (Inr u, s'') \<Rightarrow> (Inr (idMap s'' ! n), s''))))
      = length (idMap s')" for ps i s' n
    using create_pages_length [of 0 ps i now s']
    by (cases "create_pages 0 ps i now s'") (auto simp del: create_pages_length split: sum.splits)
  then show ?thesis by (simp add: MemoryStore_Create_def Let_def split: option.splits)
qed

section \<open>The simulation\<close>

definition up :: "Document \<Rightarrow> Document" where
  "up d = d\<lparr>d_ID := d_ID d + 1\<rparr>"

definition agree :: "MemoryStore \<Rightarrow> sqlite_db \<Rightarrow> bool" where
  "agree s db \<longleftrightarrow>
     mem_invar s \<and> sql_invar db \<and> t_sequence db = int (length (idMap s)) \<and>
     (\<forall>i. sql_view db (i + 1) = map_option up (mem_view s i))"

lemma up_sel [simp]:
  "d_ID (up d) = d_ID d + 1" "d_status (up d) = d_status d" "d_Pages (up d) = d_Pages d"
  "d_Source (up d) = d_Source d" "d_SourceDocumentID (up d) = d_SourceDocumentID d"
  "d_Progress (up d) = d_Progress d" "identity (up d) = identity d"
  "extractDocumentMeta (up d) = extractDocumentMeta d"
  "d_CreatedAt (up d) = d_CreatedAt d" "d_UpdatedAt (up d) = d_UpdatedAt d"
  by (simp_all add: up_def identity_def extractDocumentMeta_def)

lemma agree_empty: "agree NewMemoryStore empty_db"
proof -
  have "sql_view empty_db i = None" "mem_view NewMemoryStore i = None" for i
    by (simp_all add: sql_view_def doc_view_def empty_db_def mem_view_def NewMemoryStore_def in_range_def)
  moreover from this have "mem_invar NewMemoryStore"
    by (simp add: mem_invar_def store_wf_def dom_def)
  moreover have "t_sequence empty_db = int (length (idMap NewMemoryStore))"
    by (simp add: empty_db_def NewMemoryStore_def)
  ultimately show ?thesis by (simp add: agree_def)
qed

text \<open>A transformer does the same to a document under either id.\<close>

definition doc_shift :: "'r doc_op \<Rightarrow> bool" where
  "doc_shift f \<longleftrightarrow> (\<forall>d. map_option snd (f (up d)) = map_option (up \<circ> snd) (f d))"

lemma doc_shift_ops:
  "doc_shift (delete_doc now)" "doc_shift (purge_doc now)" "doc_shift (restore_doc now)"
  "doc_shift (resetPages_doc now)" "doc_shift (updateMeta_doc fn now)" "doc_shift (transition_doc st now)"
  "doc_shift (addPage_doc page now)" "doc_shift (removePage_doc index now)"
proof -
  have val: "validatePurgedDocumentState (up d) = None \<longleftrightarrow> validatePurgedDocumentState d = None" for d
    by (simp add: validatePurged_iff)
  have fill: "fillDocumentMeta (up d) m = up (fillDocumentMeta d m)" for d m
    by (simp add: fillDocumentMeta_def up_def)
  show "doc_shift (delete_doc now)" "doc_shift (purge_doc now)" "doc_shift (restore_doc now)"
    "doc_shift (resetPages_doc now)" "doc_shift (addPage_doc page now)" "doc_shift (removePage_doc index now)"
    by (simp_all add: doc_shift_def delete_doc_def purge_doc_def restore_doc_def resetPages_doc_def
        addPage_doc_def removePage_doc_def Let_def) (simp_all add: up_def)
  show "doc_shift (transition_doc st now)"
    by (simp add: doc_shift_def transition_doc_def val) (simp add: up_def)
  show "doc_shift (updateMeta_doc fn now)"
    by (simp add: doc_shift_def updateMeta_doc_def Let_def fill split: sum.splits) (simp add: up_def)
qed

lemma upd_doc_shift:
  assumes "doc_shift f" "\<And>i. m2 (i + 1) = map_option up (m1 i)"
  shows "(upd_doc f i m1 = None \<longleftrightarrow> upd_doc f (i + 1) m2 = None)"
    and "upd_doc f i m1 = Some (r1, m1') \<Longrightarrow> upd_doc f (i + 1) m2 = Some (r2, m2')
      \<Longrightarrow> m2' (j + 1) = map_option up (m1' j)"
proof -
  have f: "map_option snd (f (up d)) = map_option (up \<circ> snd) (f d)" for d
    using assms(1) unfolding doc_shift_def by blast
  show "upd_doc f i m1 = None \<longleftrightarrow> upd_doc f (i + 1) m2 = None"
  proof (cases "m1 i")
    case (Some d)
    have "f (up d) = None \<longleftrightarrow> f d = None" using f [of d] by (metis option.map_disc_iff)
    with Some assms(2) show ?thesis by (auto simp: upd_doc_def split: option.splits)
  qed (simp add: upd_doc_def assms(2))
  show "m2' (j + 1) = map_option up (m1' j)"
    if up: "upd_doc f i m1 = Some (r1, m1')" "upd_doc f (i + 1) m2 = Some (r2, m2')"
  proof -
    obtain d d' where d: "m1 i = Some d" "f d = Some (r1, d')" "m1' = m1(i \<mapsto> d')"
      using up(1) by (auto simp: upd_doc_Some)
    obtain e e' where e: "m2 (i + 1) = Some e" "f e = Some (r2, e')" "m2' = m2(i + 1 \<mapsto> e')"
      using up(2) by (auto simp: upd_doc_Some)
    have "e = up d" using d(1) e(1) assms(2) by simp
    then have "e' = up d'" using f [of d] d(2) e(2) by simp
    then show ?thesis using d(3) e(3) assms(2) by simp
  qed
qed

lemma agree_update:
  assumes a: "agree s db" and f: "doc_shift f"
    and m: "implements mem_invar mem_view background concM f i"
    and q: "implements sql_invar sql_view background concS f (i + 1)"
    and len: "\<And>s. length (idMap (snd (concM s))) = length (idMap s)"
    and seq: "\<And>db. t_sequence (snd (concS db)) = t_sequence db"
  shows "is_ok (fst (concM s)) = is_ok (fst (concS db)) \<and> agree (snd (concM s)) (snd (concS db))"
proof -
  obtain r s' r' db' where run: "concM s = (r, s')" "concS db = (r', db')"
    by (cases "concM s"; cases "concS db")
  have view: "\<And>i. sql_view db (i + 1) = map_option up (mem_view s i)"
    and inv: "mem_invar s" "sql_invar db" and n: "t_sequence db = int (length (idMap s))"
    using a by (simp_all add: agree_def)
  have n': "t_sequence db' = int (length (idMap s'))"
    using len [of s] seq [of db] run n by simp
  have M: "case r of Inr x \<Rightarrow> mem_invar s' \<and> upd_doc f i (mem_view s) = Some (x, mem_view s')
      | Inl e \<Rightarrow> mem_invar s' \<and> mem_view s' = mem_view s \<and> upd_doc f i (mem_view s) = None"
    using m inv(1) run(1) unfolding implements_def by (cases r) fastforce+
  have Q: "case r' of Inr x \<Rightarrow> sql_invar db' \<and> upd_doc f (i + 1) (sql_view db) = Some (x, sql_view db')
      | Inl e \<Rightarrow> sql_invar db' \<and> sql_view db' = sql_view db \<and> upd_doc f (i + 1) (sql_view db) = None"
    using q inv(2) run(2) unfolding implements_def by (cases r') fastforce+
  note none = upd_doc_shift(1) [where f = f and i = i and ?m1.0 = "mem_view s" and ?m2.0 = "sql_view db", OF f view]
  show ?thesis
  proof (cases r)
    case (Inl e)
    then have "upd_doc f (i + 1) (sql_view db) = None" using M none by simp
    then obtain e' where "r' = Inl e'" using Q by (cases r') auto
    with Inl M Q run view n' show ?thesis by (simp add: agree_def is_ok_def)
  next
    case (Inr x)
    then have "upd_doc f (i + 1) (sql_view db) \<noteq> None" using M none by simp
    then obtain x' where "r' = Inr x'" using Q by (cases r') auto
    with Inr M Q run n' upd_doc_shift(2) [where f = f and i = i and ?m1.0 = "mem_view s" and ?m2.0 = "sql_view db", OF f view] show ?thesis by (auto simp: agree_def is_ok_def)
  qed
qed

section \<open>Creating a document\<close>

lemma mem_view_dom: "dom (mem_view s) = {0..<int (length (idMap s))}"
  by (auto simp: dom_def mem_view_def in_range_def)

lemma agree_dom:
  assumes "agree s db"
  shows "sql_view db i \<noteq> None \<longleftrightarrow> 1 \<le> i \<and> i \<le> t_sequence db"
proof -
  have "sql_view db i = map_option up (mem_view s (i - 1))"
    using assms unfolding agree_def by (metis diff_add_cancel)
  moreover have "mem_view s (i - 1) \<noteq> None \<longleftrightarrow> 0 \<le> i - 1 \<and> i - 1 < int (length (idMap s))"
    using mem_view_dom [of s] by (auto simp: dom_def set_eq_iff)
  moreover have "t_sequence db = int (length (idMap s))" using assms by (simp add: agree_def)
  ultimately show ?thesis by auto
qed

lemma sql_view_bound:
  assumes "sql_invar db" "sql_view db i = Some d"
  shows "1 \<le> i \<and> i \<le> t_sequence db"
proof -
  obtain r where "r \<in> set (t_documents db)" "r_id r = i"
    using assms(2) by (auto simp: sql_view_def doc_view_def find_Some_iff in_set_conv_nth split: option.splits)
  then show ?thesis using assms(1) by (auto simp: sql_invar_def db_ok_def doc_rows_ok_def)
qed

lemma up_created [simp]: "up (created_doc i now document) = created_doc (i + 1) now document"
  by (simp add: up_def created_doc_def)

lemma memory_store_sel [simp]:
  "st_Create memory_store = MemoryStore_Create" "st_Delete memory_store = MemoryStore_Delete"
  "st_Purge memory_store = MemoryStore_Purge" "st_Restore memory_store = MemoryStore_Restore"
  "st_ResetPages memory_store = MemoryStore_ResetPages" "st_UpdateMeta memory_store = MemoryStore_UpdateMeta"
  "st_TransitionTo memory_store = MemoryStore_TransitionTo" "st_AddPage memory_store = MemoryStore_AddPage"
  "st_RemovePage memory_store = MemoryStore_RemovePage" "st_Query memory_store = MemoryStore_Query"
  "st_Get memory_store = MemoryStore_Get"
  by (simp_all add: memory_store_def)

lemma sqlite_store_sel [simp]:
  "st_Create (sqlite_store plan) = SQLiteStore_Create" "st_Delete (sqlite_store plan) = SQLiteStore_Delete"
  "st_Purge (sqlite_store plan) = SQLiteStore_Purge" "st_Restore (sqlite_store plan) = SQLiteStore_Restore"
  "st_ResetPages (sqlite_store plan) = SQLiteStore_ResetPages"
  "st_UpdateMeta (sqlite_store plan) = SQLiteStore_UpdateMeta"
  "st_TransitionTo (sqlite_store plan) = SQLiteStore_TransitionTo"
  "st_AddPage (sqlite_store plan) = SQLiteStore_AddPage"
  "st_RemovePage (sqlite_store plan) = SQLiteStore_RemovePage"
  "st_Query (sqlite_store plan) = SQLiteStore_Query plan" "st_Get (sqlite_store plan) = SQLiteStore_Get"
  by (simp_all add: sqlite_store_def)

lemma agree_create:
  assumes a: "agree s db" and now: "valid_time now" and inp: "pages_input (d_Pages document)"
  shows "is_ok (fst (MemoryStore_Create background now document s))
      = is_ok (fst (SQLiteStore_Create background now document db)) \<and>
    agree (snd (MemoryStore_Create background now document s))
      (snd (SQLiteStore_Create background now document db))"
proof -
  have view: "\<And>i. sql_view db (i + 1) = map_option up (mem_view s i)"
    and inv: "mem_invar s" "sql_invar db" and n: "t_sequence db = int (length (idMap s))"
    using a by (simp_all add: agree_def)
  obtain r s' r' db' where run: "MemoryStore_Create background now document s = (r, s')"
      "SQLiteStore_Create background now document db = (r', db')"
    by (cases "MemoryStore_Create background now document s"; cases "SQLiteStore_Create background now document db")
  note M = mem.Create_law [OF inv(1) now inp, of background, unfolded memory_store_sel run, simplified]
  note Q = rowid.sql.Create_law [OF inv(2) now inp, of background, unfolded sqlite_store_sel run, simplified]
  have len: "length (idMap s') \<le> Suc (length (idMap s))"
    using mem_length_Create [of background now document s] run(1) by simp
  have seq: "at_most_next (t_sequence db) (t_sequence db')"
    using sql_seq_Create [of db background now document] run(2) by simp
  show ?thesis
  proof (cases r)
    case (Inl x)
    then obtain j d0 where "mem_view s j = Some d0" "identity d0 = identity document" "mem_view s' = mem_view s"
        "mem_invar s'"
      using M by (cases x) auto
    note mem = this
    then have "sql_view db (j + 1) = Some (up d0)" by (simp add: view)
    moreover have "identity (up d0) = identity document" using mem(2) by simp
    ultimately obtain y where y: "r' = Inl y"
    proof (cases r')
      case (Inr b)
      then have "\<forall>j e. sql_view db j = Some e \<longrightarrow> identity e \<noteq> identity document" using Q by simp
      with \<open>sql_view db (j + 1) = Some (up d0)\<close> \<open>identity (up d0) = _\<close> show ?thesis by blast
    qed
    then have "db' = db" using run(2) by (simp add: SQLiteStore_Create_def with_tx_Inl)
    moreover have "length (idMap s') = length (idMap s)"
    proof -
      have "{0..<int (length (idMap s'))} = {0..<int (length (idMap s))}"
        using mem(3) by (simp flip: mem_view_dom)
      then have "card {0..<int (length (idMap s'))} = card {0..<int (length (idMap s))}" by simp
      then show ?thesis by simp
    qed
    ultimately show ?thesis using Inl y run a mem(3,4) by (simp add: agree_def)
  next
    case (Inr d)
    then have d: "mem_invar s'" "mem_view s (d_ID d) = None" "d = created_doc (d_ID d) now document"
        "mem_view s' = (mem_view s)(d_ID d \<mapsto> d)" "\<forall>j e. mem_view s j = Some e \<longrightarrow> identity e \<noteq> identity document"
      using M by auto
    have "\<not> (\<exists>j e. sql_view db j = Some e \<and> identity e = identity document)"
    proof safe
      fix j e assume e: "sql_view db j = Some e" "identity e = identity document"
      have "sql_view db j = map_option up (mem_view s (j - 1))" using view [of "j - 1"] by simp
      with e d(5) show False by auto
    qed
    then obtain d' where r': "r' = Inr d'"
      using Q by (cases r') auto
    then have q: "sql_invar db'" "sql_view db (d_ID d') = None" "d' = created_doc (d_ID d') now document"
        "sql_view db' = (sql_view db)(d_ID d' \<mapsto> d')"
      using Q by auto
    have "d_ID d \<in> dom (mem_view s')" "d_ID d \<notin> dom (mem_view s)" using d(2,4) by auto
    then have i: "d_ID d = int (length (idMap s))" "length (idMap s') = Suc (length (idMap s))"
      using len by (auto simp: mem_view_dom)
    have "1 \<le> d_ID d' \<and> d_ID d' \<le> t_sequence db'" using sql_view_bound [OF q(1)] q(4) by simp
    moreover have "\<not> (1 \<le> d_ID d' \<and> d_ID d' \<le> t_sequence db)" using agree_dom [OF a] q(2) by blast
    ultimately have j: "d_ID d' = t_sequence db + 1" "t_sequence db' = t_sequence db + 1"
      using seq by (auto simp: at_most_next_def)
    then have "d' = up d" using d(3) q(3) i(1) n by (metis up_created)
    then show ?thesis using Inr r' run d(1,4) q(1,4) i j n view by (simp add: agree_def)
  qed
qed

section \<open>Sequences of calls\<close>

fun shift_op :: "store_op \<Rightarrow> store_op" where
  "shift_op (OpCreate document) = OpCreate document"
| "shift_op (OpDelete i) = OpDelete (i + 1)"
| "shift_op (OpPurge i) = OpPurge (i + 1)"
| "shift_op (OpRestore i) = OpRestore (i + 1)"
| "shift_op (OpResetPages i) = OpResetPages (i + 1)"
| "shift_op (OpUpdateMeta i fn) = OpUpdateMeta (i + 1) fn"
| "shift_op (OpTransitionTo i st) = OpTransitionTo (i + 1) st"
| "shift_op (OpAddPage i page) = OpAddPage (i + 1) page"
| "shift_op (OpRemovePage i index) = OpRemovePage (i + 1) index"

lemma agree_step:
  assumes a: "agree s db" and now: "valid_time now" and op: "op_ok op"
    and m: "exec_op memory_store background now op s = (ok, s')"
    and q: "exec_op (sqlite_store (\<lambda>rows. rows)) background now (shift_op op) db = (ok', db')"
  shows "ok = ok' \<and> agree s' db'"
proof (cases op)
  case (OpCreate document)
  then show ?thesis using agree_create [OF a now, of document] op m q by (auto simp: ok_call_def)
next
  case (OpDelete i)
  have "is_ok (fst (MemoryStore_Delete background now i s)) = is_ok (fst (SQLiteStore_Delete background now (i + 1) db)) \<and>
      agree (snd (MemoryStore_Delete background now i s)) (snd (SQLiteStore_Delete background now (i + 1) db))"
    by (rule agree_update [OF a doc_shift_ops(1)])
      (use mem.Delete_law [OF now, of background i] rowid.sql.Delete_law [OF now, of background "i + 1"] in simp_all)
  then show ?thesis using m q OpDelete by (auto simp: ok_call_def)
next
  case (OpPurge i)
  have "is_ok (fst (MemoryStore_Purge background now i s)) = is_ok (fst (SQLiteStore_Purge background now (i + 1) db)) \<and>
      agree (snd (MemoryStore_Purge background now i s)) (snd (SQLiteStore_Purge background now (i + 1) db))"
    by (rule agree_update [OF a doc_shift_ops(2)])
      (use mem.Purge_law [OF now, of background i] rowid.sql.Purge_law [OF now, of background "i + 1"] in simp_all)
  then show ?thesis using m q OpPurge by (auto simp: ok_call_def)
next
  case (OpRestore i)
  have "is_ok (fst (MemoryStore_Restore background now i s)) = is_ok (fst (SQLiteStore_Restore background now (i + 1) db)) \<and>
      agree (snd (MemoryStore_Restore background now i s)) (snd (SQLiteStore_Restore background now (i + 1) db))"
    by (rule agree_update [OF a doc_shift_ops(3)])
      (use mem.Restore_law [OF now, of background i] rowid.sql.Restore_law [OF now, of background "i + 1"] in simp_all)
  then show ?thesis using m q OpRestore by (auto simp: ok_call_def)
next
  case (OpResetPages i)
  have "is_ok (fst (MemoryStore_ResetPages background now i s)) = is_ok (fst (SQLiteStore_ResetPages background now (i + 1) db)) \<and>
      agree (snd (MemoryStore_ResetPages background now i s)) (snd (SQLiteStore_ResetPages background now (i + 1) db))"
    by (rule agree_update [OF a doc_shift_ops(4)])
      (use mem.ResetPages_law [OF now, of background i] rowid.sql.ResetPages_law [OF now, of background "i + 1"] in simp_all)
  then show ?thesis using m q OpResetPages by (auto simp: ok_call_def)
next
  case (OpUpdateMeta i fn)
  then have op_fn: "meta_frame fn" using op by simp
  have "is_ok (fst (MemoryStore_UpdateMeta background now i (Some fn) s)) = is_ok (fst (SQLiteStore_UpdateMeta background now (i + 1) (Some fn) db)) \<and>
      agree (snd (MemoryStore_UpdateMeta background now i (Some fn) s)) (snd (SQLiteStore_UpdateMeta background now (i + 1) (Some fn) db))"
    by (rule agree_update [OF a doc_shift_ops(5)])
      (use mem.UpdateMeta_law [OF now op_fn, of background i] rowid.sql.UpdateMeta_law [OF now op_fn, of background "i + 1"] in simp_all)
  then show ?thesis using m q OpUpdateMeta by (auto simp: ok_call_def)
next
  case (OpTransitionTo i st)
  have "is_ok (fst (MemoryStore_TransitionTo background now i st s)) = is_ok (fst (SQLiteStore_TransitionTo background now (i + 1) st db)) \<and>
      agree (snd (MemoryStore_TransitionTo background now i st s)) (snd (SQLiteStore_TransitionTo background now (i + 1) st db))"
    by (rule agree_update [OF a doc_shift_ops(6)])
      (use mem.TransitionTo_law [OF now, of background i] rowid.sql.TransitionTo_law [OF now, of background "i + 1"] in simp_all)
  then show ?thesis using m q OpTransitionTo by (auto simp: ok_call_def)
next
  case (OpAddPage i page)
  then have op_key: "pg_Key page \<noteq> ''''" using op by simp
  have "is_ok (fst (MemoryStore_AddPage background now i page s)) = is_ok (fst (SQLiteStore_AddPage background now (i + 1) page db)) \<and>
      agree (snd (MemoryStore_AddPage background now i page s)) (snd (SQLiteStore_AddPage background now (i + 1) page db))"
    by (rule agree_update [OF a doc_shift_ops(7)])
      (use mem.AddPage_law [OF now op_key, of background i] rowid.sql.AddPage_law [OF now op_key, of background "i + 1"] in simp_all)
  then show ?thesis using m q OpAddPage by (auto simp: ok_call_def)
next
  case (OpRemovePage i index)
  have "is_ok (fst (MemoryStore_RemovePage background now i index s)) = is_ok (fst (SQLiteStore_RemovePage background now (i + 1) index db)) \<and>
      agree (snd (MemoryStore_RemovePage background now i index s)) (snd (SQLiteStore_RemovePage background now (i + 1) index db))"
    by (rule agree_update [OF a doc_shift_ops(8)])
      (use mem.RemovePage_law [OF now, of background i] rowid.sql.RemovePage_law [OF now, of background "i + 1"] in simp_all)
  then show ?thesis using m q OpRemovePage by (auto simp: ok_call_def)
qed

lemma agree_ops:
  assumes "agree s db" "ops_ok ops" "\<forall>(ctx, now, op) \<in> set ops. ctx = background"
    and "exec_ops memory_store ops s = (oks, s')"
    and "exec_ops (sqlite_store (\<lambda>rows. rows)) (map (\<lambda>(ctx, now, op). (ctx, now, shift_op op)) ops) db = (oks', db')"
  shows "oks = oks' \<and> agree s' db'"
  using assms
proof (induction ops arbitrary: s db oks oks')
  case (Cons c ops)
  obtain now op where c: "c = (background, now, op)" using Cons.prems(3) by (cases c) auto
  obtain ok s1 ok' db1 where one: "exec_op memory_store background now op s = (ok, s1)"
      "exec_op (sqlite_store (\<lambda>rows. rows)) background now (shift_op op) db = (ok', db1)"
    by fastforce
  have step: "ok = ok' \<and> agree s1 db1"
    by (rule agree_step [OF Cons.prems(1) _ _ one]) (use Cons.prems(2) c in simp_all)
  show ?case
    using Cons.IH [of s1 db1] Cons.prems(2-5) one step c by (auto split: prod.splits)
qed simp

section \<open>Queries\<close>

lemma query_window_map: "query_window q (map f xs) = map f (query_window q xs)"
  by (simp add: query_window_eq take_map drop_map)

lemma run_query_up:
  assumes "q_orderBy q = ''id''"
  shows "run_query q (map up ds) = map up (run_query q ds)"
proof -
  have "matches_status q (up d) \<and> matches_source q (up d) \<longleftrightarrow> matches_status q d \<and> matches_source q d" for d
    by (simp add: matches_status_def matches_source_def split: option.splits)
  then have "filter (\<lambda>d. matches_status q d \<and> matches_source q d) (map up ds)
      = map up (filter (\<lambda>d. matches_status q d \<and> matches_source q d) ds)"
    by (simp add: filter_map comp_def)
  moreover have "query_less q (up a) (up b) \<longleftrightarrow> query_less q a b" for a b
    using assms by (auto simp: query_less_key key_less_def)
  then have "SliceStable (query_less q) (map up xs) = map up (SliceStable (query_less q) xs)" for xs
    by (intro map_SliceStable [symmetric]) simp
  ultimately show ?thesis by (simp add: run_query_def query_window_map)
qed

lemma agree_docs_list:
  assumes "agree s db"
  shows "docs_list (sql_view db) = map up (docs_list (mem_view s))"
proof -
  let ?n = "int (length (idMap s))"
  have "dom (sql_view db) = {1..<?n + 1}"
    using agree_dom [OF assms] assms by (auto simp: dom_def agree_def)
  also have "\<dots> = (\<lambda>i. i + 1) ` {0..<?n}" by (auto simp: image_iff)
  finally have "dom (sql_view db) = (\<lambda>i. i + 1) ` dom (mem_view s)" by (simp add: mem_view_dom)
  moreover have "sorted_list_of_set ((\<lambda>i. i + 1) ` A) = map (\<lambda>i. i + 1) (sorted_list_of_set A)"
    if "finite A" for A :: "int set"
  proof -
    have "sorted_wrt (<) (map (\<lambda>i. i + 1) (sorted_list_of_set A))"
      unfolding sorted_wrt_map by (rule sorted_wrt_mono_rel [of _ "(<)"]) simp_all
    moreover have "card ((\<lambda>i. i + 1) ` A) = card A" by (simp add: card_image inj_on_def)
    ultimately show ?thesis
      using that by (intro sorted_list_of_set_unique [THEN iffD1]) simp_all
  qed
  moreover have "finite (dom (mem_view s))" by (simp add: mem_view_dom)
  ultimately have ids: "sorted_list_of_set (dom (sql_view db))
      = map (\<lambda>i. i + 1) (sorted_list_of_set (dom (mem_view s)))" by simp
  have "the (sql_view db (i + 1)) = up (the (mem_view s i))" if "i \<in> dom (mem_view s)" for i
    using assms that by (auto simp: agree_def dom_def)
  then show ?thesis
    by (simp add: docs_list_def ids mem_view_dom)
qed

lemma agree_query:
  assumes a: "agree s db" and q: "built q" "limit_in_range q" "q_orderBy q = ''id''"
    and plan: "\<And>rows. mset (plan rows) = mset rows"
  shows "\<exists>ds. MemoryStore_Query background q s = Inr ds \<and>
    SQLiteStore_Query plan background q db = Inr (map up ds)"
proof -
  have inv: "mem_invar s" "sql_invar db" using a by (simp_all add: agree_def)
  have M: "MemoryStore_Query background q s = Inr (run_query q (docs_list (mem_view s)))"
    using mem.Query_law [OF inv(1) q(1,2), of background] q(3)
    by (cases "MemoryStore_Query background q s") simp_all
  have "document_store (sqlite_store plan) sql_view sql_invar" by (rule sqlite_document_store) (rule plan)
  from document_store.Query_law [OF this inv(2) q(1,2), of background] q(3)
  have "SQLiteStore_Query plan background q db = Inr (run_query q (docs_list (sql_view db)))"
    by (cases "SQLiteStore_Query plan background q db") simp_all
  with M show ?thesis by (simp add: agree_docs_list [OF a] run_query_up [OF q(3)])
qed

end
