(* ===== verification/Samples.thy ===== *)
theory Samples
  imports ArchiveQueue StoreAgree
begin

text \<open>
  Concrete values on which the witnesses of the root theory run: a clock, an environment in which
  nothing fails, a memory store with one document in a given status, and an application with one
  registered source and one object storage in memory.
\<close>

definition noon :: utc_time where
  "noon = UTC 2024 5 17 12 0 0 500000000"

definition sample_env :: "'s env" where
  "sample_env = \<lparr>e_now = (\<lambda>n. noon), e_ctx = (\<lambda>n. background), e_other = (\<lambda>n s. s)\<rparr>"

lemma valid_noon [simp]: "valid_time noon"
  by (simp add: noon_def valid_time_def days_in_def)

lemma sample_env_sel [simp]:
  "e_now sample_env n = noon" "e_ctx sample_env n = background" "e_other sample_env n s = s"
  by (simp_all add: sample_env_def)

lemma sample_env_ok [simp]: "env_ok invar sample_env" "quiet sample_env" "online sample_env"
  by (simp_all add: env_ok_def quiet_def online_def)

definition sample_doc :: "int \<Rightarrow> DocumentStatus \<Rightarrow> Document" where
  "sample_doc i st =
     zero_Document\<lparr>d_ID := i, d_Source := ''hitomi'', d_SourceDocumentID := Itoa (i + 100),
       d_StorageBackend := ''local'', d_CreatedAt := noon, d_UpdatedAt := noon, d_status := st\<rparr>"

lemma sample_doc_sel [simp]:
  "d_status (sample_doc i st) = st" "d_ID (sample_doc i st) = i" "d_Pages (sample_doc i st) = []"
  "d_StorageBackend (sample_doc i st) = ''local''" "d_Source (sample_doc i st) = ''hitomi''"
  by (simp_all add: sample_doc_def zero_Document_def)

definition sample_mem :: "DocumentStatus \<Rightarrow> MemoryStore" where
  "sample_mem st = NewMemoryStore\<lparr>idMap := [sample_doc 0 st]\<rparr>"

lemma mem_view_sample [simp]: "mem_view (sample_mem st) = [0 \<mapsto> sample_doc 0 st]"
  by (auto simp: fun_eq_iff mem_view_def sample_mem_def in_range_def)

lemma mem_invar_sample [simp]:
  "isKnownDocumentStatus st \<Longrightarrow> mem_invar (sample_mem st)"
  by (simp add: mem_invar_def store_wf_def doc_wf_def sample_doc_def zero_Document_def)

text \<open>Two instants of one second whose texts compare the other way round.\<close>

definition just_after_noon :: utc_time where
  "just_after_noon = UTC 2024 5 17 12 0 0 510000000"

lemma pad_nine: "pad 9 n = pad (Suc (Suc (Suc (Suc (Suc (Suc (Suc (Suc (Suc 0))))))))) n"
proof -
  have "(9::nat) = Suc (Suc (Suc (Suc (Suc (Suc (Suc (Suc (Suc 0))))))))" by simp
  then show ?thesis by (rule arg_cong)
qed

lemma sample_digits: "digit_char 0 = CHR ''0''" "digit_char (Suc 0) = CHR ''1''" "digit_char 5 = CHR ''5''"
  by (simp_all add: digit_char_def char_of_def bit_Suc_0_iff)

lemma sample_fractions: "format_fraction 500000000 = ''.5''" "format_fraction 510000000 = ''.51''"
  by (simp_all add: format_fraction_def strip_zeros_def pad_nine sample_digits)

lemma noon_texts_reversed:
  "valid_time just_after_noon" "compareTime noon just_after_noon < 0"
  "formatTime just_after_noon < formatTime noon"
proof -
  show valid: "valid_time just_after_noon"
    by (simp add: just_after_noon_def valid_time_def days_in_def)
  show "compareTime noon just_after_noon < 0"
    by (simp add: compareTime_def noon_def just_after_noon_def less_utc_time_def time_tuple_def second_tuple_def)
  have "second_tuple just_after_noon = second_tuple noon"
    by (simp add: second_tuple_def noon_def just_after_noon_def)
  from formatTime_less_same_second [OF valid valid_noon this]
  show "formatTime just_after_noon < formatTime noon"
    by (simp add: noon_def just_after_noon_def sample_fractions less_char_def)
qed

text \<open>A database with one deleted document that still has its page row.\<close>

definition sample_page :: Page where
  "sample_page = \<lparr>pg_Index = 0, pg_Key = ''documents/1/pages/ab.webp'', pg_ContentType = ''image/webp'',
     pg_Size = 3, pg_Hash = ''ab''\<rparr>"

definition sample_db :: "DocumentStatus \<Rightarrow> sqlite_db" where
  "sample_db st =
     \<lparr>t_documents = [row_of_doc ((sample_doc 1 st)\<lparr>d_Progress := \<lparr>pr_Done = 1, pr_Total = 1\<rparr>\<rparr>)],
      t_document_pages = [row_of_page 1 sample_page], t_sequence = 1\<rparr>"

lemma sample_remove_fails:
  "fst (SQLiteStore_RemovePage background noon 1 0 (sample_db StatusDeleted)) = Inl ErrNotFound"
  by (simp add: SQLiteStore_RemovePage_def with_tx_background removePage_tx_def tx_bind_def
      sample_db_def sql_delete_page_def row_of_page_def sample_page_def updateMeta_def getTx_def
      getByQueryRow_def sql_select_document_def row_of_doc_def scan_first_def status_visible_sql_def
      Let_def)

definition sample_info :: ObjectInfo where
  "sample_info = \<lparr>oi_Key = ''documents/1/a'', oi_Size = 3, oi_ContentType = '''', oi_ETag = ''etag''\<rparr>"

definition sample_handler :: "('s, 'o) SourceHandler" where
  "sample_handler =
     \<lparr>sh_ResolveDocument = (\<lambda>E d w. (Inr (d\<lparr>d_Title := ''A title''\<rparr>, None), w)),
      sh_ArchiveContent = (\<lambda>E d w. (Inr [], w)), sh_ArchiveManifest = (\<lambda>E d w. (Inr (), w))\<rparr>"

definition sample_factory :: "('s, 'o) SourceHandlerFactory" where
  "sample_factory = \<lparr>fa_Source = ''hitomi'', fa_NewHandler = (\<lambda>st hook. Some sample_handler)\<rparr>"

definition sample_app :: "'s Store \<Rightarrow> ('s, MemoryObjects) App" where
  "sample_app S =
     snd (RegisterStorage (Some (memory_objects ''local'' noon))
       (snd (RegisterSourceFactory (Some sample_factory) (NewApp S ''local'' 0))))"

definition sample_world :: "'s \<Rightarrow> ('s, MemoryObjects) world" where
  "sample_world s = \<lparr>wd_calls = 0, wd_docs = s, wd_objs = (\<lambda>name. NewMemoryObjects name)\<rparr>"

lemma sample_app_sel [simp]:
  "ap_documents (sample_app S) = S"
  "ap_storages (sample_app S) = [''local'' \<mapsto> memory_objects ''local'' noon]"
  "ap_sourceFactories (sample_app S) = [''hitomi'' \<mapsto> sample_factory]"
  by (simp_all add: sample_app_def NewApp_def RegisterSourceFactory_def RegisterStorage_def
      sample_factory_def memory_objects_def MemoryStorageType_def)

lemma sample_factories_ok [simp]: "factories_ok invar view E (sample_app S)"
  by (auto simp: factories_ok_def handler_ok_def action_ok_def sample_factory_def sample_handler_def
      split: if_splits)

lemma sample_world_sel [simp]: "wd_docs (sample_world s) = s"
  by (simp add: sample_world_def)

lemma sample_storages_ok [simp]: "storages_ok (\<lambda>name. memory_contents) (\<lambda>key. key \<noteq> '''') (sample_app S)"
  using memobj.complete_object_store_axioms
  by (auto simp: storages_ok_def DocumentObjectPrefix_Itoa split: if_splits)

text \<open>A memory store with six deleted documents, the first five of them on a storage that is gone.\<close>

definition lost_doc :: "int \<Rightarrow> Document" where
  "lost_doc i = (sample_doc i StatusDeleted)\<lparr>d_StorageBackend := ''lost''\<rparr>"

definition lost_mem :: MemoryStore where
  "lost_mem = NewMemoryStore\<lparr>idMap := map lost_doc [0..4] @ [sample_doc 5 StatusDeleted]\<rparr>"

lemma lost_mem_docs: "idMap lost_mem =
    [lost_doc 0, lost_doc 1, lost_doc 2, lost_doc 3, lost_doc 4, sample_doc 5 StatusDeleted]"
  by (simp add: lost_mem_def NewMemoryStore_def upto_rec1)

lemma lost_doc_sel [simp]:
  "d_ID (lost_doc i) = i" "d_status (lost_doc i) = StatusDeleted" "d_StorageBackend (lost_doc i) = ''lost''"
  "d_Pages (lost_doc i) = []" "d_Source (lost_doc i) = ''hitomi''"
  by (simp_all add: lost_doc_def)

lemma lost_mem_view:
  "mem_view lost_mem = [0 \<mapsto> lost_doc 0, 1 \<mapsto> lost_doc 1, 2 \<mapsto> lost_doc 2, 3 \<mapsto> lost_doc 3,
     4 \<mapsto> lost_doc 4, 5 \<mapsto> sample_doc 5 StatusDeleted]"
proof
  fix i :: int
  consider "i < 0 \<or> 5 < i" | "i = 0" | "i = 1" | "i = 2" | "i = 3" | "i = 4" | "i = 5" by linarith
  then show "mem_view lost_mem i = [0 \<mapsto> lost_doc 0, 1 \<mapsto> lost_doc 1, 2 \<mapsto> lost_doc 2, 3 \<mapsto> lost_doc 3,
     4 \<mapsto> lost_doc 4, 5 \<mapsto> sample_doc 5 StatusDeleted] i"
    by cases (auto simp: mem_view_def lost_mem_docs in_range_def)
qed

lemma lost_mem_invar: "mem_invar lost_mem"
proof -
  have "doc_wf i (lost_doc i)" "doc_wf i (sample_doc i StatusDeleted)" for i
    by (simp_all add: doc_wf_def lost_doc_def sample_doc_def zero_Document_def)
  moreover have "identity (lost_doc i) = (''hitomi'', Itoa (i + 100))" "identity (sample_doc i st) = (''hitomi'', Itoa (i + 100))" for i st
    by (simp_all add: identity_def lost_doc_def sample_doc_def zero_Document_def)
  ultimately show ?thesis
    unfolding mem_invar_def store_wf_def lost_mem_view by (auto split: if_splits)
qed

lemma lost_mem_first:
  "run_query (status_query StatusDeleted) (docs_list (mem_view lost_mem))
   = [lost_doc 0, lost_doc 1, lost_doc 2, lost_doc 3, lost_doc 4]"
proof -
  have ids: "sorted_list_of_set (dom (mem_view lost_mem)) = [0, 1, 2, 3, 4, 5]"
    unfolding lost_mem_view by simp
  have docs: "docs_list (mem_view lost_mem) = idMap lost_mem"
    unfolding docs_list_def ids lost_mem_docs by (simp add: lost_mem_view)
  show ?thesis
    unfolding docs lost_mem_docs
    by (simp add: run_query_def query_window_eq matches_status_def matches_source_def query_less_key key_less_def
        status_query_def new_QueryBuilder_def ByStatus_def)
qed

text \<open>A worker whose context is cancelled after the second store call.\<close>

definition cancelled_env :: "'s env" where
  "cancelled_env = \<lparr>e_now = (\<lambda>n. noon), e_ctx = (\<lambda>n k. if n < 2 then None else Some ''context canceled''),
     e_other = (\<lambda>n s. s)\<rparr>"

lemma sample_calls:
  "MemoryStore_Get (\<lambda>k. None) 0 (sample_mem StatusQueued) = Inr (sample_doc 0 StatusQueued)"
  "MemoryStore_TransitionTo (\<lambda>k. None) noon 0 StatusResolving (sample_mem StatusQueued)
    = (Inr (), sample_mem StatusResolving)"
  "MemoryStore_UpdateMeta (\<lambda>k. Some e) noon i fn s = (Inl (ErrExternal e), s)"
  by (simp_all add: MemoryStore_Get_def MemoryStore_TransitionTo_def MemoryStore_UpdateMeta_def Let_def
      sample_mem_def NewMemoryStore_def sample_doc_def canTransition_simps zero_Document_def)

lemma cancelled_run:
  "wd_docs (snd (processDocument (sample_app memory_store) cancelled_env 0 (sample_world (sample_mem StatusQueued))))
   = sample_mem StatusResolving"
  by (simp add: processDocument_def docs_read_def docs_call_def cancelled_env_def sample_world_def Let_def
      sample_calls or_fail_def getSourceFactory_def getStorage_def sample_factory_def archive_document_def
      sample_handler_def failDocument_def)

definition restoring_env :: "MemoryStore env" where
  "restoring_env = \<lparr>e_now = (\<lambda>n. noon), e_ctx = (\<lambda>n. background),
     e_other = (\<lambda>n s. snd (MemoryStore_Restore background noon 0 s))\<rparr>"

end
