(* ===== verification/HitomiSamples.thy ===== *)
theory HitomiSamples
  imports HitomiLive Samples
begin

text \<open>
  A concrete network for the witnesses: a server whose gallery has two files that are not in the order of
  their names, and a schedule that lets the second download overtake the first.
\<close>

definition quoted :: "string \<Rightarrow> string" where
  "quoted s = CHR 0x22 # s @ [CHR 0x22]"

definition sample_script :: string where
  "sample_script = ''b:'' @ quoted ''a''"

definition sample_file :: "string \<Rightarrow> string \<Rightarrow> string" where
  "sample_file hash name =
     ''{'' @ quoted ''hash'' @ '':'' @ quoted hash @ '','' @ quoted ''name'' @ '':'' @ quoted name @ ''}''"

definition sample_gallery :: string where
  "sample_gallery =
     ''{'' @ quoted ''id'' @ '':7,'' @ quoted ''files'' @ '':['' @ sample_file ''000'' ''2.png'' @ '',''
       @ sample_file ''010'' ''1.png'' @ '']}''"

definition answer :: "int \<Rightarrow> string \<Rightarrow> http_response" where
  "answer status body =
     \<lparr>rs_StatusCode = status, rs_Status = Itoa status, rs_RetryAfter = '''', rs_Body = body,
      rs_ReadError = None, rs_CloseError = None\<rparr>"

definition script_client :: http_client where
  "script_client = \<lparr>hc_url_error = (\<lambda>url. None), hc_Do = (\<lambda>k req. Inr (answer 200 sample_script))\<rparr>"

definition image_client :: http_client where
  "image_client = \<lparr>hc_url_error = (\<lambda>url. None), hc_Do = (\<lambda>k req. Inr (answer 200 ''img''))\<rparr>"

definition sample_net :: hitomi_net where
  "sample_net =
     \<lparr>hn_meta = script_client, hn_page = (\<lambda>p n. image_client), hn_unix_milli = 0, hn_now = (\<lambda>p n k. 0),
      hn_sort = rev, hn_moves = [MoveTask 1, MoveTask 0, MoveTask 1, MoveTask 1, MoveTask 0]\<rparr>"

lemma sample_ParseGG:
  "ParseGG sample_script = Inr \<lparr>gg_Mapping = Map.empty, gg_Base = ''a'', gg_Default = 0\<rparr>"
proof -
  have "FindAllSubmatch caseRe sample_script = []" by code_simp
  moreover have "FindAllSubmatch ifRe sample_script = []" by code_simp
  moreover have "FindSubmatch defaultRe sample_script = None" by code_simp
  moreover have "map_option (\<lambda>c. group c 1) (FindSubmatch baseRe sample_script) = Some ''a''" by code_simp
  ultimately show ?thesis by (auto simp: ParseGG_def gg_default_def TrimChar_def)
qed

definition sample_comic :: rawComic where
  "sample_comic =
     \<lparr>rc_ID = ''7'', rc_Title = '''', rc_GalleryURL = '''',
      rc_Files = [zero_PageInfo\<lparr>pi_Hash := ''000'', pi_Name := ''2.png''\<rparr>,
                  zero_PageInfo\<lparr>pi_Hash := ''010'', pi_Name := ''1.png''\<rparr>]\<rparr>"

lemma sample_Deserialize:
  "DeserializeGalleryInfo sample_gallery
   = Inr \<lparr>co_Comic = sample_comic, co_RawJSON = sample_gallery, co_Pages = []\<rparr>"
proof -
  have "dec_struct rawComic_fields zero_rawComic sample_gallery = Some sample_comic"
    by code_simp
  then show ?thesis by (simp add: DeserializeGalleryInfo_def sample_comic_def)
qed

definition sample_downloads :: "DownloadPage list" where
  "sample_downloads =
     (let page = \<lparr>dp_Index = 0, dp_Name = ''2.webp'',
        dp_URL = ''https://w1.gold-usergeneratedcontent.net/a/0/000.webp'',
        dp_Referer = ''https://hitomi.la'', dp_Hash = ''000'', dp_Width = 0, dp_Height = 0,
        dp_ContentType = ''image/webp''\<rparr>
      in [page\<lparr>dp_Index := 1, dp_Name := ''1.webp'', dp_Hash := ''010'',
            dp_URL := ''https://w1.gold-usergeneratedcontent.net/a/1/010.webp''\<rparr>, page])"

lemma sample_texts:
  shows "TrimSpace ''000'' = ''000''" and "TrimSpace ''010'' = ''010''"
    and "TrimPrefix (TrimSpace ''webp'') ''.'' = ''webp''"
    and "webpName ''1.png'' = ''1.webp''" and "webpName ''2.png'' = ''2.webp''"
  by (simp_all add: TrimSpace_printable TrimPrefix_def webpName_def)

lemma sample_shards: "ParseHex ''000'' = Some 0" "ParseHex ''001'' = Some 1"
  by code_simp+

lemma sample_utf8: "utf8 (of_char (CHR ''w'')) = ''w''" "utf8 (of_char (CHR ''0'')) = ''0''"
  by (simp_all add: utf8_def char_of_def bit_0 bit_Suc)

lemma sample_Itoa: "Itoa 0 = ''0''" "Itoa 1 = ''1''"
  by (simp_all add: Itoa_def itoa_nat.simps sample_digits)

lemma sample_wrap: "wrap64 1 = 1" "wrap64 (1 + 1) = 2"
  by (simp_all add: wrap64_def)

abbreviation sample_gg :: GGInfo where
  "sample_gg \<equiv> \<lparr>gg_Mapping = Map.empty, gg_Base = ''a'', gg_Default = 0\<rparr>"

lemma sample_urls:
  "DownloadURL ''000'' sample_gg ''webp'' = Inr ''https://w1.gold-usergeneratedcontent.net/a/0/000.webp''"
  "DownloadURL ''010'' sample_gg ''webp'' = Inr ''https://w1.gold-usergeneratedcontent.net/a/1/010.webp''"
  by (simp_all add: DownloadURL_def sample_texts sample_shards sample_utf8 sample_Itoa sample_wrap imageDomain_def Let_def del: of_char_Char)

lemma sample_Resolve:
  "ResolveComic script_client background 0 rev
     \<lparr>co_Comic = sample_comic, co_RawJSON = sample_gallery, co_Pages = []\<rparr>
   = Inr \<lparr>co_Comic = sample_comic, co_RawJSON = sample_gallery, co_Pages = sample_downloads\<rparr>"
proof -
  have "FetchGG script_client background 0 = ParseGG sample_script"
    by (simp add: FetchGG_def getText_def getBytes_def eval_nat_numeral background_def script_client_def
        answer_def StatusNotFound_def)
  moreover have "DecodeDownloadPages sample_comic sample_gg = Inr (rev sample_downloads)"
    by (simp add: DecodeDownloadPages_def sample_comic_def sample_downloads_def zero_PageInfo_def sample_urls
        sample_texts hitomiReferer_def Let_def)
  ultimately show ?thesis by (simp add: ResolveComic_def sample_ParseGG)
qed

definition gallery_doc :: Document where
  "gallery_doc = (sample_doc 0 StatusDownloading)\<lparr>d_SourceMeta := sample_gallery\<rparr>"

definition gallery_mem :: MemoryStore where
  "gallery_mem = NewMemoryStore\<lparr>idMap := [gallery_doc]\<rparr>"

abbreviation gallery_world :: "(MemoryStore, MemoryObjects) world" where
  "gallery_world \<equiv> sample_world gallery_mem"

abbreviation gallery_host :: "(MemoryStore, MemoryObjects) world source_host" where
  "gallery_host \<equiv> app_host (sample_app memory_store) sample_env ''local'' (memory_objects ''local'' noon)"

lemma gallery_mem_view: "mem_view gallery_mem = [0 \<mapsto> gallery_doc]"
  by (auto simp: fun_eq_iff mem_view_def gallery_mem_def in_range_def)

lemma gallery_doc_sel [simp]:
  "d_ID gallery_doc = 0" "d_status gallery_doc = StatusDownloading" "d_Pages gallery_doc = []"
  "d_SourceMeta gallery_doc = sample_gallery"
  by (simp_all add: gallery_doc_def)

lemma gallery_invar: "mem_invar gallery_mem"
  by (simp add: mem_invar_def store_wf_def gallery_mem_view doc_wf_def gallery_doc_def sample_doc_def
      zero_Document_def)

lemma gallery_resolved:
  "DeserializeGalleryInfo (d_SourceMeta gallery_doc)
   = Inr \<lparr>co_Comic = sample_comic, co_RawJSON = sample_gallery, co_Pages = []\<rparr>"
  "ResolveComic (hn_meta sample_net) (ho_ctx gallery_host gallery_world) (hn_unix_milli sample_net)
     (hn_sort sample_net) \<lparr>co_Comic = sample_comic, co_RawJSON = sample_gallery, co_Pages = []\<rparr>
   = Inr \<lparr>co_Comic = sample_comic, co_RawJSON = sample_gallery, co_Pages = sample_downloads\<rparr>"
  by (simp_all add: sample_Deserialize sample_Resolve sample_net_def)

lemma gallery_pages:
  "gallery_ok 0 sample_downloads" "network_answers sample_net sample_downloads"
  "length sample_downloads = 2"
  by (auto simp: gallery_ok_def network_answers_def sample_downloads_def sample_texts hash_ok_def Let_def
      sample_net_def image_client_def answered_def answer_def ok_status_def)

lemma gallery_quiet:
  "quiet_world mem_invar memory_store (sample_app memory_store) sample_env gallery_world"
  by (simp add: quiet_world_def gallery_invar)

lemma gallery_free: "page \<in> set sample_downloads \<Longrightarrow> slot_free mem_view 0 (dp_Index page) gallery_world"
  by (auto simp: slot_free_def gallery_mem_view slot_taken_def in_range_def
      sample_downloads_def Let_def)

lemma gallery_untagged: "tagged_at memory_tag ''local'' key h gallery_world"
  by (simp add: tagged_at_def memory_tag_def sample_world_def NewMemoryObjects_def)

lemma gallery_archived:
  "\<exists>ps w'. Hitomi_ArchiveContent gallery_host sample_net gallery_doc gallery_world = ((ps, None), w')"
proof -
  have "reliable_host gallery_host (store_at ''local'' (memory_objects ''local'' noon)) 0
      (quiet_world mem_invar memory_store (sample_app memory_store) sample_env) (slot_free mem_view 0)
      (tagged_at memory_tag ''local'')"
    by (rule document_store.app_reliable_host [OF mem.document_store_axioms
        memobj_tags.tagging_object_store_axioms]) (auto simp: PageObjectKey_not_empty)
  from reliable_host.ArchiveContent_succeeds [OF this gallery_resolved(1) _ gallery_resolved(2)]
    gallery_pages gallery_quiet gallery_free gallery_untagged
  show ?thesis by simp
qed

text \<open>A server whose first answer breaks off.\<close>

definition broken_client :: http_client where
  "broken_client =
     \<lparr>hc_url_error = (\<lambda>url. None),
      hc_Do = (\<lambda>k req. Inr (if k = 0 then (answer 200 ''ab'')\<lparr>rs_ReadError := Some ''unexpected EOF''\<rparr>
                            else answer 200 ''abc''))\<rparr>"

abbreviation sample_download :: DownloadPage where
  "sample_download \<equiv> hd sample_downloads"

lemma broken_download:
  "Resolver_DownloadPage broken_client background now sample_download [] = (Inr (), ''ababc'')"
proof -
  have "DownloadPage_loop broken_client background now page (Suc (Suc n)) 0 None [] = (Inr (), ''ababc'')" for n page
    by (simp add: broken_client_def background_def answer_def StatusNotFound_def StatusTooManyRequests_def
        StatusServiceUnavailable_def)
  from this [of _ 3] show ?thesis by (simp add: Resolver_DownloadPage_def)
qed

lemma sample_seconds: "Itoa 9223372037 = ''9223372037''"
  by (simp add: Itoa_def itoa_nat.simps digit_char_def char_of_def bit_0 bit_Suc)

end
