(* ===== verification/Crypto.thy ===== *)
theory Crypto
  imports Md5
begin

text \<open>
  The two other codecs of Go's standard library that the JMComic source uses: \<^verbatim>\<open>base64.StdEncoding\<close> and the
  block decryption of \<^verbatim>\<open>crypto/aes\<close> with a key of 32 bytes (AES-256).
\<close>

section \<open>Base 64\<close>

definition b64_val :: "char \<Rightarrow> nat option" where
  "b64_val c =
     (let n = (of_char c :: nat) in
      if 65 \<le> n \<and> n \<le> 90 then Some (n - 65)
      else if 97 \<le> n \<and> n \<le> 122 then Some (n - 71)
      else if 48 \<le> n \<and> n \<le> 57 then Some (n + 4)
      else if n = 43 then Some 62
      else if n = 47 then Some 63
      else None)"

text \<open>The bytes of up to four digits; the bits left over at the end are dropped.\<close>

definition b64_bytes :: "nat \<Rightarrow> nat \<Rightarrow> nat \<Rightarrow> nat \<Rightarrow> string" where
  "b64_bytes a b c d =
     map char_of [4 * a + b div 16, 16 * (b mod 16) + c div 4, 64 * (c mod 4) + d]"

fun b64_quanta :: "string \<Rightarrow> string option" where
  "b64_quanta [] = Some []"
| "b64_quanta (a # b # c # d # rest) =
     (if d = CHR ''='' then
        (if rest \<noteq> [] then None
         else if c = CHR ''='' then
           (case (b64_val a, b64_val b) of
              (Some x, Some y) \<Rightarrow> Some (take 1 (b64_bytes x y 0 0)) | _ \<Rightarrow> None)
         else
           (case (b64_val a, b64_val b, b64_val c) of
              (Some x, Some y, Some z) \<Rightarrow> Some (take 2 (b64_bytes x y z 0)) | _ \<Rightarrow> None))
      else
        (case (b64_val a, b64_val b, b64_val c, b64_val d) of
           (Some x, Some y, Some z, Some u) \<Rightarrow> map_option (\<lambda>t. b64_bytes x y z u @ t) (b64_quanta rest)
         | _ \<Rightarrow> None))"
| "b64_quanta _ = None"

definition base64_DecodeString :: "string \<Rightarrow> string option" where
  "base64_DecodeString s = b64_quanta (filter (\<lambda>c. (of_char c :: nat) \<notin> {10, 13}) s)"

section \<open>AES-256\<close>

type_synonym byte = "8 word"

definition aes_sbox :: "byte list" where
  "aes_sbox =
   [
    99, 124, 119, 123, 242, 107, 111, 197, 48, 1, 103, 43, 254, 215, 171, 118,
    202, 130, 201, 125, 250, 89, 71, 240, 173, 212, 162, 175, 156, 164, 114, 192,
    183, 253, 147, 38, 54, 63, 247, 204, 52, 165, 229, 241, 113, 216, 49, 21,
    4, 199, 35, 195, 24, 150, 5, 154, 7, 18, 128, 226, 235, 39, 178, 117,
    9, 131, 44, 26, 27, 110, 90, 160, 82, 59, 214, 179, 41, 227, 47, 132,
    83, 209, 0, 237, 32, 252, 177, 91, 106, 203, 190, 57, 74, 76, 88, 207,
    208, 239, 170, 251, 67, 77, 51, 133, 69, 249, 2, 127, 80, 60, 159, 168,
    81, 163, 64, 143, 146, 157, 56, 245, 188, 182, 218, 33, 16, 255, 243, 210,
    205, 12, 19, 236, 95, 151, 68, 23, 196, 167, 126, 61, 100, 93, 25, 115,
    96, 129, 79, 220, 34, 42, 144, 136, 70, 238, 184, 20, 222, 94, 11, 219,
    224, 50, 58, 10, 73, 6, 36, 92, 194, 211, 172, 98, 145, 149, 228, 121,
    231, 200, 55, 109, 141, 213, 78, 169, 108, 86, 244, 234, 101, 122, 174, 8,
    186, 120, 37, 46, 28, 166, 180, 198, 232, 221, 116, 31, 75, 189, 139, 138,
    112, 62, 181, 102, 72, 3, 246, 14, 97, 53, 87, 185, 134, 193, 29, 158,
    225, 248, 152, 17, 105, 217, 142, 148, 155, 30, 135, 233, 206, 85, 40, 223,
    140, 161, 137, 13, 191, 230, 66, 104, 65, 153, 45, 15, 176, 84, 187, 22]"

definition aes_inv_sbox :: "byte list" where
  "aes_inv_sbox =
   [
    82, 9, 106, 213, 48, 54, 165, 56, 191, 64, 163, 158, 129, 243, 215, 251,
    124, 227, 57, 130, 155, 47, 255, 135, 52, 142, 67, 68, 196, 222, 233, 203,
    84, 123, 148, 50, 166, 194, 35, 61, 238, 76, 149, 11, 66, 250, 195, 78,
    8, 46, 161, 102, 40, 217, 36, 178, 118, 91, 162, 73, 109, 139, 209, 37,
    114, 248, 246, 100, 134, 104, 152, 22, 212, 164, 92, 204, 93, 101, 182, 146,
    108, 112, 72, 80, 253, 237, 185, 218, 94, 21, 70, 87, 167, 141, 157, 132,
    144, 216, 171, 0, 140, 188, 211, 10, 247, 228, 88, 5, 184, 179, 69, 6,
    208, 44, 30, 143, 202, 63, 15, 2, 193, 175, 189, 3, 1, 19, 138, 107,
    58, 145, 17, 65, 79, 103, 220, 234, 151, 242, 207, 206, 240, 180, 230, 115,
    150, 172, 116, 34, 231, 173, 53, 133, 226, 249, 55, 232, 28, 117, 223, 110,
    71, 241, 26, 113, 29, 41, 197, 137, 111, 183, 98, 14, 170, 24, 190, 27,
    252, 86, 62, 75, 198, 210, 121, 32, 154, 219, 192, 254, 120, 205, 90, 244,
    31, 221, 168, 51, 136, 7, 199, 49, 177, 18, 16, 89, 39, 128, 236, 95,
    96, 81, 127, 169, 25, 181, 74, 13, 45, 229, 122, 159, 147, 201, 156, 239,
    160, 224, 59, 77, 174, 42, 245, 176, 200, 235, 187, 60, 131, 83, 153, 97,
    23, 43, 4, 126, 186, 119, 214, 38, 225, 105, 20, 99, 85, 33, 12, 125]"

definition sub_byte :: "byte \<Rightarrow> byte" where "sub_byte b = aes_sbox ! unat b"
definition inv_sub_byte :: "byte \<Rightarrow> byte" where "inv_sub_byte b = aes_inv_sbox ! unat b"

text \<open>Multiplication in the field of 256 elements: doubling, and by the four constants of the cipher.\<close>

definition xtime :: "byte \<Rightarrow> byte" where
  "xtime b = (if bit b 7 then push_bit 1 b XOR 27 else push_bit 1 b)"

definition gmul9 :: "byte \<Rightarrow> byte" where "gmul9 b = xtime (xtime (xtime b)) XOR b"
definition gmul11 :: "byte \<Rightarrow> byte" where "gmul11 b = xtime (xtime (xtime b)) XOR xtime b XOR b"
definition gmul13 :: "byte \<Rightarrow> byte" where "gmul13 b = xtime (xtime (xtime b)) XOR xtime (xtime b) XOR b"
definition gmul14 :: "byte \<Rightarrow> byte" where
  "gmul14 b = xtime (xtime (xtime b)) XOR xtime (xtime b) XOR xtime b"

definition xor_bytes :: "byte list \<Rightarrow> byte list \<Rightarrow> byte list" where
  "xor_bytes xs ys = map (\<lambda>(x, y). x XOR y) (zip xs ys)"

text \<open>The key schedule: sixty words of four bytes, in fifteen round keys.\<close>

definition aes_rcon :: "byte list" where
  "aes_rcon = [0, 1, 2, 4, 8, 16, 32, 64]"

definition next_word :: "nat \<Rightarrow> byte list list \<Rightarrow> byte list" where
  "next_word i ws =
     (let temp = ws ! (i - 1);
          temp' = (if i mod 8 = 0 then xor_bytes (map sub_byte (rotate1 temp)) [aes_rcon ! (i div 8), 0, 0, 0]
                   else if i mod 8 = 4 then map sub_byte temp
                   else temp)
      in xor_bytes (ws ! (i - 8)) temp')"

definition expand_key :: "byte list \<Rightarrow> byte list list" where
  "expand_key key = fold (\<lambda>i ws. ws @ [next_word i ws]) [8..<60] (chunks 4 key)"

definition round_key :: "byte list list \<Rightarrow> nat \<Rightarrow> byte list" where
  "round_key ws r = concat (take 4 (drop (4 * r) ws))"

text \<open>The state is sixteen bytes, column by column.\<close>

definition inv_shift_rows :: "byte list \<Rightarrow> byte list" where
  "inv_shift_rows s = map (\<lambda>k. s ! (k mod 4 + 4 * ((k div 4 + 4 - k mod 4) mod 4))) [0..<16]"

fun inv_mix_column :: "byte list \<Rightarrow> byte list" where
  "inv_mix_column [a, b, c, d] =
     [gmul14 a XOR gmul11 b XOR gmul13 c XOR gmul9 d,
      gmul9 a XOR gmul14 b XOR gmul11 c XOR gmul13 d,
      gmul13 a XOR gmul9 b XOR gmul14 c XOR gmul11 d,
      gmul11 a XOR gmul13 b XOR gmul9 c XOR gmul14 d]"
| "inv_mix_column s = s"

definition inv_round :: "byte list list \<Rightarrow> nat \<Rightarrow> byte list \<Rightarrow> byte list" where
  "inv_round ws r s =
     concat (map inv_mix_column
       (chunks 4 (xor_bytes (map inv_sub_byte (inv_shift_rows s)) (round_key ws r))))"

definition aes_decrypt_block :: "byte list \<Rightarrow> byte list \<Rightarrow> byte list" where
  "aes_decrypt_block key s =
     (let ws = expand_key key;
          s' = fold (inv_round ws) (rev [1..<14]) (xor_bytes s (round_key ws 14))
      in xor_bytes (map inv_sub_byte (inv_shift_rows s')) (round_key ws 0))"

definition bytes_of :: "string \<Rightarrow> byte list" where "bytes_of = map of_char"
definition string_of :: "byte list \<Rightarrow> string" where "string_of = map (\<lambda>b. char_of (unat b))"

text \<open>\<^verbatim>\<open>block.Decrypt\<close> of a cipher with the given key, on one block.\<close>

definition aes_BlockSize :: nat where "aes_BlockSize = 16"

definition aes_Decrypt :: "string \<Rightarrow> string \<Rightarrow> string" where
  "aes_Decrypt key block = string_of (aes_decrypt_block (bytes_of key) (bytes_of block))"

text \<open>A block is decrypted to a block.\<close>

lemma length_chunks_concat: "length (concat (map inv_mix_column (chunks 4 xs))) = length xs"
proof (induction n \<equiv> "4 :: nat" xs rule: chunks.induct)
  case (1 xs)
  have len: "length (inv_mix_column ys) = length ys" for ys by (cases ys rule: inv_mix_column.cases) auto
  show ?case
    using 1 by (subst chunks.simps) (auto simp: len)
qed

lemma length_xor_bytes [simp]: "length (xor_bytes xs ys) = min (length xs) (length ys)"
  by (simp add: xor_bytes_def)

end
