(* ===== verification/JmResolver.thy ===== *)
theory JmResolver
  imports GoNet Crypto "HOL-Library.Multiset"
begin

text \<open>
  The client of \<^verbatim>\<open>internal/sources/jmcomic/resolver.go\<close>: signed requests to the API domains one after the
  other, the envelope whose data is encrypted with a key made from the time of the request, the
  decoders of albums and photos, and the images, which arrive cut into strips in reverse order.

  One call of the client meets one \<open>http_client\<close>, whose \<open>k\<close>-th answer is for the \<open>k\<close>-th domain, and one
  clock.  Decoding and encoding images and the conversion of a row of pixels to RGBA are an
  \<open>image_codec\<close>: they are the standard image packages and a third-party one.
\<close>

section \<open>Data\<close>

definition appVersion :: string where "appVersion = ''2.0.26''"
definition tokenSecret :: string where "tokenSecret = ''185Hcomic3PAPP7R''"
definition imageSecret :: string where "imageSecret = ''185Hcomic3PAPP7R''"
definition scrambleSecret :: string where "scrambleSecret = ''18comicAPPContent''"

definition mobileUA :: string where
  "mobileUA = ''Mozilla/5.0 (Linux; Android 9; V1938CT Build/PQ3A.190705.11211812; wv) AppleWebKit/537.36 (KHTML, like Gecko) Version/4.0 Chrome/91.0.4472.114 Safari/537.36''"

definition desktopUA :: string where
  "desktopUA = ''Mozilla/5.0 (Windows NT 10.0; Win64; x64) AppleWebKit/537.36 (KHTML, like Gecko) Chrome/124.0.0.0 Safari/537.36''"

definition fallbackAPIDomains :: "string list" where
  "fallbackAPIDomains = [''www.cdnhjk.net'', ''www.cdngwc.cc'', ''www.cdngwc.net'', ''www.cdngwc.club'',
     ''www.cdnutc.me'']"

definition imageDomains :: "string list" where
  "imageDomains = [''cdn-msp.jmapiproxy1.cc'', ''cdn-msp.jmapiproxy2.cc'', ''cdn-msp2.jmapiproxy2.cc'',
     ''cdn-msp3.jmapiproxy2.cc'', ''cdn-msp.jmapinodeudzn.net'', ''cdn-msp3.jmapinodeudzn.net'']"

definition scramblePattern :: regexp where
  "scramblePattern = RCat [RLit ''var'', RPlus (RChars space_chars), RLit ''scramble_id'', RSpaces, RLit ''='',
     RSpaces, RGroup 1 RDigits]"

record ApiClient =
  ac_domains :: "string list"

record apiEnvelope =
  en_Code :: int
  en_Data :: string
  en_ErrorMsg :: string

record Episode =
  ep_PhotoID :: string
  ep_Index :: string
  ep_Title :: string

record Album =
  al_ID :: string
  al_Name :: string
  al_Authors :: "string list"
  al_Tags :: "string list"
  al_Episodes :: "Episode list"
  al_Raw :: string

record Photo =
  ph_ID :: string
  ph_Name :: string
  ph_SeriesID :: string
  ph_ScrambleID :: int
  ph_AddTime :: string
  ph_Images :: "string list"
  ph_Raw :: string

definition NewAPIClient :: "go_error + ApiClient" where
  "NewAPIClient = Inr \<lparr>ac_domains = fallbackAPIDomains\<rparr>"

section \<open>Decoding\<close>

text \<open>A \<open>flexString\<close> is the text of a string, or the literal of any other value.\<close>

definition dec_flexString :: "string decoder" where
  "dec_flexString old raw =
     (case raw of
        CHR 0x22 # _ \<Rightarrow> dec_string '''' raw
      | _ \<Rightarrow> Some (TrimSpace raw))"

definition zero_Episode :: Episode where
  "zero_Episode = \<lparr>ep_PhotoID = '''', ep_Index = '''', ep_Title = ''''\<rparr>"

definition zero_Album :: Album where
  "zero_Album = \<lparr>al_ID = '''', al_Name = '''', al_Authors = [], al_Tags = [], al_Episodes = [], al_Raw = ''''\<rparr>"

definition zero_Photo :: Photo where
  "zero_Photo = \<lparr>ph_ID = '''', ph_Name = '''', ph_SeriesID = '''', ph_ScrambleID = 0, ph_AddTime = '''',
     ph_Images = [], ph_Raw = ''''\<rparr>"

definition zero_apiEnvelope :: apiEnvelope where
  "zero_apiEnvelope = \<lparr>en_Code = 0, en_Data = '''', en_ErrorMsg = ''''\<rparr>"

definition apiEnvelope_fields :: "(string \<times> string) list \<Rightarrow> apiEnvelope \<Rightarrow> apiEnvelope option" where
  "apiEnvelope_fields ms e =
     do {
       code \<leftarrow> dec_field ''code'' dec_int ms (en_Code e);
       data \<leftarrow> dec_field ''data'' dec_raw ms (en_Data e);
       msg \<leftarrow> dec_field ''errorMsg'' dec_string ms (en_ErrorMsg e);
       Some \<lparr>en_Code = code, en_Data = data, en_ErrorMsg = msg\<rparr> }"

definition Episode_fields :: "(string \<times> string) list \<Rightarrow> Episode \<Rightarrow> Episode option" where
  "Episode_fields ms e =
     do {
       photoID \<leftarrow> dec_field ''id'' dec_flexString ms (ep_PhotoID e);
       index \<leftarrow> dec_field ''sort'' dec_flexString ms (ep_Index e);
       title \<leftarrow> dec_field ''name'' dec_string ms (ep_Title e);
       Some \<lparr>ep_PhotoID = photoID, ep_Index = index, ep_Title = title\<rparr> }"

definition Album_fields :: "(string \<times> string) list \<Rightarrow> Album \<Rightarrow> Album option" where
  "Album_fields ms a =
     do {
       i \<leftarrow> dec_field ''id'' dec_flexString ms (al_ID a);
       name \<leftarrow> dec_field ''name'' dec_string ms (al_Name a);
       authors \<leftarrow> dec_field ''author'' (dec_list '''' dec_string) ms (al_Authors a);
       tags \<leftarrow> dec_field ''tags'' (dec_list '''' dec_string) ms (al_Tags a);
       episodes \<leftarrow> dec_field ''series'' (dec_list zero_Episode (dec_struct Episode_fields)) ms (al_Episodes a);
       Some \<lparr>al_ID = i, al_Name = name, al_Authors = authors, al_Tags = tags, al_Episodes = episodes,
             al_Raw = al_Raw a\<rparr> }"

definition Photo_fields :: "(string \<times> string) list \<Rightarrow> Photo \<Rightarrow> Photo option" where
  "Photo_fields ms p =
     do {
       i \<leftarrow> dec_field ''id'' dec_flexString ms (ph_ID p);
       name \<leftarrow> dec_field ''name'' dec_string ms (ph_Name p);
       series \<leftarrow> dec_field ''series_id'' dec_flexString ms (ph_SeriesID p);
       scramble \<leftarrow> dec_field ''ScrambleID'' dec_int ms (ph_ScrambleID p);
       addTime \<leftarrow> dec_field ''addtime'' dec_flexString ms (ph_AddTime p);
       images \<leftarrow> dec_field ''images'' (dec_list '''' dec_string) ms (ph_Images p);
       Some \<lparr>ph_ID = i, ph_Name = name, ph_SeriesID = series, ph_ScrambleID = scramble,
             ph_AddTime = addTime, ph_Images = images, ph_Raw = ph_Raw p\<rparr> }"

text \<open>The methods \<open>UnmarshalJSON\<close>, which keep the text they decode.\<close>

definition Album_UnmarshalJSON :: "string \<Rightarrow> Album option" where
  "Album_UnmarshalJSON data =
     do {
       v \<leftarrow> raw_value data;
       decoded \<leftarrow> dec_struct Album_fields zero_Album v;
       Some (decoded\<lparr>al_Raw := v\<rparr>) }"

definition Photo_UnmarshalJSON :: "string \<Rightarrow> Photo option" where
  "Photo_UnmarshalJSON data =
     do {
       v \<leftarrow> raw_value data;
       decoded \<leftarrow> dec_struct Photo_fields zero_Photo v;
       Some (decoded\<lparr>ph_Raw := v\<rparr>) }"

section \<open>Tokens and payloads\<close>

definition md5Hex :: "string \<Rightarrow> string" where
  "md5Hex value = md5_hex value"

definition makeToken :: "string \<Rightarrow> string \<Rightarrow> string \<times> string" where
  "makeToken ts secret = (md5Hex (ts @ secret), ts @ '','' @ appVersion)"

definition decryptPayload :: "string \<Rightarrow> string \<Rightarrow> string \<Rightarrow> go_error + string" where
  "decryptPayload data ts secret =
     (case base64_DecodeString data of
        None \<Rightarrow> Inl (ErrExternal ''illegal base64 data'')
      | Some raw \<Rightarrow>
          (if length raw = 0 \<or> length raw mod aes_BlockSize \<noteq> 0
           then Inl (ErrText (''invalid encrypted payload length: '' @ Itoa (int (length raw))))
           else
             (let out = concat (map (aes_Decrypt (md5Hex (ts @ secret))) (chunks aes_BlockSize raw));
                  padding = (of_char (last out) :: nat)
              in if padding \<le> 0 \<or> padding > aes_BlockSize \<or> padding > length out
                 then Inl (ErrText ''invalid PKCS#7 padding'')
                 else Inr (take (length out - padding) out))))"

definition decodeEnvelope :: "string \<Rightarrow> string \<Rightarrow> go_error + string" where
  "decodeEnvelope raw ts =
     (if length raw = 0 \<or> raw = ''null'' then Inr ''{}''
      else case dec_string '''' raw of
        Some encrypted \<Rightarrow> decryptPayload encrypted ts imageSecret
      | None \<Rightarrow> Inr raw)"

section \<open>Addresses\<close>

definition unreserved :: "char \<Rightarrow> bool" where
  "unreserved c \<longleftrightarrow>
     (let n = (of_char c :: nat) in
      65 \<le> n \<and> n \<le> 90 \<or> 97 \<le> n \<and> n \<le> 122 \<or> 48 \<le> n \<and> n \<le> 57 \<or> c \<in> set ''-_.~'')"

definition upper_hex :: "nat \<Rightarrow> char" where
  "upper_hex d = char_of (if d < 10 then 48 + d else 55 + d)"

definition percent :: "char \<Rightarrow> string" where
  "percent c = (let n = (of_char c :: nat) in [CHR 0x25, upper_hex (n div 16), upper_hex (n mod 16)])"

definition QueryEscape :: "string \<Rightarrow> string" where
  "QueryEscape s =
     concat (map (\<lambda>c. if unreserved c then [c] else if c = CHR '' '' then ''+'' else percent c) s)"

definition PathEscape :: "string \<Rightarrow> string" where
  "PathEscape s =
     concat (map (\<lambda>c. if unreserved c \<or> c \<in> set ''$&+,/:;=@'' then [c] else percent c) s)"

fun join_with :: "string \<Rightarrow> string list \<Rightarrow> string" where
  "join_with sep [] = []"
| "join_with sep [t] = t"
| "join_with sep (t # u # ts) = t @ sep @ join_with sep (u # ts)"

text \<open>\<open>Values.Encode\<close> on keys that are given in order and need no escape.\<close>

definition url_String :: "string \<Rightarrow> string \<Rightarrow> (string \<times> string) list \<Rightarrow> string" where
  "url_String host path' query =
     ''https://'' @ host @ PathEscape path'
       @ (if query = [] then ''''
          else ''?'' @ join_with ''&'' (map (\<lambda>(k, v). k @ ''='' @ QueryEscape v) query))"

section \<open>Requests\<close>

definition api_headers :: "string \<Rightarrow> string \<Rightarrow> (string \<times> string) list" where
  "api_headers ts secret =
     (case makeToken ts secret of
        (token, tokenParam) \<Rightarrow> [(''user-agent'', mobileUA), (''token'', token), (''tokenparam'', tokenParam)])"

text \<open>The body of a response, or the error that is kept as the last one.\<close>

definition read_response :: "string \<Rightarrow> string + http_response \<Rightarrow> go_error + string" where
  "read_response what answer =
     (case answer of
        Inl e \<Rightarrow> Inl (ErrExternal e)
      | Inr resp \<Rightarrow>
          (if rs_ReadError resp \<noteq> None \<or> rs_StatusCode resp \<ge> 400
           then Inl (ErrText (what @ '': http='' @ Itoa (rs_StatusCode resp) @ '' read=''
                  @ (case rs_ReadError resp of None \<Rightarrow> ''<nil>'' | Some e \<Rightarrow> e)))
           else Inr (rs_Body resp)))"

definition decode_api_response :: "string \<Rightarrow> string \<Rightarrow> go_error + string" where
  "decode_api_response ts body =
     (case dec_struct apiEnvelope_fields zero_apiEnvelope body of
        None \<Rightarrow> Inl json_error
      | Some envelope \<Rightarrow>
          (if en_Code envelope \<noteq> 200
           then Inl (ErrText (''api code='' @ Itoa (en_Code envelope) @ '': '' @ en_ErrorMsg envelope))
           else decodeEnvelope (en_Data envelope) ts))"

fun requestAPI_loop ::
  "http_client \<Rightarrow> (nat \<Rightarrow> int) \<Rightarrow> string \<Rightarrow> (string \<times> string) list \<Rightarrow> nat \<Rightarrow> string list \<Rightarrow> go_error option
     \<Rightarrow> go_error + string" where
  "requestAPI_loop cl now apiPath query k [] lastErr =
     Inl (case lastErr of
            None \<Rightarrow> ErrText ''all API domains failed: %!w(<nil>)''
          | Some e \<Rightarrow> ErrWrap ''all API domains failed: '' e '''')"
| "requestAPI_loop cl now apiPath query k (domain # domains) lastErr =
     (let ts = Itoa (now k); url = url_String domain apiPath query in
      case hc_url_error cl url of Some e \<Rightarrow> Inl (ErrExternal e) | None \<Rightarrow>
      (case read_response (domain @ apiPath)
              (hc_Do cl k \<lparr>rq_URL = url, rq_Header = api_headers ts tokenSecret\<rparr>) of
         Inl e \<Rightarrow> requestAPI_loop cl now apiPath query (Suc k) domains (Some e)
       | Inr body \<Rightarrow>
           (case decode_api_response ts body of
              Inl e \<Rightarrow> requestAPI_loop cl now apiPath query (Suc k) domains (Some e)
            | Inr decoded \<Rightarrow> Inr decoded)))"

definition requestAPI ::
  "ApiClient \<Rightarrow> http_client \<Rightarrow> (nat \<Rightarrow> int) \<Rightarrow> string \<Rightarrow> (string \<times> string) list \<Rightarrow> go_error + string" where
  "requestAPI c cl now apiPath query = requestAPI_loop cl now apiPath query 0 (ac_domains c) None"

definition scramble_query :: "string \<Rightarrow> string \<Rightarrow> (string \<times> string) list" where
  "scramble_query photoID ts =
     [(''app_img_shunt'', ''1''), (''express'', ''off''), (''id'', photoID), (''mode'', ''vertical''),
      (''page'', ''0''), (''v'', ts)]"

fun getScrambleID_loop ::
  "http_client \<Rightarrow> (nat \<Rightarrow> int) \<Rightarrow> string \<Rightarrow> nat \<Rightarrow> string list \<Rightarrow> go_error option \<Rightarrow> go_error + int" where
  "getScrambleID_loop cl now photoID k [] lastErr = (case lastErr of None \<Rightarrow> Inr 0 | Some e \<Rightarrow> Inl e)"
| "getScrambleID_loop cl now photoID k (domain # domains) lastErr =
     (let ts = Itoa (now k) in
      case read_response (''scramble '' @ domain)
             (hc_Do cl k \<lparr>rq_URL = url_String domain ''/chapter_view_template'' (scramble_query photoID ts),
                          rq_Header = api_headers ts scrambleSecret\<rparr>) of
        Inl e \<Rightarrow> getScrambleID_loop cl now photoID (Suc k) domains (Some e)
      | Inr body \<Rightarrow>
          (case FindSubmatch scramblePattern body of
             None \<Rightarrow> getScrambleID_loop cl now photoID (Suc k) domains
                       (Some (ErrText (''scramble_id not found from '' @ domain)))
           | Some match \<Rightarrow>
               (case Atoi (group match 1) of
                  None \<Rightarrow> Inl (ErrExternal ''strconv.Atoi'')
                | Some scrambleID \<Rightarrow> Inr scrambleID)))"

definition getScrambleID :: "ApiClient \<Rightarrow> http_client \<Rightarrow> (nat \<Rightarrow> int) \<Rightarrow> string \<Rightarrow> go_error + int" where
  "getScrambleID c cl now photoID = getScrambleID_loop cl now photoID 0 (ac_domains c) None"

definition GetAlbum :: "ApiClient \<Rightarrow> http_client \<Rightarrow> (nat \<Rightarrow> int) \<Rightarrow> string \<Rightarrow> go_error + Album" where
  "GetAlbum c cl now i =
     (case requestAPI c cl now ''/album'' [(''id'', i)] of
        Inl e \<Rightarrow> Inl e
      | Inr data \<Rightarrow>
          (case Album_UnmarshalJSON data of
             None \<Rightarrow> Inl json_error
           | Some album \<Rightarrow> Inr (if al_ID album = '''' then album\<lparr>al_ID := i\<rparr> else album)))"

text \<open>\<open>GetPhoto\<close> makes two calls, each with its own client and clock.\<close>

definition GetPhoto ::
  "ApiClient \<Rightarrow> http_client \<Rightarrow> (nat \<Rightarrow> int) \<Rightarrow> http_client \<Rightarrow> (nat \<Rightarrow> int) \<Rightarrow> string \<Rightarrow> go_error + Photo" where
  "GetPhoto c cl now cl' now' i =
     (case requestAPI c cl now ''/chapter'' [(''id'', i)] of
        Inl e \<Rightarrow> Inl e
      | Inr data \<Rightarrow>
          (case Photo_UnmarshalJSON data of
             None \<Rightarrow> Inl json_error
           | Some photo0 \<Rightarrow>
               (let photo = (if ph_ID photo0 = '''' then photo0\<lparr>ph_ID := i\<rparr> else photo0) in
                case getScrambleID c cl' now' (ph_ID photo) of
                  Inl e \<Rightarrow> Inl e
                | Inr scrambleID \<Rightarrow> Inr (photo\<lparr>ph_ScrambleID := scrambleID\<rparr>))))"

section \<open>Images\<close>

text \<open>
  An image is the list of its rows.  \<open>ic_rgba\<close> converts a row as \<^verbatim>\<open>draw.Draw\<close> does, \<open>ic_blank\<close> is a row of the
  new image \<^verbatim>\<open>image.NewRGBA\<close> of the same width.
\<close>

record 'row image_codec =
  ic_Decode :: "string \<Rightarrow> string + 'row list"
  ic_rgba :: "'row \<Rightarrow> 'row"
  ic_blank :: "'row list \<Rightarrow> 'row"
  ic_Encode :: "string \<Rightarrow> 'row list \<Rightarrow> string + string"

text \<open>The value \<^verbatim>\<open>strconv.Atoi\<close> returns beside an error: the nearest number when it is out of range.\<close>

definition Atoi_value :: "string \<Rightarrow> int" where
  "Atoi_value s =
     (case Atoi s of
        Some i \<Rightarrow> i
      | None \<Rightarrow>
          (case s of
             CHR ''-'' # ds \<Rightarrow> (if parse_nat ds = None then 0 else int64_min)
           | CHR ''+'' # ds \<Rightarrow> (if parse_nat ds = None then 0 else int64_max)
           | _ \<Rightarrow> (if parse_nat s = None then 0 else int64_max)))"

definition segmentationNum :: "int \<Rightarrow> int \<Rightarrow> string \<Rightarrow> int" where
  "segmentationNum scrambleID aid filename =
     (if aid < scrambleID then 0
      else if aid < 268850 then 10
      else
        (let x = (if aid \<ge> 421926 then 8 else 10);
             hexDigest = md5_hex (Itoa aid @ filename)
         in (of_char (last hexDigest) mod x) * 2 + 2))"

text \<open>\<^verbatim>\<open>draw.Draw\<close> of whole rows, clipped to both images.\<close>

definition draw_rows :: "('row \<Rightarrow> 'row) \<Rightarrow> 'row list \<Rightarrow> int \<Rightarrow> int \<Rightarrow> int \<Rightarrow> 'row list \<Rightarrow> 'row list" where
  "draw_rows rgba src sourceY destinationY move dst =
     map (\<lambda>y. let s = sourceY + (int y - destinationY) in
              if destinationY \<le> int y \<and> int y < destinationY + move \<and> 0 \<le> s \<and> s < int (length src)
              then rgba (src ! nat s) else dst ! y)
       [0..<length dst]"

definition rearrangeImage :: "'row image_codec \<Rightarrow> 'row list \<Rightarrow> int \<Rightarrow> 'row list" where
  "rearrangeImage codec src segments =
     (if segments \<le> 0 then src
      else
        (let height = int (length src); over = height mod segments; piece = height div segments in
         fold (\<lambda>i dst.
             let move = (if i = 0 then piece + over else piece);
                 sourceY = height - piece * (i + 1) - over;
                 destinationY = (if i = 0 then piece * i else piece * i + over)
             in draw_rows (ic_rgba codec) src sourceY destinationY move dst)
           (map int [0..<nat segments]) (replicate (length src) (ic_blank codec src))))"

definition filepath_Ext :: "string \<Rightarrow> string" where
  "filepath_Ext path' =
     (let base = rev (takeWhile (\<lambda>c. c \<noteq> CHR ''/'') (rev path')) in
      case LastIndex (CHR ''.'') base of None \<Rightarrow> '''' | Some dot \<Rightarrow> drop dot base)"

definition imageContentType :: "string \<Rightarrow> string" where
  "imageContentType filename =
     (let ext = ToLower (filepath_Ext filename) in
      if ext = ''.webp'' then ''image/webp''
      else if ext = ''.png'' then ''image/png''
      else ''image/jpeg'')"

definition encodeImage :: "'row image_codec \<Rightarrow> string \<Rightarrow> 'row list \<Rightarrow> go_error + string" where
  "encodeImage codec filename img =
     (case ic_Encode codec (imageContentType filename) img of
        Inl e \<Rightarrow> Inl (ErrExternal e)
      | Inr body \<Rightarrow> Inr body)"

definition unscramble :: "'row image_codec \<Rightarrow> Photo \<Rightarrow> string \<Rightarrow> 'row list \<Rightarrow> 'row list" where
  "unscramble codec photo imageName img =
     (let aid = Atoi_value (ph_ID photo);
          filename = take (length imageName - length (filepath_Ext imageName)) imageName
      in rearrangeImage codec img (segmentationNum (ph_ScrambleID photo) aid filename))"

definition image_url :: "string \<Rightarrow> Photo \<Rightarrow> string \<Rightarrow> string" where
  "image_url domain photo imageName =
     url_String domain (path_Join [''/media/photos'', ph_ID photo, imageName])
       (if ph_AddTime photo \<noteq> '''' then [(''v'', ph_AddTime photo)] else [])"

fun DownloadDecodedImage_loop ::
  "'row image_codec \<Rightarrow> http_client \<Rightarrow> Photo \<Rightarrow> string \<Rightarrow> nat \<Rightarrow> string list \<Rightarrow> go_error option
     \<Rightarrow> go_error + 'row list option" where
  "DownloadDecodedImage_loop codec cl photo imageName k [] lastErr =
     (case lastErr of None \<Rightarrow> Inr None | Some e \<Rightarrow> Inl e)"
| "DownloadDecodedImage_loop codec cl photo imageName k (domain # domains) lastErr =
     (case read_response (''image CDN '' @ domain)
             (hc_Do cl k \<lparr>rq_URL = image_url domain photo imageName, rq_Header = [(''user-agent'', desktopUA)]\<rparr>) of
        Inl e \<Rightarrow> DownloadDecodedImage_loop codec cl photo imageName (Suc k) domains (Some e)
      | Inr raw \<Rightarrow>
          (case ic_Decode codec raw of
             Inl e \<Rightarrow> DownloadDecodedImage_loop codec cl photo imageName (Suc k) domains (Some (ErrExternal e))
           | Inr img \<Rightarrow> Inr (Some (unscramble codec photo imageName img))))"

definition DownloadDecodedImage ::
  "'row image_codec \<Rightarrow> http_client \<Rightarrow> Photo \<Rightarrow> string \<Rightarrow> go_error + 'row list option" where
  "DownloadDecodedImage codec cl photo imageName =
     DownloadDecodedImage_loop codec cl photo imageName 0 imageDomains None"

end
