(* ===== verification/JmHandler.thy ===== *)
theory JmHandler
  imports JmResolver HitomiProofs
begin

text \<open>
  The handler of \<^verbatim>\<open>internal/sources/jmcomic/handler.go\<close>.  It archives the images of a photo one after the
  other and stops at the first error, with the pages archived so far.  The lemmas show that it respects
  what its host keeps, that the pages it returns are those of the first images, stored and recorded, and
  which images a document resolved by \<open>ResolveDocument\<close> has.
\<close>

section \<open>The handler\<close>

definition SourceTypeJmcomic :: string where
  "SourceTypeJmcomic = ''jmcomic''"

record resolvedPage =
  rp_Name :: string
  rp_Hash :: string
  rp_ContentType :: string

text \<open>
  The network as one call of the handler sees it, request by request, with the clock that signs them.
\<close>

record 'row jm_net =
  jn_client :: ApiClient
  jn_album :: "http_client \<times> (nat \<Rightarrow> int)"
  jn_photo :: "http_client \<times> (nat \<Rightarrow> int)"
  jn_scramble :: "http_client \<times> (nat \<Rightarrow> int)"
  jn_image :: "nat \<Rightarrow> http_client"
  jn_codec :: "'row image_codec"

definition resolvePages :: "Photo \<Rightarrow> resolvedPage list" where
  "resolvePages photo =
     map (\<lambda>name.
       \<lparr>rp_Name = name,
        rp_Hash = md5Hex (ph_ID photo @ CHR 0x00 # ph_AddTime photo @ CHR 0x00 # name),
        rp_ContentType = imageContentType name\<rparr>) (ph_Images photo)"

definition validateSingleChapter :: "Album \<Rightarrow> go_error option" where
  "validateSingleChapter album =
     (if length (al_Episodes album) \<noteq> 0
      then Some (ErrWrap '''' ErrMultiChapterAlbum ('': album '' @ al_ID album @ '' has ''
             @ Itoa (int (length (al_Episodes album))) @ '' episodes''))
      else None)"

definition jm_pages :: "resolvedPage list \<Rightarrow> Page list" where
  "jm_pages ps =
     map (\<lambda>index. \<lparr>pg_Index = int index, pg_Key = '''', pg_ContentType = rp_ContentType (ps ! index),
                   pg_Size = 0, pg_Hash = rp_Hash (ps ! index)\<rparr>) [0..<length ps]"

definition Jm_ResolveDocument ::
  "'w source_host \<Rightarrow> 'row jm_net \<Rightarrow> Document \<Rightarrow> 'w \<Rightarrow> (go_error + Document \<times> Page list option) \<times> 'w" where
  "Jm_ResolveDocument host net document w =
     (case ho_ctx host w 0 of Some e \<Rightarrow> (Inl (ErrExternal e), w) | None \<Rightarrow>
     (case GetAlbum (jn_client net) (fst (jn_album net)) (snd (jn_album net)) (d_SourceDocumentID document) of
        Inl e \<Rightarrow> (Inl (ErrWrap (''get jmcomic album '' @ d_SourceDocumentID document @ '': '') e ''''), w)
      | Inr album \<Rightarrow>
     (case validateSingleChapter album of Some e \<Rightarrow> (Inl e, w) | None \<Rightarrow>
     (case GetPhoto (jn_client net) (fst (jn_photo net)) (snd (jn_photo net)) (fst (jn_scramble net))
             (snd (jn_scramble net)) (al_ID album) of
        Inl e \<Rightarrow> (Inl (ErrWrap (''get jmcomic photo '' @ al_ID album @ '': '') e ''''), w)
      | Inr photo \<Rightarrow>
          (if length (ph_Raw photo) = 0 then (Inl (ErrText ''jmcomic photo has no raw metadata''), w)
           else
             (let pages = jm_pages (resolvePages photo)
              in (Inr (zero_Document\<lparr>d_Source := SourceTypeJmcomic, d_SourceMeta := al_Raw album,
                         d_SourceDocumentID := al_ID album, d_Title := al_Name album, d_Pages := pages\<rparr>,
                       Some pages), w)))))))"

definition Jm_recordPage :: "'w source_host \<Rightarrow> int \<Rightarrow> Page \<Rightarrow> 'w \<Rightarrow> (go_error + unit) \<times> 'w" where
  "Jm_recordPage host documentID page w =
     (case ho_hook host of
        None \<Rightarrow> (Inr (), w)
      | Some hook \<Rightarrow>
          (case hook False documentID page w of
             (Inl e, w') \<Rightarrow> (Inl (ErrWrap ''failed to execute page download hook: '' e ''''), w')
           | (Inr _, w') \<Rightarrow> (Inr (), w')))"

definition document_page :: "nat \<Rightarrow> string \<Rightarrow> resolvedPage \<Rightarrow> int \<Rightarrow> Page" where
  "document_page index key page size' =
     \<lparr>pg_Index = int index, pg_Key = key, pg_ContentType = rp_ContentType page, pg_Size = size',
      pg_Hash = rp_Hash page\<rparr>"

text \<open>One page that is not stored yet: download, decode, encode, put.\<close>

definition fetch_and_put ::
  "'w source_host \<Rightarrow> 'row jm_net \<Rightarrow> 'w ObjectStore \<Rightarrow> Photo \<Rightarrow> nat \<Rightarrow> string \<Rightarrow> resolvedPage \<Rightarrow> 'w
     \<Rightarrow> (go_error + ObjectInfo) \<times> 'w" where
  "fetch_and_put host net objects photo index key page w =
     (case DownloadDecodedImage (jn_codec net) (jn_image net index) photo (rp_Name page) of
        Inl e \<Rightarrow> (Inl (ErrWrap (''download jmcomic page '' @ Itoa (int index) @ '': '') e ''''), w)
      | Inr None \<Rightarrow> (Inl (GoPanic ''nil image''), w)
      | Inr (Some img) \<Rightarrow>
          (case encodeImage (jn_codec net) (rp_Name page) img of
             Inl e \<Rightarrow> (Inl (ErrWrap (''encode jmcomic page '' @ Itoa (int index) @ '': '') e ''''), w)
           | Inr body \<Rightarrow>
               (case os_PutObject objects (later (ho_ctx host w) (3 * index + 2))
                       \<lparr>oi_Key = key, oi_Size = int (length body), oi_ContentType = rp_ContentType page,
                        oi_ETag = rp_Hash page\<rparr> (Some (Inr body)) w of
                  (Inl e, w') \<Rightarrow> (Inl (ErrWrap (''put jmcomic page '' @ Itoa (int index) @ '' object: '') e ''''), w')
                | (Inr info, w') \<Rightarrow> (Inr info, w'))))"

text \<open>The object of a page: found, or fetched and put.\<close>

definition page_object ::
  "'w source_host \<Rightarrow> 'row jm_net \<Rightarrow> 'w ObjectStore \<Rightarrow> Photo \<Rightarrow> nat \<Rightarrow> string \<Rightarrow> resolvedPage \<Rightarrow> 'w
     \<Rightarrow> (go_error + ObjectInfo) \<times> 'w" where
  "page_object host net objects photo index key page w =
     (case os_HeadObject objects (later (ho_ctx host w) (3 * index + 1)) key w of
        Inr objectInfo \<Rightarrow>
          (if oi_ETag objectInfo \<noteq> '''' \<and> oi_ETag objectInfo \<noteq> rp_Hash page
           then (Inl (ErrText (''page '' @ Itoa (int index) @ '' object hash mismatch: expected ''
                   @ rp_Hash page @ '', got '' @ oi_ETag objectInfo)), w)
           else (Inr objectInfo, w))
      | Inl e \<Rightarrow>
          (if \<not> errors_Is e ErrObjectNotFound
           then (Inl (ErrWrap (''head page '' @ Itoa (int index) @ '' object: '') e ''''), w)
           else fetch_and_put host net objects photo index key page w))"

fun archive_loop ::
  "'w source_host \<Rightarrow> 'row jm_net \<Rightarrow> 'w ObjectStore \<Rightarrow> int \<Rightarrow> Photo \<Rightarrow> nat \<Rightarrow> resolvedPage list \<Rightarrow> Page list
     \<Rightarrow> 'w \<Rightarrow> (Page list \<times> go_error option) \<times> 'w" where
  "archive_loop host net objects i photo index [] archivedPages w = ((archivedPages, None), w)"
| "archive_loop host net objects i photo index (page # pages) archivedPages w =
     (case ho_ctx host w (3 * index) of Some e \<Rightarrow> ((archivedPages, Some (ErrExternal e)), w) | None \<Rightarrow>
     (case PageObjectKey (Itoa i) (rp_Hash page) (rp_ContentType page) of
        Inl e \<Rightarrow> ((archivedPages,
           Some (ErrWrap (''build page '' @ Itoa (int index) @ '' object key: '') e '''')), w)
      | Inr key \<Rightarrow>
     (case page_object host net objects photo index key page w of
        (Inl e, w1) \<Rightarrow> ((archivedPages, Some e), w1)
      | (Inr objectInfo, w1) \<Rightarrow>
          (let documentPage = document_page index key page (oi_Size objectInfo) in
           case Jm_recordPage host i documentPage w1 of
             (Inl e, w2) \<Rightarrow> ((archivedPages, Some e), w2)
           | (Inr _, w2) \<Rightarrow>
               archive_loop host net objects i photo (Suc index) pages (archivedPages @ [documentPage]) w2))))"

definition Jm_ArchiveContent ::
  "'w source_host \<Rightarrow> 'row jm_net \<Rightarrow> Document \<Rightarrow> 'w \<Rightarrow> (Page list \<times> go_error option) \<times> 'w" where
  "Jm_ArchiveContent host net document w =
     (case ho_objects host of
        None \<Rightarrow> (([], Some (ErrText ''object store is required'')), w)
      | Some objects \<Rightarrow>
     (case Photo_UnmarshalJSON (d_SourceMeta document) of
        None \<Rightarrow> (([], Some (ErrWrap ''decode jmcomic document metadata: '' json_error '''')), w)
      | Some photo \<Rightarrow>
          (if ph_ID photo = '''' then (([], Some (ErrText ''jmcomic document metadata has no photo id'')), w)
           else case ho_ctx host w 0 of Some e \<Rightarrow> (([], Some (ErrExternal e)), w) | None \<Rightarrow>
           (case getScrambleID (jn_client net) (fst (jn_scramble net)) (snd (jn_scramble net)) (ph_ID photo) of
              Inl e \<Rightarrow> (([], Some (ErrWrap (''get jmcomic photo '' @ ph_ID photo @ '' scramble id: '') e '''')), w)
            | Inr scrambleID \<Rightarrow>
                (let photo' = photo\<lparr>ph_ScrambleID := scrambleID\<rparr>
                 in archive_loop host net objects (d_ID document) photo' 0 (resolvePages photo') [] w)))))"

definition Jm_ArchiveManifest :: "'w source_host \<Rightarrow> Document \<Rightarrow> 'w \<Rightarrow> (go_error + unit) \<times> 'w" where
  "Jm_ArchiveManifest host document w =
     (case ho_objects host of
        None \<Rightarrow> (Inl (ErrText ''object store is required''), w)
      | Some objects \<Rightarrow>
          (case json_Document document of
             None \<Rightarrow> (Inl (ErrWrap ''marshal document snapshot: '' json_error ''''), w)
           | Some body \<Rightarrow>
               (case os_PutObject objects (ho_ctx host w)
                       \<lparr>oi_Key = ManifestObjectKey (Itoa (d_ID document)), oi_Size = int (length body),
                        oi_ContentType = ''application/json'', oi_ETag = ''''\<rparr> (Some (Inr body)) w of
                  (Inl e, w') \<Rightarrow> (Inl (ErrWrap ''put document snapshot: '' e ''''), w')
                | (Inr _, w') \<Rightarrow> (Inr (), w'))))"

definition Jm_NewHandler ::
  "(('s, 'o) world \<Rightarrow> 'row jm_net) \<Rightarrow> ('s, 'o) world ObjectStore
     \<Rightarrow> ('s env \<Rightarrow> ('s, 'o) PageDownloadHook) \<Rightarrow> ('s, 'o) SourceHandler" where
  "Jm_NewHandler net objects hook =
     \<lparr>sh_ResolveDocument = (\<lambda>E document w.
        Jm_ResolveDocument (host_of E (Some objects) (Some hook)) (net w) document w),
      sh_ArchiveContent = (\<lambda>E document w.
        (case Jm_ArchiveContent (host_of E (Some objects) (Some hook)) (net w) document w of
           ((pages, None), w') \<Rightarrow> (Inr pages, w')
         | ((pages, Some e), w') \<Rightarrow> (Inl e, w'))),
      sh_ArchiveManifest = (\<lambda>E document w.
        Jm_ArchiveManifest (host_of E (Some objects) (Some hook)) document w)\<rparr>"

definition Jm_NewFactory :: "(('s, 'o) world \<Rightarrow> 'row jm_net) \<Rightarrow> ('s, 'o) SourceHandlerFactory" where
  "Jm_NewFactory net =
     \<lparr>fa_Source = SourceTypeJmcomic, fa_NewHandler = (\<lambda>objects hook. Some (Jm_NewHandler net objects hook))\<rparr>"

section \<open>What the host keeps\<close>

context page_host
begin

lemma jm_recordPage_keeps: "pg_Key page \<noteq> '''' \<Longrightarrow> keeps w (snd (Jm_recordPage host i page w))"
  using keeps_refl hook_keeps [of _ page w False i]
  by (auto simp: Jm_recordPage_def split: option.splits prod.splits sum.splits)

lemma page_object_keeps:
  assumes "ho_objects host = Some objects"
  shows "keeps w (snd (page_object host net objects photo index key page w))"
proof -
  have "keeps w (snd (fetch_and_put host net objects photo index key page w))"
    using Put_keeps [OF assms]
    by (auto simp: fetch_and_put_def keeps_refl split: sum.splits option.splits prod.splits)
      (metis snd_conv)+
  then show ?thesis by (auto simp: page_object_def keeps_refl split: sum.splits)
qed

lemma archive_loop_keeps:
  assumes "ho_objects host = Some objects"
  shows "keeps w (snd (archive_loop host net objects i photo index pages archived w))"
proof (induction pages arbitrary: index archived w)
  case (Cons page pages)
  obtain r1 w1 where obj: "page_object host net objects photo index
      (page_key i (TrimSpace (rp_Hash page)) (rp_ContentType page)) page w = (r1, w1)" by force
  have k1: "keeps w w1" using page_object_keeps [OF assms, of w net photo index _ page] obj by (metis snd_conv)
  obtain r2 w2 where rec: "Jm_recordPage host i (document_page index
      (page_key i (TrimSpace (rp_Hash page)) (rp_ContentType page)) page (oi_Size (projr r1))) w1 = (r2, w2)" by force
  have "keeps w1 w2"
    using jm_recordPage_keeps [of "document_page index (page_key i (TrimSpace (rp_Hash page)) (rp_ContentType page)) page
        (oi_Size (projr r1))" w1 i] rec
    by (simp add: document_page_def page_key_def)
  then have k2: "keeps w w2" using keeps_trans [OF k1] by simp
  show ?case
    using k1 k2 obj rec keeps_trans [OF k2 Cons.IH]
    by (auto simp: keeps_refl PageObjectKey_Itoa Let_def split: option.splits sum.splits)
qed (simp add: keeps_refl)

lemma Jm_ArchiveContent_keeps: "keeps w (snd (Jm_ArchiveContent host net document w))"
  by (auto simp: Jm_ArchiveContent_def keeps_refl Let_def intro: archive_loop_keeps
      split: option.splits sum.splits)

lemma Jm_ArchiveManifest_keeps: "keeps w (snd (Jm_ArchiveManifest host document w))"
  using ArchiveManifest_keeps [of w document]
  by (simp add: Jm_ArchiveManifest_def Hitomi_ArchiveManifest_def)

lemma Jm_ResolveDocument_keeps: "keeps w (snd (Jm_ResolveDocument host net document w))"
  by (auto simp: Jm_ResolveDocument_def keeps_refl Let_def split: sum.splits option.splits)

end

section \<open>The pages that are returned\<close>

definition jm_done :: "int \<Rightarrow> nat \<Rightarrow> resolvedPage \<Rightarrow> Page \<Rightarrow> bool" where
  "jm_done i index page docPage \<longleftrightarrow>
     (\<exists>key size'. PageObjectKey (Itoa i) (rp_Hash page) (rp_ContentType page) = Inr key \<and>
        docPage = document_page index key page size')"

lemma jm_done_key: "jm_done i index page docPage \<Longrightarrow> pg_Key docPage \<noteq> ''''"
  using PageObjectKey_not_empty by (auto simp: jm_done_def document_page_def)

context page_store
begin

lemma page_object_stored:
  assumes "ho_objects host = Some objects"
    and "page_object host net objects photo index key page w = (Inr info, w')"
  shows "stored key w'"
proof -
  have "stored key w'" if "fetch_and_put host net objects photo index key page w = (Inr info, w')"
    using that Put_stored [OF assms(1)]
    by (fastforce simp: fetch_and_put_def split: sum.splits option.splits prod.splits)
  then show ?thesis
    using assms(2) Head_stored [OF assms(1)]
    by (auto simp: page_object_def split: sum.splits if_splits)
qed

lemma jm_recordPage_recorded:
  assumes "good w" "pg_Key page \<noteq> ''''" "Jm_recordPage host i page w = (Inr u, w')"
  shows "recorded i page w'"
proof -
  obtain hook where hook: "ho_hook host = Some hook" using has_hook by auto
  with assms(3) have "hook False i page w = (Inr (), w')"
    by (auto simp: Jm_recordPage_def split: prod.splits sum.splits)
  with hook_recorded [OF hook assms(1,2)] show ?thesis by simp
qed

text \<open>
  With or without an error, the pages returned are those of the first images, and each of them is stored and
  recorded; without one, they are all the images.
\<close>

lemma archive_loop_pages:
  assumes "ho_objects host = Some objects" "good w"
    and "archive_loop host net objects i photo index pages archived w = ((ps, err), w')"
  shows "\<exists>done'. ps = archived @ done' \<and> length done' \<le> length pages \<and>
    (err = None \<longrightarrow> length done' = length pages) \<and>
    (\<forall>k < length done'. jm_done i (index + k) (pages ! k) (done' ! k) \<and>
       stored (pg_Key (done' ! k)) w' \<and> recorded i (done' ! k) w')"
  using assms(2,3)
proof (induction pages arbitrary: index archived w)
  case (Cons page pages)
  consider (stopped) "ps = archived" "err \<noteq> None"
    | (next_page) key info w1 u w2 where "PageObjectKey (Itoa i) (rp_Hash page) (rp_ContentType page) = Inr key"
      "page_object host net objects photo index key page w = (Inr info, w1)"
      "Jm_recordPage host i (document_page index key page (oi_Size info)) w1 = (Inr u, w2)"
      "archive_loop host net objects i photo (Suc index) pages
         (archived @ [document_page index key page (oi_Size info)]) w2 = ((ps, err), w')"
    using Cons.prems(2) by (auto simp: Let_def split: option.splits sum.splits prod.splits)
  then show ?case
  proof cases
    case next_page
    let ?page = "document_page index key page (oi_Size info)"
    have this_page: "jm_done i index page ?page" using next_page(1) by (auto simp: jm_done_def)
    note not_empty = jm_done_key [OF this_page]
    have k1: "keeps w w1" using page_object_keeps [OF assms(1), of w net photo index key page] next_page(2) by simp
    have k2: "keeps w1 w2" using jm_recordPage_keeps [OF not_empty, of w1 i] next_page(3) by simp
    have k3: "keeps w2 w'"
      using archive_loop_keeps [OF assms(1), of w2 net i photo "Suc index" pages "archived @ [?page]"] next_page(4) by simp
    have g1: "good w1" by (rule good_keeps [OF Cons.prems(1) k1])
    have g2: "good w2" by (rule good_keeps [OF g1 k2])
    have "stored key w1" by (rule page_object_stored [OF assms(1) next_page(2)])
    then have st: "stored (pg_Key ?page) w'"
      using stored_keeps [OF _ k2] stored_keeps [OF _ k3] by (simp add: document_page_def)
    have "recorded i ?page w2" by (rule jm_recordPage_recorded [OF g1 not_empty next_page(3)])
    then have rec: "recorded i ?page w'" by (rule recorded_keeps [OF g2 _ k3])
    from Cons.IH [OF g2 next_page(4)] obtain done' where d: "ps = (archived @ [?page]) @ done'"
      "length done' \<le> length pages" "err = None \<longrightarrow> length done' = length pages"
      "\<forall>k < length done'. jm_done i (Suc index + k) (pages ! k) (done' ! k) \<and>
         stored (pg_Key (done' ! k)) w' \<and> recorded i (done' ! k) w'"
      by blast
    then show ?thesis
      using this_page st rec
      by (intro exI [of _ "?page # done'"]) (auto simp: nth_Cons split: nat.split)
  qed simp
qed simp

lemma Jm_ArchiveContent_pages:
  assumes "good w" "Jm_ArchiveContent host net document w = ((ps, err), w')"
    and "Photo_UnmarshalJSON (d_SourceMeta document) = Some photo"
  shows "length ps \<le> length (ph_Images photo) \<and> (err = None \<longrightarrow> length ps = length (ph_Images photo)) \<and>
    (\<forall>k < length ps. jm_done (d_ID document) k (resolvePages photo ! k) (ps ! k) \<and>
       stored (pg_Key (ps ! k)) w' \<and> recorded (d_ID document) (ps ! k) w')"
proof -
  have pages: "resolvePages (photo\<lparr>ph_ScrambleID := n\<rparr>) = resolvePages photo"
    "length (resolvePages photo) = length (ph_Images photo)" for n
    by (simp_all add: resolvePages_def)
  consider (failed) "ps = []" "err \<noteq> None"
    | (run) objects n where "ho_objects host = Some objects"
      "archive_loop host net objects (d_ID document) (photo\<lparr>ph_ScrambleID := n\<rparr>) 0 (resolvePages photo) [] w = ((ps, err), w')"
    using assms(2,3) by (auto simp: Jm_ArchiveContent_def Let_def pages split: option.splits sum.splits if_splits)
  then show ?thesis
  proof cases
    case run
    from archive_loop_pages [OF run(1) assms(1) run(2)] pages show ?thesis by auto
  qed auto
qed

end

section \<open>The two source factories\<close>

lemma snd_content:
  "snd (case x of ((pages, None), w') \<Rightarrow> (Inr pages, w') | ((pages, Some e), w') \<Rightarrow> (Inl e, w')) = snd x"
  by (auto split: prod.splits option.splits)

text \<open>The actions of both handlers respect the status frame of the application.\<close>

lemma page_host_action_ok:
  assumes "\<And>w. frame_kept invar view S a E w (snd (act w))" "env_ok invar E" "ap_documents a = S"
  shows "action_ok invar view E act"
  using assms unfolding action_ok_def frame_kept_def by (metis snd_conv)

context document_store
begin

lemma source_handlers_ok:
  assumes E: "env_ok invar E" and S: "ap_documents a = S"
  shows "handler_ok invar view E (Hitomi_NewHandler hnet (store_at name st) (onPageDownloaded a))"
    and "handler_ok invar view E (Jm_NewHandler jnet (store_at name st) (onPageDownloaded a))"
proof -
  have host: "host_of E (Some (store_at name st)) (Some (onPageDownloaded a)) = app_host a E name st"
    by (simp add: app_host_def)
  note frame = app_host_frame [of a E name st]
  note ok = page_host_action_ok [OF _ E S]
  show "handler_ok invar view E (Hitomi_NewHandler hnet (store_at name st) (onPageDownloaded a))"
    unfolding handler_ok_def Hitomi_NewHandler_def host SourceHandler.select_convs
    using page_host.ArchiveContent_keeps [OF frame] page_host.ArchiveManifest_keeps [OF frame]
      page_host.ResolveDocument_keeps [OF frame]
    by (intro allI conjI ok) (simp_all add: snd_content)
  show "handler_ok invar view E (Jm_NewHandler jnet (store_at name st) (onPageDownloaded a))"
    unfolding handler_ok_def Jm_NewHandler_def host SourceHandler.select_convs
    using page_host.Jm_ArchiveContent_keeps [OF frame] page_host.Jm_ArchiveManifest_keeps [OF frame]
      page_host.Jm_ResolveDocument_keeps [OF frame]
    by (intro allI conjI ok) (simp_all add: snd_content)
qed

lemma program_factories_ok:
  assumes "env_ok invar E" "ap_documents a = S"
    and "\<And>src factory. ap_sourceFactories a src = Some factory \<Longrightarrow>
      (\<exists>net. factory = Hitomi_NewFactory net) \<or> (\<exists>net. factory = Jm_NewFactory net)"
  shows "factories_ok invar view E a"
  unfolding factories_ok_def
proof (intro allI impI)
  fix src factory name st h
  assume "ap_sourceFactories a src = Some factory"
    and h: "fa_NewHandler factory (store_at name st) (onPageDownloaded a) = Some h"
  from assms(3) [OF this(1)] show "handler_ok invar view E h"
  proof (elim disjE exE)
    fix net assume "factory = Hitomi_NewFactory net"
    then show ?thesis
      using h source_handlers_ok(1) [OF assms(1,2), of net name st] by (simp add: Hitomi_NewFactory_def)
  next
    fix net assume "factory = Jm_NewFactory net"
    then show ?thesis
      using h source_handlers_ok(2) [OF assms(1,2), of net name st] by (simp add: Jm_NewFactory_def)
  qed
qed

end

end
