(* ===== verification/JmProofs.thy ===== *)
theory JmProofs
  imports JmHandler HitomiLive
begin

text \<open>
  Rearranging an image is putting its strips into the reverse order; the number of strips; and which
  answer a request to the API returns.
\<close>

section \<open>The strips of an image\<close>

text \<open>
  The reference: strip \<open>i\<close> counted from the bottom.  The lowest strip takes the rows that are left over.
\<close>

definition strip :: "'row list \<Rightarrow> nat \<Rightarrow> nat \<Rightarrow> 'row list" where
  "strip src n i =
     (let piece = length src div n; over = length src mod n in
      if i = 0 then drop (length src - piece - over) src
      else take piece (drop (length src - piece * (i + 1) - over) src))"

definition strips :: "nat \<Rightarrow> 'row list \<Rightarrow> 'row list list" where
  "strips n src = map (strip src n) [0..<n]"

lemma strip_start: "i < n \<Longrightarrow> length src div n * (i + 1) + length src mod n \<le> length (src :: 'row list)"
proof -
  assume "i < n"
  then have "length src div n * (i + 1) \<le> length src div n * n" by (intro mult_le_mono2) simp
  also have "\<dots> + length src mod n = length src" by (rule div_mult_mod_eq)
  finally show ?thesis by simp
qed

lemma length_strip:
  "i < n \<Longrightarrow> length (strip src n i) = length src div n + (if i = 0 then length src mod n else 0)"
  using strip_start [of i n src] by (auto simp: strip_def Let_def)

text \<open>The strips, from the highest down, make up the image.\<close>

lemma strips_above:
  "k \<le> n \<Longrightarrow> 0 < k \<Longrightarrow>
   concat (map (strip src n) (rev [0..<k])) = drop (length src - length src div n * k - length src mod n) src"
proof (induction k)
  case (Suc k)
  let ?piece = "length src div n" and ?over = "length src mod n"
  show ?case
  proof (cases "k = 0")
    case True
    then show ?thesis by (simp add: strip_def)
  next
    case False
    have le: "?piece * (k + 1) + ?over \<le> length src" using Suc.prems strip_start [of k n src] by simp
    let ?at = "length src - ?piece * (k + 1) - ?over"
    have "?at + ?piece = length src - ?piece * k - ?over" using le by simp
    then have "drop (length src - ?piece * k - ?over) src = drop ?piece (drop ?at src)"
      by (simp add: add.commute)
    then have "concat (map (strip src n) (rev [0..<k])) = drop ?piece (drop ?at src)"
      using Suc False by simp
    moreover have "strip src n k = take ?piece (drop ?at src)" using False by (simp add: strip_def Let_def)
    ultimately have "concat (map (strip src n) (rev [0..<Suc k]))
        = take ?piece (drop ?at src) @ drop ?piece (drop ?at src)"
      by (simp del: drop_drop)
    also have "\<dots> = drop ?at src" by (rule append_take_drop_id)
    finally show ?thesis by simp
  qed
qed simp

lemma strips_image: "0 < n \<Longrightarrow> concat (rev (strips n src)) = src"
  using strips_above [of n n src] by (simp add: strips_def rev_map mult.commute)

section \<open>Drawing\<close>

lemma draw_rows_append:
  assumes "destinationY = int (length before)" "move = int (length old)"
    and "0 \<le> sourceY" "sourceY + move \<le> int (length src)"
  shows "draw_rows rgba src sourceY destinationY move (before @ old @ after)
    = before @ map rgba (take (length old) (drop (nat sourceY) src)) @ after"
proof (rule nth_equalityI)
  have len: "length (take (length old) (drop (nat sourceY) src)) = length old" using assms by auto
  then show "length (draw_rows rgba src sourceY destinationY move (before @ old @ after))
      = length (before @ map rgba (take (length old) (drop (nat sourceY) src)) @ after)"
    by (simp add: draw_rows_def)
  fix y assume "y < length (draw_rows rgba src sourceY destinationY move (before @ old @ after))"
  then have y: "y < length before + length old + length after" by (simp add: draw_rows_def)
  consider "y < length before" | "length before \<le> y" "y < length before + length old"
    | "length before + length old \<le> y" by linarith
  then show "draw_rows rgba src sourceY destinationY move (before @ old @ after) ! y
      = (before @ map rgba (take (length old) (drop (nat sourceY) src)) @ after) ! y"
  proof cases
    case 1
    with y assms show ?thesis by (simp add: draw_rows_def nth_append)
  next
    case 2
    have "nat (sourceY + (int y - destinationY)) = nat sourceY + (y - length before)" using 2 assms by linarith
    moreover have "sourceY + (int y - destinationY) < int (length src)" using 2 assms by linarith
    ultimately show ?thesis
      using 2 y assms len by (auto simp: draw_rows_def Let_def nth_append)
  next
    case 3
    with y assms len show ?thesis by (auto simp: draw_rows_def Let_def nth_append)
  qed
qed

text \<open>After the first \<open>k\<close> strips are drawn.\<close>

lemma rearrange_fold:
  fixes codec :: "'row image_codec" and src :: "'row list"
  defines "step \<equiv> \<lambda>n i dst.
      let height = int (length src); over = height mod int n; piece = height div int n;
          move = (if i = 0 then piece + over else piece);
          sourceY = height - piece * (i + 1) - over;
          destinationY = (if i = 0 then piece * i else piece * i + over)
      in draw_rows (ic_rgba codec) src sourceY destinationY move dst"
  assumes "k \<le> n"
  shows "fold (step n) (map int [0..<k]) (replicate (length src) b)
    = concat (map (\<lambda>i. map (ic_rgba codec) (strip src n i)) [0..<k])
      @ replicate (if k = 0 then length src else length src - length src div n * k - length src mod n) b"
  using assms(2)
proof (induction k)
  case (Suc k)
  define P where "P = length src div n"
  define L where "L = length src mod n"
  define R where "R = length src - P * (k + 1) - L"
  define M where "M = P + (if k = 0 then L else 0)"
  let ?before = "concat (map (\<lambda>i. map (ic_rgba codec) (strip src n i)) [0..<k])"
  have k: "k < n" using Suc.prems by simp
  have total: "length src = R + P * (k + 1) + L"
    using strip_start [OF k, of src] by (simp add: R_def P_def L_def)
  have words: "int (length src) div int n = int P" "int (length src) mod int n = int L"
    by (simp_all add: P_def L_def zdiv_int zmod_int)
  have before: "length ?before = (if k = 0 then 0 else P * k + L)"
  proof -
    have "length ?before = sum_list (map (\<lambda>i. length (strip src n i)) [0..<k])" by (simp add: length_concat comp_def)
    also have "\<dots> = sum_list (map (\<lambda>i. P + (if i = 0 then L else 0)) [0..<k])"
      using k by (intro arg_cong [where f = sum_list] map_cong) (auto simp: length_strip P_def L_def)
    also have "\<dots> = (if k = 0 then 0 else P * k + L)" by (induction k) (auto simp: algebra_simps)
    finally show ?thesis .
  qed
  have "(if k = 0 then length src else length src - P * k - L) = M + R" by (simp add: total M_def)
  then have rest: "replicate (if k = 0 then length src else length src - P * k - L) b
      = replicate M b @ replicate R b"
    by (simp only: replicate_add)
  have strip_k: "take M (drop R src) = strip src n k"
  proof -
    have low: "length src - P - L = R" if "k = 0" using that by (simp add: R_def)
    have "length (drop R src) \<le> M" if "k = 0" using that by (simp add: total M_def)
    then show ?thesis
      using low by (cases "k = 0") (simp_all add: strip_def Let_def R_def M_def P_def L_def)
  qed
  have "int (length src) - int P * (int k + 1) - int L = int R" by (simp add: total algebra_simps)
  then have "step n (int k) dst = draw_rows (ic_rgba codec) src (int R) (int (length ?before)) (int M) dst" for dst
    unfolding step_def Let_def words before M_def by (auto simp: algebra_simps)
  moreover have "int R + int M \<le> int (length src)" by (simp add: total M_def)
  ultimately have "step n (int k) (?before @ replicate M b @ replicate R b)
      = ?before @ map (ic_rgba codec) (strip src n k) @ replicate R b"
    using draw_rows_append [of "int (length ?before)" ?before "int M" "replicate M b" "int R" src
        "ic_rgba codec" "replicate R b"] by (simp add: strip_k)
  moreover have "fold (step n) (map int [0..<k]) (replicate (length src) b) = ?before @ replicate M b @ replicate R b"
    using Suc.IH k unfolding P_def [symmetric] L_def [symmetric] rest by simp
  moreover have "length src - length src div n * Suc k - length src mod n = R"
    by (simp add: R_def P_def L_def)
  ultimately show ?case by simp
qed simp

lemma rearrangeImage_strips:
  assumes "0 < n"
  shows "rearrangeImage codec src (int n) = map (ic_rgba codec) (concat (strips n src))"
proof -
  have rest: "length src - length src div n * n - length src mod n = 0"
    using div_mult_mod_eq [of "length src" n] by simp
  have "rearrangeImage codec src (int n) = concat (map (\<lambda>i. map (ic_rgba codec) (strip src n i)) [0..<n])"
    using rearrange_fold [where n = n and k = n and codec = codec and src = src and b = "ic_blank codec src"] assms rest
    by (simp add: rearrangeImage_def Let_def)
  then show ?thesis by (simp add: strips_def map_concat comp_def)
qed

section \<open>The number of strips\<close>

lemma segmentationNum_values:
  "segmentationNum scrambleID aid filename \<in> {0, 2, 4, 6, 8, 10, 12, 14, 16, 18, 20}"
proof -
  have "(c mod x) * 2 + 2 \<in> {2, 4, 6, 8, 10, 12, 14, 16, 18, 20}" if "x = 8 \<or> x = 10" for c x :: int
  proof -
    have "0 \<le> c mod x" "c mod x < 10"
      using that pos_mod_bound [of x c] by auto
    moreover have "m = 0 \<or> m = 1 \<or> m = 2 \<or> m = 3 \<or> m = 4 \<or> m = 5 \<or> m = 6 \<or> m = 7 \<or> m = 8 \<or> m = 9"
      if "0 \<le> m" "m < 10" for m :: int using that by presburger
    ultimately have "c mod x \<in> {0, 1, 2, 3, 4, 5, 6, 7, 8, 9}" by blast
    then show ?thesis by auto
  qed
  then show ?thesis by (auto simp: segmentationNum_def Let_def)
qed


section \<open>Which answer a request returns\<close>

text \<open>What one domain has to say.\<close>

definition api_answer ::
  "http_client \<Rightarrow> (nat \<Rightarrow> int) \<Rightarrow> string \<Rightarrow> (string \<times> string) list \<Rightarrow> nat \<Rightarrow> string \<Rightarrow> go_error + string" where
  "api_answer cl now apiPath query k domain =
     (case read_response (domain @ apiPath)
             (hc_Do cl k \<lparr>rq_URL = url_String domain apiPath query,
                          rq_Header = api_headers (Itoa (now k)) tokenSecret\<rparr>) of
        Inl e \<Rightarrow> Inl e
      | Inr body \<Rightarrow> decode_api_response (Itoa (now k)) body)"

lemma requestAPI_loop_step:
  assumes "\<And>url. hc_url_error cl url = None"
  shows "requestAPI_loop cl now p q k (d # ds) lastErr =
     (case api_answer cl now p q k d of
        Inl e \<Rightarrow> requestAPI_loop cl now p q (Suc k) ds (Some e)
      | Inr data \<Rightarrow> Inr data)"
  using assms by (simp add: api_answer_def Let_def split: sum.split)

declare requestAPI_loop.simps(2) [simp del]

lemma requestAPI_loop_first:
  assumes "\<And>url. hc_url_error cl url = None"
  shows "requestAPI_loop cl now p q k ds lastErr = Inr data \<longleftrightarrow>
    (\<exists>j < length ds. api_answer cl now p q (k + j) (ds ! j) = Inr data \<and>
      (\<forall>m < j. \<not> is_ok (api_answer cl now p q (k + m) (ds ! m))))"
proof (induction ds arbitrary: k lastErr)
  case (Cons d ds)
  show ?case
  proof (cases "api_answer cl now p q k d")
    case (Inl e)
    have "(\<exists>j < length (d # ds). api_answer cl now p q (k + j) ((d # ds) ! j) = Inr data \<and>
        (\<forall>m < j. \<not> is_ok (api_answer cl now p q (k + m) ((d # ds) ! m)))) \<longleftrightarrow>
      (\<exists>j < length ds. api_answer cl now p q (Suc k + j) (ds ! j) = Inr data \<and>
        (\<forall>m < j. \<not> is_ok (api_answer cl now p q (Suc k + m) (ds ! m))))" (is "?l = ?r")
    proof
      assume ?l
      then obtain j where j: "j < length (d # ds)" "api_answer cl now p q (k + j) ((d # ds) ! j) = Inr data"
        "\<forall>m < j. \<not> is_ok (api_answer cl now p q (k + m) ((d # ds) ! m))" by blast
      then obtain i where i: "j = Suc i" using Inl by (cases j) auto
      have "\<not> is_ok (api_answer cl now p q (Suc k + m) (ds ! m))" if "m < i" for m
        using j(3) that by (auto simp: i dest: spec [of _ "Suc m"])
      with j(1,2) i show ?r by (intro exI [of _ i]) auto
    next
      assume ?r
      then obtain i where i: "i < length ds" "api_answer cl now p q (Suc k + i) (ds ! i) = Inr data"
        "\<forall>m < i. \<not> is_ok (api_answer cl now p q (Suc k + m) (ds ! m))" by blast
      have "\<not> is_ok (api_answer cl now p q (k + m) ((d # ds) ! m))" if "m < Suc i" for m
        using i(3) that Inl by (cases m) auto
      with i show ?l by (intro exI [of _ "Suc i"]) auto
    qed
    with Cons.IH [of "Suc k" "Some e"] Inl show ?thesis by (simp add: requestAPI_loop_step [OF assms])
  next
    case (Inr data')
    have "(\<exists>j < length (d # ds). api_answer cl now p q (k + j) ((d # ds) ! j) = Inr data \<and>
        (\<forall>m < j. \<not> is_ok (api_answer cl now p q (k + m) ((d # ds) ! m)))) \<longleftrightarrow> data' = data" (is "?l = _")
    proof
      assume ?l
      then obtain j where j: "api_answer cl now p q (k + j) ((d # ds) ! j) = Inr data"
        "\<forall>m < j. \<not> is_ok (api_answer cl now p q (k + m) ((d # ds) ! m))" by blast
      then have "j = 0" using Inr by (cases j) auto
      with j Inr show "data' = data" by simp
    qed (use Inr in \<open>auto intro!: exI [of _ 0]\<close>)
    then show ?thesis using Inr by (simp add: requestAPI_loop_step [OF assms])
  qed
qed simp

section \<open>A photo is archived\<close>

lemma md5_hex_chars:
  assumes "c \<in> set (md5_hex msg)"
  shows "48 \<le> (of_char c :: nat)" "(of_char c :: nat) < 103" "(of_char c :: nat) \<noteq> 92"
proof -
  have nibbles: "(of_char b :: nat) div 16 < 16" "(of_char b :: nat) mod 16 < 16" for b
    by (simp_all add: less_mult_imp_div_less)
  have "\<forall>c \<in> set (hex_EncodeToString bs). \<exists>d < 16. c = hex_digit d" for bs
  proof (induction bs)
    case (Cons b bs)
    have "\<exists>d < 16. hex_digit (of_char b div 16) = hex_digit d" "\<exists>d < 16. hex_digit (of_char b mod 16) = hex_digit d"
      using nibbles by blast+
    with Cons show ?case by (auto simp: hex_EncodeToString_def)
  qed (simp add: hex_EncodeToString_def)
  with assms obtain d where "d < 16" "c = hex_digit d" by (auto simp: md5_hex_def)
  then show "48 \<le> (of_char c :: nat)" "(of_char c :: nat) < 103" "(of_char c :: nat) \<noteq> 92"
    by (auto simp: hex_digit_def of_char_of)
qed

lemma md5_hash_ok: "hash_ok (md5_hex msg)" "TrimSpace (md5_hex msg) = md5_hex msg"
proof -
  show "TrimSpace (md5_hex msg) = md5_hex msg"
    by (rule TrimSpace_printable) (use md5_hex_chars in \<open>fastforce simp: printable_def list_all_iff\<close>)
  have "CHR ''/'' \<notin> set (md5_hex msg)" "CHR 0x5C \<notin> set (md5_hex msg)"
    using md5_hex_chars [of "CHR ''/''" msg] md5_hex_chars [of "CHR 0x5C" msg] by auto
  moreover have "md5_hex msg \<noteq> ''.''" "md5_hex msg \<noteq> ''..''"
    using length_md5_hex [of msg] by (auto dest!: arg_cong [where f = length])
  ultimately show "hash_ok (md5_hex msg)" by (simp add: hash_ok_def)
qed

text \<open>The key of a page exists, whatever the names are.\<close>

definition jm_key :: "int \<Rightarrow> resolvedPage \<Rightarrow> string" where
  "jm_key i page = page_key i (rp_Hash page) (rp_ContentType page)"

lemma resolvePages_key:
  "page \<in> set (resolvePages photo) \<Longrightarrow>
   PageObjectKey (Itoa i) (rp_Hash page) (rp_ContentType page) = Inr (jm_key i page)"
  by (auto simp: resolvePages_def md5Hex_def PageObjectKey_Itoa md5_hash_ok jm_key_def)

lemma jm_key_hash: "jm_key i page = jm_key i page' \<Longrightarrow> rp_Hash page = rp_Hash page'"
  by (auto simp: jm_key_def dest: page_key_inject)

definition images_arrive :: "'row jm_net \<Rightarrow> Photo \<Rightarrow> bool" where
  "images_arrive net photo \<longleftrightarrow>
     (\<forall>k < length (ph_Images photo). \<exists>img body.
        DownloadDecodedImage (jn_codec net) (jn_image net k) photo (ph_Images photo ! k) = Inr (Some img) \<and>
        encodeImage (jn_codec net) (ph_Images photo ! k) img = Inr body)"

context reliable_host
begin

lemma page_object_succeeds:
  assumes ready: "ready w" and page: "page \<in> set (resolvePages photo')"
    and img: "DownloadDecodedImage (jn_codec net) (jn_image net index) photo (rp_Name page) = Inr (Some img)"
      "encodeImage (jn_codec net) (rp_Name page) img = Inr body"
    and tagged: "tagged (jm_key i page) (rp_Hash page) w"
  shows "\<exists>info w'. page_object host net objects photo index (jm_key i page) page w = (Inr info, w') \<and>
    ready w' \<and> (\<forall>j. free j w \<longrightarrow> free j w') \<and>
    (\<forall>page'. tagged (jm_key i page') (rp_Hash page') w \<longrightarrow> tagged (jm_key i page') (rp_Hash page') w')"
proof -
  note key = resolvePages_key [OF page, of i]
  note live = later_live [OF host_live [OF ready]]
  from Put_ok [OF ready key, of body] obtain info w' where put:
    "os_PutObject objects (ho_ctx host w) \<lparr>oi_Key = jm_key i page, oi_Size = int (length body),
       oi_ContentType = rp_ContentType page, oi_ETag = rp_Hash page\<rparr> (Some (Inr body)) w = (Inr info, w')"
    "ready w'" "\<forall>j. free j w \<longrightarrow> free j w'"
    "\<forall>key' h'. tagged key' h' w \<and> (key' = jm_key i page \<longrightarrow> h' = rp_Hash page) \<longrightarrow> tagged key' h' w'"
    by blast
  have "fetch_and_put host net objects photo index (jm_key i page) page w = (Inr info, w')"
    using put(1) img by (simp add: fetch_and_put_def live)
  moreover have "tagged (jm_key i page') (rp_Hash page') w'" if "tagged (jm_key i page') (rp_Hash page') w" for page'
    using put(4) that jm_key_hash by blast
  moreover note put(2,3)
  ultimately show ?thesis using Head_ok [OF ready tagged key] ready by (auto simp: page_object_def live)
qed

lemma archive_loop_succeeds:
  assumes "ready w" "set pages \<subseteq> set (resolvePages photo')"
    and "\<And>k. k < length pages \<Longrightarrow> \<exists>img body.
      DownloadDecodedImage (jn_codec net) (jn_image net (index + k)) photo (rp_Name (pages ! k)) = Inr (Some img) \<and>
      encodeImage (jn_codec net) (rp_Name (pages ! k)) img = Inr body"
    and "\<And>k. k < length pages \<Longrightarrow> free (int (index + k)) w"
    and "\<And>page. page \<in> set pages \<Longrightarrow> tagged (jm_key i page) (rp_Hash page) w"
  shows "\<exists>ps w'. archive_loop host net objects i photo index pages archived w = ((ps, None), w')"
  using assms
proof (induction pages arbitrary: index archived w)
  case (Cons page pages)
  from Cons.prems(3) [of 0] obtain img body where
    "DownloadDecodedImage (jn_codec net) (jn_image net index) photo (rp_Name page) = Inr (Some img)"
    "encodeImage (jn_codec net) (rp_Name page) img = Inr body" by auto
  from page_object_succeeds [OF Cons.prems(1) _ this, of photo'] Cons.prems(2,5) obtain info w1 where obj:
    "page_object host net objects photo index (jm_key i page) page w = (Inr info, w1)" "ready w1"
    "\<And>j. free j w \<Longrightarrow> free j w1"
    "\<And>page'. tagged (jm_key i page') (rp_Hash page') w \<Longrightarrow> tagged (jm_key i page') (rp_Hash page') w1"
    by auto
  let ?page = "document_page index (jm_key i page) page (oi_Size info)"
  have "free (pg_Index ?page) w1" "pg_Key ?page \<noteq> ''''"
    using Cons.prems(4) [of 0] obj(3) by (auto simp: document_page_def jm_key_def page_key_def)
  from hook_ok [OF obj(2) this] obtain hook w2 where hook: "ho_hook host = Some hook"
    "hook False i ?page w1 = (Inr (), w2)" "ready w2"
    "\<And>j. free j w1 \<Longrightarrow> j \<noteq> int index \<Longrightarrow> free j w2" "\<And>key h. tagged key h w1 \<Longrightarrow> tagged key h w2"
    by (auto simp: document_page_def)
  have "\<exists>ps w'. archive_loop host net objects i photo (Suc index) pages (archived @ [?page]) w2 = ((ps, None), w')"
  proof (rule Cons.IH)
    show "ready w2" by (rule hook(3))
    show "set pages \<subseteq> set (resolvePages photo')" using Cons.prems(2) by simp
    show "\<exists>img body. DownloadDecodedImage (jn_codec net) (jn_image net (Suc index + k)) photo (rp_Name (pages ! k))
        = Inr (Some img) \<and> encodeImage (jn_codec net) (rp_Name (pages ! k)) img = Inr body"
      if "k < length pages" for k
      using Cons.prems(3) [of "Suc k"] that by simp
    show "free (int (Suc index + k)) w2" if "k < length pages" for k
      using Cons.prems(4) [of "Suc k"] that obj(3) hook(4) by simp
    show "tagged (jm_key i p) (rp_Hash p) w2" if "p \<in> set pages" for p
      using Cons.prems(5) [of p] that obj(4) hook(5) by simp
  qed
  moreover have "ho_ctx host w (3 * index) = None" using host_live [OF Cons.prems(1)] by (simp add: live_def)
  moreover have "PageObjectKey (Itoa i) (rp_Hash page) (rp_ContentType page) = Inr (jm_key i page)"
    by (rule resolvePages_key) (use Cons.prems(2) in auto)
  ultimately show ?case using obj(1) hook(1,2) by (simp add: Let_def Jm_recordPage_def)
qed simp

lemma Jm_ArchiveContent_succeeds:
  assumes "Photo_UnmarshalJSON (d_SourceMeta document) = Some photo" "ph_ID photo \<noteq> ''''" "d_ID document = i"
    and "getScrambleID (jn_client net) (fst (jn_scramble net)) (snd (jn_scramble net)) (ph_ID photo) = Inr n"
    and "images_arrive net (photo\<lparr>ph_ScrambleID := n\<rparr>)" "ready w"
    and "\<And>k. k < length (ph_Images photo) \<Longrightarrow> free (int k) w"
    and "\<And>page. page \<in> set (resolvePages photo) \<Longrightarrow> tagged (jm_key i page) (rp_Hash page) w"
  shows "\<exists>ps w'. Jm_ArchiveContent host net document w = ((ps, None), w')"
proof -
  let ?photo = "photo\<lparr>ph_ScrambleID := n\<rparr>"
  have same: "resolvePages ?photo = resolvePages photo" by (simp add: resolvePages_def)
  have "\<exists>ps w'. archive_loop host net objects i ?photo 0 (resolvePages photo) [] w = ((ps, None), w')"
    by (rule archive_loop_succeeds [OF assms(6), of _ photo])
      (use assms(5,7,8) in \<open>auto simp: images_arrive_def resolvePages_def\<close>)
  then show ?thesis
    using assms(1-4) host_objects host_live [OF assms(6)]
    by (simp add: Jm_ArchiveContent_def Let_def same live_def)
qed

end


lemma unscramble_strips:
  "\<exists>n \<in> {0, 2, 4, 6, 8, 10, 12, 14, 16, 18, 20}.
     if n = 0 then unscramble codec photo name img = img
     else unscramble codec photo name img = map (ic_rgba codec) (concat (strips n img)) \<and>
          concat (rev (strips n img)) = img"
proof -
  let ?s = "segmentationNum (ph_ScrambleID photo) (Atoi_value (ph_ID photo))
    (take (length name - length (filepath_Ext name)) name)"
  have un: "unscramble codec photo name img = rearrangeImage codec img ?s"
    by (simp add: unscramble_def Let_def)
  have s: "?s \<in> {0, 2, 4, 6, 8, 10, 12, 14, 16, 18, 20}" by (rule segmentationNum_values)
  then have nat_s: "nat ?s \<in> {0, 2, 4, 6, 8, 10, 12, 14, 16, 18, 20}" "int (nat ?s) = ?s" by auto
  have "if nat ?s = 0 then unscramble codec photo name img = img
    else unscramble codec photo name img = map (ic_rgba codec) (concat (strips (nat ?s) img)) \<and>
         concat (rev (strips (nat ?s) img)) = img"
    unfolding un
    using rearrangeImage_strips [of "nat ?s" codec img] strips_image [of "nat ?s" img] nat_s(2)
    by (auto simp: rearrangeImage_def)
  then show ?thesis using nat_s(1) by blast
qed

end
