(* ===== verification/JmSamples.thy ===== *)
theory JmSamples
  imports JmProofs HitomiSamples
begin

text \<open>
  Concrete networks for the witnesses: the one of the program's own test, whose album has no images and
  whose chapter has two, and a document whose metadata are those of a photo.
\<close>

definition pair :: "string \<Rightarrow> string \<Rightarrow> string" where
  "pair key value = quoted key @ '':'' @ value"

definition test_album :: string where
  "test_album = ''{'' @ pair ''id'' (quoted ''42'') @ '','' @ pair ''name'' (quoted ''single'') @ '','' @ pair ''series'' ''[]'' @ ''}''"

definition test_chapter :: string where
  "test_chapter = ''{'' @ pair ''id'' (quoted ''42'') @ '','' @ pair ''name'' (quoted ''photo'') @ '','' @ pair ''addtime'' (quoted ''123'')
     @ '','' @ pair ''images'' (''['' @ quoted ''00001.webp'' @ '','' @ quoted ''00002.png'' @ '']'') @ ''}''"

definition enveloped :: "string \<Rightarrow> string" where
  "enveloped data = ''{'' @ pair ''code'' ''200'' @ '','' @ pair ''data'' data @ ''}''"

definition test_script :: string where
  "test_script = ''var scramble_id = 99''"

definition body_client :: "string \<Rightarrow> http_client" where
  "body_client body = \<lparr>hc_url_error = (\<lambda>url. None), hc_Do = (\<lambda>k req. Inr (answer 200 body))\<rparr>"

definition plain_codec :: "nat image_codec" where
  "plain_codec =
     \<lparr>ic_Decode = (\<lambda>raw. Inr [0, 1, 2, 3, 4, 5]), ic_rgba = (\<lambda>row. row), ic_blank = (\<lambda>img. 0),
      ic_Encode = (\<lambda>ct img. Inr ''img'')\<rparr>"

definition test_net :: "nat jm_net" where
  "test_net =
     \<lparr>jn_client = \<lparr>ac_domains = [''api.test'']\<rparr>, jn_album = (body_client (enveloped test_album), \<lambda>k. 0),
      jn_photo = (body_client (enveloped test_chapter), \<lambda>k. 0), jn_scramble = (body_client test_script, \<lambda>k. 0),
      jn_image = (\<lambda>k. body_client ''raw''), jn_codec = plain_codec\<rparr>"

definition the_album :: Album where
  "the_album = zero_Album\<lparr>al_ID := ''42'', al_Name := ''single'', al_Raw := test_album\<rparr>"

definition the_photo :: Photo where
  "the_photo = zero_Photo\<lparr>ph_ID := ''42'', ph_Name := ''photo'', ph_AddTime := ''123'',
     ph_Images := [''00001.webp'', ''00002.png''], ph_Raw := test_chapter\<rparr>"

definition album_photo :: Photo where
  "album_photo = zero_Photo\<lparr>ph_ID := ''42'', ph_Name := ''single'', ph_Raw := test_album\<rparr>"

lemma test_envelopes:
  "dec_struct apiEnvelope_fields zero_apiEnvelope (enveloped test_album) = Some \<lparr>en_Code = 200, en_Data = test_album, en_ErrorMsg = ''''\<rparr>"
  "dec_struct apiEnvelope_fields zero_apiEnvelope (enveloped test_chapter) = Some \<lparr>en_Code = 200, en_Data = test_chapter, en_ErrorMsg = ''''\<rparr>"
  by (code_simp, code_simp)

lemma test_data: "dec_string '''' test_album = None" "dec_string '''' test_chapter = None"
  "test_album \<noteq> ''null''" "test_chapter \<noteq> ''null''" "test_album \<noteq> ''''" "test_chapter \<noteq> ''''"
  by (code_simp, code_simp, code_simp, code_simp, code_simp, code_simp)

lemma test_decoded:
  "Album_UnmarshalJSON test_album = Some the_album" "Photo_UnmarshalJSON test_chapter = Some the_photo"
  "Photo_UnmarshalJSON test_album = Some album_photo"
  by (code_simp, code_simp, code_simp)

lemma test_scramble: "map_option (\<lambda>m. group m 1) (FindSubmatch scramblePattern test_script) = Some ''99''"
  "Atoi ''99'' = Some 99"
  by (code_simp, code_simp)

lemma test_request:
  "decode_api_response ts (enveloped test_album) = Inr test_album"
  "decode_api_response ts (enveloped test_chapter) = Inr test_chapter"
  by (simp_all add: decode_api_response_def test_envelopes decodeEnvelope_def test_data)

lemma body_client_sel [simp]:
  "hc_url_error (body_client body) url = None" "hc_Do (body_client body) k req = Inr (answer 200 body)"
  "read_response what (Inr (answer 200 body)) = Inr body"
  by (simp_all add: body_client_def read_response_def answer_def)

lemma test_api:
  "requestAPI \<lparr>ac_domains = [''api.test'']\<rparr> (body_client (enveloped test_album)) now p q = Inr test_album"
  "requestAPI \<lparr>ac_domains = [''api.test'']\<rparr> (body_client (enveloped test_chapter)) now p q = Inr test_chapter"
  "getScrambleID \<lparr>ac_domains = [''api.test'']\<rparr> (body_client test_script) now i = Inr 99"
  using test_scramble
  by (auto simp: requestAPI_def requestAPI_loop_step api_answer_def test_request getScrambleID_def Let_def)

lemma test_resolved:
  assumes "ho_ctx host w 0 = None"
  shows "Jm_ResolveDocument host test_net document w =
    (Inr (zero_Document\<lparr>d_Source := SourceTypeJmcomic, d_SourceMeta := test_album,
       d_SourceDocumentID := ''42'', d_Title := ''single'', d_Pages := jm_pages (resolvePages the_photo)\<rparr>,
      Some (jm_pages (resolvePages the_photo))), w)"
proof -
  have "ph_Raw the_photo \<noteq> ''''" by (simp add: the_photo_def test_data)
  then show ?thesis
    using assms
    by (simp add: Jm_ResolveDocument_def test_net_def GetAlbum_def GetPhoto_def test_api test_decoded
        validateSingleChapter_def Let_def the_album_def the_photo_def zero_Album_def zero_Photo_def
        resolvePages_def)
qed

text \<open>A document that waits for the images of the chapter.\<close>

definition photo_doc :: Document where
  "photo_doc = (sample_doc 0 StatusDownloading)\<lparr>d_SourceMeta := test_chapter\<rparr>"

definition photo_mem :: MemoryStore where
  "photo_mem = NewMemoryStore\<lparr>idMap := [photo_doc]\<rparr>"

lemma photo_doc_sel [simp]:
  "d_ID photo_doc = 0" "d_status photo_doc = StatusDownloading" "d_Pages photo_doc = []"
  "d_SourceMeta photo_doc = test_chapter"
  by (simp_all add: photo_doc_def)

lemma photo_mem_view: "mem_view photo_mem = [0 \<mapsto> photo_doc]"
  by (auto simp: fun_eq_iff mem_view_def photo_mem_def in_range_def)

lemma photo_invar: "mem_invar photo_mem"
  by (simp add: mem_invar_def store_wf_def photo_mem_view doc_wf_def photo_doc_def sample_doc_def
      zero_Document_def)

lemma photo_quiet:
  "quiet_world mem_invar memory_store (sample_app memory_store) sample_env (sample_world photo_mem)"
  by (simp add: quiet_world_def photo_invar)

lemma photo_free: "0 \<le> j \<Longrightarrow> slot_free mem_view 0 j (sample_world photo_mem)"
  by (auto simp: slot_free_def photo_mem_view slot_taken_def in_range_def)

lemma photo_untagged: "tagged_at memory_tag ''local'' key h (sample_world photo_mem)"
  by (simp add: tagged_at_def memory_tag_def sample_world_def NewMemoryObjects_def)

lemma photo_images: "images_arrive test_net (the_photo\<lparr>ph_ScrambleID := n\<rparr>)"
  by (simp add: images_arrive_def test_net_def DownloadDecodedImage_def imageDomains_def plain_codec_def
      encodeImage_def)

end
