(* ===== verification/S3Store.thy ===== *)
theory S3Store
  imports ObjStore GoNet
begin

text \<open>
  The object storage of \<^verbatim>\<open>internal/storage/s3_storage.go\<close> over the client of the AWS SDK.  The SDK and the
  service are outside of the repository: a \<open>s3_client\<close> is the client that the SDK makes from its options,
  as operations on the state \<open>'s\<close> of the service.  \<open>s3_laws\<close> is what the documentation of the service
  promises for a bucket when every call is answered: reads see the last write, listing is complete, and
  deleting a missing key succeeds.  Under these laws \<open>S3Store\<close> keeps the contracts of \<open>ObjStore\<close>.
\<close>

section \<open>The client\<close>

datatype s3_error = NoSuchKey string | APIError string string | TransportError string

record s3_put_input =
  si_Bucket :: string
  si_Key :: string
  si_Metadata :: "(string \<times> string) list"
  si_ContentLength :: "int option"
  si_ContentType :: "string option"

record s3_headers =
  hd_ContentLength :: "int option"
  hd_ContentType :: "string option"
  hd_ETag :: "string option"
  hd_Metadata :: "(string \<times> string) list"

text \<open>
  \<open>s3_ListPages\<close> is the paginator: the results of \<^verbatim>\<open>NextPage\<close> until there are no more pages.
\<close>

record 's s3_client =
  s3_DeleteObject :: "ctx \<Rightarrow> string \<Rightarrow> string \<Rightarrow> 's \<Rightarrow> (s3_error + unit) \<times> 's"
  s3_PutObject :: "ctx \<Rightarrow> s3_put_input \<Rightarrow> string \<Rightarrow> 's \<Rightarrow> (s3_error + string option) \<times> 's"
  s3_GetObject :: "ctx \<Rightarrow> string \<Rightarrow> string \<Rightarrow> 's \<Rightarrow> s3_error + s3_headers \<times> string"
  s3_HeadObject :: "ctx \<Rightarrow> string \<Rightarrow> string \<Rightarrow> 's \<Rightarrow> s3_error + s3_headers"
  s3_ListPages :: "ctx \<Rightarrow> string \<Rightarrow> string \<Rightarrow> 's \<Rightarrow> (s3_error + string option list) list"
  s3_PresignGetObject :: "ctx \<Rightarrow> string \<Rightarrow> string \<Rightarrow> int \<Rightarrow> s3_error + string"

record s3_options =
  so_Region :: string
  so_AccessKeyID :: string
  so_SecretAccessKey :: string
  so_SessionToken :: string
  so_UsePathStyle :: bool
  so_BaseEndpoint :: "string option"

section \<open>The store\<close>

definition s3ObjectETagMetadataKey :: string where
  "s3ObjectETagMetadataKey = ''archive-etag''"

record S3Config =
  s3c_InternalEndpoint :: string
  s3c_Endpoint :: string
  s3c_Bucket :: string
  s3c_Region :: string
  s3c_AccessKeyID :: string
  s3c_SecretAccessKey :: string
  s3c_SessionToken :: string
  s3c_UsePathStyle :: bool

record S3Store =
  ss_storageName :: string
  ss_bucket :: string
  ss_client :: s3_options
  ss_presign :: s3_options

definition NewS3Store :: "string \<Rightarrow> S3Config \<Rightarrow> go_error + S3Store" where
  "NewS3Store name cfg =
     (if s3c_Bucket cfg = '''' then Inl (ErrText ''s3 bucket is required'')
      else if s3c_Region cfg = '''' then Inl (ErrText ''s3 region is required'')
      else if s3c_AccessKeyID cfg = '''' then Inl (ErrText ''s3 access key id is required'')
      else if s3c_SecretAccessKey cfg = '''' then Inl (ErrText ''s3 secret access key is required'')
      else
        (let options0 =
               \<lparr>so_Region = s3c_Region cfg, so_AccessKeyID = s3c_AccessKeyID cfg,
                so_SecretAccessKey = s3c_SecretAccessKey cfg, so_SessionToken = s3c_SessionToken cfg,
                so_UsePathStyle = s3c_UsePathStyle cfg, so_BaseEndpoint = None\<rparr>;
             options = (if s3c_Endpoint cfg \<noteq> '''' then options0\<lparr>so_BaseEndpoint := Some (s3c_Endpoint cfg)\<rparr>
                        else options0)
         in if s3c_InternalEndpoint cfg \<noteq> ''''
            then Inr \<lparr>ss_storageName = name, ss_bucket = s3c_Bucket cfg,
                      ss_client = options\<lparr>so_BaseEndpoint := Some (s3c_InternalEndpoint cfg)\<rparr>,
                      ss_presign = options\<lparr>so_BaseEndpoint := Some (s3c_Endpoint cfg)\<rparr>\<rparr>
            else Inr \<lparr>ss_storageName = name, ss_bucket = s3c_Bucket cfg, ss_client = options,
                      ss_presign = options\<rparr>))"

definition normalizeS3Error :: "s3_error \<Rightarrow> go_error" where
  "normalizeS3Error err =
     (case err of
        NoSuchKey text \<Rightarrow> ErrJoin ErrObjectNotFound (ErrExternal text)
      | APIError code text \<Rightarrow>
          (if code \<in> {''NoSuchKey'', ''NotFound'', ''404''}
           then ErrJoin ErrObjectNotFound (ErrExternal text) else ErrExternal text)
      | TransportError text \<Rightarrow> ErrExternal text)"

definition cleanS3ETag :: "string option \<Rightarrow> string" where
  "cleanS3ETag etag = TrimChar (CHR 0x22) (case etag of None \<Rightarrow> '''' | Some t \<Rightarrow> t)"

text \<open>The order of the pairs is the one in which the loop over the map meets them.\<close>

fun metadataValue :: "(string \<times> string) list \<Rightarrow> string \<Rightarrow> string" where
  "metadataValue [] key = ''''"
| "metadataValue ((metadataKey, value) # rest) key =
     (if ToLower metadataKey = ToLower key then value else metadataValue rest key)"

definition objectETagFromHeaders :: "string option \<Rightarrow> (string \<times> string) list \<Rightarrow> string" where
  "objectETagFromHeaders etag metadata =
     (let metadataETag = metadataValue metadata s3ObjectETagMetadataKey in
      if metadataETag \<noteq> '''' then metadataETag else cleanS3ETag etag)"

definition objectInfoFromHeaders :: "string \<Rightarrow> s3_headers \<Rightarrow> ObjectInfo" where
  "objectInfoFromHeaders key h =
     \<lparr>oi_Key = key, oi_Size = (case hd_ContentLength h of None \<Rightarrow> 0 | Some size' \<Rightarrow> size'),
      oi_ContentType = (case hd_ContentType h of None \<Rightarrow> '''' | Some ct \<Rightarrow> ct),
      oi_ETag = objectETagFromHeaders (hd_ETag h) (hd_Metadata h)\<rparr>"

definition S3Store_DeleteObject ::
  "'s s3_client \<Rightarrow> S3Store \<Rightarrow> ctx \<Rightarrow> string \<Rightarrow> 's \<Rightarrow> (go_error + unit) \<times> 's" where
  "S3Store_DeleteObject cl st ctx key s =
     (case ctx 0 of Some e \<Rightarrow> (Inl (ErrExternal e), s) | None \<Rightarrow>
        if key = '''' then (Inl (ErrText ''object key is required''), s)
        else (case s3_DeleteObject cl (later ctx 1) (ss_bucket st) key s of
                (Inl err, s') \<Rightarrow> (Inl (normalizeS3Error err), s')
              | (Inr _, s') \<Rightarrow> (Inr (), s')))"

text \<open>The keys of all pages, or the first error.\<close>

fun collect_keys :: "(s3_error + string option list) list \<Rightarrow> string list \<Rightarrow> go_error + string list" where
  "collect_keys [] keys = Inr keys"
| "collect_keys (page # pages) keys =
     (case page of
        Inl err \<Rightarrow> Inl (normalizeS3Error err)
      | Inr contents \<Rightarrow>
          collect_keys pages (keys @ filter (\<lambda>key. key \<noteq> '''')
            (map (\<lambda>key. case key of None \<Rightarrow> '''' | Some k \<Rightarrow> k) contents)))"

fun delete_keys ::
  "'s s3_client \<Rightarrow> S3Store \<Rightarrow> ctx \<Rightarrow> nat \<Rightarrow> string list \<Rightarrow> 's \<Rightarrow> (go_error + unit) \<times> 's" where
  "delete_keys cl st ctx n [] s = (Inr (), s)"
| "delete_keys cl st ctx n (key # keys) s =
     (case S3Store_DeleteObject cl st (later ctx n) key s of
        (Inl e, s') \<Rightarrow> (Inl e, s')
      | (Inr _, s') \<Rightarrow> delete_keys cl st ctx (n + 2) keys s')"

definition S3Store_DeletePrefix ::
  "'s s3_client \<Rightarrow> S3Store \<Rightarrow> ctx \<Rightarrow> string \<Rightarrow> 's \<Rightarrow> (go_error + unit) \<times> 's" where
  "S3Store_DeletePrefix cl st ctx prfx0 s =
     (case ctx 0 of Some e \<Rightarrow> (Inl (ErrExternal e), s) | None \<Rightarrow>
        let prfx = TrimSpace prfx0 in
        if prfx = '''' then (Inl (ErrText ''object prefix is required''), s)
        else (case collect_keys (s3_ListPages cl (later ctx 1) (ss_bucket st) prfx s) [] of
                Inl e \<Rightarrow> (Inl e, s)
              | Inr keys \<Rightarrow> delete_keys cl st ctx 2 keys s))"

definition s3_put_input_of :: "S3Store \<Rightarrow> ObjectInfo \<Rightarrow> s3_put_input" where
  "s3_put_input_of st info =
     \<lparr>si_Bucket = ss_bucket st, si_Key = oi_Key info,
      si_Metadata = (if oi_ETag info \<noteq> '''' then [(s3ObjectETagMetadataKey, oi_ETag info)] else []),
      si_ContentLength = (if oi_Size info \<ge> 0 then Some (oi_Size info) else None),
      si_ContentType = (if oi_ContentType info \<noteq> '''' then Some (oi_ContentType info) else None)\<rparr>"

text \<open>The body is read from where it stands; \<open>objectETag\<close> reads it again from there.\<close>

definition objectETag :: "string \<Rightarrow> string" where
  "objectETag content = md5_hex content"

definition S3Store_PutObject ::
  "'s s3_client \<Rightarrow> S3Store \<Rightarrow> ctx \<Rightarrow> ObjectInfo \<Rightarrow> body \<Rightarrow> 's \<Rightarrow> (go_error + ObjectInfo) \<times> 's" where
  "S3Store_PutObject cl st ctx info body s =
     (case ctx 0 of Some e \<Rightarrow> (Inl (ErrExternal e), s) | None \<Rightarrow>
        if oi_Key info = '''' then (Inl (ErrText ''object key is required''), s)
        else case body of
          None \<Rightarrow> (Inl (ErrText ''object body is required''), s)
        | Some (Inl e) \<Rightarrow> (Inl (ErrExternal e), s)
        | Some (Inr content) \<Rightarrow>
            (case s3_PutObject cl (later ctx 1) (s3_put_input_of st info) content s of
               (Inl err, s') \<Rightarrow> (Inl (normalizeS3Error err), s')
             | (Inr output, s') \<Rightarrow>
                 (let etag = (if oi_ETag info = '''' then cleanS3ETag output else oi_ETag info);
                      etag' = (if etag = '''' then objectETag content else etag)
                  in (Inr \<lparr>oi_Key = oi_Key info, oi_Size = oi_Size info, oi_ContentType = oi_ContentType info,
                           oi_ETag = etag'\<rparr>, s'))))"

definition S3Store_GetObject :: "'s s3_client \<Rightarrow> S3Store \<Rightarrow> ctx \<Rightarrow> string \<Rightarrow> 's \<Rightarrow> go_error + Object" where
  "S3Store_GetObject cl st ctx key s =
     (case ctx 0 of Some e \<Rightarrow> Inl (ErrExternal e) | None \<Rightarrow>
        if key = '''' then Inl (ErrText ''object key is required'')
        else (case s3_GetObject cl (later ctx 1) (ss_bucket st) key s of
                Inl err \<Rightarrow> Inl (normalizeS3Error err)
              | Inr (h, content) \<Rightarrow> Inr \<lparr>ob_Info = objectInfoFromHeaders key h, ob_Body = content\<rparr>))"

definition S3Store_HeadObject :: "'s s3_client \<Rightarrow> S3Store \<Rightarrow> ctx \<Rightarrow> string \<Rightarrow> 's \<Rightarrow> go_error + ObjectInfo" where
  "S3Store_HeadObject cl st ctx key s =
     (case ctx 0 of Some e \<Rightarrow> Inl (ErrExternal e) | None \<Rightarrow>
        if key = '''' then Inl (ErrText ''object key is required'')
        else (case s3_HeadObject cl (later ctx 1) (ss_bucket st) key s of
                Inl err \<Rightarrow> Inl (normalizeS3Error err)
              | Inr h \<Rightarrow> Inr (objectInfoFromHeaders key h)))"

definition S3Store_PresignGetObject ::
  "'s s3_client \<Rightarrow> 's s3_client \<Rightarrow> S3Store \<Rightarrow> ctx \<Rightarrow> string \<Rightarrow> int \<Rightarrow> 's \<Rightarrow> go_error + string" where
  "S3Store_PresignGetObject cl presign st ctx key ttl s =
     (case S3Store_HeadObject cl st ctx key s of
        Inl e \<Rightarrow> Inl e
      | Inr _ \<Rightarrow>
          (if ttl \<le> 0 then Inl (ErrText ''presign ttl must be positive'')
           else (case s3_PresignGetObject presign (later ctx 2) (ss_bucket st) key ttl of
                   Inl err \<Rightarrow> Inl (normalizeS3Error err)
                 | Inr url \<Rightarrow> Inr url)))"

text \<open>The store as a value of the interface, for an SDK that makes clients from options.\<close>

definition s3_store :: "(s3_options \<Rightarrow> 's s3_client) \<Rightarrow> S3Store \<Rightarrow> 's ObjectStore" where
  "s3_store sdk st =
     (let cl = sdk (ss_client st); presign = sdk (ss_presign st) in
      \<lparr>os_Name = ss_storageName st, os_Type = S3StorageType, os_PutObject = S3Store_PutObject cl st,
       os_GetObject = S3Store_GetObject cl st, os_HeadObject = S3Store_HeadObject cl st,
       os_DeleteObject = S3Store_DeleteObject cl st, os_DeletePrefix = S3Store_DeletePrefix cl st,
       os_PresignGetObject = S3Store_PresignGetObject cl presign st\<rparr>)"

section \<open>What the service promises\<close>

definition not_found :: "s3_error \<Rightarrow> bool" where
  "not_found err \<longleftrightarrow> errors_Is (normalizeS3Error err) ErrObjectNotFound"

text \<open>
  \<open>stored s key\<close> is the object of the bucket at \<open>key\<close>: its headers and its content.
\<close>

definition s3_put_law where
  "s3_put_law cl b stored \<longleftrightarrow>
     (\<forall>ctx input content s. si_Bucket input = b \<and> si_Key input \<noteq> '''' \<longrightarrow>
        (case s3_PutObject cl ctx input content s of
           (Inr etag, s') \<Rightarrow> (\<exists>h. stored s' = (stored s)(si_Key input \<mapsto> (h, content)) \<and>
             metadataValue (hd_Metadata h) s3ObjectETagMetadataKey
               = metadataValue (si_Metadata input) s3ObjectETagMetadataKey)
         | (Inl err, s') \<Rightarrow> stored s' = stored s \<and>
             (live ctx \<longrightarrow> (\<exists>n. si_ContentLength input = Some n \<and> n \<noteq> int (length content)))))"

definition s3_read_law where
  "s3_read_law cl b stored \<longleftrightarrow>
     (\<forall>ctx key s. case s3_GetObject cl ctx b key s of
        Inr out \<Rightarrow> stored s key = Some out
      | Inl err \<Rightarrow> live ctx \<longrightarrow> stored s key = None) \<and>
     (\<forall>ctx key s. case s3_HeadObject cl ctx b key s of
        Inr h \<Rightarrow> \<exists>content. stored s key = Some (h, content)
      | Inl err \<Rightarrow> live ctx \<longrightarrow> stored s key = None \<and> not_found err)"

definition s3_delete_law where
  "s3_delete_law cl b stored \<longleftrightarrow>
     (\<forall>ctx key s. case s3_DeleteObject cl ctx b key s of
        (Inr u, s') \<Rightarrow> stored s' = (stored s)(key := None)
      | (Inl err, s') \<Rightarrow> stored s' = stored s \<and> \<not> live ctx \<and> \<not> not_found err)"

definition s3_list_law where
  "s3_list_law cl b stored \<longleftrightarrow>
     (\<forall>ctx prfx s.
        (\<forall>err. Inl err \<in> set (s3_ListPages cl ctx b prfx s) \<longrightarrow> \<not> live ctx \<and> \<not> not_found err) \<and>
        ((\<forall>err. Inl err \<notin> set (s3_ListPages cl ctx b prfx s)) \<longrightarrow>
          (\<forall>key. (\<exists>page. Inr page \<in> set (s3_ListPages cl ctx b prfx s) \<and> Some key \<in> set page) \<longleftrightarrow>
            prefix prfx key \<and> stored s key \<noteq> None)))"

definition s3_laws ::
  "'s s3_client \<Rightarrow> string \<Rightarrow> ('s \<Rightarrow> string \<Rightarrow> (s3_headers \<times> string) option) \<Rightarrow> bool" where
  "s3_laws cl b stored \<longleftrightarrow>
     s3_put_law cl b stored \<and> s3_read_law cl b stored \<and> s3_delete_law cl b stored \<and> s3_list_law cl b stored \<and>
     (\<forall>s. stored s '''' = None)"

definition s3_contents ::
  "('s \<Rightarrow> string \<Rightarrow> (s3_headers \<times> string) option) \<Rightarrow> 's \<Rightarrow> string \<Rightarrow> string option" where
  "s3_contents stored s key = map_option snd (stored s key)"

definition s3_tag ::
  "('s \<Rightarrow> string \<Rightarrow> (s3_headers \<times> string) option) \<Rightarrow> 's \<Rightarrow> string \<Rightarrow> string option" where
  "s3_tag stored s key =
     map_option (\<lambda>(h, content). objectETagFromHeaders (hd_ETag h) (hd_Metadata h)) (stored s key)"

definition s3_legal_key :: "string \<Rightarrow> bool" where
  "s3_legal_key key \<longleftrightarrow> key \<noteq> '''' \<and> TrimSpace key = key"

end
