(* ===== verification/Config.thy ===== *)
theory Config
  imports S3Store
begin

text \<open>
  The configuration, \<^verbatim>\<open>internal/config/config.go\<close> and \<^verbatim>\<open>tools/config_merge.go\<close>.  YAML is a third-party
  library: a \<open>yaml_lib\<close> decodes into a value that is already there, gives the nodes of a document, and
  marshals.  \<open>requireStructFields\<close> walks over those nodes and over the type of the configuration, which is
  written out with the tags of its fields, as \<^verbatim>\<open>reflect\<close> shows them.  A Go map is the list of its pairs in
  the order in which a loop meets them.
\<close>

section \<open>Texts\<close>

text \<open>\<^verbatim>\<open>strings.Split\<close> at a comma.\<close>

fun split_comma :: "string \<Rightarrow> string list" where
  "split_comma [] = [[]]"
| "split_comma (c # cs) =
     (if c = CHR '','' then [] # split_comma cs
      else case split_comma cs of [] \<Rightarrow> [[c]] | s # ss \<Rightarrow> (c # s) # ss)"

text \<open>
  \<^verbatim>\<open>strconv.Quote\<close>, the verb \<^verbatim>\<open>%q\<close>, on ASCII; characters beyond it are kept, which is what Go does with
  the printable ones.
\<close>

definition go_quote_char :: "char \<Rightarrow> string" where
  "go_quote_char c =
     (let n = (of_char c :: nat) in
      if n = 34 \<or> n = 92 then [CHR 0x5C, c]
      else if n = 7 then [CHR 0x5C, CHR ''a''] else if n = 8 then [CHR 0x5C, CHR ''b'']
      else if n = 12 then [CHR 0x5C, CHR ''f''] else if n = 10 then [CHR 0x5C, CHR ''n'']
      else if n = 13 then [CHR 0x5C, CHR ''r''] else if n = 9 then [CHR 0x5C, CHR ''t'']
      else if n = 11 then [CHR 0x5C, CHR ''v'']
      else if n < 32 \<or> n = 127 then [CHR 0x5C, CHR ''x''] @ hex_EncodeToString [c] else [c])"

definition Quote :: "string \<Rightarrow> string" where
  "Quote s = CHR 0x22 # concat (map go_quote_char s) @ [CHR 0x22]"

text \<open>Trimming twice is trimming once: no end of a trimmed text uncovers white space.\<close>

lemma prefix_trimmed:
  assumes "find (\<lambda>p. p \<noteq> [] \<and> prefix p s) seqs = None" "prefix t s"
  shows "trim_left seqs t = t"
  using assms by (intro trim_left_stop) (auto simp: find_None_iff intro: prefix_order.trans)

lemma TrimSpace_idem [simp]: "TrimSpace (TrimSpace s) = TrimSpace s"
proof -
  let ?l = "trim_left space_seqs s"
  let ?r = "trim_left (map rev space_seqs) (rev ?l)"
  have "suffix ?r (rev ?l)" by (rule trim_left_suffix)
  then have "prefix (rev ?r) ?l" by (simp add: suffix_to_prefix)
  with trim_left_normal have "trim_left space_seqs (rev ?r) = rev ?r" by (rule prefix_trimmed)
  then show ?thesis by (simp add: TrimSpace_def)
qed

lemma of_char_lower: "of_char (to_lower_char c) =
    (let n = (of_char c :: nat) in if 65 \<le> n \<and> n \<le> 90 then n + 32 else n)"
  by (simp add: to_lower_char_def Let_def)

lemma ToLower_idem [simp]: "ToLower (ToLower s) = ToLower s"
proof -
  have "to_lower_char (to_lower_char c) = to_lower_char c" for c
    using of_char_lower [of c] by (simp add: to_lower_char_def Let_def split: if_splits)
  then show ?thesis by (simp add: ToLower_def)
qed

section \<open>Roles and the configuration\<close>

definition DocumentCreate :: string where "DocumentCreate = ''document:create''"
definition DocumentUpdate :: string where "DocumentUpdate = ''document:update''"
definition DocumentDelete :: string where "DocumentDelete = ''document:delete''"
definition DocumentRead :: string where "DocumentRead = ''document:read''"
definition DocumentRefresh :: string where "DocumentRefresh = ''document:refresh''"

record Role =
  ro_Name :: string
  ro_Permissions :: "string list"
  ro_Admin :: bool

definition HasPermission :: "Role \<Rightarrow> string \<Rightarrow> bool" where
  "HasPermission r permission = (if ro_Admin r then True else List.member (ro_Permissions r) permission)"

record ObjectStorageConfig =
  oc_Type :: string
  oc_S3 :: "S3Config option"

record Config =
  cf_Addr :: string
  cf_LogLevel :: int
  cf_DefaultStorageName :: string
  cf_DocumentStore :: string
  cf_SQLitePath :: string
  cf_DeletedSweepInterval :: int
  cf_AllowCORS :: "string list"
  cf_Storages :: "(string \<times> ObjectStorageConfig) list"
  cf_Roles :: "(string \<times> Role) list"

definition zero_Config :: Config where
  "zero_Config =
     \<lparr>cf_Addr = '''', cf_LogLevel = 0, cf_DefaultStorageName = '''', cf_DocumentStore = '''',
      cf_SQLitePath = '''', cf_DeletedSweepInterval = 0, cf_AllowCORS = [], cf_Storages = [], cf_Roles = []\<rparr>"

definition defaultConfig :: Config where
  "defaultConfig =
     \<lparr>cf_Addr = '':8080'', cf_LogLevel = 0, cf_DefaultStorageName = ''memory'', cf_DocumentStore = ''sqlite'',
      cf_SQLitePath = ''document-archive.db'', cf_DeletedSweepInterval = 24 * 3600 * 1000000000,
      cf_AllowCORS = [], cf_Storages = [(''memory'', \<lparr>oc_Type = MemoryStorageType, oc_S3 = None\<rparr>)],
      cf_Roles = []\<rparr>"

definition Default :: Config where
  "Default = defaultConfig"

section \<open>YAML\<close>

datatype node_kind = DocumentNode | SequenceNode | MappingNode | ScalarNode | AliasNode

datatype yaml_node =
  YamlNode (yn_Kind: node_kind) (yn_Tag: string) (yn_Value: string) (yn_Content: "yaml_node list")

datatype yaml_error = YamlEOF | YamlError string

record yaml_lib =
  ym_Decode :: "bool \<Rightarrow> Config \<Rightarrow> string \<Rightarrow> yaml_error + Config"
  ym_Content :: "string \<Rightarrow> yaml_error + yaml_node list"
  ym_Marshal :: "Config \<Rightarrow> yaml_error + string"

definition yaml_go_error :: "yaml_error \<Rightarrow> go_error" where
  "yaml_go_error e = (case e of YamlEOF \<Rightarrow> ErrExternal ''EOF'' | YamlError text \<Rightarrow> ErrExternal text)"

section \<open>The fields a configuration must have\<close>

text \<open>The types of Go as far as \<open>requireStructFields\<close> tells them apart; a field has its tag for \<^verbatim>\<open>yaml\<close>.\<close>

datatype go_type = GoBasic | GoStruct "go_field list" | GoPointer go_type | GoMap go_type
and go_field = GoField string string go_type

definition S3Config_type :: go_type where
  "S3Config_type = GoStruct (map (\<lambda>(name, tag). GoField name tag GoBasic)
     [(''InternalEndpoint'', ''internal_endpoint''), (''Endpoint'', ''endpoint''), (''Bucket'', ''bucket''),
      (''Region'', ''region''), (''AccessKeyID'', ''access_key_id''), (''SecretAccessKey'', ''secret_access_key''),
      (''SessionToken'', ''session_token''), (''UsePathStyle'', ''use_path_style'')])"

definition ObjectStorageConfig_type :: go_type where
  "ObjectStorageConfig_type =
     GoStruct [GoField ''Type'' ''type'' GoBasic, GoField ''S3'' ''s3,omitempty'' (GoPointer S3Config_type)]"

definition Role_type :: go_type where
  "Role_type = GoStruct (map (\<lambda>(name, tag). GoField name tag GoBasic)
     [(''Name'', ''name''), (''Permissions'', ''permissions''), (''Admin'', ''admin'')])"

definition Config_fields :: "go_field list" where
  "Config_fields =
     [GoField ''Addr'' ''addr'' GoBasic, GoField ''LogLevel'' ''log_level'' GoBasic,
      GoField ''DefaultStorageName'' ''default_storage'' GoBasic, GoField ''DocumentStore'' ''document_store'' GoBasic,
      GoField ''SQLitePath'' ''sqlite_path'' GoBasic,
      GoField ''DeletedSweepInterval'' ''deleted_sweep_interval'' GoBasic,
      GoField ''AllowCORS'' ''allow_cors'' GoBasic, GoField ''Storages'' ''storages'' (GoMap ObjectStorageConfig_type),
      GoField ''Roles'' ''role'' (GoMap Role_type)]"

text \<open>The keys and values of a mapping; a key that comes twice has its last value.\<close>

fun node_pairs :: "yaml_node list \<Rightarrow> (string \<times> yaml_node) list" where
  "node_pairs (k # v # rest) = (yn_Value k, v) # node_pairs rest"
| "node_pairs _ = []"

definition node_values :: "yaml_node \<Rightarrow> string \<Rightarrow> yaml_node option" where
  "node_values node = map_of (rev (node_pairs (yn_Content node)))"

definition is_exported :: "string \<Rightarrow> bool" where
  "is_exported name = (case name of [] \<Rightarrow> False | c # _ \<Rightarrow> 65 \<le> (of_char c :: nat) \<and> (of_char c :: nat) \<le> 90)"

fun first_error :: "go_error option list \<Rightarrow> go_error option" where
  "first_error [] = None"
| "first_error (Some e # rest) = Some e"
| "first_error (None # rest) = first_error rest"

fun deref :: "go_type \<Rightarrow> go_type" where
  "deref (GoPointer t) = t"
| "deref t = t"

fun struct_fields :: "go_type \<Rightarrow> go_field list" where
  "struct_fields (GoStruct fs) = fs"
| "struct_fields _ = []"

fun is_pointer :: "go_type \<Rightarrow> bool" where
  "is_pointer (GoPointer t) = True"
| "is_pointer t = False"

lemma size_deref: "size (deref t) \<le> size t"
  by (cases t) auto

lemma size_member: "x \<in> set fs \<Longrightarrow> size x < Suc (size_list size fs)"
  by (simp add: less_Suc_eq_le size_list_estimation')

lemma size_struct_fields: "size_list size (struct_fields t) \<le> size t"
  by (cases t) auto

lemma deref_struct_size: "deref t = GoStruct fs \<Longrightarrow> size_list size fs < size t"
  using size_deref [of t] by simp

lemma deref_map_size:
  assumes "deref t = GoMap el" "deref el = T"
  shows "size_list size (struct_fields T) < size t"
  using size_deref [of t] size_deref [of el] size_struct_fields [of T] assms by simp

text \<open>
  \<open>require_field\<close> is the body of the loop over the fields for one field, whose tag names it \<open>name\<close>; the
  fields of a struct and the storages of a map are checked recursively.
\<close>

function requireStructFields :: "yaml_node \<Rightarrow> go_field list \<Rightarrow> string \<Rightarrow> go_error option"
and require_field :: "(string \<Rightarrow> yaml_node option) \<Rightarrow> string \<Rightarrow> go_field \<Rightarrow> go_error option"
where
  "requireStructFields node fs prfx =
     (if yn_Kind node \<noteq> MappingNode
      then Some (if prfx = [] then ErrText ''config must be a mapping''
                 else ErrText (''config field '' @ Quote prfx @ '' must be a mapping''))
      else first_error (map (require_field (node_values node) prfx) fs))"
| "require_field values prfx (GoField goName tag typ) =
     (let tagParts = split_comma tag; name = hd tagParts;
          path = (if prfx \<noteq> [] then prfx @ ''.'' @ name else name)
      in if \<not> is_exported goName \<or> name = [] \<or> name = ''-'' then None
         else case values name of
           None \<Rightarrow>
             (if List.member (tl tagParts) ''omitempty'' then None
              else Some (ErrText (''missing required config field '' @ Quote path)))
         | Some v \<Rightarrow>
             (if is_pointer typ \<and> yn_Tag v = ''!!null'' then None
              else case deref typ of
                GoStruct inner \<Rightarrow> requireStructFields v inner path
              | GoMap elementType \<Rightarrow>
                  (if deref elementType \<noteq> ObjectStorageConfig_type then None
                   else if yn_Kind v \<noteq> MappingNode
                   then Some (ErrText (''config field '' @ Quote path @ '' must be a mapping''))
                   else first_error (map (\<lambda>(key, entry).
                          requireStructFields entry (struct_fields (deref elementType)) (path @ ''.'' @ key))
                          (node_pairs (yn_Content v))))
              | _ \<Rightarrow> None))"
  by pat_completeness auto

termination
proof (relation "measure (\<lambda>x. case x of
    Inl (node, fs, prfx) \<Rightarrow> Suc (size_list size fs)
  | Inr (values, prfx, field) \<Rightarrow> size field)")
  show "wf (measure (\<lambda>x. case x of
      Inl (node, fs, prfx) \<Rightarrow> Suc (size_list size fs)
    | Inr (values, prfx, field) \<Rightarrow> size field))" by simp
qed (auto intro: deref_struct_size deref_map_size size_member)

declare requireStructFields.simps [simp del] require_field.simps [simp del]

definition requireConfigFields :: "yaml_lib \<Rightarrow> string \<Rightarrow> go_error option" where
  "requireConfigFields Y data =
     (case ym_Content Y data of
        Inl e \<Rightarrow> Some (yaml_go_error e)
      | Inr [] \<Rightarrow> Some (ErrText ''config must be a mapping'')
      | Inr (node # _) \<Rightarrow> requireStructFields node Config_fields [])"

section \<open>Reading and checking\<close>

text \<open>The new map of storages is the list of the storages that the loop has stored so far.\<close>

fun normalize_storages ::
  "(string \<times> ObjectStorageConfig) list \<Rightarrow> (string \<times> ObjectStorageConfig) list
     \<Rightarrow> go_error + (string \<times> ObjectStorageConfig) list" where
  "normalize_storages [] storages = Inr storages"
| "normalize_storages ((rawName, storageConfig) # rest) storages =
     (let name = TrimSpace rawName;
          typ = ToLower (TrimSpace (oc_Type storageConfig));
          storages' = storages @ [(name, storageConfig\<lparr>oc_Type := typ\<rparr>)]
      in if name = '''' then Inl (ErrText ''storage name must not be empty'')
         else if map_of storages name \<noteq> None
         then Inl (ErrText (''duplicate storage name after normalization: '' @ name))
         else if typ = MemoryStorageType then
           (if oc_S3 storageConfig \<noteq> None
            then Inl (ErrText (''storage '' @ Quote name @ '' of type memory must not contain s3 config''))
            else normalize_storages rest storages')
         else if typ = S3StorageType then
           (if oc_S3 storageConfig = None
            then Inl (ErrText (''storage '' @ Quote name @ '' of type s3 requires s3 config''))
            else normalize_storages rest storages')
         else Inl (ErrText (''storage '' @ Quote name @ '' has unsupported type '' @ Quote typ)))"

definition normalizeAndValidateStorages :: "Config \<Rightarrow> go_error + Config" where
  "normalizeAndValidateStorages cfg =
     (case normalize_storages (cf_Storages cfg) [] of
        Inl e \<Rightarrow> Inl e
      | Inr storages \<Rightarrow>
          (if cf_DefaultStorageName cfg = '''' then Inl (ErrText ''default_storage must not be empty'')
           else if map_of storages (cf_DefaultStorageName cfg) = None
           then Inl (ErrText (''default storage not configured: '' @ cf_DefaultStorageName cfg))
           else Inr (cfg\<lparr>cf_Storages := storages\<rparr>)))"

text \<open>
  The file system: reading a file, and writing it with the permissions given, on a state \<open>'f\<close>.  The error
  of a missing file wraps \<open>os_ErrNotExist\<close>.
\<close>

definition os_ErrNotExist :: go_error where
  "os_ErrNotExist = ErrText ''file does not exist''"

record 'f file_ops =
  fo_ReadFile :: "string \<Rightarrow> 'f \<Rightarrow> go_error + string"
  fo_WriteFile :: "string \<Rightarrow> string \<Rightarrow> nat \<Rightarrow> 'f \<Rightarrow> go_error option \<times> 'f"
  fo_Chmod :: "string \<Rightarrow> nat \<Rightarrow> 'f \<Rightarrow> go_error option \<times> 'f"

definition parse_error :: "string \<Rightarrow> go_error \<Rightarrow> go_error" where
  "parse_error path e = ErrWrap (''parse '' @ path @ '': '') e ''''"

definition readConfig :: "yaml_lib \<Rightarrow> 'f file_ops \<Rightarrow> string \<Rightarrow> 'f \<Rightarrow> go_error + Config" where
  "readConfig Y ops path f =
     (case fo_ReadFile ops path f of
        Inl e \<Rightarrow> Inl (ErrWrap (''read '' @ path @ '': '') e '''')
      | Inr data \<Rightarrow>
     (case ym_Decode Y True zero_Config data of
        Inl e \<Rightarrow> Inl (parse_error path (yaml_go_error e))
      | Inr cfg \<Rightarrow>
     (case requireConfigFields Y data of
        Some e \<Rightarrow> Inl (parse_error path e)
      | None \<Rightarrow>
          if cf_DeletedSweepInterval cfg < 0
          then Inl (ErrText (''parse '' @ path @ '': deleted_sweep_interval must not be negative''))
          else
            (case normalizeAndValidateStorages
                (cfg\<lparr>cf_DefaultStorageName := TrimSpace (cf_DefaultStorageName cfg),
                     cf_DocumentStore := ToLower (TrimSpace (cf_DocumentStore cfg))\<rparr>) of
               Inl e \<Rightarrow> Inl (parse_error path e)
             | Inr cfg' \<Rightarrow> Inr cfg'))))"

definition writeDefaultConfig ::
  "yaml_lib \<Rightarrow> 'f file_ops \<Rightarrow> string \<Rightarrow> Config \<Rightarrow> 'f \<Rightarrow> (go_error + unit) \<times> 'f" where
  "writeDefaultConfig Y ops path cfg f =
     (case ym_Marshal Y cfg of
        Inl e \<Rightarrow> (Inl (ErrWrap ''marshal default config: '' (yaml_go_error e) ''''), f)
      | Inr data \<Rightarrow>
          (case fo_WriteFile ops path data 384 f of
             (Some e, f') \<Rightarrow> (Inl (ErrWrap (''write '' @ path @ '': '') e ''''), f')
           | (None, f') \<Rightarrow> (Inr (), f')))"

definition load :: "yaml_lib \<Rightarrow> 'f file_ops \<Rightarrow> string \<Rightarrow> 'f \<Rightarrow> (go_error + Config) \<times> 'f" where
  "load Y ops path f =
     (case readConfig Y ops path f of
        Inr cfg \<Rightarrow> (Inr cfg, f)
      | Inl e \<Rightarrow>
          (if errors_Is e os_ErrNotExist
           then (case writeDefaultConfig Y ops path defaultConfig f of
                   (Inl e', f') \<Rightarrow> (Inl e', f')
                 | (Inr _, f') \<Rightarrow> (readConfig Y ops path f', f'))
           else (Inl e, f)))"

definition configFileName :: string where
  "configFileName = ''config.yml''"

definition Load :: "yaml_lib \<Rightarrow> 'f file_ops \<Rightarrow> 'f \<Rightarrow> (go_error + Config) \<times> 'f" where
  "Load Y ops = load Y ops configFileName"

section \<open>Merging a partial configuration\<close>

definition mergeConfig :: "yaml_lib \<Rightarrow> string \<Rightarrow> go_error + string" where
  "mergeConfig Y input =
     (let marshal = (\<lambda>cfg. case ym_Marshal Y cfg of
            Inl e \<Rightarrow> Inl (ErrWrap ''marshal merged config: '' (yaml_go_error e) '''')
          | Inr merged \<Rightarrow> Inr merged)
      in case ym_Decode Y True Default input of
           Inl YamlEOF \<Rightarrow> marshal Default
         | Inl (YamlError text) \<Rightarrow> Inl (ErrWrap ''parse partial config: '' (ErrExternal text) '''')
         | Inr cfg \<Rightarrow> marshal cfg)"

text \<open>The standard input is what reading it gives, the standard output the text written so far.\<close>

definition readInput :: "'f file_ops \<Rightarrow> go_error + string \<Rightarrow> string \<Rightarrow> 'f \<Rightarrow> go_error + string" where
  "readInput ops stdin path f =
     (if path = ''-''
      then (case stdin of Inl e \<Rightarrow> Inl (ErrWrap ''read stdin: '' e '''') | Inr input \<Rightarrow> Inr input)
      else (case fo_ReadFile ops path f of
              Inl e \<Rightarrow> Inl (ErrWrap (''read '' @ path @ '': '') e '''')
            | Inr input \<Rightarrow> Inr input))"

definition writeOutput ::
  "'f file_ops \<Rightarrow> (string \<Rightarrow> go_error option) \<Rightarrow> string \<Rightarrow> string \<Rightarrow> string \<times> 'f
     \<Rightarrow> (go_error + unit) \<times> (string \<times> 'f)" where
  "writeOutput ops stdout path content s =
     (case s of (out, f) \<Rightarrow>
        if path = ''-''
        then (case stdout content of
                Some e \<Rightarrow> (Inl (ErrWrap ''write stdout: '' e ''''), out, f)
              | None \<Rightarrow> (Inr (), out @ content, f))
        else (case fo_WriteFile ops path content 384 f of
                (Some e, f') \<Rightarrow> (Inl (ErrWrap (''write '' @ path @ '': '') e ''''), out, f')
              | (None, f') \<Rightarrow>
                  (case fo_Chmod ops path 384 f' of
                     (Some e, f'') \<Rightarrow> (Inl (ErrWrap (''chmod '' @ path @ '': '') e ''''), out, f'')
                   | (None, f'') \<Rightarrow> (Inr (), out, f''))))"

text \<open>
  The tool itself: an error is what \<open>exitError\<close> prints before it ends the process with the status 1.  The state is
  the standard output and the file system.
\<close>

definition config_merge_main ::
  "yaml_lib \<Rightarrow> 'f file_ops \<Rightarrow> go_error + string \<Rightarrow> (string \<Rightarrow> go_error option) \<Rightarrow> string \<Rightarrow> string
     \<Rightarrow> string \<times> 'f \<Rightarrow> go_error option \<times> string \<times> 'f" where
  "config_merge_main Y ops stdin stdout inputPath outputPath s =
     (case readInput ops stdin inputPath (snd s) of
        Inl e \<Rightarrow> (Some e, s)
      | Inr input \<Rightarrow>
          (case mergeConfig Y input of
             Inl e \<Rightarrow> (Some e, s)
           | Inr merged \<Rightarrow>
               (case writeOutput ops stdout outputPath merged s of
                  (Inl e, s') \<Rightarrow> (Some e, s')
                | (Inr _, s') \<Rightarrow> (None, s'))))"

end
