(* ===== verification/HttpApi.thy ===== *)
theory HttpApi
  imports Config ArchiveApp DocJson "HOL-Library.Monad_Syntax"
begin

text \<open>
  The HTTP API, \<^verbatim>\<open>internal/httpapi\<close>.  A request is what \<^verbatim>\<open>net/http\<close> hands to the handler: the method, the
  escaped path, the parameters of the query and the headers in canonical form, and the body, or nothing
  when reading it fails.  A response is a \<open>writer\<close>; one without a status is sent with 200, and the
  server drops the body for \<^verbatim>\<open>HEAD\<close>.  The multiplexer is that of Go 1.22, with methods and wildcards in the
  patterns.  A handler acts on the \<open>world\<close> of the application.
\<close>

section \<open>Requests and responses\<close>

record api_request =
  aq_Method :: string
  aq_Path :: string
  aq_Query :: "(string \<times> string) list"
  aq_Header :: "(string \<times> string) list"
  aq_Body :: "string option"
  aq_PathValues :: "(string \<times> string) list"

record writer =
  wr_Header :: "(string \<times> string) list"
  wr_Status :: "int option"
  wr_Body :: string

definition new_writer :: writer where
  "new_writer = \<lparr>wr_Header = [], wr_Status = None, wr_Body = []\<rparr>"

text \<open>The first value of a key, empty when there is none: \<^verbatim>\<open>Get\<close> of a header, a query and the path values.\<close>

definition get_value :: "(string \<times> string) list \<Rightarrow> string \<Rightarrow> string" where
  "get_value m key = (case map_of m key of None \<Rightarrow> '''' | Some v \<Rightarrow> v)"

definition set_header :: "string \<Rightarrow> string \<Rightarrow> writer \<Rightarrow> writer" where
  "set_header key v wr = wr\<lparr>wr_Header := filter (\<lambda>(k, _). k \<noteq> key) (wr_Header wr) @ [(key, v)]\<rparr>"

definition add_header :: "string \<Rightarrow> string \<Rightarrow> writer \<Rightarrow> writer" where
  "add_header key v wr = wr\<lparr>wr_Header := wr_Header wr @ [(key, v)]\<rparr>"

definition write_header :: "int \<Rightarrow> writer \<Rightarrow> writer" where
  "write_header status wr = (if wr_Status wr = None then wr\<lparr>wr_Status := Some status\<rparr> else wr)"

definition write_body :: "string \<Rightarrow> writer \<Rightarrow> writer" where
  "write_body s wr = (let wr' = write_header 200 wr in wr'\<lparr>wr_Body := wr_Body wr' @ s\<rparr>)"

text \<open>An encoder that fails writes nothing; one that works ends the text with a newline.\<close>

definition writeJSON :: "writer \<Rightarrow> int \<Rightarrow> string option \<Rightarrow> writer" where
  "writeJSON wr status encoded =
     (let wr' = write_header status (set_header ''Content-Type'' ''application/json'' wr) in
      case encoded of None \<Rightarrow> wr' | Some text \<Rightarrow> write_body (text @ [CHR 0x0A]) wr')"

definition errorResponse :: "string \<Rightarrow> string" where
  "errorResponse message = json_object [(''error'', json_string message)]"

definition writeError :: "writer \<Rightarrow> int \<Rightarrow> string \<Rightarrow> writer" where
  "writeError wr status message = writeJSON wr status (Some (errorResponse message))"

text \<open>\<^verbatim>\<open>http.Error\<close> and \<^verbatim>\<open>http.Redirect\<close>; the target of a redirect is an absolute URL or a clean path.\<close>

definition http_Error :: "writer \<Rightarrow> string \<Rightarrow> int \<Rightarrow> writer" where
  "http_Error wr message code =
     write_body (message @ [CHR 0x0A])
       (write_header code
         (set_header ''X-Content-Type-Options'' ''nosniff''
           (set_header ''Content-Type'' ''text/plain; charset=utf-8'' wr)))"

definition html_char :: "char \<Rightarrow> string" where
  "html_char c =
     (if c = CHR ''&'' then ''&amp;'' else if c = CHR ''<'' then ''&lt;'' else if c = CHR ''>'' then ''&gt;''
      else if c = CHR 0x22 then ''&#34;'' else if c = CHR 0x27 then ''&#39;'' else [c])"

definition StatusText :: "int \<Rightarrow> string" where
  "StatusText code = (if code = 301 then ''Moved Permanently'' else if code = 302 then ''Found'' else '''')"

definition Redirect :: "writer \<Rightarrow> api_request \<Rightarrow> string \<Rightarrow> int \<Rightarrow> writer" where
  "Redirect wr r url code =
     (let hadCT = list_ex (\<lambda>(k, _). k = ''Content-Type'') (wr_Header wr);
          wr1 = set_header ''Location'' url wr;
          wr2 = (if \<not> hadCT \<and> (aq_Method r = ''GET'' \<or> aq_Method r = ''HEAD'')
                 then set_header ''Content-Type'' ''text/html; charset=utf-8'' wr1 else wr1);
          wr3 = write_header code wr2
      in if \<not> hadCT \<and> aq_Method r = ''GET''
         then write_body (''<a href='' @ [CHR 0x22] @ concat (map html_char url) @ [CHR 0x22] @ ''>''
                @ StatusText code @ ''</a>.'' @ [CHR 0x0A, CHR 0x0A]) wr3
         else wr3)"

section \<open>Cross-origin requests\<close>

fun matchCORSOrigin :: "string list \<Rightarrow> string \<Rightarrow> string option" where
  "matchCORSOrigin [] origin = None"
| "matchCORSOrigin (allowed0 # rest) origin =
     (let allowed = TrimSpace allowed0 in
      if allowed = '''' then matchCORSOrigin rest origin
      else if allowed = ''*'' then Some ''*''
      else if allowed = origin then Some origin
      else matchCORSOrigin rest origin)"

definition processCORS :: "Config \<Rightarrow> writer \<Rightarrow> api_request \<Rightarrow> bool \<times> writer" where
  "processCORS cfg wr r =
     (let origin = get_value (aq_Header r) ''Origin'' in
      if origin = '''' \<or> length (cf_AllowCORS cfg) = 0 then (False, wr)
      else case matchCORSOrigin (cf_AllowCORS cfg) origin of
        None \<Rightarrow> (False, wr)
      | Some allowOrigin \<Rightarrow>
          (let wr1 = set_header ''Access-Control-Allow-Origin'' allowOrigin wr;
               wr2 = (if allowOrigin \<noteq> ''*'' then add_header ''Vary'' ''Origin'' wr1 else wr1);
               wr3 = set_header ''Access-Control-Max-Age'' ''86400''
                 (set_header ''Access-Control-Allow-Headers'' ''Authorization, Content-Type''
                   (set_header ''Access-Control-Allow-Methods'' ''GET, POST, DELETE, OPTIONS'' wr2))
           in if aq_Method r = ''OPTIONS'' then (True, write_header 204 wr3) else (False, wr3)))"

section \<open>Authorisation\<close>

definition processAuth :: "Config \<Rightarrow> string list \<Rightarrow> writer \<Rightarrow> api_request \<Rightarrow> bool \<times> writer" where
  "processAuth cfg requiredPermissions wr r =
     (if length (cf_Roles cfg) = 0 then (False, wr)
      else
        (let token = (case CutPrefix (get_value (aq_Header r) ''Authorization'') ''Bearer '' of
                        Some t \<Rightarrow> Some t
                      | None \<Rightarrow>
                          (let t = get_value (aq_Query r) ''token'' in if t = '''' then None else Some t))
         in case token of
              None \<Rightarrow> (True, writeError wr 401 ''unauthorized'')
            | Some t \<Rightarrow>
                (case map_of (cf_Roles cfg) t of
                   None \<Rightarrow> (True, writeError wr 401 ''unauthorized'')
                 | Some role \<Rightarrow>
                     (if list_ex (\<lambda>required. \<not> HasPermission role required) requiredPermissions
                      then (True, writeError wr 403 ''forbidden'') else (False, wr)))))"

type_synonym ('s, 'o) handler = "api_request \<Rightarrow> writer \<Rightarrow> ('s, 'o, writer) action"

fun run_preprocessors ::
  "(writer \<Rightarrow> api_request \<Rightarrow> bool \<times> writer) list \<Rightarrow> writer \<Rightarrow> api_request \<Rightarrow> bool \<times> writer" where
  "run_preprocessors [] wr r = (False, wr)"
| "run_preprocessors (process # rest) wr r =
     (case process wr r of
        (True, wr') \<Rightarrow> (True, wr')
      | (False, wr') \<Rightarrow> run_preprocessors rest wr' r)"

definition preprocess :: "Config \<Rightarrow> ('s, 'o) handler \<Rightarrow> string list \<Rightarrow> ('s, 'o) handler" where
  "preprocess cfg handler requiredPermissions r wr w =
     (case run_preprocessors [processAuth cfg requiredPermissions] wr r of
        (True, wr') \<Rightarrow> (wr', w)
      | (False, wr') \<Rightarrow> handler r wr' w)"

definition corsHandler :: "Config \<Rightarrow> ('s, 'o) handler \<Rightarrow> ('s, 'o) handler" where
  "corsHandler cfg handler r wr w =
     (case processCORS cfg wr r of
        (True, wr') \<Rightarrow> (wr', w)
      | (False, wr') \<Rightarrow> handler r wr' w)"


section \<open>The handlers\<close>

text \<open>The first JSON value of a body, decoded into a zero value; what follows it is not read.\<close>

definition decode_body :: "'a decoder \<Rightarrow> 'a \<Rightarrow> string option \<Rightarrow> 'a option" where
  "decode_body dec zero body =
     (case body of
        None \<Rightarrow> None
      | Some s \<Rightarrow>
          (case skip_value (json_fuel s) s of
             None \<Rightarrow> None
           | Some rest \<Rightarrow> dec zero (text_before (skip_ws s) rest)))"

definition dec_RequestDocumentInput :: "RequestDocumentInput decoder" where
  "dec_RequestDocumentInput = dec_struct (\<lambda>ms x.
     do { source \<leftarrow> dec_field ''source'' dec_string ms (rd_Source x);
          sid \<leftarrow> dec_field ''source_document_id'' dec_string ms (rd_SourceDocumentID x);
          backend \<leftarrow> dec_field ''storage_backend'' dec_string ms (rd_StorageBackend x);
          Some \<lparr>rd_Source = source, rd_SourceDocumentID = sid, rd_StorageBackend = backend\<rparr> })"

definition zero_RequestDocumentInput :: RequestDocumentInput where
  "zero_RequestDocumentInput = \<lparr>rd_Source = '''', rd_SourceDocumentID = '''', rd_StorageBackend = ''''\<rparr>"

definition dec_QueryInput :: "QueryInput decoder" where
  "dec_QueryInput = dec_struct (\<lambda>ms x.
     do { mode \<leftarrow> dec_field ''mode'' dec_string ms (qi_Mode x);
          params \<leftarrow> dec_field ''params'' dec_raw ms (qi_Params x);
          limit \<leftarrow> dec_field ''limit'' dec_int ms (qi_Limit x);
          orderBy \<leftarrow> dec_field ''orderby'' dec_string ms (qi_OrderBy x);
          order \<leftarrow> dec_field ''order'' dec_string ms (qi_Order x);
          offset \<leftarrow> dec_field ''offset'' dec_int ms (qi_Offset x);
          Some \<lparr>qi_Mode = mode, qi_Params = params, qi_OrderBy = orderBy, qi_Order = order,
                qi_Limit = limit, qi_Offset = offset\<rparr> })"

definition zero_QueryInput :: QueryInput where
  "zero_QueryInput =
     \<lparr>qi_Mode = '''', qi_Params = '''', qi_OrderBy = '''', qi_Order = '''', qi_Limit = 0, qi_Offset = 0\<rparr>"

text \<open>
  The parameters of the two query modes, decoded with \<^verbatim>\<open>json.Unmarshal\<close>; the text of its errors is not
  modelled.
\<close>

definition dec_source_params :: "(string \<times> string) decoder" where
  "dec_source_params = dec_struct (\<lambda>ms x.
     do { source \<leftarrow> dec_field ''source'' dec_string ms (fst x);
          sid \<leftarrow> dec_field ''source_document_id'' dec_string ms (snd x);
          Some (source, sid) })"

definition dec_status_params :: "string decoder" where
  "dec_status_params = dec_struct (\<lambda>ms x. dec_field ''status'' dec_string ms x)"

definition query_decoders ::
  "(string \<Rightarrow> go_error + string \<times> string) \<times> (string \<Rightarrow> go_error + DocumentStatus)" where
  "query_decoders =
     (\<lambda>params. case dec_source_params ('''', '''') params of
        None \<Rightarrow> Inl (ErrExternal ''invalid json'') | Some p \<Rightarrow> Inr p,
      \<lambda>params. case dec_status_params '''' params of
        None \<Rightarrow> Inl (ErrExternal ''invalid json'') | Some s \<Rightarrow> Inr (status_of_string s))"

definition json_Documents :: "Document list \<Rightarrow> string option" where
  "json_Documents ds = map_option json_array (dec_all json_Document ds)"

definition health :: "('s, 'o) handler" where
  "health r wr w = (writeJSON wr 200 (Some (json_object [(''status'', json_string ''ok'')])), w)"

definition requestDocument :: "('s, 'o) App \<Rightarrow> 's env \<Rightarrow> ('s, 'o) handler" where
  "requestDocument a E r wr w =
     (case decode_body dec_RequestDocumentInput zero_RequestDocumentInput (aq_Body r) of
        None \<Rightarrow> (writeError wr 400 ''invalid json body'', w)
      | Some input \<Rightarrow>
          (case RequestDocument a E input w of
             (Inl (err, _), w') \<Rightarrow> (writeError wr 400 (error_text err), w')
           | (Inr document, w') \<Rightarrow> (writeJSON wr 202 (json_Document document), w')))"

definition queryDocument :: "('s, 'o) App \<Rightarrow> 's env \<Rightarrow> ('s, 'o) handler" where
  "queryDocument a E r wr w =
     (case decode_body dec_QueryInput zero_QueryInput (aq_Body r) of
        None \<Rightarrow> (writeError wr 400 ''invalid json body'', w)
      | Some input \<Rightarrow>
          (case QueryDocument query_decoders a E input w of
             (Inl err, w') \<Rightarrow>
               (if errors_Is err ErrNotFound then writeError wr 404 ''document not found''
                else writeError wr 400 (error_text err), w')
           | (Inr result, w') \<Rightarrow> (writeJSON wr 200 (json_Documents result), w')))"

definition refreshDocument :: "('s, 'o) App \<Rightarrow> 's env \<Rightarrow> ('s, 'o) handler" where
  "refreshDocument a E r wr w =
     (let refreshMode = get_value (aq_Query r) ''mode'' in
      case Atoi (get_value (aq_PathValues r) ''document_id'') of
        None \<Rightarrow> (writeError wr 400 ''invalid document ID'', w)
      | Some docID \<Rightarrow>
          (case RefreshDocument a E docID refreshMode w of
             (Inl err, w') \<Rightarrow> (writeError wr 400 (error_text err), w')
           | (Inr document, w') \<Rightarrow> (writeJSON wr 200 (json_Document document), w')))"

text \<open>The answer to an error of a store call on one document.\<close>

definition document_error :: "writer \<Rightarrow> go_error \<Rightarrow> writer" where
  "document_error wr err =
     (if errors_Is err ErrNotFound then writeError wr 404 ''document not found''
      else writeError wr 500 (error_text err))"

definition getDocument :: "('s, 'o) App \<Rightarrow> 's env \<Rightarrow> ('s, 'o) handler" where
  "getDocument a E r wr w =
     (case Atoi (get_value (aq_PathValues r) ''document_id'') of
        None \<Rightarrow> (writeError wr 400 ''invalid document ID'', w)
      | Some docID \<Rightarrow>
          (case GetDocument a E docID w of
             (Inl err, w') \<Rightarrow> (document_error wr err, w')
           | (Inr document, w') \<Rightarrow> (writeJSON wr 200 (json_Document document), w')))"

definition removeDocument :: "('s, 'o) App \<Rightarrow> 's env \<Rightarrow> ('s, 'o) handler" where
  "removeDocument a E r wr w =
     (case Atoi (get_value (aq_PathValues r) ''document_id'') of
        None \<Rightarrow> (writeError wr 400 ''invalid document ID'', w)
      | Some docID \<Rightarrow>
          (case RemoveDocument a E docID w of
             (Inl err, w') \<Rightarrow> (document_error wr err, w')
           | (Inr document, w') \<Rightarrow> (writeJSON wr 200 (json_Document document), w')))"

definition getManifest :: "('s, 'o) handler" where
  "getManifest r wr w =
     (let documentID = get_value (aq_PathValues r) ''document_id''
      in (writeError wr 501 (''manifest api not implemented for document '' @ documentID), w))"

text \<open>The object of a page is copied to the body; the context is the one after the document was read.\<close>

definition write_object :: "writer \<Rightarrow> Object \<Rightarrow> writer" where
  "write_object wr object =
     write_body (ob_Body object)
       (write_header 200
         (set_header ''Content-Length'' (Itoa (oi_Size (ob_Info object)))
           (set_header ''ETag'' (oi_ETag (ob_Info object))
             (set_header ''Content-Type'' (oi_ContentType (ob_Info object)) wr))))"

definition getPage :: "('s, 'o) App \<Rightarrow> 's env \<Rightarrow> ('s, 'o) handler" where
  "getPage a E r wr w =
     (case Atoi (get_value (aq_PathValues r) ''page_index'') of
        None \<Rightarrow> (writeError wr 400 ''invalid page index'', w)
      | Some pageIndex \<Rightarrow>
     (case Atoi (get_value (aq_PathValues r) ''document_id'') of
        None \<Rightarrow> (writeError wr 400 ''invalid document ID'', w)
      | Some docID \<Rightarrow>
     (case GetDocument a E docID w of
        (Inl err, w') \<Rightarrow> (document_error wr err, w')
      | (Inr doc, w') \<Rightarrow>
          (case GetPage a (e_ctx E (wd_calls w')) doc pageIndex w' of
             Inl err \<Rightarrow> (writeError wr 500 (error_text err), w')
           | Inr (PageResultRedirect url) \<Rightarrow> (Redirect wr r url 302, w')
           | Inr (PageResultObject object) \<Rightarrow> (write_object wr object, w')))))"

section \<open>Routes\<close>

text \<open>
  The multiplexer.  A pattern is a method and segments; a wildcard matches one segment that is not empty.
  Segments of the request path are unescaped, as they are if that fails.
\<close>

datatype segment = Lit string | Wild string

fun path_unescape :: "string \<Rightarrow> string option" where
  "path_unescape [] = Some []"
| "path_unescape (c # cs) =
     (if c = CHR ''%'' then
        (case cs of
           x # y # rest \<Rightarrow>
             (case (hex_val x, hex_val y) of
                (Some a, Some b) \<Rightarrow> map_option (\<lambda>s. char_of (16 * a + b) # s) (path_unescape rest)
              | _ \<Rightarrow> None)
         | _ \<Rightarrow> None)
      else map_option (\<lambda>s. c # s) (path_unescape cs))"

definition segment_text :: "string \<Rightarrow> string" where
  "segment_text s = (case path_unescape s of None \<Rightarrow> s | Some t \<Rightarrow> t)"

definition path_segments :: "string \<Rightarrow> string list" where
  "path_segments path = map segment_text (tl (split_slash path))"

fun match_segments :: "segment list \<Rightarrow> string list \<Rightarrow> (string \<times> string) list option" where
  "match_segments [] [] = Some []"
| "match_segments (Lit l # ps) (s # ss) = (if l = s then match_segments ps ss else None)"
| "match_segments (Wild x # ps) (s # ss) =
     (if s = '''' \<or> s = ''/'' then None else map_option (\<lambda>m. (x, s) # m) (match_segments ps ss))"
| "match_segments _ _ = None"

definition method_matches :: "string \<Rightarrow> string \<Rightarrow> bool" where
  "method_matches pattern_method method' \<longleftrightarrow>
     pattern_method = method' \<or> pattern_method = ''GET'' \<and> method' = ''HEAD''"

definition cleanPath :: "string \<Rightarrow> string" where
  "cleanPath p0 =
     (if p0 = '''' then ''/''
      else
        (let p = (if hd p0 \<noteq> CHR ''/'' then CHR ''/'' # p0 else p0); np = path_Clean p
         in if last p = CHR ''/'' \<and> np \<noteq> ''/'' then np @ ''/'' else np))"

type_synonym ('s, 'o) mux = "(string \<times> segment list \<times> ('s, 'o) handler) list"

fun find_route :: "('s, 'o) mux \<Rightarrow> string \<Rightarrow> string list \<Rightarrow> ((string \<times> string) list \<times> ('s, 'o) handler) option" where
  "find_route [] m ss = None"
| "find_route ((pattern_method, ps, handler) # rest) m ss =
     (if method_matches pattern_method m
      then (case match_segments ps ss of
              Some values \<Rightarrow> Some (values, handler)
            | None \<Rightarrow> find_route rest m ss)
      else find_route rest m ss)"

definition matchingMethods :: "('s, 'o) mux \<Rightarrow> string list \<Rightarrow> string list" where
  "matchingMethods mux ss =
     filter (\<lambda>m. find_route mux m ss \<noteq> None) [''DELETE'', ''GET'', ''HEAD'', ''POST'']"

fun join_comma :: "string list \<Rightarrow> string" where
  "join_comma [] = ''''"
| "join_comma [s] = s"
| "join_comma (s # ss) = s @ '', '' @ join_comma ss"

definition serve_mux :: "('s, 'o) mux \<Rightarrow> ('s, 'o) handler" where
  "serve_mux mux r wr w =
     (let path = (if aq_Method r = ''CONNECT'' then aq_Path r else cleanPath (aq_Path r));
          ss = path_segments path
      in if path \<noteq> aq_Path r then (Redirect wr r path 301, w)
         else case find_route mux (aq_Method r) ss of
           Some (values, handler) \<Rightarrow> handler (r\<lparr>aq_PathValues := values\<rparr>) wr w
         | None \<Rightarrow>
             (if matchingMethods mux ss \<noteq> []
              then (http_Error (set_header ''Allow'' (join_comma (matchingMethods mux ss)) wr)
                     ''Method Not Allowed'' 405, w)
              else (http_Error wr ''404 page not found'' 404, w)))"

definition routes :: "Config \<Rightarrow> ('s, 'o) App \<Rightarrow> 's env \<Rightarrow> ('s, 'o) mux" where
  "routes cfg a E =
     [(''GET'', [Lit ''healthz''], health),
      (''POST'', [Lit ''v1'', Lit ''documents'', Lit ''request''],
        preprocess cfg (requestDocument a E) [DocumentCreate]),
      (''POST'', [Lit ''v1'', Lit ''documents'', Lit ''query''],
        preprocess cfg (queryDocument a E) [DocumentRead]),
      (''GET'', [Lit ''v1'', Lit ''documents'', Wild ''document_id''],
        preprocess cfg (getDocument a E) [DocumentRead]),
      (''DELETE'', [Lit ''v1'', Lit ''documents'', Wild ''document_id''],
        preprocess cfg (removeDocument a E) [DocumentDelete]),
      (''POST'', [Lit ''v1'', Lit ''documents'', Wild ''document_id'', Lit ''refresh''],
        preprocess cfg (refreshDocument a E) [DocumentRefresh]),
      (''GET'', [Lit ''v1'', Lit ''documents'', Wild ''document_id'', Lit ''pages'', Wild ''page_index''],
        preprocess cfg (getPage a E) [DocumentRead])]"

definition NewRouter :: "Config \<Rightarrow> ('s, 'o) App \<Rightarrow> 's env \<Rightarrow> ('s, 'o) handler" where
  "NewRouter cfg a E = corsHandler cfg (serve_mux (routes cfg a E))"

text \<open>The whole answer to a request.\<close>

definition serve :: "Config \<Rightarrow> ('s, 'o) App \<Rightarrow> 's env \<Rightarrow> api_request \<Rightarrow> ('s, 'o, writer) action" where
  "serve cfg a E r = NewRouter cfg a E r new_writer"

end
