(* ===== verification/HttpProofs.thy ===== *)
theory HttpProofs
  imports HttpApi ArchiveQueue
begin

text \<open>
  The answers of the API: which requests reach a handler, what authorisation they need, and what the
  requests on a document answer over any document store that keeps the contract.
\<close>

section \<open>Authorisation\<close>

definition request_token :: "api_request \<Rightarrow> string option" where
  "request_token r =
     (case CutPrefix (get_value (aq_Header r) ''Authorization'') ''Bearer '' of
        Some t \<Rightarrow> Some t
      | None \<Rightarrow> (let t = get_value (aq_Query r) ''token'' in if t = '''' then None else Some t))"

text \<open>The permission a request needs, written down apart from the routes.\<close>

definition required_permission :: "string \<Rightarrow> string list \<Rightarrow> string option" where
  "required_permission m ss =
     (if take 2 ss \<noteq> [''v1'', ''documents''] then None
      else if m = ''POST'' \<and> drop 2 ss = [''request''] then Some ''document:create''
      else if m = ''POST'' \<and> drop 2 ss = [''query''] then Some ''document:read''
      else if m = ''POST'' \<and> length ss = 4 \<and> ss ! 3 = ''refresh'' then Some ''document:refresh''
      else if m = ''DELETE'' \<and> length ss = 3 then Some ''document:delete''
      else if (m = ''GET'' \<or> m = ''HEAD'') \<and> (length ss = 3 \<or> length ss = 5 \<and> ss ! 3 = ''pages'')
      then Some ''document:read''
      else None)"

definition may :: "Config \<Rightarrow> string \<Rightarrow> api_request \<Rightarrow> bool" where
  "may cfg permission r \<longleftrightarrow>
     cf_Roles cfg = [] \<or>
     (\<exists>t role. request_token r = Some t \<and> map_of (cf_Roles cfg) t = Some role \<and> HasPermission role permission)"

lemma processAuth_may:
  "\<exists>message. processAuth cfg [permission] wr r \<in>
     (if may cfg permission r then {(False, wr)} else {(True, writeError wr 401 message), (True, writeError wr 403 message)})"
  by (auto simp: processAuth_def may_def request_token_def Let_def split: option.splits)

lemma preprocess_may:
  "may cfg permission r \<Longrightarrow> preprocess cfg handler [permission] r wr w = handler r wr w"
  "\<not> may cfg permission r \<Longrightarrow>
     \<exists>message. preprocess cfg handler [permission] r wr w \<in> {(writeError wr 401 message, w), (writeError wr 403 message, w)}"
  using processAuth_may [of cfg permission wr r] by (auto simp: preprocess_def)

lemma request_token_values [simp]: "request_token (r\<lparr>aq_PathValues := values\<rparr>) = request_token r"
  by (simp add: request_token_def cong: option.case_cong)

lemma may_values [simp]: "may cfg permission (r\<lparr>aq_PathValues := values\<rparr>) = may cfg permission r"
  by (simp add: may_def)

lemma match_segments_iff:
  "match_segments [] ss = Some values \<longleftrightarrow> ss = [] \<and> values = []"
  "match_segments (Lit l # ps) ss = Some values \<longleftrightarrow> (\<exists>ss'. ss = l # ss' \<and> match_segments ps ss' = Some values)"
  "match_segments (Wild x # ps) ss = Some values \<longleftrightarrow>
     (\<exists>s ss' m. ss = s # ss' \<and> s \<noteq> '''' \<and> s \<noteq> ''/'' \<and> values = (x, s) # m \<and> match_segments ps ss' = Some m)"
  by (cases ss; auto)+

lemma find_route_in:
  "find_route mux m ss = Some (values, handler) \<Longrightarrow>
   \<exists>pm ps. (pm, ps, handler) \<in> set mux \<and> method_matches pm m \<and> match_segments ps ss = Some values"
  by (induction mux m ss rule: find_route.induct) (auto split: if_splits option.splits)

text \<open>The permissions that the routes ask for.\<close>

definition route_permissions :: "(string \<times> segment list \<times> string) list" where
  "route_permissions =
     [(''POST'', [Lit ''v1'', Lit ''documents'', Lit ''request''], DocumentCreate),
      (''POST'', [Lit ''v1'', Lit ''documents'', Lit ''query''], DocumentRead),
      (''GET'', [Lit ''v1'', Lit ''documents'', Wild ''document_id''], DocumentRead),
      (''DELETE'', [Lit ''v1'', Lit ''documents'', Wild ''document_id''], DocumentDelete),
      (''POST'', [Lit ''v1'', Lit ''documents'', Wild ''document_id'', Lit ''refresh''], DocumentRefresh),
      (''GET'', [Lit ''v1'', Lit ''documents'', Wild ''document_id'', Lit ''pages'', Wild ''page_index''], DocumentRead)]"

definition guarded :: "Config \<Rightarrow> string \<Rightarrow> ('s, 'o) handler \<Rightarrow> bool" where
  "guarded cfg permission handler \<longleftrightarrow> (\<exists>inner. handler = preprocess cfg inner [permission])"

lemma guardedI: "guarded cfg permission (preprocess cfg inner [permission])"
  by (auto simp: guarded_def)

lemma routes_guarded:
  assumes "(pm, ps, handler) \<in> set (routes cfg a E)"
  shows "handler = health \<and> ps = [Lit ''healthz''] \<or>
    (\<exists>permission. (pm, ps, permission) \<in> set route_permissions \<and> guarded cfg permission handler)"
proof -
  let ?inner = "[requestDocument a E, queryDocument a E, getDocument a E, removeDocument a E,
    refreshDocument a E, getPage a E]"
  have "routes cfg a E = (''GET'', [Lit ''healthz''], health) #
      map (\<lambda>((pm, ps, p), inner). (pm, ps, preprocess cfg inner [p])) (zip route_permissions ?inner)"
    by (simp add: routes_def route_permissions_def)
  with assms consider "handler = health" "ps = [Lit ''healthz'']"
    | p inner where "((pm, ps, p), inner) \<in> set (zip route_permissions ?inner)" "handler = preprocess cfg inner [p]"
    by (auto simp del: set_zip)
  then show ?thesis
    by cases (auto dest!: set_zip_leftD intro: guardedI)
qed

lemma route_permissions_required:
  assumes "(pm, ps, permission) \<in> set route_permissions" "method_matches pm m" "match_segments ps ss = Some vs"
  shows "required_permission m ss = Some permission"
proof -
  have "list_all (\<lambda>(pm, ps, permission). method_matches pm m \<longrightarrow> match_segments ps ss = Some vs \<longrightarrow>
      required_permission m ss = Some permission) route_permissions"
    unfolding route_permissions_def list.pred_inject prod.case
    by (intro conjI impI TrueI;
      clarsimp simp: match_segments_iff method_matches_def required_permission_def DocumentCreate_def
        DocumentRead_def DocumentDelete_def DocumentRefresh_def)
  with assms show ?thesis by (auto simp: list_all_iff)
qed

lemma routes_cases:
  assumes "find_route (routes cfg a E) m ss = Some (vs, handler)"
  obtains (health) "handler = health" "ss = [''healthz'']"
    | (api) permission inner where "handler = preprocess cfg inner [permission]"
        "required_permission m ss = Some permission"
proof -
  from find_route_in [OF assms] obtain pm ps where "(pm, ps, handler) \<in> set (routes cfg a E)"
    and m: "method_matches pm m" and ss: "match_segments ps ss = Some vs" by blast
  from routes_guarded [OF this(1)] show thesis
    using m ss health api route_permissions_required by (fastforce simp: match_segments_iff guarded_def)
qed

section \<open>What reaches a handler\<close>

definition cors_writer :: "Config \<Rightarrow> api_request \<Rightarrow> writer" where
  "cors_writer cfg r = snd (processCORS cfg new_writer r)"

lemma processCORS_other:
  "aq_Method r \<noteq> ''OPTIONS'' \<Longrightarrow> processCORS cfg new_writer r = (False, cors_writer cfg r)"
  by (auto simp: cors_writer_def processCORS_def Let_def split: option.splits)

lemma processCORS_handled: "fst (processCORS cfg wr r) \<Longrightarrow> aq_Method r = ''OPTIONS''"
  by (auto simp: processCORS_def Let_def split: option.splits if_splits)

lemma cors_writer_blank [simp]:
  "aq_Method r \<noteq> ''OPTIONS'' \<Longrightarrow> wr_Status (cors_writer cfg r) = None"
  "wr_Body (cors_writer cfg r) = []"
  by (auto simp: cors_writer_def processCORS_def new_writer_def Let_def set_header_def add_header_def write_header_def
      split: option.splits)

lemma serve_route:
  assumes "aq_Method r \<noteq> ''OPTIONS''" "aq_Method r \<noteq> ''CONNECT''" "cleanPath (aq_Path r) = aq_Path r"
    and "find_route (routes cfg a E) (aq_Method r) (path_segments (aq_Path r)) = Some (values, handler)"
  shows "serve cfg a E r w = handler (r\<lparr>aq_PathValues := values\<rparr>) (cors_writer cfg r) w"
  using assms by (simp add: serve_def NewRouter_def corsHandler_def processCORS_other serve_mux_def)

text \<open>Whatever is served, nothing happens without the permission.\<close>

lemma serve_authorised:
  assumes run: "serve cfg a E r w = (wr, w')" and "w' \<noteq> w"
  shows "\<exists>permission. required_permission (aq_Method r) (path_segments (aq_Path r)) = Some permission \<and>
    may cfg permission r"
proof -
  obtain wr1 where mux: "serve_mux (routes cfg a E) r wr1 w = (wr, w')"
    using assms by (auto simp: serve_def NewRouter_def corsHandler_def split: prod.splits bool.splits)
  obtain vs handler where route: "find_route (routes cfg a E) (aq_Method r) (path_segments (aq_Path r)) = Some (vs, handler)"
    and handler: "handler (r\<lparr>aq_PathValues := vs\<rparr>) wr1 w = (wr, w')"
    using mux assms(2) by (auto simp: serve_mux_def Let_def split: if_splits option.splits)
  from route show ?thesis
  proof (cases rule: routes_cases)
    case health
    then show ?thesis using handler assms(2) by (simp add: health_def)
  next
    case (api permission inner)
    then show ?thesis
      using handler assms(2) preprocess_may(2) [of cfg permission "r\<lparr>aq_PathValues := vs\<rparr>" inner wr1 w] by auto
  qed
qed

lemma serve_refused:
  assumes "cleanPath (aq_Path r) = aq_Path r"
    and route: "find_route (routes cfg a E) (aq_Method r) (path_segments (aq_Path r)) = Some (values, handler)"
    and "required_permission (aq_Method r) (path_segments (aq_Path r)) = Some permission" "\<not> may cfg permission r"
    and "serve cfg a E r w = (wr, w')"
  shows "w' = w \<and> wr_Status wr \<in> {Some 401, Some 403}"
proof -
  have m: "aq_Method r \<noteq> ''OPTIONS''" "aq_Method r \<noteq> ''CONNECT''"
    using assms(3) by (auto simp: required_permission_def split: if_splits)
  from route show ?thesis
  proof (cases rule: routes_cases)
    case health
    with assms(3) show ?thesis by (simp add: required_permission_def)
  next
    case (api p inner)
    with assms(3,4) have "\<not> may cfg p (r\<lparr>aq_PathValues := values\<rparr>)" by simp
    from preprocess_may(2) [OF this, of inner "cors_writer cfg r" w] api serve_route [OF m assms(1) route, of w] assms(5) m
    show ?thesis by (auto simp: writeError_def writeJSON_def Let_def write_header_def write_body_def set_header_def)
  qed
qed


section \<open>Requests on one document\<close>

definition document_path :: "int \<Rightarrow> string" where
  "document_path i = ''/v1/documents/'' @ Itoa i"

lemma Itoa_no [simp]: "CHR ''/'' \<notin> set (Itoa i)" "CHR ''%'' \<notin> set (Itoa i)" "Itoa i \<noteq> ''/''"
proof -
  show no: "CHR ''/'' \<notin> set (Itoa i)" "CHR ''%'' \<notin> set (Itoa i)"
    by (auto dest!: Itoa_chars simp: is_digit_def)
  show "Itoa i \<noteq> ''/''" using no(1) by auto
qed

lemma path_unescape_plain: "CHR ''%'' \<notin> set s \<Longrightarrow> path_unescape s = Some s"
  by (induction s) auto

lemma split_document_path: "split_slash (document_path i) = ['''', ''v1'', ''documents'', Itoa i]"
  by (simp add: document_path_def split_slash_no_slash)

lemma path_segments_document: "path_segments (document_path i) = [''v1'', ''documents'', Itoa i]"
  by (simp add: path_segments_def split_document_path segment_text_def path_unescape_plain)

lemma cleanPath_document: "cleanPath (document_path i) = document_path i"
proof -
  have "foldl (clean_step True) [] ['''', ''v1'', ''documents'', Itoa i] = [''v1'', ''documents'', Itoa i]"
    using foldl_clean_safe [of "['''', ''v1'', ''documents'', Itoa i]" True "[]"] safe_segment_Itoa [of i]
    by (simp add: safe_segment_def Itoa_not_Nil)
  then have "path_Clean (document_path i) = document_path i"
    by (simp add: path_Clean_def split_document_path) (simp add: document_path_def)
  moreover have "document_path i \<noteq> ''''" "hd (document_path i) = CHR ''/''"
    by (simp_all add: document_path_def)
  moreover have "last (Itoa i) \<noteq> CHR ''/''"
    using Itoa_no(1) [of i] last_in_set [OF Itoa_not_Nil [of i]] by metis
  then have "last (document_path i) \<noteq> CHR ''/''"
    by (simp add: document_path_def Itoa_not_Nil)
  ultimately show ?thesis by (simp add: cleanPath_def Let_def)
qed

lemma document_routes:
  "find_route (routes cfg a E) ''GET'' [''v1'', ''documents'', Itoa i] =
     Some ([(''document_id'', Itoa i)], preprocess cfg (getDocument a E) [DocumentRead])"
  "find_route (routes cfg a E) ''DELETE'' [''v1'', ''documents'', Itoa i] =
     Some ([(''document_id'', Itoa i)], preprocess cfg (removeDocument a E) [DocumentDelete])"
  by (simp_all add: routes_def method_matches_def Itoa_not_Nil)

lemma serve_document:
  assumes "aq_Path r = document_path i"
  shows "aq_Method r = ''GET'' \<Longrightarrow> may cfg DocumentRead r \<Longrightarrow>
      serve cfg a E r w = getDocument a E (r\<lparr>aq_PathValues := [(''document_id'', Itoa i)]\<rparr>) (cors_writer cfg r) w"
    and "aq_Method r = ''DELETE'' \<Longrightarrow> may cfg DocumentDelete r \<Longrightarrow>
      serve cfg a E r w = removeDocument a E (r\<lparr>aq_PathValues := [(''document_id'', Itoa i)]\<rparr>) (cors_writer cfg r) w"
  using assms
  by (simp_all add: serve_route [where r = r] cleanPath_document path_segments_document document_routes preprocess_may(1))

lemma serve_post_request:
  assumes r: "aq_Method r = ''POST''" "aq_Path r = ''/v1/documents/request''" "may cfg DocumentCreate r"
  shows "serve cfg a E r w = requestDocument a E (r\<lparr>aq_PathValues := []\<rparr>) (cors_writer cfg r) w"
proof -
  have path: "cleanPath ''/v1/documents/request'' = ''/v1/documents/request''"
    "path_segments ''/v1/documents/request'' = [''v1'', ''documents'', ''request'']" by code_simp+
  have "find_route (routes cfg a E) ''POST'' [''v1'', ''documents'', ''request''] =
      Some ([], preprocess cfg (requestDocument a E) [DocumentCreate])"
    by (simp add: routes_def method_matches_def)
  then show ?thesis
    using r by (simp add: serve_route [where r = r] path preprocess_may(1))
qed

lemma writeJSON_blank:
  assumes "wr_Status wr = None" "wr_Body wr = []"
  shows "wr_Status (writeJSON wr code encoded) = Some code"
    and "wr_Body (writeJSON wr code encoded) = (case encoded of None \<Rightarrow> [] | Some text \<Rightarrow> text @ [CHR 0x0A])"
  using assms
  by (auto simp: writeJSON_def Let_def set_header_def write_header_def write_body_def split: option.splits)

text \<open>The text of an answer: a document, or an error.\<close>

definition document_body :: "Document \<Rightarrow> string" where
  "document_body d = (case json_Document d of None \<Rightarrow> [] | Some text \<Rightarrow> text @ [CHR 0x0A])"

definition error_body :: "string \<Rightarrow> string" where
  "error_body message = errorResponse message @ [CHR 0x0A]"

lemma document_answer:
  assumes "wr_Status wr = None" "wr_Body wr = []"
  shows "(wr_Status (writeJSON wr code (json_Document d)), wr_Body (writeJSON wr code (json_Document d)))
      = (Some code, document_body d)"
    and "(wr_Status (writeError wr code message), wr_Body (writeError wr code message)) = (Some code, error_body message)"
  using writeJSON_blank [OF assms] by (simp_all add: document_body_def writeError_def error_body_def split: option.split)

definition http_answer :: "writer \<Rightarrow> int option \<times> string" where
  "http_answer wr = (wr_Status wr, wr_Body wr)"

context document_store
begin

text \<open>A document is read as it is stored, when it is visible.\<close>

lemma serve_get:
  assumes "quiet E" "online E" "ap_documents a = S" "invar (wd_docs w)"
    and "aq_Method r = ''GET''" "aq_Path r = document_path i" "may cfg DocumentRead r" "in_int64 i"
    and run: "serve cfg a E r w = (wr, w')"
  shows "wd_docs w' = wd_docs w \<and> wd_objs w' = wd_objs w \<and>
    http_answer wr = (case view (wd_docs w) i of
        Some d \<Rightarrow> if isVisibleDocumentStatus (d_status d) then (Some 200, document_body d)
                 else (Some 404, error_body ''document not found'')
      | None \<Rightarrow> (Some 404, error_body ''document not found''))"
proof -
  let ?ctx = "e_ctx E (wd_calls w)"
  have "live ?ctx" using assms(2) by (simp add: online_def)
  have get: "GetDocument a E i w = (st_Get S ?ctx i (wd_docs w), w\<lparr>wd_calls := Suc (wd_calls w)\<rparr>)"
    by (simp add: GetDocument_def docs_read_def docs_call_quiet [OF assms(1)] assms(3))
  have serve: "serve cfg a E r w = getDocument a E (r\<lparr>aq_PathValues := [(''document_id'', Itoa i)]\<rparr>) (cors_writer cfg r) w"
    by (rule serve_document(1) [OF assms(6,5,7)])
  have blank: "wr_Status (cors_writer cfg r) = None" "wr_Body (cors_writer cfg r) = []"
    using assms(5) by simp_all
  show ?thesis
  proof (cases "st_Get S ?ctx i (wd_docs w)")
    case (Inl e)
    then have "e = ErrNotFound" "\<forall>d. view (wd_docs w) i = Some d \<longrightarrow> \<not> isVisibleDocumentStatus (d_status d)"
      using Get_law [OF assms(4), of ?ctx i] \<open>live ?ctx\<close> by simp_all
    then show ?thesis
      using run document_answer [OF blank]
      by (auto simp: serve getDocument_def get_value_def Atoi_Itoa [OF assms(8)] get Inl document_error_def http_answer_def split: option.split)
  next
    case (Inr d)
    then have "view (wd_docs w) i = Some d" "isVisibleDocumentStatus (d_status d)"
      using Get_law [OF assms(4), of ?ctx i] by simp_all
    then show ?thesis
      using run document_answer [OF blank]
      by (auto simp: serve getDocument_def get_value_def Atoi_Itoa [OF assms(8)] get Inr http_answer_def)
  qed
qed

text \<open>A removed document is answered as it is stored now, and is not found from then on.\<close>

lemma serve_delete:
  assumes E: "env_ok invar E" "quiet E" "online E" and S: "ap_documents a = S" and w: "invar (wd_docs w)"
    and r: "aq_Method r = ''DELETE''" "aq_Path r = document_path i" "may cfg DocumentDelete r" "in_int64 i"
    and run: "serve cfg a E r w = (wr, w')"
  shows "invar (wd_docs w') \<and>
    (if \<exists>d. view (wd_docs w) i = Some d \<and> isVisibleDocumentStatus (d_status d)
     then \<exists>d'. view (wd_docs w') i = Some d' \<and> d_status d' = StatusDeleted \<and> http_answer wr = (Some 200, document_body d')
     else view (wd_docs w') = view (wd_docs w) \<and> fst (http_answer wr) \<in> {Some 404, Some 500})"
proof -
  let ?ctx = "e_ctx E (wd_calls w)" and ?now = "e_now E (wd_calls w)"
  have live: "live ?ctx" and now: "valid_time ?now" using E by (simp_all add: online_def env_ok_def)
  have blank: "wr_Status (cors_writer cfg r) = None" "wr_Body (cors_writer cfg r) = []"
    using r(1) by simp_all
  obtain x s' where del: "st_Delete S ?ctx ?now i (wd_docs w) = (x, s')" by force
  have "RemoveDocument a E i w = (x, w\<lparr>wd_docs := s', wd_calls := Suc (wd_calls w)\<rparr>)"
    by (simp add: RemoveDocument_def docs_call_quiet [OF E(2)] S del)
  then have wr: "(wr, w') = (case x of Inl err \<Rightarrow> document_error (cors_writer cfg r) err
      | Inr d \<Rightarrow> writeJSON (cors_writer cfg r) 200 (json_Document d), w\<lparr>wd_docs := s', wd_calls := Suc (wd_calls w)\<rparr>)"
    using run by (simp add: serve_document(2) [OF r(2,1,3)] removeDocument_def get_value_def Atoi_Itoa [OF r(4)]
        split: sum.splits)
  have law: "case (x, s') of
      (Inr r, s') \<Rightarrow> invar s' \<and> upd_doc (delete_doc ?now) i (view (wd_docs w)) = Some (r, view s')
    | (Inl e, s') \<Rightarrow> invar s' \<and> view s' = view (wd_docs w) \<and>
        (live ?ctx \<longrightarrow> upd_doc (delete_doc ?now) i (view (wd_docs w)) = None)"
    by (rule Delete_law [OF now, of ?ctx i, unfolded implements_def, THEN spec, THEN mp, OF w, unfolded del])
  show ?thesis
  proof (cases x)
    case (Inl e)
    then have "invar s'" "view s' = view (wd_docs w)" "upd_doc (delete_doc ?now) i (view (wd_docs w)) = None"
      using law live by simp_all
    moreover have "fst (http_answer wr) \<in> {Some 404, Some 500}"
      using wr Inl document_answer(2) [OF blank] by (auto simp: http_answer_def document_error_def)
    ultimately show ?thesis
      using wr Inl by (auto simp: upd_doc_def delete_doc_def Let_def split: if_splits)
  next
    case (Inr d')
    then have "invar s'" "upd_doc (delete_doc ?now) i (view (wd_docs w)) = Some (d', view s')"
      using law by simp_all
    moreover have "http_answer wr = (Some 200, document_body d')"
      using wr Inr document_answer(1) [OF blank] by (simp add: http_answer_def)
    ultimately show ?thesis
      using wr Inr by (auto simp: upd_doc_Some delete_doc_def Let_def split: if_splits)
  qed
qed

text \<open>A request that is accepted makes a queued document, which a later read answers in the same words.\<close>

lemma serve_request:
  assumes E: "env_ok invar E" "quiet E" "online E" and S: "ap_documents a = S" and w: "invar (wd_docs w)"
    and r: "aq_Method r = ''POST''" "aq_Path r = ''/v1/documents/request''" "may cfg DocumentCreate r"
    and run: "serve cfg a E r w = (wr, w')" and accepted: "wr_Status wr = Some 202"
  shows "invar (wd_docs w') \<and>
    (\<exists>d. view (wd_docs w') (d_ID d) = Some d \<and> view (wd_docs w) (d_ID d) = None \<and> d_status d = StatusQueued \<and>
      http_answer wr = (Some 202, document_body d))"
proof -
  note serve = serve_post_request [OF r]
  have blank: "wr_Status (cors_writer cfg r) = None" "wr_Body (cors_writer cfg r) = []"
    using r(1) by simp_all
  note texts = document_answer [OF blank, unfolded prod.inject]
  obtain input d where request: "RequestDocument a E input w = (Inr d, w')"
    and wr: "wr = writeJSON (cors_writer cfg r) 202 (json_Document d)"
    using run accepted texts(2) by (auto simp: serve requestDocument_def split: option.splits prod.splits sum.splits)
  obtain factory st where acc: "getSourceFactory a (rd_Source input) = Inr factory" "rd_Source input \<noteq> ''''"
      "rd_SourceDocumentID input \<noteq> ''''"
      "getStorage a (if rd_StorageBackend input = '''' then ap_defaultStorageName a else rd_StorageBackend input) = Inr st"
    using request by (auto simp: RequestDocument_def Let_def split: sum.splits if_splits)
  from RequestDocument_found [OF E S w request acc] show ?thesis
    using texts(1) by (auto simp: http_answer_def wr)
qed

end

end
