(* ===== verification/HttpSamples.thy ===== *)
theory HttpSamples
  imports HttpProofs Samples
begin

text \<open>Two configurations of roles and a few requests.\<close>

definition open_config :: Config where
  "open_config = zero_Config"

definition reader_config :: Config where
  "reader_config = zero_Config\<lparr>cf_Roles :=
     [(''t'', \<lparr>ro_Name = ''reader'', ro_Permissions = [DocumentRead], ro_Admin = False\<rparr>)]\<rparr>"

definition sample_request :: "string \<Rightarrow> int \<Rightarrow> api_request" where
  "sample_request m i =
     \<lparr>aq_Method = m, aq_Path = document_path i, aq_Query = [], aq_Header = [(''Authorization'', ''Bearer t'')],
      aq_Body = Some '''', aq_PathValues = []\<rparr>"

lemma sample_request_sel [simp]:
  "aq_Method (sample_request m i) = m" "aq_Path (sample_request m i) = document_path i"
  by (simp_all add: sample_request_def)

lemma reader_may: "may reader_config p (sample_request m i) \<longleftrightarrow> p = ''document:read''"
  by (auto simp: may_def reader_config_def sample_request_def request_token_def get_value_def CutPrefix_def
      HasPermission_def DocumentRead_def)

definition in_quotes :: "string \<Rightarrow> string" where
  "in_quotes s = CHR 0x22 # s @ [CHR 0x22]"

definition sample_body :: string where
  "sample_body =
     ''{'' @ in_quotes ''source'' @ '':'' @ in_quotes ''hitomi'' @ '','' @
     in_quotes ''source_document_id'' @ '':'' @ in_quotes ''42'' @ ''}''"

definition sample_post :: api_request where
  "sample_post =
     \<lparr>aq_Method = ''POST'', aq_Path = ''/v1/documents/request'', aq_Query = [], aq_Header = [],
      aq_Body = Some sample_body, aq_PathValues = []\<rparr>"

lemma sample_post_sel: "aq_Method sample_post = ''POST''" "aq_Path sample_post = ''/v1/documents/request''"
  by (simp_all add: sample_post_def)

lemma open_config_may: "may open_config p r"
  by (simp add: may_def open_config_def zero_Config_def)

definition sample_empty :: "(MemoryStore, MemoryObjects) world" where
  "sample_empty = sample_world NewMemoryStore"

lemma sample_post_decoded:
  "decode_body dec_RequestDocumentInput zero_RequestDocumentInput (Some sample_body) =
     Some \<lparr>rd_Source = ''hitomi'', rd_SourceDocumentID = ''42'', rd_StorageBackend = ''''\<rparr>"
  by code_simp

lemma sample_empty_docs [simp]:
  "wd_docs sample_empty = NewMemoryStore" "mem_view NewMemoryStore = Map.empty" "mem_invar NewMemoryStore"
  using mem_invar_new by (auto simp: sample_empty_def sample_world_def mem_view_def NewMemoryStore_def fun_eq_iff in_range_def)

lemma sample_post_accepted:
  "wr_Status (fst (serve open_config (sample_app memory_store) sample_env sample_post sample_empty)) = Some 202"
proof -
  let ?input = "\<lparr>rd_Source = ''hitomi'', rd_SourceDocumentID = ''42'', rd_StorageBackend = ''''\<rparr>"
  let ?a = "sample_app memory_store"
  obtain r w' where run: "RequestDocument ?a sample_env ?input sample_empty = (r, w')" by fastforce
  have default: "ap_defaultStorageName ?a = ''local''"
    by (simp add: sample_app_def NewApp_def RegisterSourceFactory_def RegisterStorage_def)
  have "getSourceFactory ?a (rd_Source ?input) = Inr sample_factory"
    "getStorage ?a (if rd_StorageBackend ?input = '''' then ap_defaultStorageName ?a else rd_StorageBackend ?input)
      = Inr (memory_objects ''local'' noon)"
    by (simp_all add: getSourceFactory_def getStorage_def default)
  from document_store.RequestDocument_found [OF mem.document_store_axioms _ _ _ _ _ run this(1) _ _ this(2)]
  obtain d where r: "r = Inr d" by (cases r) auto
  have "serve open_config ?a sample_env sample_post sample_empty =
      requestDocument ?a sample_env (sample_post\<lparr>aq_PathValues := []\<rparr>) (cors_writer open_config sample_post) sample_empty"
    by (rule serve_post_request) (simp_all add: sample_post_sel open_config_may)
  then show ?thesis
    using writeJSON_blank(1) [of "cors_writer open_config sample_post" 202 "json_Document d"]
    by (simp add: requestDocument_def sample_post_def sample_post_decoded run r)
qed

end
