(* ===== verification/SqlOpen.thy ===== *)
theory SqlOpen
  imports SqlQuery StoreRuns
begin

text \<open>
  Opening the database, \<open>NewSQLiteStore\<close> and \<open>init\<close> of \<^verbatim>\<open>internal/documents/sqlite_store.go\<close>.  A database file
  holds its tables and indices by name, with the rows of the two tables of the program, and its journal
  mode; the settings of the connection are lost when it is closed.  A table of the program that is there
  already has the columns of the schema.  Each call of \<^verbatim>\<open>ExecContext\<close> commits by itself, so what was done
  before a failure stays.
\<close>

section \<open>Files and connections\<close>

record sqlite_index =
  ix_name :: string
  ix_unique :: bool
  ix_table :: string
  ix_columns :: "string list"

record sqlite_file =
  sf_tables :: "string list"
  sf_indexes :: "sqlite_index list"
  sf_db :: sqlite_db
  sf_journal_mode :: string

record sqlite_conn =
  cn_file :: sqlite_file
  cn_foreign_keys :: bool
  cn_busy_timeout :: int

definition empty_file :: sqlite_file where
  "empty_file = \<lparr>sf_tables = [], sf_indexes = [], sf_db = empty_db, sf_journal_mode = ''delete''\<rparr>"

definition memory_file :: sqlite_file where
  "memory_file = empty_file\<lparr>sf_journal_mode := ''memory''\<rparr>"

definition connect :: "sqlite_file \<Rightarrow> sqlite_conn" where
  "connect f = \<lparr>cn_file = f, cn_foreign_keys = False, cn_busy_timeout = 0\<rparr>"

section \<open>The statements\<close>

datatype sql_value = SqlText string | SqlInt int | SqlNull

definition doc_column :: "string \<Rightarrow> doc_row \<Rightarrow> sql_value" where
  "doc_column c r =
     (if c = ''id'' then SqlInt (r_id r)
      else if c = ''source'' then SqlText (r_source r)
      else if c = ''source_document_id'' then SqlText (r_source_document_id r)
      else if c = ''document_status'' then SqlText (r_document_status r)
      else SqlNull)"

definition page_column :: "string \<Rightarrow> page_row \<Rightarrow> sql_value" where
  "page_column c w =
     (if c = ''document_id'' then SqlInt (w_document_id w)
      else if c = ''page_index'' then SqlInt (w_page_index w)
      else SqlNull)"

text \<open>The keys of an index, one for each row of its table.\<close>

definition index_keys :: "string \<Rightarrow> string list \<Rightarrow> sqlite_db \<Rightarrow> sql_value list list" where
  "index_keys table columns db =
     (if table = ''documents'' then map (\<lambda>r. map (\<lambda>c. doc_column c r) columns) (t_documents db)
      else if table = ''document_pages'' then map (\<lambda>w. map (\<lambda>c. page_column c w) columns) (t_document_pages db)
      else [])"

datatype sql_statement =
    PragmaJournalMode string
  | PragmaBusyTimeout int
  | PragmaForeignKeys bool
  | CreateTableIfNotExists string
  | CreateIndexIfNotExists sqlite_index
  | DropIndexIfExists string

fun exec_statement :: "sql_statement \<Rightarrow> sqlite_conn \<Rightarrow> (go_error + unit) \<times> sqlite_conn" where
  "exec_statement (PragmaJournalMode mode) c =
     (Inr (), if sf_journal_mode (cn_file c) = ''memory'' then c
              else c\<lparr>cn_file := (cn_file c)\<lparr>sf_journal_mode := mode\<rparr>\<rparr>)"
| "exec_statement (PragmaBusyTimeout ms) c = (Inr (), c\<lparr>cn_busy_timeout := ms\<rparr>)"
| "exec_statement (PragmaForeignKeys on) c = (Inr (), c\<lparr>cn_foreign_keys := on\<rparr>)"
| "exec_statement (CreateTableIfNotExists name) c =
     (let f = cn_file c in
      if name \<in> set (sf_tables f) then (Inr (), c)
      else if name \<in> ix_name ` set (sf_indexes f) then (Inl (ErrExternal ''there is already an index with that name''), c)
      else (Inr (), c\<lparr>cn_file := f\<lparr>sf_tables := sf_tables f @ [name]\<rparr>\<rparr>))"
| "exec_statement (CreateIndexIfNotExists ix) c =
     (let f = cn_file c in
      if ix_name ix \<in> ix_name ` set (sf_indexes f) then (Inr (), c)
      else if ix_name ix \<in> set (sf_tables f) then (Inl (ErrExternal ''there is already a table with that name''), c)
      else if ix_table ix \<notin> set (sf_tables f) then (Inl (ErrExternal ''no such table''), c)
      else if ix_unique ix \<and> \<not> distinct (index_keys (ix_table ix) (ix_columns ix) (sf_db f))
      then (Inl (sql_constraint ''UNIQUE''), c)
      else (Inr (), c\<lparr>cn_file := f\<lparr>sf_indexes := sf_indexes f @ [ix]\<rparr>\<rparr>))"
| "exec_statement (DropIndexIfExists name) c =
     (let f = cn_file c in
      (Inr (), c\<lparr>cn_file := f\<lparr>sf_indexes := filter (\<lambda>ix. ix_name ix \<noteq> name) (sf_indexes f)\<rparr>\<rparr>))"

definition idx_documents_status :: sqlite_index where
  "idx_documents_status = \<lparr>ix_name = ''idx_documents_status'', ix_unique = False, ix_table = ''documents'',
     ix_columns = [''document_status'', ''id'']\<rparr>"

definition idx_documents_source_identity :: sqlite_index where
  "idx_documents_source_identity = \<lparr>ix_name = ''idx_documents_source_identity'', ix_unique = True,
     ix_table = ''documents'', ix_columns = [''source'', ''source_document_id'']\<rparr>"

definition idx_document_pages_document :: sqlite_index where
  "idx_document_pages_document = \<lparr>ix_name = ''idx_document_pages_document'', ix_unique = False,
     ix_table = ''document_pages'', ix_columns = [''document_id'', ''page_index'']\<rparr>"

definition init_statements :: "sql_statement list" where
  "init_statements =
     [PragmaJournalMode ''wal'', PragmaBusyTimeout 5000,
      CreateTableIfNotExists ''documents'', CreateTableIfNotExists ''document_pages'',
      CreateIndexIfNotExists idx_documents_status,
      DropIndexIfExists ''idx_documents_active_source_identity'',
      CreateIndexIfNotExists idx_documents_source_identity,
      CreateIndexIfNotExists idx_document_pages_document,
      PragmaForeignKeys True]"

text \<open>The statements from number \<open>n\<close> on; the first error ends it.\<close>

fun exec_statements :: "ctx \<Rightarrow> nat \<Rightarrow> sql_statement list \<Rightarrow> sqlite_conn \<Rightarrow> (go_error + unit) \<times> sqlite_conn" where
  "exec_statements ctx n [] c = (Inr (), c)"
| "exec_statements ctx n (st # sts) c =
     (case ctx n of
        Some e \<Rightarrow> (Inl (ErrExternal e), c)
      | None \<Rightarrow>
          (case exec_statement st c of
             (Inl e, c') \<Rightarrow> (Inl e, c')
           | (Inr _, c') \<Rightarrow> exec_statements ctx (Suc n) sts c'))"

definition SQLiteStore_init :: "ctx \<Rightarrow> sqlite_conn \<Rightarrow> (go_error + unit) \<times> sqlite_conn" where
  "SQLiteStore_init ctx c = exec_statements ctx 0 init_statements c"

section \<open>Opening\<close>

definition isSQLiteURI :: "string \<Rightarrow> bool" where
  "isSQLiteURI path \<longleftrightarrow> length path \<ge> 5 \<and> take 5 path = ''file:''"

text \<open>\<^verbatim>\<open>filepath.Dir\<close>: what comes before the last slash, cleaned.\<close>

definition filepath_Dir :: "string \<Rightarrow> string" where
  "filepath_Dir path = path_Clean (rev (dropWhile (\<lambda>c. c \<noteq> CHR ''/'') (rev path)))"

text \<open>
  The machine outside: making directories and the driver, which checks a data source name and knows what
  file it names, if it is not a database in memory.  The files are the state.
\<close>

record sqlite_machine =
  sm_MkdirAll :: "string \<Rightarrow> go_error option"
  sm_Open :: "string \<Rightarrow> go_error option"
  sm_file :: "string \<Rightarrow> string option"

type_synonym sqlite_files = "string \<Rightarrow> sqlite_file"

definition file_at :: "sqlite_machine \<Rightarrow> string \<Rightarrow> sqlite_files \<Rightarrow> sqlite_file" where
  "file_at m path fs = (case sm_file m path of None \<Rightarrow> memory_file | Some name \<Rightarrow> fs name)"

definition write_file :: "sqlite_machine \<Rightarrow> string \<Rightarrow> sqlite_file \<Rightarrow> sqlite_files \<Rightarrow> sqlite_files" where
  "write_file m path f fs = (case sm_file m path of None \<Rightarrow> fs | Some name \<Rightarrow> fs(name := f))"

definition sqlite_path :: "string \<Rightarrow> string" where
  "sqlite_path path = (if path = '''' then ''document-archive.db'' else path)"

definition make_parent :: "sqlite_machine \<Rightarrow> string \<Rightarrow> go_error option" where
  "make_parent m path =
     (if path \<noteq> '':memory:'' \<and> \<not> isSQLiteURI path
      then (let dir = filepath_Dir path in if dir \<noteq> ''.'' then sm_MkdirAll m dir else None)
      else None)"

definition NewSQLiteStore ::
  "sqlite_machine \<Rightarrow> ctx \<Rightarrow> string \<Rightarrow> sqlite_files \<Rightarrow> (go_error + sqlite_conn) \<times> sqlite_files" where
  "NewSQLiteStore m ctx path0 fs =
     (let path = sqlite_path path0 in
      case make_parent m path of
        Some e \<Rightarrow> (Inl e, fs)
      | None \<Rightarrow>
          (case sm_Open m path of
             Some e \<Rightarrow> (Inl e, fs)
           | None \<Rightarrow>
               (case SQLiteStore_init ctx (connect (file_at m path fs)) of
                  (Inl e, c) \<Rightarrow> (Inl e, write_file m path (cn_file c) fs)
                | (Inr _, c) \<Rightarrow> (Inr c, write_file m path (cn_file c) fs))))"

text \<open>What the store has done to its tables is in the file when it is closed.\<close>

definition SQLiteStore_Close :: "sqlite_machine \<Rightarrow> string \<Rightarrow> sqlite_db \<Rightarrow> sqlite_conn \<Rightarrow> sqlite_files \<Rightarrow> sqlite_files" where
  "SQLiteStore_Close m path db c fs = write_file m (sqlite_path path) ((cn_file c)\<lparr>sf_db := db\<rparr>) fs"


section \<open>What opening does\<close>

definition add_table :: "string \<Rightarrow> sqlite_file \<Rightarrow> sqlite_file" where
  "add_table name f = (if name \<in> set (sf_tables f) then f else f\<lparr>sf_tables := sf_tables f @ [name]\<rparr>)"

definition add_index :: "sqlite_index \<Rightarrow> sqlite_file \<Rightarrow> sqlite_file" where
  "add_index ix f = (if ix_name ix \<in> ix_name ` set (sf_indexes f) then f else f\<lparr>sf_indexes := sf_indexes f @ [ix]\<rparr>)"

definition drop_index :: "string \<Rightarrow> sqlite_file \<Rightarrow> sqlite_file" where
  "drop_index name f = f\<lparr>sf_indexes := filter (\<lambda>ix. ix_name ix \<noteq> name) (sf_indexes f)\<rparr>"

definition set_wal :: "sqlite_file \<Rightarrow> sqlite_file" where
  "set_wal f = (if sf_journal_mode f = ''memory'' then f else f\<lparr>sf_journal_mode := ''wal''\<rparr>)"

abbreviation index_names :: "sqlite_file \<Rightarrow> string set" where
  "index_names f \<equiv> ix_name ` set (sf_indexes f)"

lemma file_changes [simp]:
  "set (sf_tables (add_table n f)) = insert n (set (sf_tables f))" "sf_indexes (add_table n f) = sf_indexes f"
  "sf_tables (add_index ix f) = sf_tables f" "index_names (add_index ix f) = insert (ix_name ix) (index_names f)"
  "sf_tables (drop_index n f) = sf_tables f" "index_names (drop_index n f) = index_names f - {n}"
  "sf_tables (set_wal f) = sf_tables f" "sf_indexes (set_wal f) = sf_indexes f"
  "sf_db (add_table n f) = sf_db f" "sf_db (add_index ix f) = sf_db f"
  "sf_db (drop_index n f) = sf_db f" "sf_db (set_wal f) = sf_db f"
  by (auto simp: add_table_def add_index_def drop_index_def set_wal_def)

lemma file_changes_again:
  "n \<in> set (sf_tables f) \<Longrightarrow> add_table n f = f" "ix_name ix \<in> index_names f \<Longrightarrow> add_index ix f = f"
  "n \<notin> index_names f \<Longrightarrow> drop_index n f = f" "sf_journal_mode f \<in> {''wal'', ''memory''} \<Longrightarrow> set_wal f = f"
  by (auto simp: add_table_def add_index_def drop_index_def set_wal_def
      intro!: sqlite_file.equality filter_True)

lemma journal_mode_changes [simp]:
  "sf_journal_mode (add_table n f) = sf_journal_mode f" "sf_journal_mode (add_index ix f) = sf_journal_mode f"
  "sf_journal_mode (drop_index n f) = sf_journal_mode f"
  "sf_journal_mode (set_wal f) = (if sf_journal_mode f = ''memory'' then ''memory'' else ''wal'')"
  by (simp_all add: add_table_def add_index_def drop_index_def set_wal_def)

lemma exec_statement_changes:
  "exec_statement (PragmaJournalMode ''wal'') c = (Inr (), c\<lparr>cn_file := set_wal (cn_file c)\<rparr>)"
  "n \<notin> index_names (cn_file c) \<Longrightarrow>
   exec_statement (CreateTableIfNotExists n) c = (Inr (), c\<lparr>cn_file := add_table n (cn_file c)\<rparr>)"
  "exec_statement (DropIndexIfExists n) c = (Inr (), c\<lparr>cn_file := drop_index n (cn_file c)\<rparr>)"
  "ix_name ix \<notin> set (sf_tables (cn_file c)) \<Longrightarrow> ix_table ix \<in> set (sf_tables (cn_file c)) \<Longrightarrow>
   ix_name ix \<in> index_names (cn_file c) \<or> \<not> ix_unique ix \<or>
     distinct (index_keys (ix_table ix) (ix_columns ix) (sf_db (cn_file c))) \<Longrightarrow>
   exec_statement (CreateIndexIfNotExists ix) c = (Inr (), c\<lparr>cn_file := add_index ix (cn_file c)\<rparr>)"
  by (auto simp: set_wal_def add_table_def add_index_def drop_index_def Let_def)

lemma exec_statement_duplicate:
  "ix_name ix \<notin> set (sf_tables (cn_file c)) \<Longrightarrow> ix_table ix \<in> set (sf_tables (cn_file c)) \<Longrightarrow>
   ix_name ix \<notin> index_names (cn_file c) \<Longrightarrow> ix_unique ix \<Longrightarrow>
   \<not> distinct (index_keys (ix_table ix) (ix_columns ix) (sf_db (cn_file c))) \<Longrightarrow>
   exec_statement (CreateIndexIfNotExists ix) c = (Inl (sql_constraint ''UNIQUE''), c)"
  by (simp add: Let_def)

text \<open>No statement touches a row, whatever fails.\<close>

lemma exec_statement_db: "sf_db (cn_file (snd (exec_statement st c))) = sf_db (cn_file c)"
  by (cases st) (auto simp: Let_def)

lemma exec_statements_db: "sf_db (cn_file (snd (exec_statements ctx n sts c))) = sf_db (cn_file c)"
proof (induction sts arbitrary: n c)
  case (Cons st sts)
  obtain r c' where one: "exec_statement st c = (r, c')" by fastforce
  with exec_statement_db [of st c] have "sf_db (cn_file c') = sf_db (cn_file c)" by simp
  with Cons.IH [of "Suc n" c'] one show ?case by (auto split: option.split sum.split)
qed simp

text \<open>The names that the statements of \<open>init\<close> use are not taken by something of another kind.\<close>

definition names_free :: "sqlite_file \<Rightarrow> bool" where
  "names_free f \<longleftrightarrow>
     ''documents'' \<notin> index_names f \<and> ''document_pages'' \<notin> index_names f \<and>
     ix_name ` {idx_documents_status, idx_documents_source_identity, idx_document_pages_document}
       \<inter> set (sf_tables f) = {}"

definition identities :: "sqlite_db \<Rightarrow> (string \<times> string) list" where
  "identities db = map (\<lambda>r. (r_source r, r_source_document_id r)) (t_documents db)"

definition has_identity_index :: "sqlite_file \<Rightarrow> bool" where
  "has_identity_index f \<longleftrightarrow> ''idx_documents_source_identity'' \<in> index_names f"

text \<open>A file before and after the statement that makes the unique index, and in the end.\<close>

definition prepared_file :: "sqlite_file \<Rightarrow> sqlite_file" where
  "prepared_file f = drop_index ''idx_documents_active_source_identity'' (add_index idx_documents_status
     (add_table ''document_pages'' (add_table ''documents'' (set_wal f))))"

definition opened_file :: "sqlite_file \<Rightarrow> sqlite_file" where
  "opened_file f = add_index idx_document_pages_document (add_index idx_documents_source_identity (prepared_file f))"

lemma identity_keys:
  "distinct (index_keys (ix_table idx_documents_source_identity) (ix_columns idx_documents_source_identity) db)
     \<longleftrightarrow> distinct (identities db)"
  by (simp add: index_keys_def idx_documents_source_identity_def identities_def doc_column_def distinct_map inj_on_def)

lemma idx_sel [simp]:
  "ix_name idx_documents_status = ''idx_documents_status''" "ix_unique idx_documents_status = False"
  "ix_table idx_documents_status = ''documents''"
  "ix_name idx_documents_source_identity = ''idx_documents_source_identity''"
  "ix_unique idx_documents_source_identity = True" "ix_table idx_documents_source_identity = ''documents''"
  "ix_name idx_document_pages_document = ''idx_document_pages_document''"
  "ix_unique idx_document_pages_document = False" "ix_table idx_document_pages_document = ''document_pages''"
  by (simp_all add: idx_documents_status_def idx_documents_source_identity_def idx_document_pages_document_def)

lemma names_freeD:
  assumes "names_free f"
  shows "''documents'' \<notin> index_names f" "''document_pages'' \<notin> index_names f"
    "''idx_documents_status'' \<notin> set (sf_tables f)" "''idx_documents_source_identity'' \<notin> set (sf_tables f)"
    "''idx_document_pages_document'' \<notin> set (sf_tables f)"
  using assms by (auto simp: names_free_def)

lemma init_live:
  assumes live: "live ctx" and free: "names_free f"
  shows "SQLiteStore_init ctx (connect f) =
    (if has_identity_index f \<or> distinct (identities (sf_db f))
     then (Inr (), \<lparr>cn_file = opened_file f, cn_foreign_keys = True, cn_busy_timeout = 5000\<rparr>)
     else (Inl (sql_constraint ''UNIQUE''),
       \<lparr>cn_file = prepared_file f, cn_foreign_keys = False, cn_busy_timeout = 5000\<rparr>))"
proof -
  note free = names_freeD [OF free]
  have ctx: "ctx n = None" for n using live by (simp add: live_def)
  show ?thesis
    unfolding SQLiteStore_init_def init_statements_def connect_def opened_file_def
    by (simp add: ctx free exec_statement_changes exec_statement_duplicate prepared_file_def
        has_identity_index_def identity_keys [simplified] del: exec_statement.simps(1,4,5,6))
qed

text \<open>A file that was opened before is left as it is, whatever rows have been written since.\<close>

lemma changes_update_db [simp]:
  "add_table n (f\<lparr>sf_db := db\<rparr>) = (add_table n f)\<lparr>sf_db := db\<rparr>"
  "add_index ix (f\<lparr>sf_db := db\<rparr>) = (add_index ix f)\<lparr>sf_db := db\<rparr>"
  "drop_index n (f\<lparr>sf_db := db\<rparr>) = (drop_index n f)\<lparr>sf_db := db\<rparr>"
  "set_wal (f\<lparr>sf_db := db\<rparr>) = (set_wal f)\<lparr>sf_db := db\<rparr>"
  by (simp_all add: add_table_def add_index_def drop_index_def set_wal_def)

lemma opened_file_db [simp]: "sf_db (opened_file f) = sf_db f" "sf_db (prepared_file f) = sf_db f"
  by (simp_all add: opened_file_def prepared_file_def)

lemma opened_update_db: "opened_file (f\<lparr>sf_db := db\<rparr>) = (opened_file f)\<lparr>sf_db := db\<rparr>"
  by (simp add: opened_file_def prepared_file_def)

lemma opened_names:
  "set (sf_tables (opened_file f)) = {''documents'', ''document_pages''} \<union> set (sf_tables f)"
  "index_names (opened_file f) = {''idx_documents_status'', ''idx_documents_source_identity'',
     ''idx_document_pages_document''} \<union> (index_names f - {''idx_documents_active_source_identity''})"
  "sf_journal_mode (opened_file f) \<in> {''wal'', ''memory''}"
  by (auto simp: opened_file_def prepared_file_def)

lemma opened_file_again: "opened_file (opened_file f) = opened_file f"
  unfolding opened_file_def [of "opened_file f"] prepared_file_def [of "opened_file f"]
  using opened_names [of f] by (simp add: file_changes_again)

lemma names_free_opened: "names_free f \<Longrightarrow> names_free ((opened_file f)\<lparr>sf_db := db\<rparr>)"
  by (auto simp: names_free_def opened_file_def prepared_file_def)

lemma identity_index_opened: "has_identity_index ((opened_file f)\<lparr>sf_db := db\<rparr>)"
  by (simp add: has_identity_index_def opened_file_def)

text \<open>Opening that stopped halfway is made good by the next one.\<close>

definition change :: "sql_statement \<Rightarrow> sqlite_file \<Rightarrow> sqlite_file" where
  "change st f = cn_file (snd (exec_statement st (connect f)))"

lemma change_cn_file: "cn_file (snd (exec_statement st c)) = change st (cn_file c)"
  by (cases st) (auto simp: change_def connect_def Let_def)

lemma exec_statements_prefix:
  "\<exists>k \<le> length sts. cn_file (snd (exec_statements ctx n sts c)) = fold change (take k sts) (cn_file c)"
proof (induction sts arbitrary: n c)
  case (Cons st sts)
  obtain r c' where one: "exec_statement st c = (r, c')" by fastforce
  then have changed: "cn_file c' = change st (cn_file c)" using change_cn_file [of st c] by simp
  from Cons.IH [of "Suc n" c'] obtain k where k: "k \<le> length sts"
    "cn_file (snd (exec_statements ctx (Suc n) sts c')) = fold change (take k sts) (cn_file c')" by blast
  have "fold change (take 0 (st # sts)) (cn_file c) = cn_file c"
    "fold change (take 1 (st # sts)) (cn_file c) = cn_file c'"
    "fold change (take (Suc k) (st # sts)) (cn_file c) = fold change (take k sts) (cn_file c')"
    by (simp_all add: changed)
  moreover have "cn_file (snd (exec_statements ctx n (st # sts) c)) \<in>
      {cn_file c, cn_file c', cn_file (snd (exec_statements ctx (Suc n) sts c'))}"
    by (auto simp: one split: option.split sum.split)
  ultimately show ?case using k
    by (metis (no_types, lifting) Suc_le_mono empty_iff insert_iff le0 length_Cons One_nat_def)
qed simp

lemma change_simps:
  "change (PragmaJournalMode ''wal'') f = set_wal f" "change (PragmaBusyTimeout ms) f = f"
  "change (PragmaForeignKeys on) f = f" "change (DropIndexIfExists n) f = drop_index n f"
  "n \<notin> index_names f \<Longrightarrow> change (CreateTableIfNotExists n) f = add_table n f"
  "ix_name ix \<notin> set (sf_tables f) \<Longrightarrow> ix_table ix \<in> set (sf_tables f) \<Longrightarrow>
   ix_name ix \<in> index_names f \<or> \<not> ix_unique ix \<or> distinct (index_keys (ix_table ix) (ix_columns ix) (sf_db f)) \<Longrightarrow>
   change (CreateIndexIfNotExists ix) f = add_index ix f"
  by (auto simp: change_def connect_def set_wal_def add_table_def add_index_def drop_index_def Let_def)

text \<open>The files one after the other when every statement succeeds.\<close>

definition stages :: "sqlite_file \<Rightarrow> sqlite_file list" where
  "stages f =
     [f, set_wal f, set_wal f, add_table ''documents'' (set_wal f),
      add_table ''document_pages'' (add_table ''documents'' (set_wal f)),
      add_index idx_documents_status (add_table ''document_pages'' (add_table ''documents'' (set_wal f))),
      prepared_file f, add_index idx_documents_source_identity (prepared_file f), opened_file f, opened_file f]"

lemma opened_stage: "g \<in> set (stages f) \<Longrightarrow> opened_file g = opened_file f"
proof -
  let ?w = "set_wal f"
  let ?t = "add_table ''document_pages'' (add_table ''documents'' ?w)"
  let ?i = "add_index idx_documents_status ?t"
  have w: "prepared_file ?w = prepared_file f"
    unfolding prepared_file_def by (simp add: file_changes_again)
  have d: "prepared_file (add_table ''documents'' ?w) = prepared_file f"
    unfolding prepared_file_def by (simp add: file_changes_again)
  have t: "prepared_file ?t = prepared_file f"
    unfolding prepared_file_def by (simp add: file_changes_again)
  have i: "prepared_file ?i = prepared_file f"
    unfolding prepared_file_def by (simp add: file_changes_again)
  have p: "prepared_file (prepared_file f) = prepared_file f"
    unfolding prepared_file_def by (simp add: file_changes_again)
  have "prepared_file (add_index idx_documents_source_identity (prepared_file f)) =
      add_index idx_documents_source_identity (prepared_file f)"
    unfolding prepared_file_def by (simp add: file_changes_again)
  then have s: "opened_file (add_index idx_documents_source_identity (prepared_file f)) = opened_file f"
    unfolding opened_file_def by (simp add: file_changes_again)
  have same: "prepared_file g = prepared_file f \<Longrightarrow> opened_file g = opened_file f" for g
    by (simp add: opened_file_def)
  note all = same [OF w] same [OF d] same [OF t] same [OF i] same [OF p] s opened_file_again
  assume "g \<in> set (stages f)"
  then have "g \<in> {f, ?w, add_table ''documents'' ?w, ?t, ?i, prepared_file f,
      add_index idx_documents_source_identity (prepared_file f), opened_file f}"
    by (simp add: stages_def)
  then show "opened_file g = opened_file f"
    by (elim insertE emptyE) (simp_all only: all)
qed

lemma names_free_stage: "names_free f \<Longrightarrow> g \<in> set (stages f) \<Longrightarrow> names_free g"
  unfolding stages_def list.set insert_iff empty_iff
  by (elim disjE FalseE; hypsubst; simp add: opened_file_def prepared_file_def names_free_def)

lemma change_stage:
  assumes free: "names_free f" and good: "has_identity_index f \<or> distinct (identities (sf_db f))" and k: "k < 9"
  shows "change (init_statements ! k) (stages f ! k) = stages f ! Suc k"
proof -
  note free' = names_freeD [OF free]
  have unique: "''idx_documents_source_identity'' \<in> index_names f \<or>
      distinct (index_keys ''documents'' (ix_columns idx_documents_source_identity) (sf_db f))"
    using good identity_keys by (simp add: has_identity_index_def)
  note step = change_simps free' opened_file_def prepared_file_def
  have 0: "change (PragmaJournalMode ''wal'') f = set_wal f" "change (PragmaBusyTimeout 5000) (set_wal f) = set_wal f"
    "change (CreateTableIfNotExists ''documents'') (set_wal f) = add_table ''documents'' (set_wal f)"
    by (simp_all add: step)
  have 1: "change (CreateTableIfNotExists ''document_pages'') (add_table ''documents'' (set_wal f)) =
      add_table ''document_pages'' (add_table ''documents'' (set_wal f))" (is "_ = ?g")
    by (simp add: step)
  have 2: "change (CreateIndexIfNotExists idx_documents_status) ?g = add_index idx_documents_status ?g"
    "change (DropIndexIfExists ''idx_documents_active_source_identity'') (add_index idx_documents_status ?g) = prepared_file f"
    by (simp_all add: step)
  have 3: "change (CreateIndexIfNotExists idx_documents_source_identity) (prepared_file f) =
      add_index idx_documents_source_identity (prepared_file f)"
    using unique by (intro change_simps) (simp_all add: step)
  have 4: "change (CreateIndexIfNotExists idx_document_pages_document)
      (add_index idx_documents_source_identity (prepared_file f)) = opened_file f"
    unfolding opened_file_def by (intro change_simps) (simp_all add: step)
  have 5: "change (PragmaForeignKeys True) (opened_file f) = opened_file f"
    by (rule change_simps)
  have "k \<in> {0, 1, 2, 3, 4, 5, 6, 7, 8}" using k by auto
  then show ?thesis
    unfolding init_statements_def stages_def by (elim insertE) (simp_all add: 0 1 2 3 4 5)
qed

lemma good_stage:
  assumes "has_identity_index f \<or> distinct (identities (sf_db f))" "g \<in> set (stages f)"
  shows "has_identity_index g \<or> distinct (identities (sf_db g))"
  using assms(2,1) unfolding stages_def list.set insert_iff empty_iff has_identity_index_def
  by (elim disjE [where Q = "_ \<or> _"] disjE [where P = "_ = _"] FalseE)
    (simp_all add: opened_file_def prepared_file_def)

lemma interrupted_stage:
  assumes "names_free f" "has_identity_index f \<or> distinct (identities (sf_db f))"
  shows "cn_file (snd (SQLiteStore_init ctx (connect f))) \<in> set (stages f)"
proof -
  have len: "length init_statements = 9" "length (stages f) = 10"
    by (simp_all add: init_statements_def stages_def)
  have prefix: "k \<le> 9 \<Longrightarrow> fold change (take k init_statements) f = stages f ! k" for k
  proof (induction k)
    case 0
    then show ?case by (simp add: stages_def)
  next
    case (Suc k)
    then show ?case using change_stage [OF assms, of k] len by (simp add: take_Suc_conv_app_nth)
  qed
  obtain k where "k \<le> 9" "cn_file (snd (SQLiteStore_init ctx (connect f))) = fold change (take k init_statements) f"
    using exec_statements_prefix [of init_statements ctx 0 "connect f"] len
    by (auto simp: SQLiteStore_init_def connect_def)
  with prefix len show ?thesis by simp
qed

text \<open>The result of opening a database.\<close>

lemma exec_statements_background:
  "exec_statements ctx n sts c = (Inr (), c') \<Longrightarrow> exec_statements background n sts c = (Inr (), c')"
  by (induction sts arbitrary: n c) (auto simp: background_def split: option.splits prod.splits sum.splits)

lemma init_background: "SQLiteStore_init ctx c = (Inr (), c') \<Longrightarrow> SQLiteStore_init background c = (Inr (), c')"
  by (simp add: SQLiteStore_init_def exec_statements_background)

lemma file_at_write:
  "file_at m p (write_file m p f fs) = (case sm_file m p of None \<Rightarrow> memory_file | Some name \<Rightarrow> f)"
  by (simp add: file_at_def write_file_def split: option.split)

lemma open_leaves:
  "file_at m (sqlite_path path) (snd (NewSQLiteStore m ctx path fs)) \<in>
     {file_at m (sqlite_path path) fs,
      cn_file (snd (SQLiteStore_init ctx (connect (file_at m (sqlite_path path) fs))))}"
proof -
  let ?p = "sqlite_path path"
  obtain r c where run: "SQLiteStore_init ctx (connect (file_at m ?p fs)) = (r, c)" by fastforce
  have "snd (NewSQLiteStore m ctx path fs) \<in> {fs, write_file m ?p (cn_file c) fs}"
    by (cases r) (auto simp: NewSQLiteStore_def Let_def run split: option.split)
  moreover have "file_at m ?p (write_file m ?p (cn_file c) fs) \<in> {file_at m ?p fs, cn_file c}"
    by (simp add: file_at_write split: option.split) (simp add: file_at_def)
  ultimately show ?thesis by (auto simp: run)
qed

lemma open_keeps_rows:
  "sf_db (file_at m (sqlite_path path) (snd (NewSQLiteStore m ctx path fs))) = sf_db (file_at m (sqlite_path path) fs)"
  using open_leaves [of m path ctx fs]
    exec_statements_db [of ctx 0 init_statements "connect (file_at m (sqlite_path path) fs)"]
  by (auto simp: SQLiteStore_init_def connect_def)

lemma open_live:
  assumes "make_parent m (sqlite_path path) = None" "sm_Open m (sqlite_path path) = None"
    and free: "names_free (file_at m (sqlite_path path) fs)" and "live ctx"
  shows "is_ok (fst (NewSQLiteStore m ctx path fs)) \<longleftrightarrow>
    has_identity_index (file_at m (sqlite_path path) fs) \<or> distinct (identities (sf_db (file_at m (sqlite_path path) fs)))"
  using init_live [OF assms(4) free] assms(1,2) by (simp add: NewSQLiteStore_def Let_def)

lemma open_result:
  assumes run: "NewSQLiteStore m ctx path fs = (Inr c, fs')" and free: "names_free (file_at m (sqlite_path path) fs)"
  shows "c = \<lparr>cn_file = opened_file (file_at m (sqlite_path path) fs), cn_foreign_keys = True, cn_busy_timeout = 5000\<rparr>"
    and "fs' = write_file m (sqlite_path path) (cn_file c) fs"
    and "make_parent m (sqlite_path path) = None" "sm_Open m (sqlite_path path) = None"
proof -
  let ?p = "sqlite_path path"
  obtain r c1 where init: "SQLiteStore_init ctx (connect (file_at m ?p fs)) = (r, c1)" by fastforce
  have all: "make_parent m ?p = None" "sm_Open m ?p = None" "r = Inr ()" "c1 = c" "fs' = write_file m ?p (cn_file c) fs"
    using run init by (auto simp: NewSQLiteStore_def Let_def split: option.splits sum.splits)
  from all show "fs' = write_file m ?p (cn_file c) fs" "make_parent m ?p = None" "sm_Open m ?p = None" by blast+
  have "live background" by (simp add: live_def background_def)
  from init_background [OF init [unfolded all(3)]] init_live [OF this free]
  show "c = \<lparr>cn_file = opened_file (file_at m ?p fs), cn_foreign_keys = True, cn_busy_timeout = 5000\<rparr>"
    using all(4) by (simp split: if_splits)
qed

lemma open_again:
  assumes run: "NewSQLiteStore m ctx path fs = (Inr c, fs')" and free: "names_free (file_at m (sqlite_path path) fs)"
    and "live ctx'" and named: "sm_file m (sqlite_path path) = Some name"
  shows "NewSQLiteStore m ctx' path (SQLiteStore_Close m path db c fs') =
    (Inr (c\<lparr>cn_file := (cn_file c)\<lparr>sf_db := db\<rparr>\<rparr>), SQLiteStore_Close m path db c fs')"
proof -
  let ?f = "file_at m (sqlite_path path) fs" and ?fs = "SQLiteStore_Close m path db c fs'"
  let ?g = "(opened_file ?f)\<lparr>sf_db := db\<rparr>"
  note res = open_result [OF run free]
  have at: "file_at m (sqlite_path path) ?fs = ?g"
    using named by (simp add: SQLiteStore_Close_def file_at_write res(1))
  have "SQLiteStore_init ctx' (connect ?g) =
      (Inr (), \<lparr>cn_file = ?g, cn_foreign_keys = True, cn_busy_timeout = 5000\<rparr>)"
    using init_live [OF assms(3) names_free_opened [OF free, of db]] identity_index_opened [of db ?f]
    by (simp add: opened_update_db opened_file_again)
  with named show ?thesis
    by (simp add: NewSQLiteStore_def Let_def file_at_def SQLiteStore_Close_def write_file_def res)
qed

lemma open_after_interrupt:
  assumes free: "names_free (file_at m (sqlite_path path) fs)" and "live ctx'"
    and good: "has_identity_index (file_at m (sqlite_path path) fs) \<or> distinct (identities (sf_db (file_at m (sqlite_path path) fs)))"
  shows "fst (NewSQLiteStore m ctx' path (snd (NewSQLiteStore m ctx path fs))) = fst (NewSQLiteStore m ctx' path fs)"
proof -
  let ?p = "sqlite_path path" and ?f = "file_at m (sqlite_path path) fs"
  let ?fs = "snd (NewSQLiteStore m ctx path fs)"
  have "file_at m ?p ?fs \<in> set (stages ?f)"
    using open_leaves [of m path ctx fs] interrupted_stage [OF free good, of ctx] by (auto simp: stages_def)
  note stage = names_free_stage [OF free this] good_stage [OF good this] opened_stage [OF this]
  show ?thesis
    using init_live [OF assms(2) stage(1)] init_live [OF assms(2) free] stage(2,3) good
    by (simp add: NewSQLiteStore_def [of m ctx' path] Let_def split: option.split)
qed

text \<open>Nor can opening bring about the unique index when two rows have the same identity.\<close>

lemma change_init:
  assumes "st \<in> set init_statements" "names_free f" "\<not> has_identity_index f" "\<not> distinct (identities (sf_db f))"
  shows "names_free (change st f) \<and> \<not> has_identity_index (change st f) \<and> \<not> distinct (identities (sf_db (change st f)))"
proof -
  have "sf_db (change st f) = sf_db f"
    using exec_statement_db [of st "connect f"] by (simp add: change_def connect_def)
  moreover have "\<not> distinct (index_keys ''documents'' (ix_columns idx_documents_source_identity) (sf_db f))"
    using assms(4) identity_keys by simp
  moreover have "names_free (change st f) \<and> (has_identity_index (change st f) \<longrightarrow> has_identity_index f)"
    if "\<not> distinct (index_keys ''documents'' (ix_columns idx_documents_source_identity) (sf_db f))"
    using assms(1,2) that unfolding init_statements_def list.set insert_iff empty_iff
    by (elim disjE FalseE)
      (simp_all add: change_def connect_def names_free_def has_identity_index_def Let_def image_iff, auto)
  ultimately show ?thesis using assms(3,4) by simp
qed

lemma duplicates_stay:
  assumes "names_free f" "\<not> has_identity_index f" "\<not> distinct (identities (sf_db f))"
    and g: "g = cn_file (snd (SQLiteStore_init ctx (connect f)))"
  shows "names_free g \<and> \<not> has_identity_index g \<and> \<not> distinct (identities (sf_db g))"
proof -
  have "set sts \<subseteq> set init_statements \<Longrightarrow> names_free (fold change sts h) \<and>
      \<not> has_identity_index (fold change sts h) \<and> \<not> distinct (identities (sf_db (fold change sts h)))"
    if "names_free h" "\<not> has_identity_index h" "\<not> distinct (identities (sf_db h))" for sts h
    using that by (induction sts arbitrary: h) (use change_init in \<open>auto\<close>)
  with assms show ?thesis
    using exec_statements_prefix [of init_statements ctx 0 "connect f"] set_take_subset
    by (metis SQLiteStore_init_def connect_def sqlite_conn.select_convs(1))
qed

lemma open_decided:
  assumes "make_parent m (sqlite_path path) = None" "sm_Open m (sqlite_path path) = None"
    and free: "names_free (file_at m (sqlite_path path) fs)" and "live ctx'"
  shows "is_ok (fst (NewSQLiteStore m ctx' path (snd (NewSQLiteStore m ctx path fs)))) \<longleftrightarrow>
    has_identity_index (file_at m (sqlite_path path) fs) \<or> distinct (identities (sf_db (file_at m (sqlite_path path) fs)))"
proof (cases "has_identity_index (file_at m (sqlite_path path) fs) \<or> distinct (identities (sf_db (file_at m (sqlite_path path) fs)))")
  case True
  then show ?thesis using open_after_interrupt [OF free assms(4) True] open_live [OF assms] by simp
next
  case False
  then have "names_free (file_at m (sqlite_path path) (snd (NewSQLiteStore m ctx path fs))) \<and>
      \<not> has_identity_index (file_at m (sqlite_path path) (snd (NewSQLiteStore m ctx path fs))) \<and>
      \<not> distinct (identities (sf_db (file_at m (sqlite_path path) (snd (NewSQLiteStore m ctx path fs)))))"
    using open_leaves [of m path ctx fs] duplicates_stay [OF free, of _ ctx] free by auto
  then show ?thesis using open_live [OF assms(1,2) _ assms(4)] False by simp
qed

text \<open>A machine on which every name is that of a file.\<close>

definition sample_machine :: sqlite_machine where
  "sample_machine = \<lparr>sm_MkdirAll = (\<lambda>_. None), sm_Open = (\<lambda>_. None), sm_file = Some\<rparr>"

end
