(* ===== verification/ConfigProofs.thy ===== *)
theory ConfigProofs
  imports Config "HOL-Library.Multiset"
begin

text \<open>
  What a configuration that \<open>readConfig\<close> accepts looks like, which ones it accepts, and the first start,
  which writes the default configuration and reads it back.
\<close>

section \<open>Well-formed configurations\<close>

definition config_storage_ok :: "string \<times> ObjectStorageConfig \<Rightarrow> bool" where
  "config_storage_ok = (\<lambda>(name, c). name \<noteq> '''' \<and> TrimSpace name = name \<and>
     (oc_Type c = MemoryStorageType \<and> oc_S3 c = None \<or> oc_Type c = S3StorageType \<and> oc_S3 c \<noteq> None))"

definition config_storages_ok :: "(string \<times> ObjectStorageConfig) list \<Rightarrow> bool" where
  "config_storages_ok storages \<longleftrightarrow> distinct (map fst storages) \<and> list_all config_storage_ok storages"

definition config_ok :: "Config \<Rightarrow> bool" where
  "config_ok cfg \<longleftrightarrow>
     config_storages_ok (cf_Storages cfg) \<and> cf_DefaultStorageName cfg \<in> fst ` set (cf_Storages cfg) \<and>
     0 \<le> cf_DeletedSweepInterval cfg \<and> ToLower (cf_DocumentStore cfg) = cf_DocumentStore cfg"

definition normalize_entry :: "string \<times> ObjectStorageConfig \<Rightarrow> string \<times> ObjectStorageConfig" where
  "normalize_entry = (\<lambda>(name, c). (TrimSpace name, c\<lparr>oc_Type := ToLower (TrimSpace (oc_Type c))\<rparr>))"

definition normalize_config :: "Config \<Rightarrow> Config" where
  "normalize_config cfg =
     cfg\<lparr>cf_DefaultStorageName := TrimSpace (cf_DefaultStorageName cfg),
         cf_DocumentStore := ToLower (TrimSpace (cf_DocumentStore cfg)),
         cf_Storages := map normalize_entry (cf_Storages cfg)\<rparr>"

lemma types_differ [simp]: "MemoryStorageType \<noteq> S3StorageType" "S3StorageType \<noteq> MemoryStorageType"
  by (simp_all add: MemoryStorageType_def S3StorageType_def)

lemma config_storage_normalize:
  "config_storage_ok (normalize_entry (rawName, c)) \<longleftrightarrow>
     TrimSpace rawName \<noteq> '''' \<and>
     (ToLower (TrimSpace (oc_Type c)) = MemoryStorageType \<and> oc_S3 c = None \<or>
      ToLower (TrimSpace (oc_Type c)) = S3StorageType \<and> oc_S3 c \<noteq> None)"
  by (auto simp: config_storage_ok_def normalize_entry_def)

text \<open>The loop accepts exactly the lists whose normalised entries are well-formed, in whatever order.\<close>

lemma normalize_storages_step:
  "normalize_storages ((rawName, c) # rest) acc = Inr storages \<longleftrightarrow>
     config_storage_ok (normalize_entry (rawName, c)) \<and> TrimSpace rawName \<notin> fst ` set acc \<and>
     normalize_storages rest (acc @ [normalize_entry (rawName, c)]) = Inr storages"
  by (simp only: config_storage_normalize) (auto simp: normalize_entry_def Let_def map_of_eq_None_iff)

lemma normalize_storages_iff:
  "config_storages_ok acc \<Longrightarrow>
   normalize_storages raw acc = Inr storages \<longleftrightarrow>
     storages = acc @ map normalize_entry raw \<and> config_storages_ok storages"
proof (induction raw arbitrary: acc)
  case (Cons e rest)
  obtain rawName c where e: "e = (rawName, c)" by force
  let ?entry = "normalize_entry (rawName, c)"
  have name: "fst ?entry = TrimSpace rawName" by (simp add: normalize_entry_def)
  show ?case
  proof (cases "config_storages_ok (acc @ [?entry])")
    case True
    then have "config_storage_ok ?entry" "TrimSpace rawName \<notin> fst ` set acc"
      by (auto simp: config_storages_ok_def name)
    then show ?thesis
      using Cons.IH [OF True] unfolding e normalize_storages_step by simp
  next
    case False
    then have "\<not> (config_storage_ok ?entry \<and> TrimSpace rawName \<notin> fst ` set acc)"
      using Cons.prems by (auto simp: config_storages_ok_def name)
    moreover have "\<not> config_storages_ok (acc @ ?entry # map normalize_entry rest)"
      using False by (auto simp: config_storages_ok_def)
    ultimately show ?thesis unfolding e normalize_storages_step by auto
  qed
qed auto

text \<open>So the order in which the loop meets the storages of the map makes no difference to the verdict.\<close>

lemma config_storages_perm:
  assumes "mset xs = mset ys"
  shows "config_storages_ok xs = config_storages_ok ys"
proof -
  have "set xs = set ys" using assms by (rule mset_eq_setD)
  moreover have "mset (map fst xs) = mset (map fst ys)" using assms by simp
  then have "distinct (map fst xs) = distinct (map fst ys)" by (rule mset_eq_imp_distinct_iff)
  ultimately show ?thesis by (simp add: config_storages_ok_def list_all_iff)
qed

lemma readConfig_iff:
  "readConfig Y ops path f = Inr cfg \<longleftrightarrow>
     (\<exists>data raw. fo_ReadFile ops path f = Inr data \<and> ym_Decode Y True zero_Config data = Inr raw \<and>
       requireConfigFields Y data = None \<and> cfg = normalize_config raw \<and> config_ok cfg)"
proof -
  have storages: "normalize_storages raw [] = Inr st \<longleftrightarrow> st = map normalize_entry raw \<and> config_storages_ok st" for raw st
    using normalize_storages_iff [of "[]" raw st] by (simp add: config_storages_ok_def)
  have check: "normalizeAndValidateStorages raw = Inr cfg \<longleftrightarrow>
      cfg = raw\<lparr>cf_Storages := map normalize_entry (cf_Storages raw)\<rparr> \<and>
      config_storages_ok (cf_Storages cfg) \<and> cf_DefaultStorageName cfg \<in> fst ` set (cf_Storages cfg)" for raw
  proof (cases "normalize_storages (cf_Storages raw) []")
    case (Inl e)
    then have "\<not> config_storages_ok (map normalize_entry (cf_Storages raw))"
      using storages [of "cf_Storages raw" "map normalize_entry (cf_Storages raw)"] by auto
    with Inl show ?thesis by (auto simp: normalizeAndValidateStorages_def)
  next
    case (Inr st)
    then have st: "st = map normalize_entry (cf_Storages raw)" "config_storages_ok st"
      using storages by auto
    have "'''' \<notin> fst ` set st" using st(2) by (auto simp: config_storages_ok_def list_all_iff config_storage_ok_def)
    with Inr st show ?thesis
      by (auto simp: normalizeAndValidateStorages_def map_of_eq_None_iff)
  qed
  have rest: "readConfig Y ops path f = Inr cfg \<longleftrightarrow>
      0 \<le> cf_DeletedSweepInterval raw \<and> normalizeAndValidateStorages
        (raw\<lparr>cf_DefaultStorageName := TrimSpace (cf_DefaultStorageName raw),
             cf_DocumentStore := ToLower (TrimSpace (cf_DocumentStore raw))\<rparr>) = Inr cfg"
    if "fo_ReadFile ops path f = Inr data" "ym_Decode Y True zero_Config data = Inr raw"
      "requireConfigFields Y data = None" for data raw
    using that by (simp add: readConfig_def split: sum.split)
  have same: "readConfig Y ops path f = Inr cfg \<longleftrightarrow> cfg = normalize_config raw \<and> config_ok cfg"
    if "fo_ReadFile ops path f = Inr data" "ym_Decode Y True zero_Config data = Inr raw"
      "requireConfigFields Y data = None" for data raw
    unfolding rest [OF that] check normalize_config_def config_ok_def by (simp cong: conj_cong) argo
  show ?thesis
  proof
    assume run: "readConfig Y ops path f = Inr cfg"
    then obtain data raw where "fo_ReadFile ops path f = Inr data" "ym_Decode Y True zero_Config data = Inr raw"
        "requireConfigFields Y data = None"
      by (auto simp: readConfig_def split: sum.splits option.splits)
    with same run show "\<exists>data raw. fo_ReadFile ops path f = Inr data \<and> ym_Decode Y True zero_Config data = Inr raw \<and>
       requireConfigFields Y data = None \<and> cfg = normalize_config raw \<and> config_ok cfg" by blast
  qed (use same in blast)
qed

section \<open>Required fields\<close>

lemma first_error_None: "first_error es = None \<longleftrightarrow> set es \<subseteq> {None}"
  by (induction es rule: first_error.induct) auto

lemma requireStructFields_None:
  assumes "requireStructFields node fs prfx = None" "GoField goName tag typ \<in> set fs" "is_exported goName"
    and "hd (split_comma tag) \<noteq> ''''" "hd (split_comma tag) \<noteq> ''-''"
    and "\<not> List.member (tl (split_comma tag)) ''omitempty''"
  shows "yn_Kind node = MappingNode \<and> node_values node (hd (split_comma tag)) \<noteq> None"
proof -
  have "yn_Kind node = MappingNode" "require_field (node_values node) prfx (GoField goName tag typ) = None"
    using assms(1,2) by (auto simp: requireStructFields.simps first_error_None split: if_splits)
  with assms(3-) show ?thesis
    by (cases "node_values node (hd (split_comma tag))") (auto simp: require_field.simps Let_def split: if_splits)
qed

definition required_keys :: "string list" where
  "required_keys =
     [''addr'', ''log_level'', ''default_storage'', ''document_store'', ''sqlite_path'',
      ''deleted_sweep_interval'', ''allow_cors'', ''storages'', ''role'']"

lemma required_fields:
  "list_all (\<lambda>key. key \<noteq> [] \<and> key \<noteq> ''-'' \<and> list_ex (\<lambda>field. case field of
     GoField goName tag ty \<Rightarrow> is_exported goName \<and> split_comma tag = [key]) Config_fields) required_keys"
  by code_simp

lemma requireConfigFields_None:
  assumes "requireConfigFields Y data = None"
  shows "\<exists>node rest. ym_Content Y data = Inr (node # rest) \<and> yn_Kind node = MappingNode \<and>
    (\<forall>key \<in> set required_keys. node_values node key \<noteq> None)"
proof -
  obtain node rest where
    content: "ym_Content Y data = Inr (node # rest)"
    and none: "requireStructFields node Config_fields [] = None"
    using assms by (auto simp: requireConfigFields_def split: sum.splits list.splits)
  have "yn_Kind node = MappingNode"
    using none by (auto simp: requireStructFields.simps split: if_splits)
  moreover have "node_values node key \<noteq> None" if "key \<in> set required_keys" for key
  proof -
    from that required_fields obtain field where field: "field \<in> set Config_fields" "key \<noteq> ''''" "key \<noteq> ''-''"
      "case field of GoField goName tag ty \<Rightarrow> is_exported goName \<and> split_comma tag = [key]"
      by (auto simp: list_all_iff list_ex_iff)
    obtain goName tag ty where "field = GoField goName tag ty" by (cases field)
    with field show ?thesis using requireStructFields_None [OF none, of goName tag ty] by simp
  qed
  ultimately show ?thesis using content by blast
qed

section \<open>Configurations the program writes\<close>

definition scalar_node :: "string \<Rightarrow> yaml_node" where
  "scalar_node text = YamlNode ScalarNode ''!!str'' text []"

definition mapping_node :: "(string \<times> yaml_node) list \<Rightarrow> yaml_node" where
  "mapping_node pairs = YamlNode MappingNode ''!!map'' '''' (concat (map (\<lambda>(k, v). [scalar_node k, v]) pairs))"

text \<open>
  How a configuration is written: a mapping with the tags of the fields, where the S3 section of a storage is left
  out when there is none.  \<open>t\<close> gives the text of a value.
\<close>

definition s3_node :: "(string \<Rightarrow> string) \<Rightarrow> yaml_node" where
  "s3_node t = mapping_node (map (\<lambda>tag. (tag, scalar_node (t tag)))
     [''internal_endpoint'', ''endpoint'', ''bucket'', ''region'', ''access_key_id'', ''secret_access_key'',
      ''session_token'', ''use_path_style''])"

definition storage_node :: "(string \<Rightarrow> string) \<Rightarrow> ObjectStorageConfig \<Rightarrow> yaml_node" where
  "storage_node t c = mapping_node ((''type'', scalar_node (oc_Type c)) #
     (case oc_S3 c of None \<Rightarrow> [] | Some _ \<Rightarrow> [(''s3'', s3_node t)]))"

definition config_node :: "(string \<Rightarrow> string) \<Rightarrow> yaml_node \<Rightarrow> yaml_node \<Rightarrow> Config \<Rightarrow> yaml_node" where
  "config_node t allow roles cfg = mapping_node
     [(''addr'', scalar_node (cf_Addr cfg)), (''log_level'', scalar_node (t ''log_level'')),
      (''default_storage'', scalar_node (cf_DefaultStorageName cfg)),
      (''document_store'', scalar_node (cf_DocumentStore cfg)), (''sqlite_path'', scalar_node (cf_SQLitePath cfg)),
      (''deleted_sweep_interval'', scalar_node (t ''deleted_sweep_interval'')), (''allow_cors'', allow),
      (''storages'', mapping_node (map (\<lambda>(name, c). (name, storage_node t c)) (cf_Storages cfg))), (''role'', roles)]"

lemma mapping_node_sel [simp]: "yn_Kind (mapping_node ps) = MappingNode" "yn_Tag (mapping_node ps) = ''!!map''"
  by (simp_all add: mapping_node_def)

lemma node_pairs_mapping: "node_pairs (yn_Content (mapping_node ps)) = ps"
  by (induction ps) (auto simp: mapping_node_def scalar_node_def)

lemma node_values_mapping: "node_values (mapping_node ps) = map_of (rev ps)"
  by (simp add: node_values_def node_pairs_mapping)

lemma require_mapping:
  "requireStructFields (mapping_node ps) fs prfx = first_error (map (require_field (map_of (rev ps)) prfx) fs)"
  by (simp add: requireStructFields.simps node_values_mapping)

lemma s3_node_fields: "requireStructFields (s3_node t) (struct_fields S3Config_type) prfx = None"
  by (simp add: require_mapping require_field.simps S3Config_type_def s3_node_def Let_def is_exported_def)

lemma storage_node_fields: "requireStructFields (storage_node t c) (struct_fields ObjectStorageConfig_type) prfx = None"
proof -
  have "requireStructFields (s3_node t) (struct_fields S3Config_type) p = None" for p by (rule s3_node_fields)
  moreover have "yn_Tag (s3_node t) = ''!!map''" by (simp add: s3_node_def)
  ultimately show ?thesis
    by (simp add: require_mapping require_field.simps ObjectStorageConfig_type_def
        storage_node_def Let_def is_exported_def S3Config_type_def split: option.split)
qed

lemma field_types:
  "deref ObjectStorageConfig_type = ObjectStorageConfig_type" "deref Role_type = Role_type"
  "Role_type \<noteq> ObjectStorageConfig_type"
  by (simp_all add: ObjectStorageConfig_type_def Role_type_def)

lemma config_node_fields: "requireStructFields (config_node t allow roles cfg) Config_fields [] = None"
  by (simp add: require_mapping require_field.simps Config_fields_def config_node_def node_pairs_mapping Let_def
      is_exported_def field_types first_error_None)
    (auto simp: storage_node_fields)

lemma default_config_ok: "config_ok defaultConfig" "normalize_config defaultConfig = defaultConfig"
proof -
  have trim: "TrimSpace ''memory'' = ''memory''" "TrimSpace ''sqlite'' = ''sqlite''"
    by (simp_all add: TrimSpace_printable)
  have lower: "ToLower ''memory'' = ''memory''" "ToLower ''sqlite'' = ''sqlite''" by code_simp+
  show "config_ok defaultConfig"
    by (simp add: config_ok_def defaultConfig_def config_storages_ok_def config_storage_ok_def trim lower)
  show "normalize_config defaultConfig = defaultConfig"
    by (simp add: normalize_config_def defaultConfig_def normalize_entry_def trim lower MemoryStorageType_def)
qed


text \<open>
  What the YAML library owes: it reads what it wrote.  The order in which a loop meets the entries of a map may be
  another one.
\<close>

definition same_config :: "Config \<Rightarrow> Config \<Rightarrow> bool" where
  "same_config cfg cfg' \<longleftrightarrow>
     mset (cf_Storages cfg') = mset (cf_Storages cfg) \<and> mset (cf_Roles cfg') = mset (cf_Roles cfg) \<and>
     cfg' = cfg\<lparr>cf_Storages := cf_Storages cfg', cf_Roles := cf_Roles cfg'\<rparr>"

definition yaml_roundtrips :: "yaml_lib \<Rightarrow> bool" where
  "yaml_roundtrips Y \<longleftrightarrow>
     (\<forall>cfg data. ym_Marshal Y cfg = Inr data \<longrightarrow>
        (\<exists>cfg'. ym_Decode Y True zero_Config data = Inr cfg' \<and> same_config cfg cfg') \<and>
        (\<exists>t allow roles. ym_Content Y data = Inr [config_node t allow roles cfg]))"

text \<open>What the file system owes: a file that was written is read as it was written.\<close>

definition files_roundtrip :: "'f file_ops \<Rightarrow> bool" where
  "files_roundtrip ops \<longleftrightarrow>
     (\<forall>path data mode f f'. fo_WriteFile ops path data mode f = (None, f') \<longrightarrow> fo_ReadFile ops path f' = Inr data) \<and>
     (\<forall>path mode f f'. fo_Chmod ops path mode f = (None, f') \<longrightarrow> (\<forall>p. fo_ReadFile ops p f' = fo_ReadFile ops p f))"

lemma same_config_ok:
  assumes "same_config cfg cfg'"
  shows "config_ok (normalize_config cfg') = config_ok (normalize_config cfg)"
proof -
  have storages: "mset (cf_Storages cfg') = mset (cf_Storages cfg)"
    and rest: "cfg' = cfg\<lparr>cf_Storages := cf_Storages cfg', cf_Roles := cf_Roles cfg'\<rparr>"
    using assms by (auto simp: same_config_def)
  have fields: "cf_DefaultStorageName cfg' = cf_DefaultStorageName cfg" "cf_DocumentStore cfg' = cf_DocumentStore cfg"
    "cf_DeletedSweepInterval cfg' = cf_DeletedSweepInterval cfg"
    by (subst rest, simp)+
  have "mset (map normalize_entry (cf_Storages cfg')) = mset (map normalize_entry (cf_Storages cfg))"
    using storages by simp
  note perm = config_storages_perm [OF this] mset_eq_setD [OF this]
  show ?thesis
    using perm by (simp add: config_ok_def normalize_config_def fields del: set_map)
qed

lemma written_config:
  assumes Y: "yaml_roundtrips Y" and data: "ym_Marshal Y cfg = Inr data" "fo_ReadFile ops path f = Inr data"
  shows "is_ok (readConfig Y ops path f) \<longleftrightarrow> config_ok (normalize_config cfg)"
    and "readConfig Y ops path f = Inr c \<Longrightarrow> \<exists>cfg'. same_config cfg cfg' \<and> c = normalize_config cfg'"
proof -
  obtain cfg' t allow roles where decode: "ym_Decode Y True zero_Config data = Inr cfg'" "same_config cfg cfg'"
    and node: "ym_Content Y data = Inr [config_node t allow roles cfg]"
    using Y data(1) unfolding yaml_roundtrips_def by blast
  have "requireConfigFields Y data = None" by (simp add: requireConfigFields_def node config_node_fields)
  then have read: "readConfig Y ops path f = Inr c \<longleftrightarrow> c = normalize_config cfg' \<and> config_ok c" for c
    by (simp add: readConfig_iff data(2) decode(1))
  then show "is_ok (readConfig Y ops path f) \<longleftrightarrow> config_ok (normalize_config cfg)"
    using same_config_ok [OF decode(2)] by (auto simp: is_ok_iff)
  show "\<exists>cfg'. same_config cfg cfg' \<and> c = normalize_config cfg'" if "readConfig Y ops path f = Inr c"
    using read that decode(2) by blast
qed

lemma default_config_read:
  assumes "yaml_roundtrips Y" "ym_Marshal Y defaultConfig = Inr data" "fo_ReadFile ops path f = Inr data"
  shows "readConfig Y ops path f = Inr defaultConfig"
proof -
  have "is_ok (readConfig Y ops path f)"
    using written_config(1) [OF assms] default_config_ok by simp
  then obtain c where c: "readConfig Y ops path f = Inr c" by (auto simp: is_ok_iff)
  from written_config(2) [OF assms this] obtain cfg' where same: "same_config defaultConfig cfg'" "c = normalize_config cfg'"
    by blast
  have "cf_Storages cfg' = cf_Storages defaultConfig" "cf_Roles cfg' = cf_Roles defaultConfig"
    using same(1) by (auto simp: same_config_def defaultConfig_def)
  moreover have "cfg' = defaultConfig\<lparr>cf_Storages := cf_Storages cfg', cf_Roles := cf_Roles cfg'\<rparr>"
    using same(1) unfolding same_config_def by blast
  ultimately have "cfg' = defaultConfig" by simp
  with c same(2) default_config_ok show ?thesis by simp
qed

text \<open>What the merge tool writes is its default configuration with what the input says on top.\<close>

lemma merged_config:
  assumes "config_merge_main Y ops stdin stdout inp outp (out, f) = (None, out', f')" "outp \<noteq> ''-''" "files_roundtrip ops"
  shows "\<exists>input cfg data. readInput ops stdin inp f = Inr input \<and>
    (ym_Decode Y True Default input = Inr cfg \<or> ym_Decode Y True Default input = Inl YamlEOF \<and> cfg = Default) \<and>
    ym_Marshal Y cfg = Inr data \<and> fo_ReadFile ops outp f' = Inr data"
proof -
  obtain input data where input: "readInput ops stdin inp f = Inr input" and merge: "mergeConfig Y input = Inr data"
    and wrote: "writeOutput ops stdout outp data (out, f) = (Inr (), out', f')"
    using assms(1) by (auto simp: config_merge_main_def split: sum.splits prod.splits)
  obtain f1 where "fo_WriteFile ops outp data 384 f = (None, f1)" "fo_Chmod ops outp 384 f1 = (None, f')"
    using wrote assms(2) by (auto simp: writeOutput_def split: option.splits prod.splits)
  with assms(3) have read: "fo_ReadFile ops outp f' = Inr data" unfolding files_roundtrip_def by metis
  obtain cfg where "ym_Decode Y True Default input = Inr cfg \<or> ym_Decode Y True Default input = Inl YamlEOF \<and> cfg = Default"
      "ym_Marshal Y cfg = Inr data"
    using merge by (auto simp: mergeConfig_def Let_def split: sum.splits yaml_error.splits)
  with input read show ?thesis by blast
qed

section \<open>A YAML library and a file system\<close>

text \<open>A library that knows one text, that of the configuration \<open>cfg\<close>, and files as a map.\<close>

definition sample_yaml :: "Config \<Rightarrow> yaml_lib" where
  "sample_yaml cfg =
     \<lparr>ym_Decode = (\<lambda>known old data. if data = ''config'' then Inr cfg else Inl (YamlError ''bad'')),
      ym_Content = (\<lambda>data. if data = ''config'' then Inr [config_node (\<lambda>_. '''') (mapping_node []) (mapping_node []) cfg] else Inr []),
      ym_Marshal = (\<lambda>c. if c = cfg then Inr ''config'' else Inl (YamlError ''other''))\<rparr>"

definition sample_files :: "(string \<Rightarrow> string option) file_ops" where
  "sample_files =
     \<lparr>fo_ReadFile = (\<lambda>path f. case f path of
        None \<Rightarrow> Inl (ErrWrap ''open: '' os_ErrNotExist '''') | Some data \<Rightarrow> Inr data),
      fo_WriteFile = (\<lambda>path data mode f. (None, f(path \<mapsto> data))), fo_Chmod = (\<lambda>path mode f. (None, f))\<rparr>"

definition memory_config :: Config where
  "memory_config = defaultConfig\<lparr>cf_DocumentStore := ''memory''\<rparr>"

lemma memory_config_ok: "config_ok memory_config" "normalize_config memory_config = memory_config"
proof -
  have "ToLower ''memory'' = ''memory''" by code_simp
  with default_config_ok show "config_ok memory_config" "normalize_config memory_config = memory_config"
    by (simp_all add: memory_config_def config_ok_def normalize_config_def defaultConfig_def TrimSpace_printable)
qed

lemma sample_yaml_reads:
  assumes "f configFileName = Some ''config''" "config_ok cfg" "normalize_config cfg = cfg"
  shows "readConfig (sample_yaml cfg) sample_files configFileName f = Inr cfg"
  using assms by (auto simp: readConfig_iff sample_files_def sample_yaml_def requireConfigFields_def config_node_fields)

lemma sample_yaml_roundtrips: "yaml_roundtrips (sample_yaml cfg)"
  by (auto simp: yaml_roundtrips_def sample_yaml_def same_config_def split: if_splits)

lemma sample_files_roundtrip: "files_roundtrip sample_files"
  by (simp add: files_roundtrip_def sample_files_def)

end
