(* ===== verification/S3Proofs.thy ===== *)
theory S3Proofs
  imports S3Store HitomiLive
begin

text \<open>
  Under the laws of the service \<open>S3Store\<close> keeps every contract of an object storage: the archive flow, the
  purge and the sources work on it as they do on the storage in memory.  What happens when the service
  answers \<^verbatim>\<open>NoSuchKey\<close> to a deletion, as some services do, is shown as well.
\<close>

section \<open>Deleting keys\<close>

lemma later_live_iff: "live ctx \<Longrightarrow> live (later ctx n)"
  by (simp add: later_live)

lemma not_live_later: "\<not> live (later ctx n) \<Longrightarrow> \<not> live ctx"
  using later_live_iff by blast

lemma ctx_error: "ctx n = Some e \<Longrightarrow> \<not> live ctx"
  by (auto simp: live_def)

lemma s3_get_law:
  "s3_read_law cl b stored \<Longrightarrow>
   case s3_GetObject cl ctx b key s of
     Inr out \<Rightarrow> stored s key = Some out
   | Inl err \<Rightarrow> live ctx \<longrightarrow> stored s key = None"
  unfolding s3_read_law_def by (drule conjunct1, drule spec, drule spec, drule spec)

lemma s3_head_law:
  "s3_read_law cl b stored \<Longrightarrow>
   case s3_HeadObject cl ctx b key s of
     Inr h \<Rightarrow> \<exists>content. stored s key = Some (h, content)
   | Inl err \<Rightarrow> live ctx \<longrightarrow> stored s key = None \<and> not_found err"
  unfolding s3_read_law_def by (drule conjunct2, drule spec, drule spec, drule spec)

lemma s3_other_error [simp]: "errors_Is (ErrExternal e) ErrObjectNotFound = False"
  "errors_Is (ErrText e) ErrObjectNotFound = False"
  by simp_all

definition s3_shrinks where
  "s3_shrinks stored keys s s' \<longleftrightarrow>
     (\<forall>k. stored s' k = stored s k \<or> stored s' k = None \<and> k \<in> keys)"

lemma s3_shrinksD: "s3_shrinks stored keys s s' \<Longrightarrow> stored s' k = stored s k \<or> stored s' k = None \<and> k \<in> keys"
  by (simp add: s3_shrinks_def)

lemma s3_shrinks_contents: "s3_shrinks stored keys s s' \<Longrightarrow>
    s3_contents stored s' k = s3_contents stored s k \<or> s3_contents stored s' k = None \<and> k \<in> keys"
  by (drule s3_shrinksD [where k = k]) (auto simp: s3_contents_def)

lemma s3_delete_object:
  assumes "s3_delete_law cl (ss_bucket st) stored" "key \<noteq> ''''" "S3Store_DeleteObject cl st ctx key s = (r, s')"
  shows "(case r of
      Inr u \<Rightarrow> stored s' = (stored s)(key := None)
    | Inl e \<Rightarrow> stored s' = stored s \<and> \<not> live ctx \<and> \<not> errors_Is e ErrObjectNotFound)"
proof -
  obtain r1 s1 where del: "s3_DeleteObject cl (later ctx 1) (ss_bucket st) key s = (r1, s1)" by force
  have "case s3_DeleteObject cl (later ctx 1) (ss_bucket st) key s of
      (Inr u, s') \<Rightarrow> stored s' = (stored s)(key := None)
    | (Inl err, s') \<Rightarrow> stored s' = stored s \<and> \<not> live (later ctx 1) \<and> \<not> not_found err"
    by (rule assms(1) [unfolded s3_delete_law_def, THEN spec, THEN spec, THEN spec])
  with assms(2,3) del show ?thesis
    by (cases r1) (auto simp: S3Store_DeleteObject_def not_found_def dest: not_live_later ctx_error
        split: option.splits)
qed

lemma s3_delete_keys:
  assumes "s3_delete_law cl (ss_bucket st) stored" "'''' \<notin> set keys" "delete_keys cl st ctx n keys s = (r, s')"
  shows "(case r of
      Inr u \<Rightarrow> stored s' = (\<lambda>k. if k \<in> set keys then None else stored s k)
    | Inl e \<Rightarrow> s3_shrinks stored (set keys) s s' \<and> \<not> live ctx \<and> \<not> errors_Is e ErrObjectNotFound)"
  using assms(2,3)
proof (induction keys arbitrary: n s)
  case (Cons key keys)
  obtain r1 s1 where del: "S3Store_DeleteObject cl st (later ctx n) key s = (r1, s1)" by force
  have "key \<noteq> ''''" using Cons.prems(1) by auto
  note first = s3_delete_object [OF assms(1) this del]
  show ?case
  proof (cases r1)
    case (Inl e)
    with del Cons.prems(2) first show ?thesis
      by (auto simp: s3_shrinks_def dest: later_live_iff)
  next
    case (Inr u)
    with del Cons.prems(2) have rest: "delete_keys cl st ctx (n + 2) keys s1 = (r, s')" by simp
    have "'''' \<notin> set keys" using Cons.prems(1) by simp
    note IH = Cons.IH [OF this rest]
    show ?thesis
    proof (cases r)
      case (Inl e)
      with IH have shrinks: "s3_shrinks stored (set keys) s1 s'" by simp
      have "stored s' k = stored s k \<or> stored s' k = None \<and> k \<in> set (key # keys)" for k
        using s3_shrinksD [OF shrinks, of k] first Inr by (auto split: if_splits)
      with IH Inl show ?thesis by (simp add: s3_shrinks_def)
    qed (use IH first Inr in \<open>auto simp: fun_eq_iff\<close>)
  qed
qed (auto simp: s3_shrinks_def)

text \<open>The keys that are collected.\<close>

lemma collect_keys_ok:
  "collect_keys pages keys = Inr ks \<Longrightarrow>
   (\<forall>err. Inl err \<notin> set pages) \<and>
   set ks = set keys \<union> {k. k \<noteq> '''' \<and> (\<exists>page. Inr page \<in> set pages \<and> Some k \<in> set page)}"
proof (induction pages arbitrary: keys)
  case (Cons page pages)
  then obtain contents where page: "page = Inr contents"
    and rest: "collect_keys pages (keys @ filter (\<lambda>key. key \<noteq> '''')
      (map (\<lambda>key. case key of None \<Rightarrow> '''' | Some k \<Rightarrow> k) contents)) = Inr ks"
    by (auto split: sum.splits)
  from Cons.IH [OF rest] page show ?case
    by (auto simp: image_iff split: option.splits)
qed simp

lemma collect_keys_error: "collect_keys pages keys = Inl e \<Longrightarrow> \<exists>err. Inl err \<in> set pages \<and> e = normalizeS3Error err"
  by (induction pages arbitrary: keys) (auto split: sum.splits)

lemma s3_delete_prefix:
  assumes laws: "s3_laws cl (ss_bucket st) stored" and legal: "s3_legal_key prfx"
    and run: "S3Store_DeletePrefix cl st ctx prfx s = (r, s')"
  shows "(case r of
      Inr u \<Rightarrow> stored s' = (\<lambda>k. if prefix prfx k then None else stored s k)
    | Inl e \<Rightarrow> s3_shrinks stored {k. prefix prfx k} s s' \<and> \<not> live ctx \<and> \<not> errors_Is e ErrObjectNotFound)"
proof (cases "ctx 0")
  case (Some e)
  then have "\<not> live ctx" by (auto simp: live_def)
  with Some show ?thesis using run by (auto simp: S3Store_DeletePrefix_def s3_shrinks_def)
next
  case None
  let ?pages = "s3_ListPages cl (later ctx 1) (ss_bucket st) prfx s"
  have prfx: "TrimSpace prfx = prfx" "prfx \<noteq> ''''" using legal by (simp_all add: s3_legal_key_def)
  have list_law: "(\<forall>err. Inl err \<in> set ?pages \<longrightarrow> \<not> live (later ctx 1) \<and> \<not> not_found err)"
    "(\<forall>err. Inl err \<notin> set ?pages) \<Longrightarrow>
      (\<exists>page. Inr page \<in> set ?pages \<and> Some key \<in> set page) \<longleftrightarrow> prefix prfx key \<and> stored s key \<noteq> None" for key
    using laws unfolding s3_laws_def s3_list_law_def by blast+
  show ?thesis
  proof (cases "collect_keys ?pages []")
    case (Inl e)
    from collect_keys_error [OF Inl] list_law(1) obtain err where
      "e = normalizeS3Error err" "\<not> live (later ctx 1)" "\<not> not_found err" by blast
    with run None Inl prfx show ?thesis
      by (auto simp: S3Store_DeletePrefix_def not_found_def s3_shrinks_def dest: later_live_iff)
  next
    case (Inr keys)
    from collect_keys_ok [OF Inr] have ok: "\<forall>err. Inl err \<notin> set ?pages"
      and keys: "set keys = {k. k \<noteq> '''' \<and> (\<exists>page. Inr page \<in> set ?pages \<and> Some k \<in> set page)}" by auto
    have "set keys = {k. k \<noteq> '''' \<and> prefix prfx k \<and> stored s k \<noteq> None}"
      unfolding keys list_law(2) [OF ok] by simp
    also have "\<dots> = {k. prefix prfx k \<and> stored s k \<noteq> None}" using prfx(2) by auto
    finally have keys': "set keys = {k. prefix prfx k \<and> stored s k \<noteq> None}" .
    have del: "s3_delete_law cl (ss_bucket st) stored" using laws by (simp add: s3_laws_def)
    have "'''' \<notin> set keys" using keys' prfx(2) by auto
    from s3_delete_keys [OF del this, of ctx 2 s r s'] run None Inr prfx
    have res: "case r of
        Inr u \<Rightarrow> stored s' = (\<lambda>k. if k \<in> set keys then None else stored s k)
      | Inl e \<Rightarrow> s3_shrinks stored (set keys) s s' \<and> \<not> live ctx \<and> \<not> errors_Is e ErrObjectNotFound"
      by (simp add: S3Store_DeletePrefix_def)
    show ?thesis
    proof (cases r)
      case (Inl e)
      with res keys' show ?thesis by (auto simp: s3_shrinks_def)
    next
      case (Inr u)
      have "k \<in> set keys \<longleftrightarrow> prefix prfx k \<and> stored s k \<noteq> None" for k using keys' by blast
      with res Inr show ?thesis by (auto simp: fun_eq_iff simp del: not_None_eq not_Some_eq)
    qed
  qed
qed

section \<open>The contracts\<close>

lemma s3_store_sel:
  "os_PutObject (s3_store sdk st) = S3Store_PutObject (sdk (ss_client st)) st"
  "os_GetObject (s3_store sdk st) = S3Store_GetObject (sdk (ss_client st)) st"
  "os_HeadObject (s3_store sdk st) = S3Store_HeadObject (sdk (ss_client st)) st"
  "os_DeletePrefix (s3_store sdk st) = S3Store_DeletePrefix (sdk (ss_client st)) st"
  by (simp_all add: s3_store_def Let_def)

text \<open>What a put does: nothing, or the object with the tag.\<close>

lemma s3_put_cases:
  assumes "s3_put_law cl (ss_bucket st) stored" "S3Store_PutObject cl st ctx info body s = (r, s')"
  obtains (failed) e where "r = Inl e" "stored s' = stored s"
      "\<And>content. body = Some (Inr content) \<Longrightarrow> live ctx \<Longrightarrow> oi_Key info \<noteq> '''' \<Longrightarrow>
        oi_Size info \<ge> 0 \<and> oi_Size info \<noteq> int (length content)"
    | (done') info' h content where "r = Inr info'" "body = Some (Inr content)"
      "stored s' = (stored s)(oi_Key info \<mapsto> (h, content))" "oi_Key info' = oi_Key info" "oi_ETag info' \<noteq> ''''"
      "oi_ETag info \<noteq> '''' \<Longrightarrow> metadataValue (hd_Metadata h) s3ObjectETagMetadataKey = oi_ETag info"
proof (cases "ctx 0 = None \<and> oi_Key info \<noteq> '''' \<and> (\<exists>content. body = Some (Inr content))")
  case False
  then obtain e where e: "r = Inl e" "s' = s"
    using assms(2) by (auto simp: S3Store_PutObject_def split: option.splits sum.splits if_splits)
  show ?thesis
  proof (rule failed [OF e(1)])
    show "stored s' = stored s" using e(2) by simp
    show "oi_Size info \<ge> 0 \<and> oi_Size info \<noteq> int (length content)"
      if "body = Some (Inr content)" "live ctx" "oi_Key info \<noteq> ''''" for content
      using False that by (simp add: live_def)
  qed
next
  case True
  then obtain content where body: "body = Some (Inr content)" by blast
  let ?in = "s3_put_input_of st info"
  obtain r1 s1 where put: "s3_PutObject cl (later ctx 1) ?in content s = (r1, s1)" by force
  have law: "case s3_PutObject cl (later ctx 1) ?in content s of
      (Inr etag, s') \<Rightarrow> (\<exists>h. stored s' = (stored s)(si_Key ?in \<mapsto> (h, content)) \<and>
        metadataValue (hd_Metadata h) s3ObjectETagMetadataKey = metadataValue (si_Metadata ?in) s3ObjectETagMetadataKey)
    | (Inl err, s') \<Rightarrow> stored s' = stored s \<and>
        (live (later ctx 1) \<longrightarrow> (\<exists>n. si_ContentLength ?in = Some n \<and> n \<noteq> int (length content)))"
    by (rule assms(1) [unfolded s3_put_law_def, THEN spec, THEN spec, THEN spec, THEN spec, THEN mp])
      (use True in \<open>simp add: s3_put_input_of_def\<close>)
  show ?thesis
  proof (cases r1)
    case (Inl err)
    with put law assms(2) body True show ?thesis
      by (intro failed) (auto simp: S3Store_PutObject_def s3_put_input_of_def dest: later_live_iff split: if_splits)
  next
    case (Inr etag)
    with put law obtain h where h: "stored s1 = (stored s)(oi_Key info \<mapsto> (h, content))"
      "metadataValue (hd_Metadata h) s3ObjectETagMetadataKey = metadataValue (si_Metadata ?in) s3ObjectETagMetadataKey"
      by (auto simp: s3_put_input_of_def)
    from put Inr assms(2) body True obtain info' where info': "r = Inr info'" "s' = s1"
      "oi_Key info' = oi_Key info" "oi_ETag info' \<noteq> ''''"
      by (auto simp: S3Store_PutObject_def Let_def objectETag_def split: if_splits)
    show ?thesis
      using done' [OF info'(1) body _ info'(3,4)] h info'(2) by (simp add: s3_put_input_of_def)
  qed
qed

lemma s3_object_store:
  assumes laws: "s3_laws (sdk (ss_client st)) (ss_bucket st) stored"
  shows "object_store (s3_store sdk st) (s3_contents stored) s3_legal_key"
proof
  let ?cl = "sdk (ss_client st)"
  have put: "s3_put_law ?cl (ss_bucket st) stored" and read: "s3_read_law ?cl (ss_bucket st) stored"
    using laws by (simp_all add: s3_laws_def)
  show "key \<noteq> ''''" if "s3_legal_key key" for key using that by (simp add: s3_legal_key_def)
  fix ctx :: ctx and s
  show "case os_PutObject (s3_store sdk st) ctx info (Some (Inr content)) s of
      (Inl e, s') \<Rightarrow> live ctx \<and> s3_legal_key (oi_Key info) \<longrightarrow> oi_Size info \<ge> 0 \<and> oi_Size info \<noteq> int (length content)
    | (Inr info', s') \<Rightarrow> s3_contents stored s' = (s3_contents stored s)(oi_Key info \<mapsto> content) \<and>
        oi_Key info' = oi_Key info \<and> oi_ETag info' \<noteq> ''''" for info content
  proof -
    obtain r s' where run: "S3Store_PutObject ?cl st ctx info (Some (Inr content)) s = (r, s')" by force
    from put run show ?thesis
      by (cases rule: s3_put_cases)
        (use run in \<open>auto simp: s3_store_sel s3_legal_key_def s3_contents_def fun_eq_iff\<close>)
  qed
  show "s3_contents stored s' k = s3_contents stored s k"
    if "os_PutObject (s3_store sdk st) ctx info body s = (r, s')" "k \<noteq> oi_Key info" for info body r s' k
    using put that(1) [unfolded s3_store_sel]
    by (cases rule: s3_put_cases) (use that(2) in \<open>auto simp: s3_contents_def\<close>)
  show "case os_GetObject (s3_store sdk st) ctx key s of
      Inl e \<Rightarrow> live ctx \<and> s3_legal_key key \<longrightarrow> s3_contents stored s key = None
    | Inr object \<Rightarrow> s3_contents stored s key = Some (ob_Body object)" for key
  proof -
    have "case s3_GetObject ?cl (later ctx 1) (ss_bucket st) key s of
        Inr out \<Rightarrow> stored s key = Some out | Inl err \<Rightarrow> live (later ctx 1) \<longrightarrow> stored s key = None"
      by (rule s3_get_law [OF read])
    then show ?thesis
      by (auto simp: s3_store_sel S3Store_GetObject_def s3_contents_def s3_legal_key_def
          dest: ctx_error later_live_iff [where n = 1] split: sum.splits option.splits)
  qed
  show "case os_HeadObject (s3_store sdk st) ctx key s of
      Inl e \<Rightarrow> live ctx \<and> s3_legal_key key \<longrightarrow> s3_contents stored s key = None \<and> errors_Is e ErrObjectNotFound
    | Inr info \<Rightarrow> s3_contents stored s key \<noteq> None" for key
  proof -
    have "case s3_HeadObject ?cl (later ctx 1) (ss_bucket st) key s of
        Inr h \<Rightarrow> \<exists>content. stored s key = Some (h, content)
      | Inl err \<Rightarrow> live (later ctx 1) \<longrightarrow> stored s key = None \<and> not_found err"
      by (rule s3_head_law [OF read])
    then show ?thesis
      by (auto simp: s3_store_sel S3Store_HeadObject_def s3_contents_def s3_legal_key_def not_found_def
          dest: ctx_error later_live_iff [where n = 1] split: sum.splits option.splits)
  qed
  show "case os_DeletePrefix (s3_store sdk st) ctx prfx s of
      (Inl e, s') \<Rightarrow> (\<forall>k. s3_contents stored s' k = s3_contents stored s k \<or>
          s3_contents stored s' k = None \<and> prefix prfx k) \<and> (live ctx \<longrightarrow> errors_Is e ErrObjectNotFound)
    | (Inr u, s') \<Rightarrow> s3_contents stored s' = (\<lambda>k. if prefix prfx k then None else s3_contents stored s k)"
    if "s3_legal_key prfx" for prfx
  proof -
    obtain r s' where run: "S3Store_DeletePrefix ?cl st ctx prfx s = (r, s')" by force
    show ?thesis
    proof (cases r)
      case (Inl e)
      then show ?thesis
        using s3_delete_prefix [OF laws that run] run s3_shrinks_contents [of stored "{k. prefix prfx k}" s s']
        by (auto simp: s3_store_sel)
    next
      case (Inr u)
      then show ?thesis
        using s3_delete_prefix [OF laws that run] run by (simp add: s3_store_sel s3_contents_def fun_eq_iff)
    qed
  qed
qed

lemma s3_complete:
  assumes "s3_laws (sdk (ss_client st)) (ss_bucket st) stored"
  shows "complete_object_store (s3_store sdk st) (s3_contents stored) s3_legal_key"
proof (intro complete_object_store.intro complete_object_store_axioms.intro s3_object_store [where sdk = sdk and st = st, OF assms])
  fix prfx key :: string and ctx s e s'
  assume "s3_legal_key prfx" "os_DeletePrefix (s3_store sdk st) ctx prfx s = (Inl e, s')" "errors_Is e ErrObjectNotFound"
  then show "s3_contents stored s' key = None"
    using s3_delete_prefix [OF assms, of prfx ctx s "Inl e" s'] by (simp add: s3_store_sel)
qed

lemma s3_growing:
  assumes laws: "s3_laws (sdk (ss_client st)) (ss_bucket st) stored"
  shows "growing_object_store (s3_store sdk st) (s3_contents stored) s3_legal_key"
proof (intro growing_object_store.intro growing_object_store_axioms.intro s3_object_store [where sdk = sdk and st = st, OF laws])
  fix s key ctx info body
  assume some: "s3_contents stored s key \<noteq> None"
  obtain r s' where run: "S3Store_PutObject (sdk (ss_client st)) st ctx info body s = (r, s')" by force
  have "s3_put_law (sdk (ss_client st)) (ss_bucket st) stored" using laws by (simp add: s3_laws_def)
  from this run have "s3_contents stored s' key \<noteq> None"
    by (cases rule: s3_put_cases) (use some in \<open>auto simp: s3_contents_def\<close>)
  then show "s3_contents stored (snd (os_PutObject (s3_store sdk st) ctx info body s)) key \<noteq> None"
    using run by (simp add: s3_store_sel)
qed

lemma s3_tagging:
  assumes laws: "s3_laws (sdk (ss_client st)) (ss_bucket st) stored"
  shows "tagging_object_store (s3_store sdk st) (s3_contents stored) s3_legal_key (s3_tag stored)"
proof (intro tagging_object_store.intro tagging_object_store_axioms.intro s3_object_store [where sdk = sdk and st = st, OF laws])
  fix ctx key s info
  let ?cl = "sdk (ss_client st)"
  have "s3_read_law ?cl (ss_bucket st) stored" using laws by (simp add: s3_laws_def)
  then have "case s3_HeadObject ?cl (later ctx 1) (ss_bucket st) key s of
      Inr h \<Rightarrow> \<exists>content. stored s key = Some (h, content)
    | Inl err \<Rightarrow> live (later ctx 1) \<longrightarrow> stored s key = None \<and> not_found err"
    by (rule s3_head_law)
  moreover assume "os_HeadObject (s3_store sdk st) ctx key s = Inr info"
  ultimately show "s3_tag stored s key = Some (oi_ETag info)"
    by (auto simp: s3_store_sel S3Store_HeadObject_def s3_tag_def objectInfoFromHeaders_def
        split: option.splits sum.splits if_splits)
next
  fix ctx info body s info' s'
  have put: "s3_put_law (sdk (ss_client st)) (ss_bucket st) stored" using laws by (simp add: s3_laws_def)
  assume run: "os_PutObject (s3_store sdk st) ctx info body s = (Inr info', s')" and tag: "oi_ETag info \<noteq> ''''"
  from put run [unfolded s3_store_sel] show "s3_tag stored s' = (s3_tag stored s)(oi_Key info \<mapsto> oi_ETag info)"
    by (cases rule: s3_put_cases)
      (use tag in \<open>auto simp: s3_tag_def fun_eq_iff objectETagFromHeaders_def\<close>)
qed

section \<open>A listing that is out of date\<close>

text \<open>
  When the service answers \<^verbatim>\<open>NoSuchKey\<close> to the deletion of a listed key, the remaining keys are not deleted.
\<close>

lemma s3_delete_stops:
  assumes "live ctx" "s3_legal_key prfx"
    and "collect_keys (s3_ListPages cl ctx (ss_bucket st) prfx s) [] = Inr (key # keys)" "key \<noteq> ''''"
    and "s3_DeleteObject cl ctx (ss_bucket st) key s = (Inl err, s')" "not_found err"
  shows "\<exists>e. S3Store_DeletePrefix cl st ctx prfx s = (Inl e, s') \<and> errors_Is e ErrObjectNotFound"
  using assms by (auto simp: S3Store_DeletePrefix_def S3Store_DeleteObject_def later_live s3_legal_key_def
      not_found_def live_def split: option.splits)

section \<open>A bucket\<close>

text \<open>
  A bucket that keeps the laws, and one whose listing still names a key that is gone and that answers
  \<^verbatim>\<open>NoSuchKey\<close> to its deletion.
\<close>

type_synonym bucket = "(string \<times> s3_headers \<times> string) list"

definition bucket_stored :: "bucket \<Rightarrow> string \<Rightarrow> (s3_headers \<times> string) option" where
  "bucket_stored s key = (if key = '''' then None else map_of s key)"

definition sample_s3 :: "bucket s3_client" where
  "sample_s3 =
     \<lparr>s3_DeleteObject = (\<lambda>ctx b key s. (Inr (), filter (\<lambda>(k, v). k \<noteq> key) s)),
      s3_PutObject = (\<lambda>ctx input content s.
        (if si_ContentLength input \<noteq> None \<and> si_ContentLength input \<noteq> Some (int (length content))
         then (Inl (TransportError ''length''), s)
         else (Inr None, (si_Key input,
           \<lparr>hd_ContentLength = Some (int (length content)), hd_ContentType = si_ContentType input,
            hd_ETag = None, hd_Metadata = si_Metadata input\<rparr>, content) # s))),
      s3_GetObject = (\<lambda>ctx b key s.
        (case bucket_stored s key of None \<Rightarrow> Inl (NoSuchKey key) | Some out \<Rightarrow> Inr out)),
      s3_HeadObject = (\<lambda>ctx b key s.
        (case bucket_stored s key of None \<Rightarrow> Inl (APIError ''NotFound'' key) | Some (h, content) \<Rightarrow> Inr h)),
      s3_ListPages = (\<lambda>ctx b prfx s.
        [Inr (map (\<lambda>(k, v). Some k) (filter (\<lambda>(k, v). k \<noteq> '''' \<and> prefix prfx k) s))]),
      s3_PresignGetObject = (\<lambda>ctx b key ttl. Inr key)\<rparr>"

lemma sample_s3_laws: "s3_laws sample_s3 b bucket_stored"
proof -
  have gone: "map_of (filter (\<lambda>(k, v). k \<noteq> key) s) = (map_of s)(key := None)" for key and s :: bucket
    by (induction s) (auto simp: fun_eq_iff)
  have listed: "(\<exists>v. (key, v) \<in> set s) \<longleftrightarrow> map_of s key \<noteq> None" for key and s :: bucket
    by (force simp: map_of_eq_None_iff)
  have "s3_put_law sample_s3 b bucket_stored"
    by (auto simp: s3_put_law_def sample_s3_def bucket_stored_def fun_eq_iff)
  moreover have "s3_read_law sample_s3 b bucket_stored"
    by (auto simp: s3_read_law_def sample_s3_def not_found_def normalizeS3Error_def split: option.splits)
  moreover have "s3_delete_law sample_s3 b bucket_stored"
    by (auto simp: s3_delete_law_def sample_s3_def bucket_stored_def fun_eq_iff gone)
  moreover have "s3_list_law sample_s3 b bucket_stored"
  proof -
    have "Some key \<in> set (map (\<lambda>(k, v). Some k) (filter (\<lambda>(k, v). k \<noteq> '''' \<and> prefix prfx k) s)) \<longleftrightarrow>
        prefix prfx key \<and> bucket_stored s key \<noteq> None" for key prfx and s :: bucket
    proof -
      have "Some key \<in> set (map (\<lambda>(k, v). Some k) (filter (\<lambda>(k, v). k \<noteq> '''' \<and> prefix prfx k) s)) \<longleftrightarrow>
          key \<noteq> '''' \<and> prefix prfx key \<and> (\<exists>v. (key, v) \<in> set s)"
        by (induction s) auto
      then show ?thesis unfolding listed by (auto simp: bucket_stored_def)
    qed
    then show ?thesis by (simp add: s3_list_law_def sample_s3_def)
  qed
  ultimately show ?thesis by (simp add: s3_laws_def bucket_stored_def)
qed

definition sample_s3_config :: S3Config where
  "sample_s3_config =
     \<lparr>s3c_InternalEndpoint = '''', s3c_Endpoint = '''', s3c_Bucket = ''archive'', s3c_Region = ''us-east-1'',
      s3c_AccessKeyID = ''id'', s3c_SecretAccessKey = ''secret'', s3c_SessionToken = '''', s3c_UsePathStyle = False\<rparr>"

definition sample_s3_store :: S3Store where
  "sample_s3_store = projr (NewS3Store ''remote'' sample_s3_config)"

definition stale_s3 :: "bucket s3_client" where
  "stale_s3 = sample_s3\<lparr>
     s3_DeleteObject := (\<lambda>ctx b key s.
       (if bucket_stored s key = None then (Inl (NoSuchKey key), s)
        else (Inr (), filter (\<lambda>(k, v). k \<noteq> key) s))),
     s3_ListPages := (\<lambda>ctx b prfx s. [Inr (map Some ((prfx @ ''gone'') # map fst s))])\<rparr>"

end
