(* ===== verification/Server.thy ===== *)
theory Server
  imports ConfigProofs JmHandler S3Proofs SqlOpen MemStore
begin

text \<open>
  The wiring of the program, \<^verbatim>\<open>cmd/server/main.go\<close>: the document store and the object storages that a
  configuration names, the two source factories, and the application made of them.  The states of all
  storages have one type, a pair with one half for each kind of storage, of which a storage uses its own;
  and so have the states of the two document stores.  What \<open>main\<close> does afterwards is in \<open>SystemRun\<close>.
\<close>

section \<open>Stores inside a larger state\<close>

definition lift_objects :: "('a \<Rightarrow> 'b) \<Rightarrow> ('b \<Rightarrow> 'a \<Rightarrow> 'a) \<Rightarrow> 'b ObjectStore \<Rightarrow> 'a ObjectStore" where
  "lift_objects get put Obj =
     \<lparr>os_Name = os_Name Obj, os_Type = os_Type Obj,
      os_PutObject = (\<lambda>ctx info body s. map_prod id (\<lambda>t. put t s) (os_PutObject Obj ctx info body (get s))),
      os_GetObject = (\<lambda>ctx key s. os_GetObject Obj ctx key (get s)),
      os_HeadObject = (\<lambda>ctx key s. os_HeadObject Obj ctx key (get s)),
      os_DeleteObject = (\<lambda>ctx key s. map_prod id (\<lambda>t. put t s) (os_DeleteObject Obj ctx key (get s))),
      os_DeletePrefix = (\<lambda>ctx prfx s. map_prod id (\<lambda>t. put t s) (os_DeletePrefix Obj ctx prfx (get s))),
      os_PresignGetObject = (\<lambda>ctx key ttl s. os_PresignGetObject Obj ctx key ttl (get s))\<rparr>"

lemma lift_objects_sel:
  "os_Name (lift_objects get put Obj) = os_Name Obj" "os_Type (lift_objects get put Obj) = os_Type Obj"
  "os_PutObject (lift_objects get put Obj) ctx info body s =
     map_prod id (\<lambda>t. put t s) (os_PutObject Obj ctx info body (get s))"
  "os_DeletePrefix (lift_objects get put Obj) ctx prfx s =
     map_prod id (\<lambda>t. put t s) (os_DeletePrefix Obj ctx prfx (get s))"
  "os_GetObject (lift_objects get put Obj) ctx key s = os_GetObject Obj ctx key (get s)"
  "os_HeadObject (lift_objects get put Obj) ctx key s = os_HeadObject Obj ctx key (get s)"
  by (simp_all add: lift_objects_def)

context complete_object_store
begin

text \<open>A store keeps its laws inside a larger state, and for fewer legal keys.\<close>

lemma lifted_store:
  assumes get: "\<And>t s. get (put t s) = t" and fewer: "\<And>key. legal' key \<Longrightarrow> legal_key key"
  shows "complete_object_store (lift_objects get put Obj) (\<lambda>s. contents (get s)) legal'"
proof
  show "key \<noteq> ''''" if "legal' key" for key using legal fewer that by blast
next
  fix ctx info content s
  show "case os_PutObject (lift_objects get put Obj) ctx info (Some (Inr content)) s of
      (Inl e, s') \<Rightarrow> live ctx \<and> legal' (oi_Key info) \<longrightarrow> oi_Size info \<ge> 0 \<and> oi_Size info \<noteq> int (length content)
    | (Inr info', s') \<Rightarrow> contents (get s') = (contents (get s))(oi_Key info \<mapsto> content) \<and>
        oi_Key info' = oi_Key info \<and> oi_ETag info' \<noteq> ''''"
    using Put_law [of ctx info content "get s"] fewer
    by (cases "os_PutObject Obj ctx info (Some (Inr content)) (get s)") (auto simp: lift_objects_sel get split: sum.splits)
next
  fix ctx info body s r s' k
  assume "os_PutObject (lift_objects get put Obj) ctx info body s = (r, s')" "k \<noteq> oi_Key info"
  then show "contents (get s') k = contents (get s) k"
    using Put_frame by (cases "os_PutObject Obj ctx info body (get s)") (auto simp: lift_objects_sel get)
next
  fix ctx key s
  show "case os_GetObject (lift_objects get put Obj) ctx key s of
      Inl e \<Rightarrow> live ctx \<and> legal' key \<longrightarrow> contents (get s) key = None
    | Inr object \<Rightarrow> contents (get s) key = Some (ob_Body object)"
    using Get_law [of ctx key "get s"] fewer by (auto simp: lift_objects_sel split: sum.splits)
  show "case os_HeadObject (lift_objects get put Obj) ctx key s of
      Inl e \<Rightarrow> live ctx \<and> legal' key \<longrightarrow> contents (get s) key = None \<and> errors_Is e ErrObjectNotFound
    | Inr info \<Rightarrow> contents (get s) key \<noteq> None"
    using Head_law [of ctx key "get s"] fewer by (auto simp: lift_objects_sel split: sum.splits)
next
  fix prfx ctx s assume "legal' prfx"
  then have "legal_key prfx" by (rule fewer)
  then show "case os_DeletePrefix (lift_objects get put Obj) ctx prfx s of
      (Inl e, s') \<Rightarrow> (\<forall>k. contents (get s') k = contents (get s) k \<or> contents (get s') k = None \<and> prefix prfx k) \<and>
        (live ctx \<longrightarrow> errors_Is e ErrObjectNotFound)
    | (Inr u, s') \<Rightarrow> contents (get s') = (\<lambda>k. if prefix prfx k then None else contents (get s) k)"
    using DeletePrefix_law [where prfx = prfx and ctx = ctx and s = "get s"]
    by (cases "os_DeletePrefix Obj ctx prfx (get s)") (auto simp: lift_objects_sel get split: sum.splits)
next
  fix prfx ctx s e s' key
  assume "legal' prfx" "os_DeletePrefix (lift_objects get put Obj) ctx prfx s = (Inl e, s')"
    "errors_Is e ErrObjectNotFound" "prefix prfx key"
  then show "contents (get s') key = None"
    using DeletePrefix_not_found [OF fewer, where ctx = ctx and s = "get s" and e = e]
    by (cases "os_DeletePrefix Obj ctx prfx (get s)") (auto simp: lift_objects_sel get)
qed

end

text \<open>The same for document stores.\<close>

definition lift_docs :: "('a \<Rightarrow> 'b) \<Rightarrow> ('b \<Rightarrow> 'a \<Rightarrow> 'a) \<Rightarrow> 'b Store \<Rightarrow> 'a Store" where
  "lift_docs get put S =
     \<lparr>st_Create = (\<lambda>ctx now d s. map_prod id (\<lambda>t. put t s) (st_Create S ctx now d (get s))),
      st_Get = (\<lambda>ctx i s. st_Get S ctx i (get s)),
      st_Delete = (\<lambda>ctx now i s. map_prod id (\<lambda>t. put t s) (st_Delete S ctx now i (get s))),
      st_Purge = (\<lambda>ctx now i s. map_prod id (\<lambda>t. put t s) (st_Purge S ctx now i (get s))),
      st_Restore = (\<lambda>ctx now i s. map_prod id (\<lambda>t. put t s) (st_Restore S ctx now i (get s))),
      st_ResetPages = (\<lambda>ctx now i s. map_prod id (\<lambda>t. put t s) (st_ResetPages S ctx now i (get s))),
      st_UpdateMeta = (\<lambda>ctx now i fn s. map_prod id (\<lambda>t. put t s) (st_UpdateMeta S ctx now i fn (get s))),
      st_TransitionTo = (\<lambda>ctx now i st s. map_prod id (\<lambda>t. put t s) (st_TransitionTo S ctx now i st (get s))),
      st_AddPage = (\<lambda>ctx now i page s. map_prod id (\<lambda>t. put t s) (st_AddPage S ctx now i page (get s))),
      st_RemovePage = (\<lambda>ctx now i index s. map_prod id (\<lambda>t. put t s) (st_RemovePage S ctx now i index (get s))),
      st_Query = (\<lambda>ctx q s. st_Query S ctx q (get s))\<rparr>"

lemma implements_lift:
  assumes "implements invar view ctx conc f i" "\<And>t s. get (put t s) = t"
  shows "implements (\<lambda>s. invar (get s)) (\<lambda>s. view (get s)) ctx (\<lambda>s. map_prod id (\<lambda>t. put t s) (conc (get s))) f i"
  unfolding implements_def
proof (intro allI impI)
  fix s assume "invar (get s)"
  then show "case map_prod id (\<lambda>t. put t s) (conc (get s)) of
      (Inr r, s') \<Rightarrow> invar (get s') \<and> upd_doc f i (view (get s)) = Some (r, view (get s'))
    | (Inl e, s') \<Rightarrow> invar (get s') \<and> view (get s') = view (get s) \<and> (live ctx \<longrightarrow> upd_doc f i (view (get s)) = None)"
    using assms unfolding implements_def by (cases "conc (get s)"; cases "fst (conc (get s))") fastforce+
qed

context document_store
begin

lemma lifted_docs:
  assumes get: "\<And>t s. get (put t s) = t"
  shows "document_store (lift_docs get put S) (\<lambda>s. view (get s)) (\<lambda>s. invar (get s))"
proof
  show "store_wf (view (get s))" if "invar (get s)" for s using that by (rule invar_wf)
  show "case st_Create (lift_docs get put S) ctx now document s of
       (Inl (e, d0), s') \<Rightarrow> invar (get s') \<and> view (get s') = view (get s) \<and>
         (live ctx \<longrightarrow> e = ErrAlreadyExists \<and> (\<exists>j. view (get s) j = Some d0 \<and> identity d0 = identity document))
     | (Inr d, s') \<Rightarrow> invar (get s') \<and> view (get s) (d_ID d) = None \<and> d = created_doc (d_ID d) now document \<and>
         view (get s') = (view (get s))(d_ID d \<mapsto> d) \<and>
         (\<forall>j e. view (get s) j = Some e \<longrightarrow> identity e \<noteq> identity document)"
    if "invar (get s)" "valid_time now" "pages_input (d_Pages document)" for s now document ctx
    using Create_law [OF that, of ctx] get
    by (cases "st_Create S ctx now document (get s)") (auto simp: lift_docs_def split: sum.splits)
  show "case st_Get (lift_docs get put S) ctx i s of
       Inl e \<Rightarrow> live ctx \<longrightarrow> e = ErrNotFound \<and> (\<forall>d. view (get s) i = Some d \<longrightarrow> \<not> isVisibleDocumentStatus (d_status d))
     | Inr d \<Rightarrow> view (get s) i = Some d \<and> isVisibleDocumentStatus (d_status d)"
    if "invar (get s)" for s ctx i
    using Get_law [OF that, of ctx i] by (simp add: lift_docs_def)
  show "case st_Query (lift_docs get put S) ctx q s of
       Inl e \<Rightarrow> \<not> live ctx
     | Inr ds \<Rightarrow> (\<forall>d \<in> set ds. view (get s) (d_ID d) = Some d \<and> matches_status q d \<and> matches_source q d) \<and>
         (q_orderBy q = ''id'' \<longrightarrow> ds = run_query q (docs_list (view (get s))))"
    if "invar (get s)" "built q" "limit_in_range q" for s ctx q
    using Query_law [OF that, of ctx] by (simp add: lift_docs_def)
qed (simp_all add: lift_docs_def get implements_lift [where get = get and put = put] Delete_law Purge_law Restore_law ResetPages_law
    UpdateMeta_law TransitionTo_law AddPage_law RemovePage_law)

end

section \<open>The constructors\<close>

text \<open>The states of the two document stores, of which one is in use.\<close>

type_synonym docs_state = "MemoryStore \<times> sqlite_db"

definition memory_docs :: "docs_state Store" where
  "memory_docs = lift_docs fst (\<lambda>t s. (t, snd s)) memory_store"

definition sqlite_docs :: "(doc_row list \<Rightarrow> doc_row list) \<Rightarrow> docs_state Store" where
  "sqlite_docs plan = lift_docs snd (\<lambda>t s. (fst s, t)) (sqlite_store plan)"

text \<open>The store and the state it starts with; the files are those of the databases.\<close>

definition newDocumentStore ::
  "sqlite_machine \<Rightarrow> (doc_row list \<Rightarrow> doc_row list) \<Rightarrow> Config \<Rightarrow> sqlite_files
     \<Rightarrow> (go_error + docs_state Store \<times> docs_state) \<times> sqlite_files" where
  "newDocumentStore m plan cfg fs =
     (let kind = ToLower (TrimSpace (cf_DocumentStore cfg)) in
      if kind = '''' \<or> kind = ''memory'' then (Inr (memory_docs, NewMemoryStore, empty_db), fs)
      else if kind = ''sqlite'' then
        (case NewSQLiteStore m background (cf_SQLitePath cfg) fs of
           (Inl e, fs') \<Rightarrow> (Inl e, fs')
         | (Inr c, fs') \<Rightarrow> (Inr (sqlite_docs plan, NewMemoryStore, sf_db (cn_file c)), fs'))
      else (Inl (ErrText (''unsupported document store: '' @ cf_DocumentStore cfg)), fs))"

text \<open>The storage of one entry of the configuration.\<close>

definition new_storage ::
  "(string \<Rightarrow> 'o ObjectStore) \<Rightarrow> (string \<Rightarrow> S3Config \<Rightarrow> go_error + 'o ObjectStore)
     \<Rightarrow> string \<Rightarrow> ObjectStorageConfig \<Rightarrow> go_error + 'o ObjectStore" where
  "new_storage newMemory newS3 name storageConfig =
     (if oc_Type storageConfig = MemoryStorageType then Inr (newMemory name)
      else if oc_Type storageConfig = S3StorageType then
        (case oc_S3 storageConfig of
           None \<Rightarrow> Inl (ErrText (''s3 config is required for object storage '' @ Quote name))
         | Some s3 \<Rightarrow>
             (case newS3 name s3 of
                Inl e \<Rightarrow> Inl (ErrWrap (''create object storage '' @ Quote name @ '': '') e '''')
              | Inr st \<Rightarrow> Inr st))
      else Inl (ErrText (''unsupported object storage type '' @ Quote (oc_Type storageConfig) @ '' for '' @ Quote name)))"

fun registerObjectStores ::
  "(string \<Rightarrow> 'o ObjectStore) \<Rightarrow> (string \<Rightarrow> S3Config \<Rightarrow> go_error + 'o ObjectStore)
     \<Rightarrow> (string \<times> ObjectStorageConfig) list \<Rightarrow> ('s, 'o) App \<Rightarrow> (go_error + unit) \<times> ('s, 'o) App" where
  "registerObjectStores newMemory newS3 [] app = (Inr (), app)"
| "registerObjectStores newMemory newS3 ((name, storageConfig) # rest) app =
     (case new_storage newMemory newS3 name storageConfig of
        Inl e \<Rightarrow> (Inl e, app)
      | Inr objectStorage \<Rightarrow>
          (case RegisterStorage (Some objectStorage) app of
             (Inl e, app') \<Rightarrow> (Inl e, app')
           | (Inr _, app') \<Rightarrow> registerObjectStores newMemory newS3 rest app'))"

definition new_memory_objects :: "utc_time \<Rightarrow> string \<Rightarrow> (MemoryObjects \<times> 'r) ObjectStore" where
  "new_memory_objects now name = lift_objects fst (\<lambda>t s. (t, snd s)) (memory_objects name now)"

definition new_s3_objects ::
  "(s3_options \<Rightarrow> 'r s3_client) \<Rightarrow> string \<Rightarrow> S3Config \<Rightarrow> go_error + (MemoryObjects \<times> 'r) ObjectStore" where
  "new_s3_objects sdk name cfg =
     (case NewS3Store name cfg of
        Inl e \<Rightarrow> Inl e
      | Inr st \<Rightarrow> Inr (lift_objects snd (\<lambda>t s. (fst s, t)) (s3_store sdk st)))"

section \<open>Starting the application\<close>

text \<open>\<open>main\<close> up to the start of the worker; an error ends the process.\<close>

definition start_app ::
  "yaml_lib \<Rightarrow> 'f file_ops \<Rightarrow> sqlite_machine \<Rightarrow> (doc_row list \<Rightarrow> doc_row list)
     \<Rightarrow> ((docs_state, MemoryObjects \<times> 'r) world \<Rightarrow> hitomi_net)
     \<Rightarrow> ((docs_state, MemoryObjects \<times> 'r) world \<Rightarrow> 'row jm_net)
     \<Rightarrow> utc_time \<Rightarrow> (s3_options \<Rightarrow> 'r s3_client) \<Rightarrow> 'f \<times> sqlite_files
     \<Rightarrow> (go_error + Config \<times> (docs_state, MemoryObjects \<times> 'r) App \<times> docs_state) \<times> 'f \<times> sqlite_files" where
  "start_app Y ops m plan hnet jnet now sdk = (\<lambda>(f, fs).
     (case Load Y ops f of
        (Inl e, f') \<Rightarrow> (Inl e, f', fs)
      | (Inr cfg, f') \<Rightarrow>
          (case newDocumentStore m plan cfg fs of
             (Inl e, fs') \<Rightarrow> (Inl e, f', fs')
           | (Inr (documentStore, s0), fs') \<Rightarrow>
          (case RegisterSourceFactory (Some (Hitomi_NewFactory hnet))
                  (NewApp documentStore (cf_DefaultStorageName cfg) (cf_DeletedSweepInterval cfg)) of
             (Inl e, _) \<Rightarrow> (Inl e, f', fs')
           | (Inr _, app1) \<Rightarrow>
          (case NewAPIClient of
             Inl e \<Rightarrow> (Inl e, f', fs')
           | Inr _ \<Rightarrow>
          (case RegisterSourceFactory (Some (Jm_NewFactory jnet)) app1 of
             (Inl e, _) \<Rightarrow> (Inl e, f', fs')
           | (Inr _, app2) \<Rightarrow>
          (case registerObjectStores (new_memory_objects now) (new_s3_objects sdk) (cf_Storages cfg) app2 of
             (Inl e, _) \<Rightarrow> (Inl e, f', fs')
           | (Inr _, app3) \<Rightarrow> (Inr (cfg, app3, s0), f', fs'))))))))"

end
