(* ===== verification/ServerProofs.thy ===== *)
theory ServerProofs
  imports Server ArchiveQueue MemStore SqlQuery
begin

text \<open>
  An application that has started is what the other theorems ask for: every storage of its configuration is
  registered under its name and keeps the contract of object storages, the default one among them, and its
  source handlers keep the contract of handlers.
\<close>

section \<open>Registration\<close>

lemma RegisterStorage_ok:
  "RegisterStorage (Some st) app = (Inr u, app') \<Longrightarrow>
   ap_storages app (os_Name st) = None \<and>
   app' = app\<lparr>ap_storages := (ap_storages app)(os_Name st \<mapsto> st)\<rparr>"
  by (auto simp: RegisterStorage_def split: if_splits)

definition storage_of ::
  "(string \<Rightarrow> 'o ObjectStore) \<Rightarrow> (string \<Rightarrow> S3Config \<Rightarrow> go_error + 'o ObjectStore)
     \<Rightarrow> (string \<times> ObjectStorageConfig) list \<Rightarrow> string \<Rightarrow> 'o ObjectStore option" where
  "storage_of newMemory newS3 storages name =
     (case map_of storages name of
        None \<Rightarrow> None
      | Some c \<Rightarrow> (case new_storage newMemory newS3 name c of Inl e \<Rightarrow> None | Inr st \<Rightarrow> Some st))"

definition names_kept ::
  "(string \<Rightarrow> 'o ObjectStore) \<Rightarrow> (string \<Rightarrow> S3Config \<Rightarrow> go_error + 'o ObjectStore) \<Rightarrow> bool" where
  "names_kept newMemory newS3 \<longleftrightarrow>
     (\<forall>name. os_Name (newMemory name) = name) \<and> (\<forall>name cfg st. newS3 name cfg = Inr st \<longrightarrow> os_Name st = name)"

lemma new_storage_name: "names_kept newMemory newS3 \<Longrightarrow> new_storage newMemory newS3 name c = Inr st \<Longrightarrow> os_Name st = name"
  by (auto simp: new_storage_def names_kept_def split: if_splits option.splits sum.splits)

text \<open>After the loop the storages are those of the configuration, each under its name.\<close>

lemma registerObjectStores_ok:
  assumes names: "names_kept newMemory newS3"
  shows "registerObjectStores newMemory newS3 storages app = (Inr u, app') \<Longrightarrow>
    app' = app\<lparr>ap_storages := ap_storages app'\<rparr> \<and>
    ap_storages app' = ap_storages app ++ storage_of newMemory newS3 storages \<and>
    (\<forall>name \<in> fst ` set storages. storage_of newMemory newS3 storages name \<noteq> None) \<and>
    (\<forall>name \<in> fst ` set storages. ap_storages app name = None)"
proof (induction storages arbitrary: app)
  case Nil
  then show ?case by (auto simp: storage_of_def map_add_def)
next
  case (Cons entry rest)
  obtain name c where entry: "entry = (name, c)" by force
  from Cons.prems obtain st app1 u1 where st: "new_storage newMemory newS3 name c = Inr st"
    and reg: "RegisterStorage (Some st) app = (Inr u1, app1)"
    and rest: "registerObjectStores newMemory newS3 rest app1 = (Inr u, app')"
    unfolding entry by (auto split: sum.splits prod.splits)
  have app1: "ap_storages app name = None" "app1 = app\<lparr>ap_storages := (ap_storages app)(name \<mapsto> st)\<rparr>"
    using RegisterStorage_ok [OF reg] new_storage_name [OF names st] by simp_all
  note IH = Cons.IH [OF rest]
  have fresh: "name \<notin> fst ` set rest" using IH by (auto simp: app1(2))
  have others: "storage_of newMemory newS3 (entry # rest) n = storage_of newMemory newS3 rest n" if "n \<noteq> name" for n
    using that by (simp add: storage_of_def entry)
  have this_one: "storage_of newMemory newS3 (entry # rest) name = Some st"
    by (simp add: storage_of_def entry st)
  have "map_of rest name = None" using fresh by (simp add: map_of_eq_None_iff)
  then have none: "storage_of newMemory newS3 rest name = None" by (simp add: storage_of_def)
  have "ap_storages app' = ap_storages app1 ++ storage_of newMemory newS3 rest" using IH by blast
  then have storages: "ap_storages app' = ap_storages app ++ storage_of newMemory newS3 (entry # rest)"
    using others this_one none by (auto simp: fun_eq_iff app1(2) map_add_def split: option.split)
  have "app1\<lparr>ap_storages := ap_storages app'\<rparr> = app\<lparr>ap_storages := ap_storages app'\<rparr>"
    by (simp add: app1(2))
  with IH have kept: "app' = app\<lparr>ap_storages := ap_storages app'\<rparr>" by (elim conjE) (rule trans)
  have "storage_of newMemory newS3 (entry # rest) n \<noteq> None" if "n \<in> fst ` set (entry # rest)" for n
    using that IH others this_one by (cases "n = name") (auto simp: entry)
  moreover have "ap_storages app n = None" if "n \<in> fst ` set (entry # rest)" for n
    using that IH app1 fresh by (cases "n = name") (auto simp: entry split: if_splits)
  ultimately show ?case by (intro conjI ballI kept storages)
qed

section \<open>The storages of the program\<close>

lemma names_kept_program: "names_kept (new_memory_objects now) (new_s3_objects sdk)"
  by (auto simp: names_kept_def new_memory_objects_def new_s3_objects_def lift_objects_def memory_objects_def
      s3_store_def NewS3Store_def Let_def split: sum.splits if_splits)

lemma s3_legal_prefix: "s3_legal_key (DocumentObjectPrefix (Itoa i))"
  by (simp add: s3_legal_key_def DocumentObjectPrefix_Itoa TrimSpace_printable printable_Itoa)

text \<open>The objects of a storage, in the half of the state that it uses.\<close>

definition program_contents ::
  "(string \<times> ObjectStorageConfig) list \<Rightarrow> (string \<Rightarrow> 'r \<Rightarrow> string \<Rightarrow> (s3_headers \<times> string) option)
     \<Rightarrow> string \<Rightarrow> MemoryObjects \<times> 'r \<Rightarrow> string \<Rightarrow> string option" where
  "program_contents storages stored name s =
     (case map_of storages name of
        Some c \<Rightarrow> (if oc_Type c = MemoryStorageType then memory_contents (fst s) else s3_contents (stored name) (snd s))
      | None \<Rightarrow> Map.empty)"

definition services_ok where
  "services_ok sdk stored storages \<longleftrightarrow>
     (\<forall>name c cfg st. map_of storages name = Some c \<longrightarrow> oc_S3 c = Some cfg \<longrightarrow> NewS3Store name cfg = Inr st \<longrightarrow>
        s3_laws (sdk (ss_client st)) (ss_bucket st) (stored name))"

lemma new_storage_complete:
  assumes services: "services_ok sdk stored storages" and c: "map_of storages name = Some c"
    and st: "new_storage (new_memory_objects now) (new_s3_objects sdk) name c = Inr st"
  shows "complete_object_store st (program_contents storages stored name) s3_legal_key"
proof (cases "oc_Type c = MemoryStorageType")
  case True
  with st have st': "st = new_memory_objects now name" by (simp add: new_storage_def)
  have "complete_object_store st (\<lambda>s. memory_contents (fst s)) s3_legal_key"
    unfolding st' new_memory_objects_def by (rule memobj.lifted_store) (simp_all add: s3_legal_key_def)
  with True c show ?thesis by (simp add: program_contents_def [abs_def])
next
  case False
  with st obtain cfg s3 where cfg: "oc_S3 c = Some cfg" "NewS3Store name cfg = Inr s3"
    and st': "st = lift_objects snd (\<lambda>t s. (fst s, t)) (s3_store sdk s3)"
    by (auto simp: new_storage_def new_s3_objects_def split: if_splits option.splits sum.splits)
  have laws: "s3_laws (sdk (ss_client s3)) (ss_bucket s3) (stored name)"
    using services c cfg unfolding services_ok_def by blast
  have "complete_object_store st (\<lambda>s. s3_contents (stored name) (snd s)) s3_legal_key"
    unfolding st' by (rule complete_object_store.lifted_store [OF s3_complete [where sdk = sdk, OF laws]]) simp_all
  with False c show ?thesis by (simp add: program_contents_def [abs_def])
qed

section \<open>The started application\<close>

lemma start_app_ok:
  assumes run: "start_app Y ops m plan hnet jnet now sdk (f, fs) = (Inr (cfg, a, s0), f', fs')"
  shows "readConfig Y ops configFileName f' = Inr cfg \<and>
    newDocumentStore m plan cfg fs = (Inr (ap_documents a, s0), fs') \<and>
    ap_defaultStorageName a = cf_DefaultStorageName cfg \<and> ap_deletedSweep a = cf_DeletedSweepInterval cfg \<and>
    ap_sourceFactories a = [SourceTypeHitomi \<mapsto> Hitomi_NewFactory hnet, SourceTypeJmcomic \<mapsto> Jm_NewFactory jnet] \<and>
    ap_storages a = storage_of (new_memory_objects now) (new_s3_objects sdk) (cf_Storages cfg) \<and>
    (\<forall>name \<in> fst ` set (cf_Storages cfg). ap_storages a name \<noteq> None)"
proof -
  obtain documentStore app2 u where load: "Load Y ops f = (Inr cfg, f')"
    and docs: "newDocumentStore m plan cfg fs = (Inr (documentStore, s0), fs')"
    and app2: "app2 = (NewApp documentStore (cf_DefaultStorageName cfg) (cf_DeletedSweepInterval cfg))
      \<lparr>ap_sourceFactories := [SourceTypeHitomi \<mapsto> Hitomi_NewFactory hnet, SourceTypeJmcomic \<mapsto> Jm_NewFactory jnet]\<rparr>"
    and reg: "registerObjectStores (new_memory_objects now) (new_s3_objects sdk) (cf_Storages cfg) app2 = (Inr u, a)"
    using run
    by (auto simp: start_app_def RegisterSourceFactory_def NewApp_def Hitomi_NewFactory_def Jm_NewFactory_def
        SourceTypeHitomi_def SourceTypeJmcomic_def split: sum.splits prod.splits if_splits)
  have "readConfig Y ops configFileName f' = Inr cfg"
    using load by (auto simp: Load_def load_def split: sum.splits prod.splits if_splits)
  moreover note registerObjectStores_ok [OF names_kept_program reg]
  ultimately show ?thesis
    using docs by (auto simp: app2 NewApp_def)
qed

text \<open>The document store of a started application, as a map of documents with its invariant.\<close>

definition uses_sqlite :: "Config \<Rightarrow> bool" where
  "uses_sqlite cfg \<longleftrightarrow> ToLower (TrimSpace (cf_DocumentStore cfg)) = ''sqlite''"

definition program_view :: "Config \<Rightarrow> docs_state \<Rightarrow> docmap" where
  "program_view cfg s = (if uses_sqlite cfg then sql_view (snd s) else mem_view (fst s))"

definition program_invar :: "Config \<Rightarrow> docs_state \<Rightarrow> bool" where
  "program_invar cfg s \<longleftrightarrow> (if uses_sqlite cfg then sql_invar (snd s) else mem_invar (fst s))"

text \<open>A database file that the program can go on with: it is new, or holds what the program has written.\<close>

definition database_ok :: "sqlite_machine \<Rightarrow> Config \<Rightarrow> sqlite_files \<Rightarrow> bool" where
  "database_ok m cfg fs \<longleftrightarrow> (uses_sqlite cfg \<longrightarrow>
     names_free (file_at m (sqlite_path (cf_SQLitePath cfg)) fs) \<and>
     sql_invar (sf_db (file_at m (sqlite_path (cf_SQLitePath cfg)) fs)))"

lemma memory_docs_store: "document_store memory_docs (\<lambda>s. mem_view (fst s)) (\<lambda>s. mem_invar (fst s))"
  unfolding memory_docs_def by (rule document_store.lifted_docs [OF mem.document_store_axioms]) simp

lemma sqlite_docs_store:
  "(\<And>rows. mset (plan rows) = mset rows) \<Longrightarrow>
   document_store (sqlite_docs plan) (\<lambda>s. sql_view (snd s)) (\<lambda>s. sql_invar (snd s))"
  unfolding sqlite_docs_def by (rule document_store.lifted_docs [OF sqlite_document_store]) simp_all

lemma started_docs:
  assumes run: "start_app Y ops m plan hnet jnet now sdk (f, fs) = (Inr (cfg, a, s0), f', fs')"
    and plan: "\<And>rows. mset (plan rows) = mset rows"
  shows "document_store (ap_documents a) (program_view cfg) (program_invar cfg)"
    and "database_ok m cfg fs \<Longrightarrow> program_invar cfg s0 \<and>
      program_view cfg s0 = (if uses_sqlite cfg then sql_view (sf_db (file_at m (sqlite_path (cf_SQLitePath cfg)) fs)) else Map.empty)"
proof -
  note docs = start_app_ok [OF run, THEN conjunct2, THEN conjunct1]
  consider (memory) "\<not> uses_sqlite cfg" "ap_documents a = memory_docs" "s0 = (NewMemoryStore, empty_db)"
    | (sqlite) c where "uses_sqlite cfg" "ap_documents a = sqlite_docs plan" "s0 = (NewMemoryStore, sf_db (cn_file c))"
        "NewSQLiteStore m background (cf_SQLitePath cfg) fs = (Inr c, fs')"
    using docs by (auto simp: newDocumentStore_def uses_sqlite_def Let_def split: if_splits sum.splits prod.splits)
  note cases = this
  from cases show "document_store (ap_documents a) (program_view cfg) (program_invar cfg)"
    using memory_docs_store sqlite_docs_store [OF plan]
    by cases (simp_all add: program_view_def [abs_def] program_invar_def [abs_def])
  assume "database_ok m cfg fs"
  from cases this show "program_invar cfg s0 \<and>
      program_view cfg s0 = (if uses_sqlite cfg then sql_view (sf_db (file_at m (sqlite_path (cf_SQLitePath cfg)) fs)) else Map.empty)"
  proof cases
    case memory
    moreover have "mem_view NewMemoryStore = Map.empty"
      by (auto simp: fun_eq_iff mem_view_def NewMemoryStore_def in_range_def)
    ultimately show ?thesis by (simp add: program_view_def program_invar_def mem_invar_new)
  next
    case sqlite
    then show ?thesis
      using \<open>database_ok m cfg fs\<close> open_result(1) [OF sqlite(4)]
      by (simp add: program_view_def program_invar_def database_ok_def)
  qed
qed

lemma started_config:
  assumes run: "start_app Y ops m plan hnet jnet now sdk (f, fs) = (Inr (cfg, a, s0), f', fs')"
  shows "config_ok cfg" "dom (ap_storages a) = fst ` set (cf_Storages cfg)"
    and "\<exists>st. getStorage a (ap_defaultStorageName a) = Inr st \<and> os_Name st = ap_defaultStorageName a"
proof -
  note ok = start_app_ok [OF run]
  show cfg: "config_ok cfg" using ok by (auto simp: readConfig_iff)
  have storages: "ap_storages a = storage_of (new_memory_objects now) (new_s3_objects sdk) (cf_Storages cfg)"
    and all: "\<forall>name \<in> fst ` set (cf_Storages cfg). ap_storages a name \<noteq> None"
    and default: "ap_defaultStorageName a = cf_DefaultStorageName cfg"
    using ok by blast+
  have none: "ap_storages a name = None" if "name \<notin> fst ` set (cf_Storages cfg)" for name
  proof -
    have "map_of (cf_Storages cfg) name = None" using that by (simp add: map_of_eq_None_iff)
    then show ?thesis by (simp add: storages storage_of_def)
  qed
  show "dom (ap_storages a) = fst ` set (cf_Storages cfg)"
  proof (rule set_eqI)
    show "name \<in> dom (ap_storages a) \<longleftrightarrow> name \<in> fst ` set (cf_Storages cfg)" for name
      using none [of name] bspec [OF all, of name] by (cases "name \<in> fst ` set (cf_Storages cfg)") (simp_all add: domIff)
  qed
  have "cf_DefaultStorageName cfg \<in> fst ` set (cf_Storages cfg)" using cfg by (simp add: config_ok_def)
  with all obtain st where st: "ap_storages a (cf_DefaultStorageName cfg) = Some st" by blast
  moreover have "os_Name st = cf_DefaultStorageName cfg"
    using st new_storage_name [OF names_kept_program] by (auto simp: storages storage_of_def split: option.splits sum.splits)
  ultimately show "\<exists>st. getStorage a (ap_defaultStorageName a) = Inr st \<and> os_Name st = ap_defaultStorageName a"
    by (simp add: getStorage_def default)
qed

lemma started_storages:
  assumes run: "start_app Y ops m plan hnet jnet now sdk (f, fs) = (Inr (cfg, a, s0), f', fs')"
    and services: "services_ok sdk stored (cf_Storages cfg)"
  shows "storages_ok (program_contents (cf_Storages cfg) stored) s3_legal_key a"
  unfolding storages_ok_def
proof (intro conjI allI impI s3_legal_prefix)
  fix name st assume "ap_storages a name = Some st"
  then obtain c where "map_of (cf_Storages cfg) name = Some c"
      "new_storage (new_memory_objects now) (new_s3_objects sdk) name c = Inr st"
    using start_app_ok [OF run] by (auto simp: storage_of_def split: option.splits sum.splits)
  then show "complete_object_store st (program_contents (cf_Storages cfg) stored name) s3_legal_key"
    by (rule new_storage_complete [OF services])
qed

lemma started_factories:
  fixes jnet :: "(docs_state, MemoryObjects \<times> 'r) world \<Rightarrow> 'row jm_net"
  assumes run: "start_app Y ops m plan hnet jnet now sdk (f, fs) = (Inr (cfg, a, s0), f', fs')"
    and docs: "document_store (ap_documents a) view invar" "env_ok invar E"
  shows "factories_ok invar view E a"
proof (rule document_store.program_factories_ok [OF docs refl])
  fix src factory assume "ap_sourceFactories a src = Some factory"
  then show "(\<exists>net. factory = Hitomi_NewFactory net) \<or> (\<exists>net :: (docs_state, MemoryObjects \<times> 'r) world \<Rightarrow> 'row jm_net. factory = Jm_NewFactory net)"
    using start_app_ok [OF run] by (auto split: if_splits)
qed

section \<open>A start\<close>

lemma sample_services: "services_ok (\<lambda>options. sample_s3) (\<lambda>name. bucket_stored) storages"
  by (simp add: services_ok_def sample_s3_laws)

lemma sample_start:
  assumes "f configFileName = Some ''config''"
  shows "\<exists>a. start_app (sample_yaml memory_config) sample_files m plan hnet jnet now sdk (f, fs)
      = (Inr (memory_config, a, NewMemoryStore, empty_db), f, fs)"
proof -
  have load: "Load (sample_yaml memory_config) sample_files f = (Inr memory_config, f)"
    using sample_yaml_reads [where f = f, OF assms memory_config_ok] by (simp add: Load_def load_def)
  have kind: "ToLower (TrimSpace ''memory'') = ''memory''"
    using memory_config_ok(1) by (simp add: config_ok_def memory_config_def TrimSpace_printable)
  have sources: "SourceTypeHitomi \<noteq> ''''" "SourceTypeJmcomic \<noteq> ''''" "SourceTypeHitomi \<noteq> SourceTypeJmcomic"
    by (simp_all add: SourceTypeHitomi_def SourceTypeJmcomic_def)
  have fields: "cf_DocumentStore memory_config = ''memory''" "cf_DefaultStorageName memory_config = ''memory''"
    "cf_Storages memory_config = [(''memory'', \<lparr>oc_Type = MemoryStorageType, oc_S3 = None\<rparr>)]"
    by (simp_all add: memory_config_def defaultConfig_def)
  have names: "os_Name (new_memory_objects now ''memory'') = ''memory''"
    "os_Type (new_memory_objects now ''memory'') = ''memory''"
    by (simp_all add: new_memory_objects_def lift_objects_def memory_objects_def MemoryStorageType_def)
  show ?thesis
    using sources
    by (simp add: start_app_def load newDocumentStore_def kind fields RegisterSourceFactory_def NewApp_def
        Hitomi_NewFactory_def Jm_NewFactory_def NewAPIClient_def new_storage_def RegisterStorage_def names)
qed

text \<open>The default configuration starts with the database, here in a new file.\<close>

lemma sample_start_sqlite:
  assumes "f configFileName = Some ''config''"
  shows "\<exists>a. start_app (sample_yaml defaultConfig) sample_files sample_machine plan hnet jnet now sdk (f, \<lambda>_. empty_file)
      = (Inr (defaultConfig, a, NewMemoryStore, empty_db), f, (\<lambda>_. empty_file)(''document-archive.db'' := opened_file empty_file))"
proof -
  have load: "Load (sample_yaml defaultConfig) sample_files f = (Inr defaultConfig, f)"
    using sample_yaml_reads [where f = f, OF assms default_config_ok] by (simp add: Load_def load_def)
  have fields: "cf_DocumentStore defaultConfig = ''sqlite''" "cf_DefaultStorageName defaultConfig = ''memory''"
    "cf_SQLitePath defaultConfig = ''document-archive.db''"
    "cf_Storages defaultConfig = [(''memory'', \<lparr>oc_Type = MemoryStorageType, oc_S3 = None\<rparr>)]"
    by (simp_all add: defaultConfig_def)
  have "ToLower ''sqlite'' = ''sqlite''" by code_simp
  then have kind: "ToLower (TrimSpace ''sqlite'') = ''sqlite''" by (simp add: TrimSpace_printable)
  have open': "NewSQLiteStore sample_machine background ''document-archive.db'' (\<lambda>_. empty_file) =
      (Inr \<lparr>cn_file = opened_file empty_file, cn_foreign_keys = True, cn_busy_timeout = 5000\<rparr>,
       (\<lambda>_. empty_file)(''document-archive.db'' := opened_file empty_file))"
    using init_live [of background empty_file]
    by (simp add: NewSQLiteStore_def sample_machine_def make_parent_def sqlite_path_def isSQLiteURI_def file_at_def
        write_file_def filepath_Dir_def path_Clean_def live_def background_def names_free_def empty_file_def
        empty_db_def identities_def)
  have sources: "SourceTypeHitomi \<noteq> ''''" "SourceTypeJmcomic \<noteq> ''''" "SourceTypeHitomi \<noteq> SourceTypeJmcomic"
    by (simp_all add: SourceTypeHitomi_def SourceTypeJmcomic_def)
  have names: "os_Name (new_memory_objects now ''memory'') = ''memory''"
    "os_Type (new_memory_objects now ''memory'') = ''memory''"
    by (simp_all add: new_memory_objects_def lift_objects_def memory_objects_def MemoryStorageType_def)
  have empty: "sf_db empty_file = empty_db" by (simp add: empty_file_def)
  show ?thesis
    using sources
    by (simp add: start_app_def load newDocumentStore_def kind fields open' RegisterSourceFactory_def NewApp_def
        Hitomi_NewFactory_def Jm_NewFactory_def NewAPIClient_def new_storage_def RegisterStorage_def names empty)
qed

end
