(* ===== verification/SystemRun.thy ===== *)
theory SystemRun
  imports ServerProofs HttpProofs StoreRuns HitomiSamples JmSamples
begin

text \<open>
  The running server: the worker and the HTTP API on one application.  Every part of it, between any two of
  its store calls, may meet other goroutines that change the documents; what each part relies on of
  the others and what it guarantees is one relation: \<open>evolves\<close>, by which no document is lost, none changes
  its identity or creation time, and each status moves along the transition table or by a restore.  So
  the guarantees of all goroutines together justify what each of them relies on.  The proofs are for any relation
  that the store's methods respect; with \<open>same_ids\<close> they give that the queue drains.  At the end, stopping the
  server and starting it again.
\<close>

section \<open>What a goroutine relies on and guarantees\<close>

definition evolves :: "docmap \<Rightarrow> docmap \<Rightarrow> bool" where
  "evolves m m' \<longleftrightarrow> kept (\<lambda>i. status_move\<^sup>+\<^sup>+) m m'"

lemma evolves_refl [simp]: "evolves m m"
  by (simp add: evolves_def)

lemma evolves_trans: "evolves m1 m2 \<Longrightarrow> evolves m2 m3 \<Longrightarrow> evolves m1 m3"
  unfolding evolves_def by (rule kept_trans) auto

text \<open>
  The same for any relation \<open>R\<close> between states of the documents: the environment respects it, and so does a step
  from one world to another.
\<close>

definition env_rel ::
  "(docmap \<Rightarrow> docmap \<Rightarrow> bool) \<Rightarrow> ('s \<Rightarrow> bool) \<Rightarrow> ('s \<Rightarrow> docmap) \<Rightarrow> 's env \<Rightarrow> bool" where
  "env_rel R invar view E \<longleftrightarrow>
     (\<forall>n. valid_time (e_now E n)) \<and>
     (\<forall>n s. invar s \<longrightarrow> invar (e_other E n s) \<and> R (view s) (view (e_other E n s)))"

abbreviation env_evolves :: "('s \<Rightarrow> bool) \<Rightarrow> ('s \<Rightarrow> docmap) \<Rightarrow> 's env \<Rightarrow> bool" where
  "env_evolves \<equiv> env_rel evolves"

lemma env_rel_ok: "env_rel R invar view E \<Longrightarrow> env_ok invar E"
  by (simp add: env_rel_def env_ok_def)

definition world_rel ::
  "(docmap \<Rightarrow> docmap \<Rightarrow> bool) \<Rightarrow> ('s \<Rightarrow> bool) \<Rightarrow> ('s \<Rightarrow> docmap) \<Rightarrow> 's Store \<Rightarrow> ('s, 'o) App \<Rightarrow> 's env
     \<Rightarrow> ('s, 'o) world \<Rightarrow> ('s, 'o) world \<Rightarrow> bool" where
  "world_rel R invar view S a E w w' \<longleftrightarrow>
     (env_rel R invar view E \<longrightarrow> ap_documents a = S \<longrightarrow> invar (wd_docs w) \<longrightarrow>
        invar (wd_docs w') \<and> R (view (wd_docs w)) (view (wd_docs w')))"

section \<open>Store calls\<close>

text \<open>A relation that every method of the store respects, except for \<open>Create\<close>, and one that \<open>Create\<close> respects too.\<close>

locale docs_relation = document_store S view invar
  for S :: "'s Store" and view :: "'s \<Rightarrow> docmap" and invar :: "'s \<Rightarrow> bool" +
  fixes R :: "docmap \<Rightarrow> docmap \<Rightarrow> bool"
  assumes R_refl: "R m m"
    and R_trans: "R m1 m2 \<Longrightarrow> R m2 m3 \<Longrightarrow> R m1 m3"
    and R_op: "invar s \<Longrightarrow> valid_time now \<Longrightarrow> op_ok op \<Longrightarrow> (\<And>document. op \<noteq> OpCreate document) \<Longrightarrow>
      R (view s) (view (snd (exec_op S ctx now op s)))"

locale docs_create_relation = docs_relation +
  assumes R_create: "invar s \<Longrightarrow> valid_time now \<Longrightarrow> pages_input (d_Pages document) \<Longrightarrow>
      R (view s) (view (snd (st_Create S ctx now document s)))"

context docs_relation
begin

abbreviation evo :: "('s, 'o) App \<Rightarrow> 's env \<Rightarrow> ('s, 'o) world \<Rightarrow> ('s, 'o) world \<Rightarrow> bool" where
  "evo a E \<equiv> world_rel R invar view S a E"

lemma evo_refl [simp]: "evo a E w w"
  by (simp add: world_rel_def R_refl)

lemma evo_trans: "evo a E w1 w2 \<Longrightarrow> evo a E w2 w3 \<Longrightarrow> evo a E w1 w3"
  unfolding world_rel_def by (blast intro: R_trans)

text \<open>The documents alone count.\<close>

lemma evo_docs: "wd_docs w' = wd_docs w \<Longrightarrow> evo a E w w'"
  by (simp add: world_rel_def R_refl)

lemma evo_E: "(r, w') = m \<Longrightarrow> evo a E w (snd m) \<Longrightarrow> evo a E w w'"
  by (metis snd_conv)

lemma docs_call_evolves:
  assumes "\<And>ctx now s. ap_documents a = S \<Longrightarrow> invar s \<Longrightarrow> valid_time now \<Longrightarrow>
      invar (snd (conc ctx now s)) \<and> R (view s) (view (snd (conc ctx now s)))"
  shows "evo a E w (snd (docs_call E conc w))"
  unfolding world_rel_def
proof (intro impI)
  assume E: "env_rel R invar view E" and S: "ap_documents a = S" and inv: "invar (wd_docs w)"
  let ?n = "wd_calls w" and ?s = "e_other E (wd_calls w) (wd_docs w)"
  have s: "invar ?s" "R (view (wd_docs w)) (view ?s)" "valid_time (e_now E ?n)"
    using E inv by (auto simp: env_rel_def)
  have "wd_docs (snd (docs_call E conc w)) = snd (conc (e_ctx E ?n) (e_now E ?n) ?s)"
    by (simp add: docs_call_def Let_def split: prod.splits)
  with assms [OF S s(1,3)] s(2) R_trans
  show "invar (wd_docs (snd (docs_call E conc w))) \<and> R (view (wd_docs w)) (view (wd_docs (snd (docs_call E conc w))))"
    by metis
qed

lemma call_evolves:
  assumes op: "op_ok op" "\<And>document. op \<noteq> OpCreate document"
    and same: "\<And>ctx now s. ap_documents a = S \<Longrightarrow> snd (exec_op S ctx now op s) = snd (conc ctx now s)"
  shows "evo a E w (snd (docs_call E conc w))"
proof (rule docs_call_evolves)
  fix ctx now s assume S: "ap_documents a = S" and s: "invar s" "valid_time now"
  have "invar (snd (exec_op S ctx now op s))"
    using exec_op_kept [OF s op(1) surjective_pairing] by blast
  with R_op [OF s op] show "invar (snd (conc ctx now s)) \<and> R (view s) (view (snd (conc ctx now s)))"
    by (simp add: same [OF S])
qed

lemma read_evolves: "evo a E w (snd (docs_read E f w))"
  unfolding docs_read_def by (rule docs_call_evolves) (simp add: R_refl)

lemma calls_evolve:
  "evo a E w (snd (docs_call E (\<lambda>ctx now. st_Delete (ap_documents a) ctx now i) w))"
  "evo a E w (snd (docs_call E (\<lambda>ctx now. st_Purge (ap_documents a) ctx now i) w))"
  "evo a E w (snd (docs_call E (\<lambda>ctx now. st_Restore (ap_documents a) ctx now i) w))"
  "evo a E w (snd (docs_call E (\<lambda>ctx now. st_ResetPages (ap_documents a) ctx now i) w))"
  "evo a E w (snd (docs_call E (\<lambda>ctx now. st_TransitionTo (ap_documents a) ctx now i st) w))"
  by (rule call_evolves [where op = "OpDelete i"] call_evolves [where op = "OpPurge i"]
      call_evolves [where op = "OpRestore i"] call_evolves [where op = "OpResetPages i"]
      call_evolves [where op = "OpTransitionTo i st"]; simp add: ok_call_def)+

lemma update_evolves:
  "meta_frame fn \<Longrightarrow> evo a E w (snd (docs_call E (\<lambda>ctx now. st_UpdateMeta (ap_documents a) ctx now i (Some fn)) w))"
  by (rule call_evolves [where op = "OpUpdateMeta i fn"]) (simp_all add: ok_call_def)

lemma add_page_evolves: "pg_Key page \<noteq> '''' \<Longrightarrow> evo a E w (snd (onPageDownloaded a E i page w))"
  unfolding onPageDownloaded_def
  by (rule call_evolves [where op = "OpAddPage i page"]) (simp_all add: ok_call_def)

text \<open>What a handler of a source does to its host.\<close>

lemma app_host_evolves: "page_host (app_host a E name st) (evo a E)"
proof
  show "evo a E w (snd (os_PutObject Obj ctx info body w))"
    if "ho_objects (app_host a E name st) = Some Obj" for Obj w ctx info body
    using that by (auto intro: evo_docs)
  show "evo a E w (snd (hook cancelled i page w))"
    if "ho_hook (app_host a E name st) = Some hook" "pg_Key page \<noteq> ''''" for hook w cancelled i page
  proof -
    let ?E = "if cancelled then E\<lparr>e_ctx := \<lambda>n. canceled\<rparr> else E"
    have "evo a ?E w (snd (onPageDownloaded a ?E i page w))" using that(2) by (rule add_page_evolves)
    moreover have "env_rel R invar view ?E = env_rel R invar view E" by (auto simp: env_rel_def)
    ultimately show ?thesis using that(1) by (auto simp: world_rel_def)
  qed
qed (auto intro: evo_trans)

end

section \<open>The worker\<close>

definition handlers_evolve ::
  "(docmap \<Rightarrow> docmap \<Rightarrow> bool) \<Rightarrow> ('s \<Rightarrow> bool) \<Rightarrow> ('s \<Rightarrow> docmap) \<Rightarrow> 's Store \<Rightarrow> ('s, 'o) App \<Rightarrow> 's env \<Rightarrow> bool" where
  "handlers_evolve R invar view S a E \<longleftrightarrow>
     (\<forall>src factory name st h d w. ap_sourceFactories a src = Some factory \<longrightarrow>
        fa_NewHandler factory (store_at name st) (onPageDownloaded a) = Some h \<longrightarrow>
        world_rel R invar view S a E w (snd (sh_ResolveDocument h E d w)) \<and>
        world_rel R invar view S a E w (snd (sh_ArchiveContent h E d w)) \<and>
        world_rel R invar view S a E w (snd (sh_ArchiveManifest h E d w)))"

context docs_relation
begin

lemma failDocument_evolves: "evo a E w (snd (failDocument a E i e w))"
proof -
  note update = update_evolves [OF meta_frame_callbacks(1), of a E w i e]
  show ?thesis
    using update calls_evolve(5) [of a E _ i StatusFailed]
    by (auto simp: failDocument_def split: prod.splits sum.splits)
      (metis snd_conv evo_trans)+
qed

lemma or_fail_evolves:
  "evo a E w (snd m) \<Longrightarrow> (\<And>x w'. evo a E w' (snd (k x w'))) \<Longrightarrow> evo a E w (snd (or_fail a E i m k))"
  unfolding or_fail_def
  by (cases m; cases "fst m") (auto intro: evo_trans [OF _ failDocument_evolves] evo_trans)

lemma archive_document_evolves:
  assumes "\<And>d w. evo a E w (snd (sh_ResolveDocument h E d w))" "\<And>d w. evo a E w (snd (sh_ArchiveContent h E d w))"
    "\<And>d w. evo a E w (snd (sh_ArchiveManifest h E d w))"
  shows "evo a E w (snd (archive_document a E i h document w))"
proof -
  have get: "evo a E w (snd (case docs_read E (\<lambda>ctx. st_Get (ap_documents a) ctx i) w of
      (Inl e, w) \<Rightarrow> (Inl (e, zero_Document), w) | (Inr d, w) \<Rightarrow> (Inr d, w)))" for w
    using read_evolves [of a E w "\<lambda>ctx. st_Get (ap_documents a) ctx i"] by (auto split: prod.splits sum.splits)
  have manifest: "evo a E w (snd (archive_manifest a E i h w))" for w
    unfolding archive_manifest_def by (intro or_fail_evolves read_evolves assms calls_evolve get)
  have pages: "evo a E w (snd (archive_pages a E i h document (archive_manifest a E i h) w))" for document w
    unfolding archive_pages_def by (auto intro!: or_fail_evolves assms calls_evolve manifest)
  show ?thesis
    unfolding archive_document_def
    by (intro or_fail_evolves calls_evolve) (auto intro!: or_fail_evolves assms update_evolves pages)
qed

lemma processDocument_evolves:
  assumes "handlers_evolve R invar view S a E"
  shows "evo a E w (snd (processDocument a E i w))"
proof -
  have each: "evo a E w (snd (or_fail a E i (getSourceFactory a (d_Source document), w) (\<lambda>factory w.
      or_fail a E i (getStorage a (d_StorageBackend document), w) (\<lambda>objectStorage w.
      (case fa_NewHandler factory (store_at (d_StorageBackend document) objectStorage) (onPageDownloaded a) of
         None \<Rightarrow> failDocument a E i (ErrText (''source handler factory returned nil: '' @ d_Source document)) w
       | Some handler \<Rightarrow> archive_document a E i handler document w)))))" for document w
  proof (cases "ap_sourceFactories a (d_Source document)")
    case None
    then show ?thesis by (simp add: getSourceFactory_def or_fail_def failDocument_evolves)
  next
    case (Some factory)
    have "evo a E w (snd (archive_document a E i h document w))"
      if "fa_NewHandler factory (store_at name st) (onPageDownloaded a) = Some h" for h w name st
      using assms Some that unfolding handlers_evolve_def by (blast intro: archive_document_evolves)
    then show ?thesis
      using Some by (auto simp: getSourceFactory_def or_fail_def [where m = "(Inr _, _)"] failDocument_evolves
          intro!: or_fail_evolves split: option.split)
  qed
  obtain r w1 where run: "docs_read E (\<lambda>ctx. st_Get (ap_documents a) ctx i) w = (r, w1)" by fastforce
  have "evo a E w w1" using read_evolves [of a E w "\<lambda>ctx. st_Get (ap_documents a) ctx i"] run by simp
  then show ?thesis
    using each by (cases r) (auto simp: processDocument_def run intro: evo_trans)
qed

lemma processQueued_evolves:
  assumes "handlers_evolve R invar view S a E"
  shows "evo a E w (processQueued a E w)"
proof -
  have each: "evo a E w (process_each a E ds w)" for ds w
    by (induction ds arbitrary: w) (auto intro: evo_trans [OF processDocument_evolves [OF assms]])
  obtain r w1 where run: "docs_read E (\<lambda>ctx. st_Query (ap_documents a) ctx (status_query StatusQueued)) w = (r, w1)"
    by fastforce
  have "evo a E w w1"
    using read_evolves [of a E w "\<lambda>ctx. st_Query (ap_documents a) ctx (status_query StatusQueued)"] run by simp
  then show ?thesis
    using each by (cases r) (auto simp: processQueued_def Build_status run intro: evo_trans)
qed

lemma purge_batch_evolves: "evo a E w (snd (purge_batch a E ds w))"
proof (induction ds arbitrary: w)
  case (Cons d ds)
  have objects: "evo a E w (snd (os_DeletePrefix (store_at name st) ctx prfx w))" for name st ctx prfx
    by (rule evo_docs) (simp add: store_at_sel split: prod.splits)
  obtain b w1 n w2 where run: "purge_document a E d w = (b, w1)" "purge_batch a E ds w1 = (n, w2)" by fastforce
  have "evo a E w (snd (purge_document a E d w))"
    using objects calls_evolve(2) [of a E _ "d_ID d"]
    by (auto simp: purge_document_def Let_def getStorage_def split: prod.splits sum.splits option.splits)
      (metis snd_conv evo_trans)+
  with Cons.IH [of w1] run show ?case by (auto intro: evo_trans)
qed simp

lemma processDeleted_evolves: "processDeleted a E w = Some w' \<Longrightarrow> evo a E w w'"
proof (rule processDeleted.raw_induct [where P = "\<lambda>a E w w'. evo a E w w'"])
  fix f :: "('s, 'b) App \<Rightarrow> 's env \<Rightarrow> ('s, 'b) world \<Rightarrow> ('s, 'b) world option" and a E w w'
  assume IH: "\<And>a E w w'. f a E w = Some w' \<Longrightarrow> evo a E w w'"
    and body: "(case Build (Limit deletedPurgeBatchSize (ByStatus StatusDeleted new_QueryBuilder)) of
      Inl e \<Rightarrow> Some w
    | Inr query \<Rightarrow>
        (case docs_read E (\<lambda>ctx. st_Query (ap_documents a) ctx query) w of
           (Inl e, w1) \<Rightarrow> Some w1
         | (Inr deleted, w1) \<Rightarrow>
             (if length deleted = 0 then Some w1
              else case purge_batch a E deleted w1 of
                (purgedCount, w2) \<Rightarrow>
                  (if int (length deleted) < deletedPurgeBatchSize \<or> purgedCount = 0 then Some w2 else f a E w2)))) = Some w'"
  obtain r w1 where run: "docs_read E (\<lambda>ctx. st_Query (ap_documents a) ctx (status_query StatusDeleted)) w = (r, w1)"
    by fastforce
  have one: "evo a E w w1"
    using read_evolves [of a E w "\<lambda>ctx. st_Query (ap_documents a) ctx (status_query StatusDeleted)"] run by simp
  show "evo a E w w'"
  proof (cases r)
    case (Inl e)
    then show ?thesis using body run one by (simp add: Build_deleted)
  next
    case (Inr ds)
    obtain n w2 where batch: "purge_batch a E ds w1 = (n, w2)" by fastforce
    have two: "evo a E w w2"
      using purge_batch_evolves [of a E w1 ds] batch one by (auto intro: evo_trans)
    have "w' = w1 \<or> w' = w2 \<or> f a E w2 = Some w'"
      using body by (simp add: Build_deleted run Inr batch split: if_split_asm)
    then show ?thesis using one two evo_trans [OF two IH] by auto
  qed
qed

lemma worker_loop_evolves:
  assumes "handlers_evolve R invar view S a E"
  shows "worker_loop a E ticks w = Some w' \<Longrightarrow> evo a E w w'"
proof (induction ticks arbitrary: w)
  case (Cons tick ticks)
  show ?case
  proof (cases tick)
    case QueuedTick
    then show ?thesis
      using Cons processQueued_evolves [OF assms, of w] by (auto intro: evo_trans)
  next
    case DeletedTick
    then show ?thesis
      using Cons by (auto split: if_splits option.splits intro: evo_trans processDeleted_evolves)
  qed
qed simp

end

section \<open>The two sources\<close>

context docs_relation
begin

lemma source_handlers_evolve:
  "h = Hitomi_NewHandler hnet (store_at name st) (onPageDownloaded a) \<Longrightarrow>
   evo a E w (snd (sh_ResolveDocument h E d w)) \<and> evo a E w (snd (sh_ArchiveContent h E d w)) \<and>
   evo a E w (snd (sh_ArchiveManifest h E d w))"
  "h = Jm_NewHandler jnet (store_at name st) (onPageDownloaded a) \<Longrightarrow>
   evo a E w (snd (sh_ResolveDocument h E d w)) \<and> evo a E w (snd (sh_ArchiveContent h E d w)) \<and>
   evo a E w (snd (sh_ArchiveManifest h E d w))"
proof -
  have host: "host_of E (Some (store_at name st)) (Some (onPageDownloaded a)) = app_host a E name st"
    by (simp add: app_host_def)
  note frame = app_host_evolves [of a E name st]
  show "evo a E w (snd (sh_ResolveDocument h E d w)) \<and> evo a E w (snd (sh_ArchiveContent h E d w)) \<and>
      evo a E w (snd (sh_ArchiveManifest h E d w))"
    if "h = Hitomi_NewHandler hnet (store_at name st) (onPageDownloaded a)"
    by (simp add: that Hitomi_NewHandler_def host snd_content page_host.ArchiveContent_keeps [OF frame]
        page_host.ArchiveManifest_keeps [OF frame] page_host.ResolveDocument_keeps [OF frame])
  show "evo a E w (snd (sh_ResolveDocument h E d w)) \<and> evo a E w (snd (sh_ArchiveContent h E d w)) \<and>
      evo a E w (snd (sh_ArchiveManifest h E d w))"
    if "h = Jm_NewHandler jnet (store_at name st) (onPageDownloaded a)"
    by (simp add: that Jm_NewHandler_def host snd_content page_host.Jm_ArchiveContent_keeps [OF frame]
        page_host.Jm_ArchiveManifest_keeps [OF frame] page_host.Jm_ResolveDocument_keeps [OF frame])
qed

lemma program_handlers_evolve:
  assumes "\<And>src factory. ap_sourceFactories a src = Some factory \<Longrightarrow>
      (\<exists>net. factory = Hitomi_NewFactory net) \<or> (\<exists>net. factory = Jm_NewFactory net)"
  shows "handlers_evolve R invar view S a E"
  unfolding handlers_evolve_def
proof (intro allI impI)
  fix src factory name st h d w
  assume "ap_sourceFactories a src = Some factory"
    and h: "fa_NewHandler factory (store_at name st) (onPageDownloaded a) = Some h"
  from assms [OF this(1)] show "evo a E w (snd (sh_ResolveDocument h E d w)) \<and>
      evo a E w (snd (sh_ArchiveContent h E d w)) \<and> evo a E w (snd (sh_ArchiveManifest h E d w))"
  proof (elim disjE exE)
    fix net assume "factory = Hitomi_NewFactory net"
    then have "h = Hitomi_NewHandler net (store_at name st) (onPageDownloaded a)"
      using h by (simp add: Hitomi_NewFactory_def)
    then show ?thesis by (rule source_handlers_evolve(1))
  next
    fix net assume "factory = Jm_NewFactory net"
    then have "h = Jm_NewHandler net (store_at name st) (onPageDownloaded a)"
      using h by (simp add: Jm_NewFactory_def)
    then show ?thesis by (rule source_handlers_evolve(2))
  qed
qed

end

section \<open>Requests\<close>

context docs_create_relation
begin

lemma create_evolves:
  assumes "pages_input (d_Pages document)"
  shows "evo a E w (snd (docs_call E (\<lambda>ctx now. st_Create (ap_documents a) ctx now document) w))"
proof (rule docs_call_evolves)
  fix ctx now s assume S: "ap_documents a = S" and s: "invar s" "valid_time now"
  have "invar (snd (exec_op S ctx now (OpCreate document) s))"
    using exec_op_kept [OF s _ surjective_pairing, of "OpCreate document" ctx] assms by simp
  then show "invar (snd (st_Create (ap_documents a) ctx now document s)) \<and>
      R (view s) (view (snd (st_Create (ap_documents a) ctx now document s)))"
    using R_create [OF s assms] by (simp add: S ok_call_def)
qed

lemma requests_evolve:
  "evo a E w (snd (RequestDocument a E input w))" "evo a E w (snd (GetDocument a E i w))"
  "evo a E w (snd (QueryDocument dec a E query w))" "evo a E w (snd (RefreshDocument a E i mode w))"
  "evo a E w (snd (RemoveDocument a E i w))"
proof -
  show "evo a E w (snd (RequestDocument a E input w))"
    by (auto simp: RequestDocument_def Let_def pages_input_def zero_Document_def
        intro!: create_evolves split: sum.split)
  show "evo a E w (snd (GetDocument a E i w))" "evo a E w (snd (RemoveDocument a E i w))"
    by (simp_all add: GetDocument_def RemoveDocument_def read_evolves calls_evolve)
  show "evo a E w (snd (QueryDocument dec a E query w))"
    by (simp add: QueryDocument_def read_evolves split: sum.split)
  have bind: "evo a E w (snd m) \<Longrightarrow> (\<And>x w'. evo a E w' (snd (k x w'))) \<Longrightarrow> evo a E w (snd (bind_st m k))" for m k
    by (cases m; cases "fst m") (auto intro: evo_trans)
  show "evo a E w (snd (RefreshDocument a E i mode w))"
    by (auto simp: RefreshDocument_def intro!: bind read_evolves calls_evolve)
qed

lemma handlers_of_requests_evolve:
  "evo a E w (snd (requestDocument a E r wr w))" "evo a E w (snd (queryDocument a E r wr w))"
  "evo a E w (snd (refreshDocument a E r wr w))" "evo a E w (snd (getDocument a E r wr w))"
  "evo a E w (snd (removeDocument a E r wr w))" "evo a E w (snd (getPage a E r wr w))"
proof -
  note one = evo_E [OF sym requests_evolve(1)] evo_E [OF sym requests_evolve(2)]
    evo_E [OF sym requests_evolve(3)] evo_E [OF sym requests_evolve(4)]
    evo_E [OF sym requests_evolve(5)]
  show "evo a E w (snd (requestDocument a E r wr w))"
    by (auto simp: requestDocument_def split: option.split prod.split sum.split intro: one)
  show "evo a E w (snd (queryDocument a E r wr w))"
    by (auto simp: queryDocument_def split: option.split prod.split sum.split intro: one)
  show "evo a E w (snd (refreshDocument a E r wr w))"
    by (auto simp: refreshDocument_def Let_def split: option.split prod.split sum.split intro: one)
  show "evo a E w (snd (getDocument a E r wr w))"
    by (auto simp: getDocument_def split: option.split prod.split sum.split intro: one)
  show "evo a E w (snd (removeDocument a E r wr w))"
    by (auto simp: removeDocument_def split: option.split prod.split sum.split intro: one)
  show "evo a E w (snd (getPage a E r wr w))"
    by (auto simp: getPage_def split: option.split prod.split sum.split PageResult.split intro: one)
qed

lemma serve_evolves: "evo a E w (snd (serve cfg a E r w))"
proof -
  have guard: "evo a E w (snd (preprocess cfg h ps r wr w))"
    if "\<And>r wr w. evo a E w (snd (h r wr w))" for h ps r wr w
    using that by (simp add: preprocess_def del: run_preprocessors.simps split: prod.split bool.split)
  have route: "evo a E w (snd (h r wr w))" if "(pm, ps, h) \<in> set (routes cfg a E)" for pm ps h r wr w
    using that by (auto simp: routes_def health_def intro!: guard handlers_of_requests_evolve)
  have "evo a E w (snd (serve_mux (routes cfg a E) r wr w))" for r wr w
    using find_route_in route by (fastforce simp: serve_mux_def Let_def split: option.split)
  then show ?thesis
    by (simp add: serve_def NewRouter_def corsHandler_def split: prod.split bool.split)
qed

end

section \<open>The running server\<close>

text \<open>
  What \<open>main\<close> has running after the start: the worker, which purges once and then answers its ticks, and
  the HTTP server.  A run is the sequence of what they do; what they do at the same time is the
  interference of the environment.
\<close>

datatype server_event = HttpRequest api_request | WorkerStart | WorkerTick worker_tick

fun run_server ::
  "Config \<Rightarrow> ('s, 'o) App \<Rightarrow> 's env \<Rightarrow> server_event list \<Rightarrow> ('s, 'o) world \<Rightarrow> (writer list \<times> ('s, 'o) world) option" where
  "run_server cfg a E [] w = Some ([], w)"
| "run_server cfg a E (HttpRequest r # es) w =
     (case serve cfg a E r w of
        (wr, w1) \<Rightarrow>
          (case run_server cfg a E es w1 of
             None \<Rightarrow> None
           | Some (answers, w2) \<Rightarrow> Some (wr # answers, w2)))"
| "run_server cfg a E (WorkerStart # es) w =
     (case processDeleted a E w of None \<Rightarrow> None | Some w1 \<Rightarrow> run_server cfg a E es w1)"
| "run_server cfg a E (WorkerTick tick # es) w =
     (case worker_loop a E [tick] w of None \<Rightarrow> None | Some w1 \<Rightarrow> run_server cfg a E es w1)"

definition requests_in :: "server_event list \<Rightarrow> nat" where
  "requests_in es = length (filter (\<lambda>e. case e of HttpRequest r \<Rightarrow> True | _ \<Rightarrow> False) es)"

lemma run_server_answers: "run_server cfg a E es w = Some (answers, w') \<Longrightarrow> length answers = requests_in es"
proof (induction es arbitrary: w answers)
  case (Cons e es)
  then show ?case
    by (cases e) (auto simp: requests_in_def split: option.splits prod.splits)
qed (simp add: requests_in_def)

context docs_create_relation
begin

lemma run_server_evolves:
  assumes "handlers_evolve R invar view S a E"
  shows "run_server cfg a E es w = Some (answers, w') \<Longrightarrow> evo a E w w'"
proof (induction es arbitrary: w answers)
  case (Cons e es)
  show ?case
  proof (cases e)
    case (HttpRequest r)
    obtain wr w1 where one: "serve cfg a E r w = (wr, w1)" by fastforce
    then obtain answers' where "run_server cfg a E es w1 = Some (answers', w')"
      using Cons.prems HttpRequest by (auto split: option.splits)
    with Cons.IH one serve_evolves [of a E w cfg r] show ?thesis by (auto intro: evo_trans)
  next
    case WorkerStart
    then obtain w1 where "processDeleted a E w = Some w1" "run_server cfg a E es w1 = Some (answers, w')"
      using Cons.prems by (auto split: option.splits)
    with Cons.IH show ?thesis by (auto intro: evo_trans [OF processDeleted_evolves])
  next
    case (WorkerTick tick)
    then obtain w1 where "worker_loop a E [tick] w = Some w1" "run_server cfg a E es w1 = Some (answers, w')"
      using Cons.prems by (auto split: option.splits)
    with Cons.IH show ?thesis by (auto intro: evo_trans [OF worker_loop_evolves [OF assms]])
  qed
qed simp

lemma run_server_returns:
  assumes E: "env_rel R invar view E" "quiet E" and S: "ap_documents a = S"
    and st: "storages_ok contents legal_key a" and hs: "handlers_evolve R invar view S a E"
  shows "invar (wd_docs w) \<Longrightarrow> \<exists>answers w'. run_server cfg a E es w = Some (answers, w')"
proof (induction es arbitrary: w)
  case (Cons e es)
  have step: "invar (wd_docs w1)" if "evo a E w w1" for w1
    using that E(1) S Cons.prems by (simp add: world_rel_def)
  note purge = processDeleted_result [OF env_rel_ok [OF E(1)] E(2) S st Cons.prems]
  show ?case
  proof (cases e)
    case (HttpRequest r)
    obtain wr w1 where one: "serve cfg a E r w = (wr, w1)" by fastforce
    then have "invar (wd_docs w1)" using step [OF serve_evolves] by (metis snd_conv)
    from Cons.IH [OF this] one HttpRequest show ?thesis by auto
  next
    case WorkerStart
    then show ?thesis using purge Cons.IH by auto
  next
    case (WorkerTick tick)
    have "\<exists>w1. worker_loop a E [tick] w = Some w1"
      using purge by (cases tick) auto
    then obtain w1 where one: "worker_loop a E [tick] w = Some w1" by blast
    then have "invar (wd_docs w1)" by (intro step worker_loop_evolves [OF hs])
    from Cons.IH [OF this] one WorkerTick show ?thesis by auto
  qed
qed simp

end

lemma evolves_relation:
  assumes "document_store S view invar"
  shows "docs_create_relation S view invar evolves"
proof (intro docs_create_relation.intro docs_relation.intro docs_create_relation_axioms.intro docs_relation_axioms.intro assms
    evolves_refl)
  have one: "invar s \<Longrightarrow> valid_time now \<Longrightarrow> op_ok op \<Longrightarrow> evolves (view s) (view (snd (exec_op S ctx now op s)))"
    for s now op ctx
  proof -
    assume s: "invar s" "valid_time now" "op_ok op"
    have "kept (op_move op) (view s) (view (snd (exec_op S ctx now op s)))"
      using document_store.exec_op_kept [OF assms s surjective_pairing] by blast
    then show ?thesis unfolding evolves_def by (rule kept_mono) (auto dest: op_move_status_move)
  qed
  show "evolves m1 m3" if "evolves m1 m2" "evolves m2 m3" for m1 m2 m3 by (rule evolves_trans [OF that])
  show "evolves (view s) (view (snd (exec_op S ctx now op s)))"
    if "invar s" "valid_time now" "op_ok op" "\<And>document. op \<noteq> OpCreate document" for s now op ctx
    by (rule one [OF that(1-3)])
  show "evolves (view s) (view (snd (st_Create S ctx now document s)))"
    if "invar s" "valid_time now" "pages_input (d_Pages document)" for s now document ctx
    using one [OF that(1,2), of "OpCreate document" ctx] that(3) by (simp add: ok_call_def)
qed

interpretation memory_evolves: docs_create_relation memory_store mem_view mem_invar evolves
  by (rule evolves_relation [OF mem.document_store_axioms])

text \<open>No method but \<open>Create\<close> makes a document.\<close>

definition same_ids :: "docmap \<Rightarrow> docmap \<Rightarrow> bool" where
  "same_ids m m' \<longleftrightarrow> dom m' = dom m"

lemma implements_ids:
  assumes "implements invar view ctx conc f i" "invar s"
  shows "same_ids (view s) (view (snd (conc s)))"
proof -
  obtain r s' where run: "conc s = (r, s')" by (cases "conc s")
  show ?thesis
  proof (cases r)
    case (Inr x)
    then have "upd_doc f i (view s) = Some (x, view s')" using assms run by (auto simp: implements_def)
    with run show ?thesis by (auto simp: same_ids_def upd_doc_Some split: if_splits)
  next
    case (Inl e)
    then have "view s' = view s" using assms run by (auto simp: implements_def)
    with run show ?thesis by (simp add: same_ids_def)
  qed
qed

lemma ids_relation:
  assumes "document_store S view invar"
  shows "docs_relation S view invar same_ids"
proof (intro docs_relation.intro docs_relation_axioms.intro assms)
  show "same_ids m m" for m by (simp add: same_ids_def)
  show "same_ids m1 m3" if "same_ids m1 m2" "same_ids m2 m3" for m1 m2 m3 using that by (simp add: same_ids_def)
  note law = implements_ids [OF document_store.Delete_law [OF assms]] implements_ids [OF document_store.Purge_law [OF assms]]
    implements_ids [OF document_store.Restore_law [OF assms]] implements_ids [OF document_store.ResetPages_law [OF assms]]
    implements_ids [OF document_store.UpdateMeta_law [OF assms]] implements_ids [OF document_store.TransitionTo_law [OF assms]]
    implements_ids [OF document_store.AddPage_law [OF assms]] implements_ids [OF document_store.RemovePage_law [OF assms]]
  show "same_ids (view s) (view (snd (exec_op S ctx now op s)))"
    if "invar s" "valid_time now" "op_ok op" "\<And>document. op \<noteq> OpCreate document" for s now op ctx
    using that by (cases op) (auto simp: ok_call_def law)
qed

interpretation memory_ids: docs_relation memory_store mem_view mem_invar same_ids
  by (rule ids_relation [OF mem.document_store_axioms])

lemma started_handlers:
  fixes jnet :: "(docs_state, MemoryObjects \<times> 'r) world \<Rightarrow> 'row jm_net"
  assumes run: "start_app Y ops m plan hnet jnet now sdk (f, fs) = (Inr (cfg, a, s0), f', fs')"
    and docs: "docs_relation (ap_documents a) view invar R"
  shows "handlers_evolve R invar view (ap_documents a) a E"
proof (rule docs_relation.program_handlers_evolve [OF docs])
  fix src factory assume "ap_sourceFactories a src = Some factory"
  then show "(\<exists>net. factory = Hitomi_NewFactory net) \<or>
      (\<exists>net :: (docs_state, MemoryObjects \<times> 'r) world \<Rightarrow> 'row jm_net. factory = Jm_NewFactory net)"
    using start_app_ok [OF run] by (auto split: if_splits)
qed

section \<open>Draining the queue\<close>

definition queued_ids :: "docmap \<Rightarrow> int set" where
  "queued_ids m = {i. \<exists>d. m i = Some d \<and> d_status d = StatusQueued}"

context document_store
begin

lemma program_ids:
  assumes "\<And>src factory. ap_sourceFactories a src = Some factory \<Longrightarrow>
      (\<exists>net. factory = Hitomi_NewFactory net) \<or> (\<exists>net. factory = Jm_NewFactory net)"
  shows "handlers_evolve same_ids invar view S a E"
  using docs_relation.program_handlers_evolve [OF ids_relation [OF document_store_axioms] assms] .

lemma processQueued_queue:
  assumes a: "env_ok invar E" "quiet E" "online E" "ap_documents a = S" "factories_ok invar view E a"
    and w: "invar (wd_docs w)" and ids: "handlers_evolve same_ids invar view S a E"
  shows "invar (wd_docs (processQueued a E w)) \<and>
    card (queued_ids (view (wd_docs (processQueued a E w)))) \<le> card (queued_ids (view (wd_docs w))) - 5"
proof -
  let ?m = "view (wd_docs w)" and ?m' = "view (wd_docs (processQueued a E w))"
  let ?ds = "run_query (status_query StatusQueued) (docs_list ?m)"
  have wf: "store_wf ?m" by (rule invar_wf [OF w])
  note listed = run_status_query [OF wf _ refl, of StatusQueued, simplified, folded queued_ids_def]
  note pass = processQueued_result [OF a w refl refl]
  have "env_rel same_ids invar view E" using a(1,2) by (simp add: env_rel_def env_ok_def quiet_def same_ids_def)
  then have dom: "dom ?m' = dom ?m"
    using docs_relation.processQueued_evolves [OF ids_relation [OF document_store_axioms] ids, of w] w a(4)
    by (simp add: world_rel_def same_ids_def)
  have sub: "d_ID ` set ?ds \<subseteq> queued_ids ?m" using listed(2) by (auto simp: queued_ids_def)
  have fin: "finite (queued_ids ?m)"
    using wf by (rule_tac finite_subset [of _ "dom ?m"]) (auto simp: queued_ids_def store_wf_def)
  have left: "queued_ids ?m' \<subseteq> queued_ids ?m - d_ID ` set ?ds"
  proof
    fix i assume "i \<in> queued_ids ?m'"
    then obtain d' where d': "?m' i = Some d'" "d_status d' = StatusQueued" by (auto simp: queued_ids_def)
    then obtain d where d: "?m i = Some d" using dom by blast
    have i: "i \<notin> d_ID ` set ?ds" using pass d' by (auto simp: settled_status_def)
    with pass d d' have "d_status d = StatusQueued" by fastforce
    with d i show "i \<in> queued_ids ?m - d_ID ` set ?ds" by (auto simp: queued_ids_def)
  qed
  have "card (queued_ids ?m') \<le> card (queued_ids ?m - d_ID ` set ?ds)"
    using left fin by (intro card_mono) auto
  also have "\<dots> = card (queued_ids ?m) - length ?ds"
    using sub distinct_card [OF listed(1)] by (simp add: card_Diff_subset)
  finally have card: "card (queued_ids ?m') \<le> card (queued_ids ?m) - length ?ds" .
  show ?thesis
  proof (cases "length ?ds < 5")
    case True
    then have "queued_ids ?m' = {}" using left listed(4) by auto
    then show ?thesis using pass by simp
  next
    case False
    then show ?thesis using pass card by auto
  qed
qed

lemma queue_drained:
  assumes a: "env_ok invar E" "quiet E" "online E" "ap_documents a = S" "factories_ok invar view E a"
    and ids: "handlers_evolve same_ids invar view S a E"
  shows "invar (wd_docs w) \<Longrightarrow> card (queued_ids (view (wd_docs w))) \<le> 5 * k \<Longrightarrow>
    queued_ids (view (wd_docs ((processQueued a E ^^ k) w))) = {}"
proof (induction k arbitrary: w)
  case 0
  have "finite (queued_ids (view (wd_docs w)))"
    using invar_wf [OF 0(1)] by (rule_tac finite_subset [of _ "dom (view (wd_docs w))"]) (auto simp: queued_ids_def store_wf_def)
  with 0 show ?case by simp
next
  case (Suc k)
  note pass = processQueued_queue [OF a Suc.prems(1) ids]
  then have "card (queued_ids (view (wd_docs (processQueued a E w)))) \<le> 5 * k" using Suc.prems(2) by auto
  with pass Suc.IH [of "processQueued a E w"] show ?case by (simp add: funpow_swap1)
qed

end

section \<open>Stopping and starting again\<close>

text \<open>What the deferred \<open>closeDocumentStore\<close> leaves behind: the memory store is lost.\<close>

definition stop_app :: "sqlite_machine \<Rightarrow> Config \<Rightarrow> docs_state \<Rightarrow> sqlite_files \<Rightarrow> sqlite_files" where
  "stop_app m cfg s fs =
     (if uses_sqlite cfg
      then SQLiteStore_Close m (cf_SQLitePath cfg) (snd s) (connect (file_at m (sqlite_path (cf_SQLitePath cfg)) fs)) fs
      else fs)"

lemma start_again:
  assumes run: "start_app Y ops m plan hnet jnet now sdk (f, fs) = (Inr (cfg, a, s0), f', fs')"
    and sqlite: "uses_sqlite cfg" and free: "names_free (file_at m (sqlite_path (cf_SQLitePath cfg)) fs)"
    and named: "sm_file m (sqlite_path (cf_SQLitePath cfg)) = Some name"
  shows "start_app Y ops m plan hnet jnet now sdk (f', stop_app m cfg s fs') =
    (Inr (cfg, a, NewMemoryStore, snd s), f', stop_app m cfg s fs')"
proof -
  let ?path = "cf_SQLitePath cfg"
  note ok = start_app_ok [OF run]
  obtain c where c: "NewSQLiteStore m background ?path fs = (Inr c, fs')"
    and docs: "newDocumentStore m plan cfg fs = (Inr (sqlite_docs plan, s0), fs')" "s0 = (NewMemoryStore, sf_db (cn_file c))"
    using ok sqlite by (auto simp: newDocumentStore_def uses_sqlite_def Let_def split: if_splits sum.splits prod.splits)
  have at: "file_at m (sqlite_path ?path) fs' = cn_file c"
    using open_result(2) [OF c free] named by (simp add: file_at_write)
  have stop: "stop_app m cfg s fs' = SQLiteStore_Close m ?path (snd s) c fs'"
    by (simp add: stop_app_def sqlite SQLiteStore_Close_def at connect_def)
  have "live background" by (simp add: live_def background_def)
  from open_again [OF c free this named, of "snd s"]
  have again: "newDocumentStore m plan cfg (stop_app m cfg s fs') = (Inr (sqlite_docs plan, NewMemoryStore, snd s), stop_app m cfg s fs')"
    using sqlite by (simp add: newDocumentStore_def uses_sqlite_def stop)
  have load: "Load Y ops f' = (Inr cfg, f')" using ok by (simp add: Load_def load_def)
  have "Load Y ops f = (Inr cfg, f')"
    using run by (auto simp: start_app_def split: sum.splits prod.splits)
  then show ?thesis
    using run docs again load
    by (auto simp: start_app_def NewAPIClient_def split: sum.splits prod.splits)
qed

section \<open>An application with both sources\<close>

abbreviation sample_program :: "(MemoryStore, MemoryObjects) App" where
  "sample_program \<equiv> snd (RegisterSourceFactory (Some (Jm_NewFactory (\<lambda>w. test_net)))
     (snd (RegisterSourceFactory (Some (Hitomi_NewFactory (\<lambda>w. sample_net))) (NewApp memory_store ''local'' 0))))"

lemma sample_program_documents: "ap_documents sample_program = memory_store"
  by (simp add: RegisterSourceFactory_def NewApp_def Hitomi_NewFactory_def Jm_NewFactory_def)

lemma sample_program_factories:
  "ap_sourceFactories sample_program src = Some factory \<Longrightarrow>
     (\<exists>net. factory = Hitomi_NewFactory net) \<or> (\<exists>net :: _ \<Rightarrow> nat jm_net. factory = Jm_NewFactory net)"
  by (auto simp: RegisterSourceFactory_def NewApp_def Hitomi_NewFactory_def Jm_NewFactory_def
      SourceTypeHitomi_def SourceTypeJmcomic_def split: if_splits)

end
