(* ===== verification/Spec2Isabelle.thy ===== *)
theory Spec2Isabelle
  imports HitomiSamples JmSamples HttpSamples SqlOpen SystemRun
begin

text \<open>This library verifies the document archive of the repository: a server that is asked over HTTP to
  archive a document of a source (Hitomi or JMComic), fetches its pages with a background worker, keeps
  the pages in object storages and the documents in a document store.  The program is Go; each theory
  below translates the source files it names, and the theorems of this root theory are the properties
  that make the program correct.

  \<^bold>\<open>The program and its parts.\<close>  \<^verbatim>\<open>cmd/server/main.go\<close> reads \<^verbatim>\<open>config.yml\<close> (\<^verbatim>\<open>internal/config\<close>), opens a
  document store (\<^verbatim>\<open>internal/documents\<close>: \<open>MemoryStore\<close> or \<open>SQLiteStore\<close>), makes the application
  (\<^verbatim>\<open>internal/archive/app.go\<close>), registers the two source factories (\<^verbatim>\<open>internal/sources/hitomi\<close>,
  \<^verbatim>\<open>internal/sources/jmcomic\<close>) and the configured object storages (\<^verbatim>\<open>internal/storage\<close>: memory or S3), and
  starts the worker and the HTTP API (\<^verbatim>\<open>internal/httpapi\<close>).  A request over HTTP creates, reads, refreshes or
  deletes documents in the store.  The worker takes queued documents one by one: the source handler
  resolves the document, downloads its pages, puts them into the object storage of the document under a
  key made of its id and the hash of the page (\<^verbatim>\<open>internal/archive/keys.go\<close>), and records each page in the
  store through a hook.  The Hitomi handler downloads in parallel under the scheduler of
  \<^verbatim>\<open>internal/sources/scheduler.go\<close>, which all documents share.  Deleted documents are purged: their objects are
  removed, then their pages.

  \<^bold>\<open>How the code is represented.\<close>  A Go function that returns a value and an error is a function into
  \<open>go_error + 'a\<close>; a method that changes its receiver returns the new receiver with the result, on its error
  paths too.  All errors are one datatype with their texts, \<^verbatim>\<open>errors.Is\<close> and \<^verbatim>\<open>errors.As\<close> (\<open>GoErrors\<close>).
  Strings are byte strings.  Go's \<open>int\<close> is \<open>int\<close> where it counts or indexes what is in memory; where the code
  parses or multiplies a number from outside, the 64 bit range or the wrap-around is written out (\<open>Atoi\<close> in
  \<open>GoStrings\<close>, \<open>wrap64\<close>, the durations of \<open>GoNet\<close>, the \<open>64 word\<close> generation of the scheduler, the \<open>32 word\<close>
  arithmetic of MD5).  A nil slice and an empty one are the same unless the code tells them apart.  A context
  is the list of the failures its steps meet (\<open>ctx\<close> in \<open>StoreApi\<close>), so a theorem about every context covers
  cancellation at any step and failing database calls.

  \<^bold>\<open>Theories.\<close>

  \<^item> \<open>Prelude\<close>: results, combinators and generic lemmas.  \<open>GoStrings\<close>, \<open>GoTime\<close>, \<open>GoErrors\<close>, \<open>GoNet\<close>, \<open>Json\<close>,
    \<open>Regexp\<close>, \<open>Md5\<close>, \<open>Crypto\<close>: what the program uses of Go's standard library, executable.  Their lemmas
    are round trips (\<open>Itoa\<close> and \<open>Atoi\<close>, times and their texts, hexadecimal digests), the evaluation of
    \<^verbatim>\<open>path.Join\<close>, and that the fuel of the JSON scanner is enough.
  \<^item> \<open>DocStatus\<close>, \<open>DocModel\<close>, \<open>DocJson\<close> (\<^verbatim>\<open>internal/documents/model.go\<close>): statuses with their transition table,
    documents, pages, metadata, JSON.
  \<^item> \<open>StoreApi\<close>, \<open>StoreSpec\<close> (\<^verbatim>\<open>internal/documents/store.go\<close>): the query builder, the \<open>Store\<close> interface as a record
    of methods, and its contract, the locale \<open>document_store\<close>: each method acts on the one document it names
    as a transformer of documents says, under the invariant \<open>store_wf\<close>.
  \<^item> \<open>MemStore\<close> (\<open>MemoryStore\<close> in \<^verbatim>\<open>store.go\<close>): the slice of documents by id; the contract is interpreted on it.
  \<^item> \<open>SqlStore\<close>, \<open>SqlRefine\<close>, \<open>SqlMethods\<close>, \<open>SqlQuery\<close> (\<^verbatim>\<open>internal/documents/sqlite_store.go\<close>): the two tables with
    their constraints, transactions whose calls may fail one by one, every method with its statements, and
    the interpretation of the contract for every order in which the engine visits rows.  \<open>SqlOpen\<close>: opening
    the database, that is the statements of \<open>init\<close> on whatever the file held before.
  \<^item> \<open>StoreRuns\<close>, \<open>StoreAgree\<close>: sequences of store calls; the two stores agree on them.
  \<^item> \<open>Keys\<close> (\<^verbatim>\<open>internal/archive/keys.go\<close>): object keys are injective, and prefixes of documents disjoint.
  \<^item> \<open>ObjStore\<close>, \<open>S3Store\<close>, \<open>S3Proofs\<close> (\<^verbatim>\<open>internal/storage\<close>): the \<open>ObjectStore\<close> interface with its contracts
    \<open>object_store\<close>, \<open>growing_object_store\<close> and \<open>complete_object_store\<close>; the storage in memory and the one over S3
    keep them.
  \<^item> \<open>Scheduler\<close> (\<^verbatim>\<open>internal/sources/scheduler.go\<close>): the critical sections as functions, the goroutines in \<open>Do\<close> as
    the step relation \<open>sched_step\<close>, with an invariant of all reachable states.
  \<^item> \<open>ArchiveApp\<close>, \<open>ArchiveWorker\<close> (\<^verbatim>\<open>internal/archive/app.go\<close>): requests, \<open>processDocument\<close>, the two passes of the
    worker.  \<open>ArchiveProofs\<close>, \<open>ArchivePurge\<close>, \<open>ArchiveQueue\<close>: their proofs, inside \<open>document_store\<close>.
  \<^item> \<open>SourceHost\<close>, \<open>HostStore\<close>: what a source handler works with, and the contracts \<open>page_host\<close> and \<open>page_store\<close>
    between a handler and its host, interpreted for the application.
  \<^item> \<open>HitomiResolver\<close>, \<open>HitomiHandler\<close>, \<open>HitomiProofs\<close>, \<open>HitomiLive\<close> (\<^verbatim>\<open>internal/sources/hitomi\<close>): the resolver
    with its scripts and retries, the handler with one task per page and a schedule that interleaves them.
  \<^item> \<open>JmResolver\<close>, \<open>JmHandler\<close>, \<open>JmProofs\<close> (\<^verbatim>\<open>internal/sources/jmcomic\<close>): the signed and encrypted API, the
    scrambled images, the sequential handler.
  \<^item> \<open>Config\<close>, \<open>ConfigProofs\<close> (\<^verbatim>\<open>internal/config/config.go\<close>, \<^verbatim>\<open>tools/config_merge.go\<close>): reading, checking and writing
    the configuration.  \<open>Server\<close>, \<open>ServerProofs\<close> (\<^verbatim>\<open>cmd/server/main.go\<close>): the wiring, and that a started
    application meets the hypotheses of the other theorems.
  \<^item> \<open>HttpApi\<close>, \<open>HttpProofs\<close> (\<^verbatim>\<open>internal/httpapi\<close>): requests, routing, authorisation, handlers and answers.
  \<^item> \<open>SystemRun\<close>: the running server, as a sequence of requests and ticks of the worker with interference at
    every store call, then a stop and a new start.  What each goroutine relies on of the others and
    guarantees to them is one relation, \<open>evolves\<close>; the proof that it does so is in a locale for any relation
    between states of the documents (\<open>docs_relation\<close>), interpreted with \<open>evolves\<close> and with \<open>same_ids\<close>,
    and the latter gives that passes over the queue drain it.
  \<^item> \<open>Samples\<close>, \<open>HitomiSamples\<close>, \<open>JmSamples\<close>, \<open>HttpSamples\<close>: the concrete inputs of the witnesses.

  \<^bold>\<open>Concurrency.\<close>  Each store call is atomic, as in the program: the memory store holds its mutex, the
  database has one connection and a transaction per call.  Between two calls of one goroutine the environment
  of \<open>ArchiveApp\<close> may change the documents (\<open>e_other\<close>); theorems that need nobody else to act assume \<open>quiet\<close>,
  those about invariants and histories hold for every environment that keeps to the same rules.

  \<^bold>\<open>Bounds and fuel.\<close>  The JSON scanner has fuel \<open>2 * length s + 2\<close>; \<open>skip_value_fuel\<close> shows that more
  changes nothing.  Retries are bounded as in the code: five attempts of the scheduler and of each download.
  The run of the Hitomi handler is completed by \<open>task_bound\<close> moves of each goroutine, which is shown
  to end it.  The purge loop \<open>processDeleted\<close> is a \<^verbatim>\<open>partial_function\<close>; it is proved to return.  The
  batches have five documents, as in the code.

  \<^bold>\<open>Parameters.\<close>  Code outside of the repository is a parameter, with named hypotheses for what is relied on:
  the client of the AWS SDK (\<open>s3_client\<close>, \<open>s3_laws\<close>), the YAML library (\<open>yaml_lib\<close>, \<open>yaml_roundtrips\<close>), the
  file system (\<open>file_ops\<close>, \<open>files_roundtrip\<close>), the SQLite driver (\<open>sqlite_machine\<close>), the remote servers (\<open>http_client\<close>), image decoding and encoding (\<open>image_codec\<close>), the natural
  order of page names (\<open>sort_pages\<close>), the order in which the SQL engine visits rows (\<open>sqlite_engine\<close>).  Each
  theorem with such a parameter has a witness with a concrete one.

  \<^bold>\<open>Not modelled.\<close>  Logging; the timing of tickers and waits, so that a retry after a wait is just the next
  attempt; the texts of errors of libraries; the HTTP server below the handlers (connections, time-outs),
  signals and the shutdown; \<open>SaveImage\<close>, which is called nowhere; the escaping of redirect targets; the
  limit on the nesting of JSON; a database connection that the pool replaces, and a database that another
  process changes.
\<close>

section \<open>The running server\<close>



section \<open>Document stores\<close>

text \<open>
  C2: \<open>SQLiteStore\<close> refines the abstract document store, in whatever order the engine returns
  the rows of a \<^verbatim>\<open>SELECT\<close> before they are sorted: each of its eleven methods acts on the document it
  names as the transformer of \<open>StoreSpec\<close> says, fails exactly when the transformer does unless a
  database call failed, leaves every other document alone, and keeps the store invariant.
\<close>

theorem sqlite_store_refines:
  assumes "\<And>rows. mset (plan rows) = mset rows"
  shows "document_store (sqlite_store plan) sql_view sql_invar"
  using assms by (rule sqlite_document_store)

theorem sqlite_store_refines_witness:
  "document_store (sqlite_store rev) sql_view sql_invar \<and> sql_invar empty_db"
  using sqlite_store_refines [of rev] by simp

text \<open>
  C3: \<open>MemoryStore\<close> refines the same abstract document store.
\<close>

theorem memory_store_refines: "document_store memory_store mem_view mem_invar"
  by (rule mem.document_store_axioms)

section \<open>The archive flow\<close>

text \<open>
  C4: the outcome of \<open>processDocument\<close> on a queued document, over any document store that meets
  the contract, when no other goroutine interferes and no store call fails for an outside reason:
  either the document returned is the stored one and is archived, or the stored document is failed
  and its error is the text of the error returned.  No document is left resolving or downloading,
  and the status of every other document is unchanged.
\<close>

theorem processDocument_outcome:
  assumes "document_store S view invar" "env_ok invar E" "quiet E" "online E"
    and "ap_documents a = S" "factories_ok invar view E a"
    and "invar (wd_docs w)" "view (wd_docs w) i = Some d0" "d_status d0 = StatusQueued"
  shows "case processDocument a E i w of
      (Inr d, w') \<Rightarrow> invar (wd_docs w') \<and> others_kept i (view (wd_docs w)) (view (wd_docs w')) \<and>
        view (wd_docs w') i = Some d \<and> d_status d = StatusArchived
    | (Inl (e, _), w') \<Rightarrow> invar (wd_docs w') \<and> others_kept i (view (wd_docs w)) (view (wd_docs w')) \<and>
        (\<exists>d. view (wd_docs w') i = Some d \<and> d_status d = StatusFailed \<and> d_Error d = error_text e)"
  using assms by (rule document_store.processDocument_result)

theorem processDocument_outcome_witness:
  "case processDocument (sample_app memory_store) sample_env 0 (sample_world (sample_mem StatusQueued)) of
      (Inr d, w') \<Rightarrow> mem_invar (wd_docs w') \<and> mem_view (wd_docs w') 0 = Some d \<and> d_status d = StatusArchived
    | (Inl (e, _), w') \<Rightarrow> mem_invar (wd_docs w') \<and>
        (\<exists>d. mem_view (wd_docs w') 0 = Some d \<and> d_status d = StatusFailed \<and> d_Error d = error_text e)"
  using processDocument_outcome [OF mem.document_store_axioms, of sample_env "sample_app memory_store"
    "sample_world (sample_mem StatusQueued)" 0 "sample_doc 0 StatusQueued"]
  by (auto split: prod.splits sum.splits)


text \<open>
  C5: the worker never hangs.  While no other goroutine changes documents, the loop of \<open>processDeleted\<close>
  over the batches of deleted documents returns, whatever store or storage calls fail; and when no
  store call fails for an outside reason, \<open>RunWorker\<close> answers every sequence of ticks and leaves the store
  in good order.
\<close>

theorem processDeleted_terminates:
  assumes "document_store S view invar" "env_ok invar E" "quiet E" "ap_documents a = S"
    and "storages_ok contents legal_key a" "invar (wd_docs w)"
  shows "(\<exists>w'. processDeleted a E w = Some w') \<and>
    (online E \<and> factories_ok invar view E a \<longrightarrow> (\<exists>w'. RunWorker a E ticks w = Some w' \<and> invar (wd_docs w')))"
  using document_store.processDeleted_result [OF assms]
    document_store.RunWorker_result [OF assms(1-3) _ assms(4) _ assms(5,6)] by blast

theorem processDeleted_terminates_witness:
  "\<exists>w'. RunWorker (sample_app memory_store) sample_env [QueuedTick, DeletedTick] (sample_world (sample_mem StatusDeleted)) = Some w' \<and>
     mem_invar (wd_docs w')"
  using processDeleted_terminates [OF mem.document_store_axioms _ _ _ sample_storages_ok,
      where E = sample_env and w = "sample_world (sample_mem StatusDeleted)" and ticks = "[QueuedTick, DeletedTick]"]
  by simp

text \<open>
  C6: what a purge pass may do, while no other goroutine changes documents.  A document is either as
  it was, or it was deleted before, is purged now, and no object under its prefix is left in its
  storage; an object disappears only when it is under the prefix of a document that was deleted.
\<close>

theorem processDeleted_safe:
  assumes "document_store S view invar" "env_ok invar E" "quiet E" "ap_documents a = S"
    and "storages_ok contents legal_key a" "invar (wd_docs w)" "processDeleted a E w = Some w'"
  shows "(\<forall>i d. view (wd_docs w) i = Some d \<longrightarrow>
      (\<exists>d'. view (wd_docs w') i = Some d' \<and>
        (d' = d \<or> d_status d = StatusDeleted \<and> d_status d' = StatusPurged \<and>
          (\<forall>key. prefix (DocumentObjectPrefix (Itoa i)) key \<longrightarrow>
             contents (d_StorageBackend d) (wd_objs w' (d_StorageBackend d)) key = None)))) \<and>
    (\<forall>name key. contents name (wd_objs w' name) key = contents name (wd_objs w name) key \<or>
      contents name (wd_objs w' name) key = None \<and>
      (\<exists>i \<in> deleted_ids (view (wd_docs w)). prefix (DocumentObjectPrefix (Itoa i)) key))"
proof -
  let ?m = "view (wd_docs w)" and ?m' = "view (wd_docs w')"
  have P: "purges contents (deleted_ids ?m) ?m (wd_objs w) ?m' (wd_objs w')"
    using document_store.processDeleted_result [OF assms(1-6)] assms(7) by auto
  have "\<exists>d'. ?m' i = Some d' \<and> (d' = d \<or> d_status d = StatusDeleted \<and> d_status d' = StatusPurged \<and>
      (\<forall>key. prefix (DocumentObjectPrefix (Itoa i)) key \<longrightarrow> contents (d_StorageBackend d) (wd_objs w' (d_StorageBackend d)) key = None))"
    if d: "?m i = Some d" for i d
  proof -
    obtain d' where d': "?m' i = Some d'" using purgesD(1) [OF P, of i] d by fastforce
    from purgesD(2) [OF P d d'] d d' show ?thesis by (auto simp: doc_purged_def deleted_ids_def)
  qed
  with purgesD(3) [OF P] show ?thesis by blast
qed

theorem processDeleted_safe_witness:
  "\<exists>w'. processDeleted (sample_app memory_store) sample_env (sample_world (sample_mem StatusDeleted)) = Some w' \<and>
     (\<exists>d'. mem_view (wd_docs w') 0 = Some d' \<and>
        (d' = sample_doc 0 StatusDeleted \<or> d_status d' = StatusPurged))"
proof -
  let ?w = "sample_world (sample_mem StatusDeleted)"
  obtain w' where w': "processDeleted (sample_app memory_store) sample_env ?w = Some w'"
    using document_store.processDeleted_result [OF mem.document_store_axioms _ _ _ sample_storages_ok,
      where E = sample_env and w = ?w] by auto
  have "\<exists>d'. mem_view (wd_docs w') 0 = Some d' \<and> (d' = sample_doc 0 StatusDeleted \<or>
      d_status (sample_doc 0 StatusDeleted) = StatusDeleted \<and> d_status d' = StatusPurged \<and>
      (\<forall>key. prefix (DocumentObjectPrefix (Itoa 0)) key \<longrightarrow>
         memory_contents (wd_objs w' (d_StorageBackend (sample_doc 0 StatusDeleted))) key = None))"
    by (rule processDeleted_safe [OF mem.document_store_axioms _ _ _ sample_storages_ok _ w',
        THEN conjunct1, rule_format]) simp_all
  with w' show ?thesis by blast
qed



text \<open>
  C8: passes over the queue settle what they take and drain the queue.  With the sources of the program,
  no interference and no call that fails for an outside reason, whatever the sources and the object storages
  answer, each of the at most five queued documents that the query of a pass lists ends archived or failed, and every
  other document keeps its status; and once \<open>5 * k\<close> is at least the number of queued documents, no document is
  queued after \<open>k\<close> passes.
\<close>

theorem processQueued_settles:
  assumes "document_store S view invar" "env_ok invar E" "quiet E" "online E"
    and "ap_documents a = S" "invar (wd_docs w)"
    and "\<And>src factory. ap_sourceFactories a src = Some factory \<Longrightarrow>
      (\<exists>net. factory = Hitomi_NewFactory net) \<or> (\<exists>net. factory = Jm_NewFactory net)"
    and "ds = run_query (status_query StatusQueued) (docs_list (view (wd_docs w)))"
    and "w' = processQueued a E w"
  shows "invar (wd_docs w') \<and> length ds \<le> 5 \<and>
    (\<forall>j d. j \<notin> d_ID ` set ds \<longrightarrow> view (wd_docs w) j = Some d \<longrightarrow>
       (\<exists>d'. view (wd_docs w') j = Some d' \<and> d_status d' = d_status d)) \<and>
    (\<forall>d \<in> set ds. \<exists>d'. view (wd_docs w') (d_ID d) = Some d' \<and>
       (d_status d' = StatusArchived \<or> d_status d' = StatusFailed)) \<and>
    (card (queued_ids (view (wd_docs w))) \<le> 5 * k \<longrightarrow>
       queued_ids (view (wd_docs ((processQueued a E ^^ k) w))) = {})"
proof -
  note factories = document_store.program_factories_ok [OF assms(1,2,5,7)]
  note drained = document_store.queue_drained [OF assms(1-5) factories document_store.program_ids [OF assms(1,7)] assms(6)]
  have "length ds \<le> 5" unfolding assms(8) by (simp add: run_query_def query_window_def status_query_def Let_def)
  with document_store.processQueued_result [OF assms(1-5) factories assms(6,8,9)] drained
  show ?thesis by (simp add: settled_status_def)
qed

theorem processQueued_settles_witness:
  "let w' = processQueued sample_program sample_env (sample_world (sample_mem StatusQueued))
   in (\<exists>d'. mem_view (wd_docs w') 0 = Some d' \<and> (d_status d' = StatusArchived \<or> d_status d' = StatusFailed)) \<and>
      queued_ids (mem_view (wd_docs w')) = {}"
proof -
  let ?m = "mem_view (sample_mem StatusQueued)" and ?w = "sample_world (sample_mem StatusQueued)"
  have "docs_list ?m = [sample_doc 0 StatusQueued]" by (simp add: docs_list_def)
  then have ds: "[sample_doc 0 StatusQueued] = run_query (status_query StatusQueued) (docs_list (mem_view (wd_docs ?w)))"
    by (simp add: run_query_def query_window_eq matches_status_def matches_source_def)
  have "queued_ids (mem_view (wd_docs ?w)) = {0}" by (auto simp: queued_ids_def split: if_splits)
  then have one: "card (queued_ids (mem_view (wd_docs ?w))) \<le> 5 * 1" by simp
  let ?w' = "processQueued sample_program sample_env ?w"
  have "mem_invar (wd_docs ?w') \<and> length [sample_doc 0 StatusQueued] \<le> 5 \<and>
    (\<forall>j d. j \<notin> d_ID ` set [sample_doc 0 StatusQueued] \<longrightarrow> mem_view (wd_docs ?w) j = Some d \<longrightarrow>
       (\<exists>d'. mem_view (wd_docs ?w') j = Some d' \<and> d_status d' = d_status d)) \<and>
    (\<forall>d \<in> set [sample_doc 0 StatusQueued]. \<exists>d'. mem_view (wd_docs ?w') (d_ID d) = Some d' \<and>
       (d_status d' = StatusArchived \<or> d_status d' = StatusFailed)) \<and>
    (card (queued_ids (mem_view (wd_docs ?w))) \<le> 5 * 1 \<longrightarrow>
       queued_ids (mem_view (wd_docs ((processQueued sample_program sample_env ^^ 1) ?w))) = {})"
    by (rule processQueued_settles [OF mem.document_store_axioms _ _ _ sample_program_documents _
          sample_program_factories ds refl]) simp_all
  with one show ?thesis by (simp add: Let_def)
qed







text \<open>
  C12: a restore that comes between the deletion of the objects and the purge loses them.  The purge
  then fails and the document is queued again with all its pages and its progress, while no object
  under its prefix is left.
\<close>

theorem restore_before_purge:
  assumes "document_store S view invar" "ap_documents a = S" "storages_ok contents legal_key a"
    and "ap_storages a (d_StorageBackend d) = Some st" "online E"
    and "invar (wd_docs w)" "view (wd_docs w) (d_ID d) = Some d" "d_status d = StatusDeleted"
    and "valid_time now" "valid_time (e_now E (wd_calls w))"
    and "\<And>s. e_other E (wd_calls w) s = snd (st_Restore S background now (d_ID d) s)"
    and "purge_document a E d w = (b, w')"
  shows "\<not> b \<and> (\<forall>key. prefix (DocumentObjectPrefix (Itoa (d_ID d))) key \<longrightarrow>
        contents (d_StorageBackend d) (wd_objs w' (d_StorageBackend d)) key = None) \<and>
    view (wd_docs w') (d_ID d) = Some (d\<lparr>d_status := StatusQueued, d_UpdatedAt := now\<rparr>)"
  using assms by (rule document_store.restore_race)

theorem restore_before_purge_witness:
  "let d = sample_doc 0 StatusDeleted; r = purge_document (sample_app memory_store) restoring_env d (sample_world (sample_mem StatusDeleted))
   in \<not> fst r \<and> mem_view (wd_docs (snd r)) 0 = Some (d\<lparr>d_status := StatusQueued, d_UpdatedAt := noon\<rparr>)"
proof -
  let ?d = "sample_doc 0 StatusDeleted" and ?w = "sample_world (sample_mem StatusDeleted)"
  obtain b w' where run: "purge_document (sample_app memory_store) restoring_env ?d ?w = (b, w')" by fastforce
  have "\<not> b \<and> (\<forall>key. prefix (DocumentObjectPrefix (Itoa (d_ID ?d))) key \<longrightarrow>
        memory_contents (wd_objs w' (d_StorageBackend ?d)) key = None) \<and>
    mem_view (wd_docs w') (d_ID ?d) = Some (?d\<lparr>d_status := StatusQueued, d_UpdatedAt := noon\<rparr>)"
    by (rule restore_before_purge [OF mem.document_store_axioms _ sample_storages_ok _ _ _ _ _ _ _ _ run])
      (simp_all add: restoring_env_def online_def)
  then show ?thesis by (simp add: run)
qed

section \<open>Sequences of store calls\<close>








section \<open>Transactions\<close>



section \<open>The request scheduler\<close>

text \<open>
  C17: in every reachable state of a scheduler with any number of goroutines in \<open>Do\<close>, the number of
  tasks that run with a permit is the number of tokens in the semaphore and never exceeds its
  capacity, the adaptive limit stays between one and the capacity, the back-off stays between zero and
  thirty seconds, and every attempt number is one of the five \<open>Do\<close> makes.
\<close>

theorem scheduler_invariant:
  assumes "sched_reachable (sched_start now initial maximum n) y"
  shows "running (sy_tasks y) = cs_sem (sy_sched y) \<and> cs_sem (sy_sched y) \<le> max 1 maximum \<and>
    1 \<le> cs_limit (sy_sched y) \<and> cs_limit (sy_sched y) \<le> max 1 maximum \<and>
    0 \<le> cs_backoff (sy_sched y) \<and> cs_backoff (sy_sched y) \<le> 30 * second_ns \<and>
    (\<forall>t \<in> set (sy_tasks y). \<forall>k. attempt_of t = Some k \<longrightarrow> 1 \<le> k \<and> k \<le> 5)"
  using system_ok_reachable [OF assms system_ok_start] 
  by (auto simp: system_ok_def sched_ok_def sched_params_def sched_start_def NewConcurrencyScheduler_def
      Let_def defaultSchedulerMaxBackoff_def defaultSchedulerMaxTaskAttempts_def list_all_iff task_ok_def max_def)

theorem scheduler_invariant_witness:
  "running (sy_tasks (sched_start 0 4 8 3)) = cs_sem (sy_sched (sched_start 0 4 8 3))"
  using scheduler_invariant [OF sched_reachable.start, of 0 4 8 3] by blast

text \<open>
  C18: no wake-up is lost.  In every reachable state in which some call of \<open>Do\<close> has not returned,
  some task can move: it is about to take the mutex, runs its request, or waits on a timer or on a
  channel that has been closed since.
\<close>

theorem scheduler_no_lost_wakeup:
  assumes "sched_reachable (sched_start now initial maximum n) y"
    and "t \<in> set (sy_tasks y)" "\<forall>e. t \<noteq> Returned e"
  shows "\<exists>t' \<in> set (sy_tasks y). can_move (sy_sched y) t'"
  using system_can_move [OF _ assms(2,3)] system_ok_reachable [OF assms(1) system_ok_start] by blast

theorem scheduler_no_lost_wakeup_witness:
  "\<exists>t' \<in> set (sy_tasks (sched_start 0 1 1 2)). can_move (sy_sched (sched_start 0 1 1 2)) t'"
  using scheduler_no_lost_wakeup [OF sched_reachable.start, of "Acquiring 1" 0 1 1 2]
  by (simp add: sched_start_def)

text \<open>
  C19: requests that were in flight together and all hit the rate limit count once: however many of
  them finish, the limit is halved once, the generation grows by one, and the back-off is the one
  the first of them set, while every one of them gives its token back.
\<close>

theorem rate_limit_counts_once:
  assumes "fs \<noteq> []" "\<forall>(p, e) \<in> set fs. errors_Is e ErrRateLimited \<and> sp_generation p = cs_generation s"
  shows "cs_generation (finish_all now fs s) = cs_generation s + 1 \<and>
    cs_limit (finish_all now fs s) = max 1 (cs_limit s div 2) \<and>
    cs_sem (finish_all now fs s) = cs_sem s - int (length fs) \<and>
    cs_backoff (finish_all now fs s) = cs_backoff (finish_all now [hd fs] s)"
  using assms by (rule finish_all_once)

theorem rate_limit_counts_once_witness:
  "cs_limit (finish_all 0 (replicate 3 (\<lparr>sp_generation = 0\<rparr>, ErrRateLimited)) (NewConcurrencyScheduler 8 8)) = 4"
  using rate_limit_counts_once [of "replicate 3 (\<lparr>sp_generation = 0\<rparr>, ErrRateLimited)" "NewConcurrencyScheduler 8 8" 0]
  by (simp add: NewConcurrencyScheduler_def Let_def)



section \<open>Object keys and objects\<close>

text \<open>
  C21: the objects of two documents never meet, and no two pages of a document share one.  Every key of
  a page or of the manifest of document \<open>i\<close> starts with the prefix of \<open>i\<close>; no key starts with the
  prefixes of two documents, so deleting the prefix of one document leaves the objects of all others
  alone; a page key is never a manifest key; and two page keys are equal only for the same document,
  the same trimmed hash and the same file extension.
\<close>

theorem document_keys_disjoint:
  "(\<forall>hash ct key. PageObjectKey (Itoa i) hash ct = Inr key \<longrightarrow>
      prefix (DocumentObjectPrefix (Itoa i)) key \<and> (\<forall>k. key \<noteq> ManifestObjectKey (Itoa k)) \<and>
      (\<forall>j hash' ct'. PageObjectKey (Itoa j) hash' ct' = Inr key \<longrightarrow>
        TrimSpace hash' = TrimSpace hash \<and> contentTypeExt ct' = contentTypeExt ct)) \<and>
   prefix (DocumentObjectPrefix (Itoa i)) (ManifestObjectKey (Itoa i)) \<and>
   (\<forall>j key. prefix (DocumentObjectPrefix (Itoa i)) key \<and> prefix (DocumentObjectPrefix (Itoa j)) key \<longrightarrow> i = j)"
  (is "?pages \<and> ?manifest \<and> ?disjoint")
proof (intro conjI)
  show ?pages
  proof (intro allI impI conjI)
    fix hash ct key assume page: "PageObjectKey (Itoa i) hash ct = Inr key"
    then show "prefix (DocumentObjectPrefix (Itoa i)) key" by (rule PageObjectKey_prefix)
    from page have key: "key = page_key i (TrimSpace hash) ct" by (simp add: PageObjectKey_Itoa)
    then show "key \<noteq> ManifestObjectKey (Itoa k)" for k by (simp only: page_key_not_manifest not_False_eq_True)
    fix j hash' ct' assume "PageObjectKey (Itoa j) hash' ct' = Inr key"
    then have "page_key j (TrimSpace hash') ct' = page_key i (TrimSpace hash) ct"
      using key by (simp add: PageObjectKey_Itoa)
    from page_key_inject [OF this]
    show "TrimSpace hash' = TrimSpace hash" "contentTypeExt ct' = contentTypeExt ct" by blast+
  qed
  show ?manifest by (rule ManifestObjectKey_prefix)
  show ?disjoint using doc_prefix_disjoint by blast
qed

theorem document_keys_disjoint_witness:
  "PageObjectKey (Itoa 7) ''abc'' ''image/png'' = Inr (page_key 7 ''abc'' ''image/png'') \<and>
   prefix (DocumentObjectPrefix (Itoa 7)) (page_key 7 ''abc'' ''image/png'') \<and>
   \<not> prefix (DocumentObjectPrefix (Itoa 77)) (page_key 7 ''abc'' ''image/png'') \<and>
   page_key 7 ''abc'' ''image/png'' \<noteq> ManifestObjectKey (Itoa 7)"
proof -
  have key: "PageObjectKey (Itoa 7) ''abc'' ''image/png'' = Inr (page_key 7 ''abc'' ''image/png'')"
    by (simp add: PageObjectKey_Itoa TrimSpace_printable hash_ok_def)
  with document_keys_disjoint [of 7] show ?thesis by fastforce
qed

text \<open>
  C22: both object storages keep the contracts that the archive relies on: the memory storage always,
  \<open>S3Store\<close> whenever the service behind the SDK keeps its documented laws.  A put object is read back,
  other keys are left alone, a head tells whether the key is there, deleting a prefix removes exactly
  the keys with it and answers \<^verbatim>\<open>ErrObjectNotFound\<close> only when none is left; a put never removes an
  object; and the hash given with a put is the entity tag of the object from then on.
\<close>

theorem object_stores_contract:
  assumes "s3_laws (sdk (ss_client st)) (ss_bucket st) stored"
  shows "complete_object_store (memory_objects name now) memory_contents (\<lambda>key. key \<noteq> '''') \<and>
    growing_object_store (memory_objects name now) memory_contents (\<lambda>key. key \<noteq> '''') \<and>
    tagging_object_store (memory_objects name now) memory_contents (\<lambda>key. key \<noteq> '''') memory_tag \<and>
    complete_object_store (s3_store sdk st) (s3_contents stored) s3_legal_key \<and>
    growing_object_store (s3_store sdk st) (s3_contents stored) s3_legal_key \<and>
    tagging_object_store (s3_store sdk st) (s3_contents stored) s3_legal_key (s3_tag stored)"
  using assms s3_complete s3_growing s3_tagging memobj.complete_object_store_axioms
    memobj.growing_object_store_axioms memobj_tags.tagging_object_store_axioms by blast

theorem object_stores_contract_witness:
  "complete_object_store (s3_store (\<lambda>options. sample_s3) sample_s3_store) (s3_contents bucket_stored) s3_legal_key \<and>
   NewS3Store ''remote'' sample_s3_config = Inr sample_s3_store"
proof -
  have "NewS3Store ''remote'' sample_s3_config = Inr sample_s3_store"
    by (simp add: sample_s3_store_def NewS3Store_def sample_s3_config_def Let_def)
  moreover have "s3_laws ((\<lambda>options. sample_s3) (ss_client sample_s3_store)) (ss_bucket sample_s3_store) bucket_stored"
    by (rule sample_s3_laws)
  from object_stores_contract [where sdk = "\<lambda>options. sample_s3", OF this]
  have "complete_object_store (s3_store (\<lambda>options. sample_s3) sample_s3_store) (s3_contents bucket_stored) s3_legal_key"
    by blast
  ultimately show ?thesis by blast
qed

text \<open>
  C23: a service that answers the deletion of a missing key with \<^verbatim>\<open>NotFound\<close>, as some services do, breaks
  \<open>DeletePrefix\<close>: when the first listed key is gone already it stops with \<^verbatim>\<open>ErrObjectNotFound\<close>, which the
  purge of a document takes for success, and every other object with the prefix is still there.
\<close>

theorem s3_delete_stops_early:
  assumes "live ctx" "s3_legal_key prfx"
    and "collect_keys (s3_ListPages cl ctx (ss_bucket st) prfx s) [] = Inr (key # keys)" "key \<noteq> ''''"
    and "s3_DeleteObject cl ctx (ss_bucket st) key s = (Inl err, s)" "not_found err"
  shows "\<exists>e. S3Store_DeletePrefix cl st ctx prfx s = (Inl e, s) \<and> errors_Is e ErrObjectNotFound"
  using s3_delete_stops [OF assms] .

theorem s3_delete_stops_early_witness:
  "\<exists>e. S3Store_DeletePrefix stale_s3 sample_s3_store background ''documents/1/''
      [(''documents/1/a'', (undefined, ''abc''))] = (Inl e, [(''documents/1/a'', (undefined, ''abc''))]) \<and>
    errors_Is e ErrObjectNotFound"
  by (rule s3_delete_stops_early [where key = "''documents/1/gone''" and keys = "[''documents/1/a'']" and
        err = "NoSuchKey ''documents/1/gone''"])
    (simp_all add: background_def live_def s3_legal_key_def stale_s3_def bucket_stored_def not_found_def
      normalizeS3Error_def TrimSpace_printable)

section \<open>Times\<close>

text \<open>
  C24: a time written to the database is read back as it was, to the nanosecond, and the order
  \<^verbatim>\<open>ORDER BY created_at\<close> of the database, which compares texts, is the order of the times when they fall
  into different seconds; but inside one second it can be the reverse of it, because the texts drop the
  trailing zeros of the fraction.
\<close>

theorem stored_times:
  "(\<forall>t. valid_time t \<longrightarrow> parseTime (formatTime t) = Some t) \<and>
   (\<forall>s t. valid_time s \<and> valid_time t \<and> second_tuple s \<noteq> second_tuple t \<longrightarrow>
      (formatTime s < formatTime t \<longleftrightarrow> compareTime s t < 0)) \<and>
   (\<exists>s t. valid_time s \<and> valid_time t \<and> compareTime s t < 0 \<and> formatTime t < formatTime s)"
proof (intro conjI allI impI; (elim conjE)?)
  fix s t assume "valid_time s" "valid_time t" "second_tuple s \<noteq> second_tuple t"
  then show "formatTime s < formatTime t \<longleftrightarrow> compareTime s t < 0"
    by (simp add: formatTime_less_seconds compareTime_def)
next
  show "\<exists>s t. valid_time s \<and> valid_time t \<and> compareTime s t < 0 \<and> formatTime t < formatTime s"
    using valid_noon noon_texts_reversed by blast
qed (rule parseTime_formatTime)

theorem stored_times_witness:
  "parseTime (formatTime noon) = Some noon \<and> formatTime noon < formatTime (UTC 2024 5 17 12 0 1 0)"
proof -
  let ?t = "UTC 2024 5 17 12 0 1 0"
  have "valid_time ?t" "second_tuple noon \<noteq> second_tuple ?t" "compareTime noon ?t < 0"
    by (simp_all add: valid_time_def days_in_def second_tuple_def noon_def compareTime_def
        less_utc_time_def time_tuple_def)
  with stored_times valid_noon show ?thesis by blast
qed

section \<open>The hitomi source\<close>





text \<open>
  C27: \<open>ArchiveContent\<close> ends, with a result that accounts for every page.  From any host, any network and any
  schedule of the goroutines, every goroutine is done after at most five attempts of five calls, and each
  result is received exactly once.  Without an error the pages returned are the results of the goroutines;
  otherwise the error is that of one of them, and the pages are those of the ones that succeeded.
\<close>

theorem hitomi_run_ends:
  "all_received (length pages) (content_end host objects net i pages w) \<and>
   (case content_result (content_end host objects net i pages w) of
      (ps, None) \<Rightarrow> length ps = length pages \<and>
        cr_tasks (content_end host objects net i pages w) = map (\<lambda>page. TaskDone (Inr page)) ps
    | (ps, Some e) \<Rightarrow> TaskDone (Inl e) \<in> set (cr_tasks (content_end host objects net i pages w)) \<and>
        ps = concat (map (\<lambda>t. case t of TaskDone (Inr page) \<Rightarrow> [page] | _ \<Rightarrow> [])
          (cr_tasks (content_end host objects net i pages w))))"
  by (rule conjI [OF content_end_received content_result_all])

text \<open>
  C28: what \<open>DownloadPage\<close> has written when it succeeds: the complete body of one answer, but after the
  parts of the bodies of earlier attempts that broke off.  Only when no body breaks off is the content
  the body itself.
\<close>

theorem download_page_content:
  assumes "Resolver_DownloadPage cl ctx now page [] = (Inr (), content)"
  shows "(\<exists>k < 5. \<exists>body. answered cl (page_request page) body k \<and>
      content = concat (map (broken_off cl ctx (page_request page)) [0..<k]) @ body) \<and>
    ((\<forall>k resp. hc_Do cl k (page_request page) = Inr resp \<longrightarrow> rs_ReadError resp = None) \<longrightarrow>
      (\<exists>k < 5. answered cl (page_request page) content k))"
  using DownloadPage_ok [OF assms] DownloadPage_exact [OF assms] by auto

theorem download_page_content_witness:
  "\<exists>k < 5. \<exists>body. answered broken_client (page_request sample_download) body k \<and>
     ''ababc'' = concat (map (broken_off broken_client background (page_request sample_download)) [0..<k]) @ body"
  using download_page_content [OF broken_download] by blast

text \<open>
  C29: the wait a server asks for in seconds is taken as it is, in nanoseconds, exactly up to 9223372036
  seconds; a larger number wraps around.  The result always fits into 64 bits.
\<close>

theorem retry_after_bounds:
  assumes "Atoi (TrimSpace value) = Some seconds" "0 < seconds"
  shows "in_int64 (parseRetryAfter value now) \<and>
    (parseRetryAfter value now = seconds * 1000000000 \<longleftrightarrow> seconds \<le> 9223372036)"
proof -
  have "TrimSpace value \<noteq> ''''" using assms(1) by (auto simp: Atoi_def parse_nat_def)
  then have "parseRetryAfter value now = wrap64 (seconds * 1000000000)"
    using assms by (simp add: parseRetryAfter_def)
  moreover have "in_int64 (seconds * 1000000000) \<longleftrightarrow> seconds \<le> 9223372036"
    using assms(2) by (auto simp: in_int64_def int64_min_def int64_max_def)
  ultimately show ?thesis using wrap64_id wrap64_range by metis
qed

theorem retry_after_bounds_witness:
  "parseRetryAfter ''9223372037'' 0 \<noteq> 9223372037000000000"
proof -
  have "TrimSpace ''9223372037'' = ''9223372037''" by (simp add: TrimSpace_printable)
  moreover have "Atoi ''9223372037'' = Some 9223372037" using Atoi_Itoa [of 9223372037] sample_seconds
    by (simp add: in_int64_def int64_min_def int64_max_def)
  ultimately show ?thesis using retry_after_bounds [of "''9223372037''" 9223372037 0] by simp
qed

section \<open>The jmcomic source\<close>





text \<open>
  C32: what a resolved jmcomic document keeps as its metadata is the text of the album, while its pages
  are those of the photo.  \<open>ArchiveContent\<close> reads the images from the metadata, so it archives the images the
  album names: none when the album names none, whatever the photo has.
\<close>

theorem jm_resolved_metadata:
  assumes "Jm_ResolveDocument host net document w = (Inr (d, ps), w')"
  shows "\<exists>album photo. GetAlbum (jn_client net) (fst (jn_album net)) (snd (jn_album net)) (d_SourceDocumentID document) = Inr album \<and>
    GetPhoto (jn_client net) (fst (jn_photo net)) (snd (jn_photo net)) (fst (jn_scramble net)) (snd (jn_scramble net))
      (al_ID album) = Inr photo \<and>
    d_SourceMeta d = al_Raw album \<and> ps = Some (d_Pages d) \<and> d_Pages d = jm_pages (resolvePages photo) \<and>
    (\<forall>kept host' net' d' w1 qs w2. Photo_UnmarshalJSON (al_Raw album) = Some kept \<and> ph_Images kept = [] \<and>
       d_SourceMeta d' = d_SourceMeta d \<and> Jm_ArchiveContent host' net' d' w1 = ((qs, None), w2) \<longrightarrow>
       qs = [] \<and> w2 = (w1 :: 'v))"
proof -
  have empty: "qs = [] \<and> w2 = w1"
    if "Photo_UnmarshalJSON meta = Some kept" "ph_Images kept = []" "d_SourceMeta d' = meta"
      "Jm_ArchiveContent host' net' d' w1 = ((qs, None), w2)"
    for meta kept and host' :: "'v source_host" and net' :: "'r jm_net" and d' w1 qs w2
    using that
    by (auto simp: Jm_ArchiveContent_def Let_def resolvePages_def split: option.splits sum.splits if_splits)
  from assms show ?thesis
    by (auto simp: Jm_ResolveDocument_def Let_def dest: empty split: option.splits sum.splits if_splits)
qed

theorem jm_resolved_metadata_witness:
  "\<exists>d. Jm_ResolveDocument gallery_host test_net photo_doc (sample_world photo_mem)
      = (Inr (d, Some (d_Pages d)), sample_world photo_mem) \<and>
    length (d_Pages d) = 2 \<and> d_SourceMeta d = test_album"
proof -
  have "ho_ctx gallery_host (sample_world photo_mem) 0 = None" by (simp add: background_def)
  note run = test_resolved [OF this, of photo_doc]
  from jm_resolved_metadata [OF run] run show ?thesis
    by (auto simp: jm_pages_def resolvePages_def the_photo_def zero_Document_def)
qed


text \<open>
  C34: the two sources of the program honour what the archive flow asks of a source: whatever the
  network answers and however their goroutines interleave, no action of their handlers changes the status
  of a document or breaks the invariant of the store.  So an application with these factories settles its
  documents.
\<close>

theorem sources_keep_contract:
  assumes "document_store S view invar" "env_ok invar E" "ap_documents a = S"
    and "\<And>src factory. ap_sourceFactories a src = Some factory \<Longrightarrow>
      (\<exists>net. factory = Hitomi_NewFactory net) \<or> (\<exists>net. factory = Jm_NewFactory net)"
  shows "factories_ok invar view E a"
  using document_store.program_factories_ok [OF assms] .

theorem sources_keep_contract_witness:
  "factories_ok mem_invar mem_view sample_env sample_program"
  by (rule sources_keep_contract [OF mem.document_store_axioms _ sample_program_documents sample_program_factories])
    simp_all

section \<open>Configuration and start\<close>

text \<open>
  C35: \<open>readConfig\<close> accepts exactly the files that decode, name every required field and are well-formed
  once names, types and the document store are normalised: a default storage that is configured,
  distinct storage names without white space around them, a known type for each storage, an S3 section
  for the S3 storages and only for them, and no negative interval.  What it returns is that normalised
  configuration; and every one of the nine top-level keys was in the file.
\<close>

theorem config_read:
  "(readConfig Y ops path f = Inr cfg \<longleftrightarrow>
     (\<exists>data raw. fo_ReadFile ops path f = Inr data \<and> ym_Decode Y True zero_Config data = Inr raw \<and>
       requireConfigFields Y data = None \<and> cfg = normalize_config raw \<and> config_ok cfg)) \<and>
   (requireConfigFields Y data = None \<longrightarrow>
     (\<exists>node rest. ym_Content Y data = Inr (node # rest) \<and> yn_Kind node = MappingNode \<and>
       list_all (\<lambda>key. node_values node key \<noteq> None) required_keys))"
  using readConfig_iff requireConfigFields_None by (fastforce simp: list_all_iff)

theorem config_read_witness:
  "readConfig (sample_yaml memory_config) sample_files configFileName [configFileName \<mapsto> ''config''] = Inr memory_config \<and>
   list_all (\<lambda>key. node_values (config_node (\<lambda>_. '''') (mapping_node []) (mapping_node []) memory_config) key \<noteq> None) required_keys"
proof -
  let ?f = "[configFileName \<mapsto> ''config'']"
  have read: "fo_ReadFile sample_files configFileName ?f = Inr ''config''" by (simp add: sample_files_def)
  have dec: "ym_Decode (sample_yaml memory_config) True zero_Config ''config'' = Inr memory_config"
    "ym_Content (sample_yaml memory_config) ''config'' = Inr [(config_node (\<lambda>_. '''') (mapping_node []) (mapping_node []) memory_config)]"
    by (simp_all add: sample_yaml_def)
  have fields: "requireConfigFields (sample_yaml memory_config) ''config'' = None"
    by (simp add: requireConfigFields_def dec config_node_fields)
  have "list_all (\<lambda>key. node_values (config_node (\<lambda>_. '''') (mapping_node []) (mapping_node []) memory_config) key \<noteq> None) required_keys"
    using config_read [THEN conjunct2, THEN mp, OF fields] dec(2) by auto
  moreover have "readConfig (sample_yaml memory_config) sample_files configFileName ?f = Inr memory_config"
    using config_read [THEN conjunct1] read dec(1) fields memory_config_ok by metis
  ultimately show ?thesis by blast
qed

text \<open>
  C36: the server reads what the program writes, when the YAML library and the file system read what they wrote.
  At the first start, without a configuration file, \<open>Load\<close> writes the default configuration and returns it, and so
  does the next start.  A file of the merge tool holds the default configuration with what its input
  says on top, and misses no field: the server accepts it exactly when the storages and the interval in it are
  well-formed, and reads the configuration that was merged.
\<close>

theorem written_config_read:
  assumes "yaml_roundtrips Y" "files_roundtrip ops"
  shows "(fo_ReadFile ops configFileName f = Inl e \<and> errors_Is e os_ErrNotExist \<and>
      ym_Marshal Y defaultConfig = Inr data \<and> fo_WriteFile ops configFileName data 384 f = (None, f') \<longrightarrow>
      Load Y ops f = (Inr defaultConfig, f') \<and> Load Y ops f' = (Inr defaultConfig, f')) \<and>
    (config_merge_main Y ops stdin stdout inputPath outputPath (out, f) = (None, out', f') \<and> outputPath \<noteq> ''-'' \<longrightarrow>
      (\<exists>input cfg. readInput ops stdin inputPath f = Inr input \<and>
         (ym_Decode Y True Default input = Inr cfg \<or> ym_Decode Y True Default input = Inl YamlEOF \<and> cfg = Default) \<and>
         (is_ok (readConfig Y ops outputPath f') \<longleftrightarrow> config_ok (normalize_config cfg)) \<and>
         (\<forall>c. readConfig Y ops outputPath f' = Inr c \<longrightarrow> (\<exists>cfg'. same_config cfg cfg' \<and> c = normalize_config cfg'))))"
proof (intro conjI impI)
  assume merge: "config_merge_main Y ops stdin stdout inputPath outputPath (out, f) = (None, out', f') \<and> outputPath \<noteq> ''-''"
  show "\<exists>input cfg. readInput ops stdin inputPath f = Inr input \<and>
      (ym_Decode Y True Default input = Inr cfg \<or> ym_Decode Y True Default input = Inl YamlEOF \<and> cfg = Default) \<and>
      (is_ok (readConfig Y ops outputPath f') \<longleftrightarrow> config_ok (normalize_config cfg)) \<and>
      (\<forall>c. readConfig Y ops outputPath f' = Inr c \<longrightarrow> (\<exists>cfg'. same_config cfg cfg' \<and> c = normalize_config cfg'))"
  proof -
    obtain input cfg data where cfg: "readInput ops stdin inputPath f = Inr input"
        "ym_Decode Y True Default input = Inr cfg \<or> ym_Decode Y True Default input = Inl YamlEOF \<and> cfg = Default"
      and data: "ym_Marshal Y cfg = Inr data" "fo_ReadFile ops outputPath f' = Inr data"
      using merged_config [OF conjunct1 [OF merge] conjunct2 [OF merge] assms(2)] by blast
    from cfg written_config [OF assms(1) data] show ?thesis by blast
  qed
next
  assume first: "fo_ReadFile ops configFileName f = Inl e \<and> errors_Is e os_ErrNotExist \<and>
      ym_Marshal Y defaultConfig = Inr data \<and> fo_WriteFile ops configFileName data 384 f = (None, f')"
  then have "fo_ReadFile ops configFileName f' = Inr data" using assms(2) unfolding files_roundtrip_def by blast
  with first have reads: "readConfig Y ops configFileName f' = Inr defaultConfig"
    by (intro default_config_read [OF assms(1)]) simp_all
  then show "Load Y ops f = (Inr defaultConfig, f')" "Load Y ops f' = (Inr defaultConfig, f')"
    using first by (simp_all add: Load_def load_def readConfig_def [of _ _ _ f] writeDefaultConfig_def)
qed

theorem written_config_read_witness:
  "Load (sample_yaml defaultConfig) sample_files Map.empty = (Inr defaultConfig, [configFileName \<mapsto> ''config'']) \<and>
   is_ok (readConfig (sample_yaml defaultConfig) sample_files ''out.yml''
     (snd (snd (config_merge_main (sample_yaml defaultConfig) sample_files (Inr ''config'') (\<lambda>_. None) ''-'' ''out.yml'' (''log'', Map.empty)))))"
proof -
  let ?Y = "sample_yaml defaultConfig"
  note read = written_config_read [OF sample_yaml_roundtrips sample_files_roundtrip]
  have "config_merge_main ?Y sample_files (Inr ''config'') (\<lambda>_. None) ''-'' ''out.yml'' (''log'', Map.empty) =
      (None, ''log'', [''out.yml'' \<mapsto> ''config''])"
    by (simp add: config_merge_main_def readInput_def mergeConfig_def writeOutput_def sample_yaml_def sample_files_def)
  moreover from read [THEN conjunct2, rule_format, of defaultConfig "Inr ''config''" "\<lambda>_. None" "''-''" "''out.yml''" "''log''" Map.empty "''log''"
      "[''out.yml'' \<mapsto> ''config'']"] this
  have "is_ok (readConfig ?Y sample_files ''out.yml'' [''out.yml'' \<mapsto> ''config''])"
    using default_config_ok by (auto simp: readInput_def sample_yaml_def)
  ultimately show ?thesis
    using read [THEN conjunct1, of Map.empty "ErrWrap ''open: '' os_ErrNotExist ''''" defaultConfig "''config''" "[configFileName \<mapsto> ''config'']"]
    by (simp add: sample_files_def sample_yaml_def os_ErrNotExist_def)
qed



section \<open>The HTTP API\<close>

text \<open>
  C38: no request has an effect, or reads a document, without the permission that its method and path ask
  for, when roles are configured: otherwise the state of the program is untouched; and a request
  to a route of the API without its permission is answered 401 or 403.
\<close>

theorem http_authorised:
  assumes "serve cfg a E r w = (wr, w')"
  shows "(w' \<noteq> w \<longrightarrow>
      (\<exists>p. required_permission (aq_Method r) (path_segments (aq_Path r)) = Some p \<and> may cfg p r)) \<and>
    (cleanPath (aq_Path r) = aq_Path r \<and>
     find_route (routes cfg a E) (aq_Method r) (path_segments (aq_Path r)) = Some (vs, handler) \<and>
     required_permission (aq_Method r) (path_segments (aq_Path r)) = Some p \<and> \<not> may cfg p r \<longrightarrow>
      w' = w \<and> wr_Status wr \<in> {Some 401, Some 403})"
  using serve_authorised [OF assms] serve_refused [OF _ _ _ _ assms] by blast

theorem http_authorised_witness:
  "snd (serve reader_config (sample_app memory_store) sample_env (sample_request ''DELETE'' 1) (sample_world (sample_mem StatusQueued)))
     = sample_world (sample_mem StatusQueued)"
proof -
  let ?r = "sample_request ''DELETE'' 1" and ?w = "sample_world (sample_mem StatusQueued)"
  have "\<not> may reader_config ''document:delete'' ?r" by (simp add: reader_may)
  moreover have "required_permission (aq_Method ?r) (path_segments (aq_Path ?r)) = Some ''document:delete''"
    by (simp add: sample_request_def path_segments_document required_permission_def)
  ultimately show ?thesis
    using http_authorised [OF surjective_pairing, of reader_config "sample_app memory_store" sample_env ?r ?w]
    by auto
qed





end
